(* ===== verification/Prelude.thy ===== *)
theory Prelude
  imports Main "HOL-Library.Word" "HOL-Library.Monad_Syntax"
begin

text \<open>
  Shared material of the development: the machine types of the C++ sources, byte strings and
  the order \<open>memcmp\<close> gives them, big-endian values, and the generic word and list lemmas
  that the component theories use through the collections \<open>byte_simps\<close> and
  \<open>be_simps\<close>.
\<close>

unbundle bit_operations_syntax

named_theorems byte_simps
named_theorems be_simps

type_synonym u8 = "8 word"
type_synonym u16 = "16 word"
type_synonym u32 = "32 word"
type_synonym u64 = "64 word"
type_synonym bytes = "u8 list"

subsection \<open>Bytes of a word\<close>

lemma and_255: "(x :: 'a::len word) AND 255 = take_bit 8 x"
proof -
  have "(255 :: 'a word) = mask 8" by (simp add: mask_numeral)
  then show ?thesis by (simp add: take_bit_eq_mask)
qed

lemma and_15: "(x :: 'a::len word) AND 15 = take_bit 4 x"
proof -
  have "(15 :: 'a word) = mask 4" by (simp add: mask_numeral)
  then show ?thesis by (simp add: take_bit_eq_mask)
qed

lemma and_4095: "(x :: 'a::len word) AND 0xfff = take_bit 12 x"
proof -
  have "(0xfff :: 'a word) = mask 12" by (simp add: mask_numeral)
  then show ?thesis by (simp add: take_bit_eq_mask)
qed

lemma and_63: "(x :: 'a::len word) AND 0x3f = take_bit 6 x"
proof -
  have "(0x3f :: 'a word) = mask 6" by (simp add: mask_numeral)
  then show ?thesis by (simp add: take_bit_eq_mask)
qed

subsection \<open>The order of \<open>memcmp\<close>\<close>

text \<open>
  The strict order in which the database compares keys: byte by byte as unsigned values, a
  proper prefix before its extensions.
\<close>

fun memcmp_less :: "bytes \<Rightarrow> bytes \<Rightarrow> bool" where
  "memcmp_less xs [] = False"
| "memcmp_less [] (y # ys) = True"
| "memcmp_less (x # xs) (y # ys) = (x < y \<or> (x = y \<and> memcmp_less xs ys))"

lemma memcmp_irrefl [simp]: "\<not> memcmp_less xs xs"
  by (induction xs) auto

lemma memcmp_append_same [simp]: "memcmp_less (zs @ xs) (zs @ ys) = memcmp_less xs ys"
  by (induction zs) auto

lemma memcmp_append:
  "length xs = length ys \<Longrightarrow>
    memcmp_less (xs @ as) (ys @ bs) = (memcmp_less xs ys \<or> (xs = ys \<and> memcmp_less as bs))"
  by (induction xs ys rule: list_induct2) auto

lemma memcmp_trans: "memcmp_less xs ys \<Longrightarrow> memcmp_less ys zs \<Longrightarrow> memcmp_less xs zs"
proof (induction xs zs arbitrary: ys rule: memcmp_less.induct)
  case (1 xs)
  then show ?case by (cases ys) auto
next
  case (2 y zs)
  then show ?case by simp
next
  case (3 x xs z zs)
  then show ?case by (cases ys) auto
qed

lemma memcmp_linear: "xs \<noteq> ys \<Longrightarrow> memcmp_less xs ys \<or> memcmp_less ys xs"
  by (induction xs ys rule: memcmp_less.induct) (auto simp: neq_Nil_conv)

subsection \<open>Big-endian values\<close>

primrec be_val :: "bytes \<Rightarrow> nat" where
  "be_val [] = 0"
| "be_val (b # bs) = unat b * 256 ^ length bs + be_val bs"

lemma unat_u8_bound [simp]: "unat (b :: u8) < 256"
  using unsigned_less [of b] by simp

lemma be_val_bound: "be_val bs < 256 ^ length bs"
proof (induction bs)
  case Nil
  then show ?case by simp
next
  case (Cons b bs)
  have "unat b * 256 ^ length bs + be_val bs < unat b * 256 ^ length bs + 256 ^ length bs"
    using Cons by simp
  also have "\<dots> = (unat b + 1) * 256 ^ length bs" by (simp add: algebra_simps)
  also have "\<dots> \<le> 256 * 256 ^ length bs"
    using unat_u8_bound [of b] by (intro mult_le_mono1) linarith
  finally show ?case by simp
qed

lemma digit_less_iff:
  fixes a b m n B :: nat
  assumes "m < B" "n < B"
  shows "a * B + m < b * B + n \<longleftrightarrow> a < b \<or> (a = b \<and> m < n)"
proof -
  have less: "c * B + k < d * B" if "c < d" "k < B" for c d k
  proof -
    have "c * B + k < (c + 1) * B" using that by simp
    also have "\<dots> \<le> d * B" using that by (intro mult_le_mono1) simp
    finally show ?thesis .
  qed
  consider "a < b" | "a = b" | "b < a" by linarith
  then show ?thesis
  proof cases
    case 1
    with less [OF 1 assms(1)] show ?thesis by simp
  next
    case 2
    then show ?thesis by simp
  next
    case 3
    with less [OF 3 assms(2)] show ?thesis by simp
  qed
qed

lemma memcmp_be_val [be_simps]:
  "length xs = length ys \<Longrightarrow> memcmp_less xs ys \<longleftrightarrow> be_val xs < be_val ys"
proof (induction xs ys rule: list_induct2)
  case Nil
  then show ?case by simp
next
  case (Cons x xs y ys)
  have "be_val xs < 256 ^ length ys" using be_val_bound [of xs] Cons.hyps by simp
  then show ?case
    using Cons.IH Cons.hyps
    by (simp add: digit_less_iff be_val_bound word_less_nat_alt word_unat_eq_iff)
qed

lemma be_val_inj: "length xs = length ys \<Longrightarrow> be_val xs = be_val ys \<Longrightarrow> xs = ys"
  using memcmp_be_val memcmp_linear by (metis less_irrefl)

text \<open>The bytes of a word, most significant first, and the word a byte string stands for.\<close>

primrec be_bytes :: "nat \<Rightarrow> 'a::len word \<Rightarrow> bytes" where
  "be_bytes 0 x = []"
| "be_bytes (Suc n) x = ucast (drop_bit (8 * n) x) # be_bytes n x"

primrec be_word :: "bytes \<Rightarrow> 'a::len word" where
  "be_word [] = 0"
| "be_word (b # bs) = push_bit (8 * length bs) (ucast b) OR be_word bs"

lemma be_bytes_numeral [simp]:
  "be_bytes (numeral k) x = ucast (drop_bit (8 * pred_numeral k) x) # be_bytes (pred_numeral k) x"
  by (simp add: numeral_eq_Suc)

lemma length_be_bytes [simp]: "length (be_bytes n x) = n"
  by (induction n) auto

lemma unat_ucast_drop: "unat (ucast (drop_bit k (x :: 'a::len word)) :: u8) = unat x div 2 ^ k mod 256"
proof -
  have "unat (ucast (drop_bit k x) :: u8) = take_bit 8 (unat (drop_bit k x))"
    by (simp add: unsigned_ucast_eq)
  also have "\<dots> = unat x div 2 ^ k mod 256"
    by (subst unat_drop_bit_eq) (simp add: take_bit_eq_mod drop_bit_eq_div)
  finally show ?thesis .
qed

lemma be_val_be_bytes [be_simps]: "be_val (be_bytes n x) = unat x mod 256 ^ n"
proof (induction n)
  case 0
  then show ?case by simp
next
  case (Suc n)
  have "(2 :: nat) ^ (8 * n) = 256 ^ n" by (simp add: power_mult)
  then have "unat x div 2 ^ (8 * n) mod 256 * 256 ^ n + unat x mod 256 ^ n = unat x mod 256 ^ Suc n"
    using mod_mult2_eq [of "unat x" "256 ^ n" 256] by (simp add: mult.commute)
  with Suc show ?case by (simp add: unat_ucast_drop)
qed

lemma unat_ucast_up:
  assumes "LENGTH('a) \<le> LENGTH('b)"
  shows "unat (ucast (x :: 'a::len word) :: 'b::len word) = unat x"
proof -
  have "unat x < 2 ^ LENGTH('a)" by (rule unsigned_less)
  also have "\<dots> \<le> 2 ^ LENGTH('b)" using assms by (rule power_increasing) simp
  finally show ?thesis by (simp add: unsigned_ucast_eq take_bit_nat_eq_self)
qed

lemma uint_ucast_up:
  "LENGTH('a) \<le> LENGTH('b) \<Longrightarrow> uint (ucast (x :: 'a::len word) :: 'b::len word) = uint x"
  by (simp only: uint_nat unat_ucast_up)

lemma sint_scast_up:
  assumes "LENGTH('a) \<le> LENGTH('b)"
  shows "sint (scast (x :: 'a::len word) :: 'b::len word) = sint x"
proof -
  have "LENGTH('a) - 1 \<le> LENGTH('b) - 1" using assms by simp
  then have "signed_take_bit (LENGTH('b) - 1) (sint x) = sint x"
    by (simp only: sint_uint signed_take_bit_signed_take_bit min.absorb2)
  then show ?thesis by (simp only: signed_scast_eq One_nat_def)
qed

lemma unat_or_push:
  fixes w v :: "'a::len word"
  assumes w: "unat w < 2 ^ k" and v: "unat v * 2 ^ k + unat w < 2 ^ LENGTH('a)"
  shows "unat (push_bit k v OR w) = unat v * 2 ^ k + unat w"
proof -
  have w0: "take_bit k w = w"
    using w by (simp add: word_unat_eq_iff unsigned_take_bit_eq) (simp add: take_bit_eq_mod)
  have "push_bit k v AND take_bit k w = 0"
    by (rule bit_word_eqI) (auto simp: bit_simps)
  then have "push_bit k v OR w = push_bit k v + w"
    by (simp only: w0 disjunctive_add_eq_or)
  moreover have "unat (push_bit k v) = unat v * 2 ^ k"
    using v by (simp only: unsigned_push_bit_eq) (simp add: push_bit_eq_mult take_bit_eq_mod)
  ultimately show ?thesis using v by (simp add: unat_word_ariths)
qed

lemma unat_be_word [be_simps]:
  "8 * length bs \<le> LENGTH('a) \<Longrightarrow> unat (be_word bs :: 'a::len word) = be_val bs"
proof (induction bs)
  case Nil
  then show ?case by simp
next
  case (Cons b bs)
  have p: "(2 :: nat) ^ (8 * length bs) = 256 ^ length bs" by (simp add: power_mult)
  have IH: "unat (be_word bs :: 'a word) = be_val bs" using Cons by simp
  have L: "8 \<le> LENGTH('a)" using Cons.prems by simp
  have "(256 :: nat) ^ length (b # bs) \<le> 2 ^ LENGTH('a)"
    using Cons.prems power_increasing [of "8 * length (b # bs)" "LENGTH('a)" "2 :: nat"]
    by (simp add: power_add power_mult)
  then have le: "be_val (b # bs) < 2 ^ LENGTH('a)"
    using be_val_bound [of "b # bs"] by linarith
  have ub: "unat (ucast b :: 'a word) = unat b" using L by (intro unat_ucast_up) simp
  show ?case
    using unat_or_push [of "be_word bs :: 'a word" "8 * length bs" "ucast b"] IH le be_val_bound [of bs]
    by (simp add: p ub)
qed

lemma be_word_be_bytes:
  "LENGTH('a) = 8 * n \<Longrightarrow> be_word (be_bytes n x) = (x :: 'a::len word)"
proof -
  assume L: "LENGTH('a) = 8 * n"
  then have "unat (be_word (be_bytes n x) :: 'a word) = unat x mod 256 ^ n"
    by (simp add: be_simps)
  also have "\<dots> = unat x"
  proof -
    have "unat x < 2 ^ LENGTH('a)" by (rule unsigned_less)
    then show ?thesis by (simp add: L power_mult)
  qed
  finally show ?thesis by (simp only: word_unat_eq_iff)
qed

lemma be_bytes_be_word:
  "length bs = n \<Longrightarrow> LENGTH('a) = 8 * n \<Longrightarrow> be_bytes n (be_word bs :: 'a::len word) = bs"
  using be_val_bound [of bs] by (intro be_val_inj) (auto simp: be_simps)

text \<open>Shifting and masking, as the sources spell the bytes of a word.\<close>

lemma ucast_shift_mask [byte_simps]:
  "ucast (drop_bit k (x :: 'a::len word) AND 255) = (ucast (drop_bit k x) :: u8)"
  "ucast (x AND 255) = (ucast x :: u8)"
  "ucast (signed_drop_bit k x AND 255) = (ucast (signed_drop_bit k x) :: u8)"
  "k + 8 \<le> LENGTH('a) \<Longrightarrow> ucast (signed_drop_bit k x) = (ucast (drop_bit k x) :: u8)"
  by (rule bit_word_eqI; auto simp: and_255 bit_simps)+

lemma ucast_xor [byte_simps]:
  "(ucast (a XOR b) :: 'b::len word) = ucast (a :: 'a::len word) XOR ucast b"
  by (rule bit_word_eqI) (auto simp: bit_simps)

lemma xor_cancel [byte_simps]: "(a XOR b) XOR b = (a :: 'a::len word)"
  by (simp add: xor.assoc)

lemma u8_wrap [byte_simps]:
  "(32768 :: u8) = 0" "(8388608 :: u8) = 0" "(2147483648 :: u8) = 0" "(549755813888 :: u8) = 0"
  "(140737488355328 :: u8) = 0" "(36028797018963968 :: u8) = 0" "(9223372036854775808 :: u8) = 0"
  by simp_all

subsection \<open>Biased signed values\<close>

text \<open>Flipping the sign bit of a word turns its signed value into an offset unsigned one.\<close>

lemma xor_top_bit:
  "(x :: 'a::len word) XOR push_bit (LENGTH('a) - 1) 1 = x + push_bit (LENGTH('a) - 1) 1"
proof (cases "bit x (LENGTH('a) - 1)")
  case False
  let ?t = "push_bit (LENGTH('a) - 1) 1 :: 'a word"
  have disj: "x AND ?t = 0"
    by (rule bit_word_eqI) (use False in \<open>auto simp: bit_simps\<close>)
  then have "x XOR ?t = x OR ?t" by (simp add: disjunctive_xor_eq_or)
  moreover from disj have "x OR ?t = x + ?t" by (simp add: disjunctive_add_eq_or)
  ultimately show ?thesis by simp
next
  case True
  let ?t = "push_bit (LENGTH('a) - 1) 1 :: 'a word"
  let ?y = "x XOR ?t"
  have "?y OR ?t = x"
    by (rule bit_word_eqI) (use True in \<open>auto simp: bit_simps\<close>)
  moreover have "?y AND ?t = 0"
    by (rule bit_word_eqI) (use True in \<open>auto simp: bit_simps\<close>)
  then have "?y OR ?t = ?y + ?t" by (simp add: disjunctive_add_eq_or)
  moreover have "?t + ?t = 0"
  proof -
    have "?t + ?t = 2 * 2 ^ (LENGTH('a) - 1)" by (simp add: push_bit_eq_mult)
    also have "\<dots> = (2 :: 'a word) ^ LENGTH('a)"
      by (metis One_nat_def Suc_pred len_gt_0 power_Suc)
    finally show ?thesis by simp
  qed
  ultimately have x: "x = ?y + ?t" and t: "?t + ?t = 0" by (auto simp only:)
  have "?y = ?y + (?t + ?t)" by (simp only: t add_0_right)
  also have "\<dots> = (?y + ?t) + ?t" by (simp only: add.assoc)
  also have "\<dots> = x + ?t" by (simp only: x [symmetric])
  finally show ?thesis .
qed

lemma uint_xor_top_bit:
  "uint ((x :: 'a::len word) XOR push_bit (LENGTH('a) - 1) 1) = sint x + 2 ^ (LENGTH('a) - 1)"
proof -
  have "sint x + 2 ^ (LENGTH('a) - 1) = take_bit LENGTH('a) (uint x + 2 ^ (LENGTH('a) - 1))"
    by (simp add: sint_uint signed_take_bit_eq_take_bit_shift)
  moreover have "uint (x + push_bit (LENGTH('a) - 1) 1) =
      take_bit LENGTH('a) (uint x + 2 ^ (LENGTH('a) - 1))"
  proof -
    have "uint (push_bit (LENGTH('a) - 1) 1 :: 'a word) = 2 ^ (LENGTH('a) - 1)"
      by (subst push_bit_of_1, rule uint_2p) (simp add: word_gt_0 exp_eq_zero_iff)
    then show ?thesis by (simp only: uint_word_ariths take_bit_eq_mod)
  qed
  ultimately show ?thesis by (simp only: xor_top_bit)
qed

subsection \<open>Raw buffer access\<close>

text \<open>
  Reading \<open>p[i]\<close> of a buffer: \<open>None\<close> when the address lies outside of it, which is
  undefined behaviour in the sources.
\<close>

lemma bit_small: "unat (w :: 'a::len word) < 2 ^ k \<Longrightarrow> bit w n \<Longrightarrow> n < k"
proof -
  assume "unat w < 2 ^ k" "bit w n"
  then have "take_bit k (unat w) = unat w" by (simp add: take_bit_nat_eq_self)
  then have "take_bit k w = w" by (metis unsigned_take_bit_eq unsigned_word_eqI)
  with \<open>bit w n\<close> show "n < k" by (metis bit_take_bit_iff)
qed

definition byte_at :: "bytes \<Rightarrow> int \<Rightarrow> u8 option" where
  "byte_at ser i = (if 0 \<le> i \<and> i < int (length ser) then Some (ser ! nat i) else None)"

lemma byte_at_append [simp]:
  "0 \<le> k \<Longrightarrow> byte_at (pre @ xs) (int (length pre) + k) = byte_at xs k"
  "byte_at (pre @ xs) (int (length pre)) = byte_at xs 0"
  by (auto simp: byte_at_def nth_append nat_add_distrib)

lemma byte_at_Cons_0 [simp]: "byte_at (x # xs) 0 = Some x"
  by (simp add: byte_at_def)

lemma byte_at_Cons_numeral [simp]:
  "byte_at (x # xs) (numeral k) = byte_at xs (numeral k - 1)"
  "byte_at (x # xs) 1 = byte_at xs 0"
proof -
  have "byte_at (x # xs) i = byte_at xs (i - 1)" if "0 < i" for i
    using that by (auto simp: byte_at_def nth_Cons' nat_diff_distrib)
  from this [of "numeral k"] this [of 1]
  show "byte_at (x # xs) (numeral k) = byte_at xs (numeral k - 1)"
    "byte_at (x # xs) 1 = byte_at xs 0" by (simp_all only: zero_less_numeral zero_less_one diff_self)
qed

lemma buffer_split:
  assumes "0 \<le> offset" "offset + int n \<le> int (length ser)"
  obtains pre bs post where "ser = pre @ bs @ post" "length bs = n" "offset = int (length pre)"
proof
  show "ser = take (nat offset) ser @ take n (drop (nat offset) ser) @ drop n (drop (nat offset) ser)"
    by (simp only: append_take_drop_id)
  show "length (take n (drop (nat offset) ser)) = n" using assms by auto
  show "offset = int (length (take (nat offset) ser))" using assms by auto
qed

end
