(* ===== verification/Codec.thy ===== *)
theory Codec
  imports Prelude
begin

text \<open>
  The key codec of the database layer (\<open>neumodb/encode.h\<close> and \<open>neumodb/decode.h\<close>):
  fields are mapped to byte strings which the database compares with \<open>memcmp\<close>. Signed
  integers are words read with \<open>sint\<close>; the fields of a floating point number are those of
  \<open>ieee754.h\<close>. A decoder takes the variable to fill, the buffer and the offset, and
  returns the variable and the new offset (\<open>-1\<close> when the buffer is too short);
  \<open>None\<close> is a read outside of the buffer, which happens for a negative offset only.
\<close>

subsection \<open>Encoders\<close>

definition encode_ascending_u8 :: "u8 \<Rightarrow> bytes" where
  "encode_ascending_u8 x = [x]"

definition encode_ascending_i8 :: "u8 \<Rightarrow> bytes" where
  "encode_ascending_i8 x = [x XOR 0x80]"

definition encode_ascending_u16 :: "u16 \<Rightarrow> bytes" where
  "encode_ascending_u16 x = [ucast (drop_bit 8 x AND 0xff), ucast (x AND 0xff)]"

definition encode_ascending_i16 :: "u16 \<Rightarrow> bytes" where
  "encode_ascending_i16 x =
     [ucast ((signed_drop_bit 8 x AND 0xff) XOR 0x80), ucast (x AND 0xff)]"

definition encode_ascending_u32 :: "u32 \<Rightarrow> bytes" where
  "encode_ascending_u32 x =
     [ucast (drop_bit 24 x AND 0xff), ucast (drop_bit 16 x AND 0xff),
      ucast (drop_bit 8 x AND 0xff), ucast (x AND 0xff)]"

definition encode_ascending_i32 :: "u32 \<Rightarrow> bytes" where
  "encode_ascending_i32 x =
     [ucast ((signed_drop_bit 24 x AND 0xff) XOR 0x80), ucast (signed_drop_bit 16 x AND 0xff),
      ucast (signed_drop_bit 8 x AND 0xff), ucast (x AND 0xff)]"

definition encode_ascending_u64 :: "u64 \<Rightarrow> bytes" where
  "encode_ascending_u64 x =
     [ucast (drop_bit 56 x AND 0xff), ucast (drop_bit 48 x AND 0xff),
      ucast (drop_bit 40 x AND 0xff), ucast (drop_bit 32 x AND 0xff),
      ucast (drop_bit 24 x AND 0xff), ucast (drop_bit 16 x AND 0xff),
      ucast (drop_bit 8 x AND 0xff), ucast (x AND 0xff)]"

definition encode_ascending_i64 :: "u64 \<Rightarrow> bytes" where
  "encode_ascending_i64 x =
     [ucast ((signed_drop_bit 56 x AND 0xff) XOR 0x80), ucast (signed_drop_bit 48 x AND 0xff),
      ucast (signed_drop_bit 40 x AND 0xff), ucast (signed_drop_bit 32 x AND 0xff),
      ucast (signed_drop_bit 24 x AND 0xff), ucast (signed_drop_bit 16 x AND 0xff),
      ucast (signed_drop_bit 8 x AND 0xff), ucast (x AND 0xff)]"

record ieee754_float =
  negative :: "1 word"
  exponent :: "8 word"
  mantissa :: "23 word"

record ieee754_double =
  dnegative :: "1 word"
  dexponent :: "11 word"
  mantissa0 :: "20 word"
  mantissa1 :: "32 word"

text \<open>The comparison \<open>x < 0\<close>: false for both zeros and for NaN.\<close>

definition float_lt_zero :: "ieee754_float \<Rightarrow> bool" where
  "float_lt_zero y \<longleftrightarrow> negative y = 1 \<and> \<not> (exponent y = 0 \<and> mantissa y = 0) \<and>
     \<not> (exponent y = 0xff \<and> mantissa y \<noteq> 0)"

definition double_lt_zero :: "ieee754_double \<Rightarrow> bool" where
  "double_lt_zero y \<longleftrightarrow> dnegative y = 1 \<and>
     \<not> (dexponent y = 0 \<and> mantissa0 y = 0 \<and> mantissa1 y = 0) \<and>
     \<not> (dexponent y = 0x7ff \<and> (mantissa0 y \<noteq> 0 \<or> mantissa1 y \<noteq> 0))"

definition encode_ascending_float :: "ieee754_float \<Rightarrow> bytes" where
  "encode_ascending_float y =
     (let ex = (if float_lt_zero y then exponent y XOR 0xff else exponent y) in
      [push_bit 7 (ucast (negative y XOR 1)) OR drop_bit 1 ex,
       push_bit 7 (ex AND 1) OR ucast (drop_bit 16 (mantissa y)),
       ucast (drop_bit 8 (mantissa y) AND 0xff),
       ucast (mantissa y AND 0xff)])"

definition encode_ascending_double :: "ieee754_double \<Rightarrow> bytes" where
  "encode_ascending_double y =
     (let ex = (if double_lt_zero y then ucast (dexponent y) XOR 0x7ff else ucast (dexponent y)) :: u16 in
      [push_bit 7 (ucast (dnegative y XOR 1)) OR ucast (drop_bit 4 ex),
       ucast (push_bit 4 ex AND 0xff) OR ucast (drop_bit 16 (mantissa0 y)),
       ucast (drop_bit 8 (mantissa0 y) AND 0xff),
       ucast (mantissa0 y AND 0xff),
       ucast (drop_bit 24 (mantissa1 y)),
       ucast (drop_bit 16 (mantissa1 y) AND 0xff),
       ucast (drop_bit 8 (mantissa1 y) AND 0xff),
       ucast (mantissa1 y AND 0xff)])"

definition encode_ascending_bool :: "bool \<Rightarrow> bytes" where
  "encode_ascending_bool v = encode_ascending_u8 (if v then 1 else 0)"

text \<open>
  The overloads that append to a buffer push the bytes one by one; a string is followed by its
  terminating zero byte, a byte buffer is not.
\<close>

definition encode_ascending_to :: "('a \<Rightarrow> bytes) \<Rightarrow> bytes \<Rightarrow> 'a \<Rightarrow> bytes" where
  "encode_ascending_to enc ser v = foldl (\<lambda>b x. b @ [x]) ser (enc v)"

definition encode_ascending_string :: "bytes \<Rightarrow> bytes \<Rightarrow> bytes" where
  "encode_ascending_string ser str = ser @ str @ [0]"

definition encode_ascending_bytebuffer :: "bytes \<Rightarrow> bytes \<Rightarrow> bytes" where
  "encode_ascending_bytebuffer ser data = ser @ data"

subsection \<open>Decoders\<close>

definition decode_ascending_u8 :: "u8 \<Rightarrow> bytes \<Rightarrow> int \<Rightarrow> (u8 \<times> int) option" where
  "decode_ascending_u8 out ser offset =
     (let ret = offset + 1 in
      if ret > int (length ser) then Some (out, -1)
      else do {
        p0 \<leftarrow> byte_at ser offset;
        Some (p0, ret)
      })"

definition decode_ascending_i8 :: "u8 \<Rightarrow> bytes \<Rightarrow> int \<Rightarrow> (u8 \<times> int) option" where
  "decode_ascending_i8 out ser offset =
     (let ret = offset + 1 in
      if ret > int (length ser) then Some (out, -1)
      else do {
        p0 \<leftarrow> byte_at ser offset;
        Some (p0 XOR 0x80, ret)
      })"

definition decode_ascending_u16 :: "u16 \<Rightarrow> bytes \<Rightarrow> int \<Rightarrow> (u16 \<times> int) option" where
  "decode_ascending_u16 out ser offset =
     (let ret = offset + 2 in
      if ret > int (length ser) then Some (out, -1)
      else do {
        p0 \<leftarrow> byte_at ser offset;
        p1 \<leftarrow> byte_at ser (offset + 1);
        Some (ucast (push_bit 8 (ucast p0 :: u32) OR ucast p1), ret)
      })"

definition decode_ascending_i16 :: "u16 \<Rightarrow> bytes \<Rightarrow> int \<Rightarrow> (u16 \<times> int) option" where
  "decode_ascending_i16 out ser offset =
     (let ret = offset + 2 in
      if ret > int (length ser) then Some (out, -1)
      else do {
        p0 \<leftarrow> byte_at ser offset;
        p1 \<leftarrow> byte_at ser (offset + 1);
        Some (ucast (push_bit 8 (ucast p0 XOR 0x80 :: u32) OR ucast p1), ret)
      })"

definition decode_ascending_u32 :: "u32 \<Rightarrow> bytes \<Rightarrow> int \<Rightarrow> (u32 \<times> int) option" where
  "decode_ascending_u32 out ser offset =
     (let ret = offset + 4 in
      if ret > int (length ser) then Some (out, -1)
      else do {
        p0 \<leftarrow> byte_at ser offset;
        p1 \<leftarrow> byte_at ser (offset + 1);
        p2 \<leftarrow> byte_at ser (offset + 2);
        p3 \<leftarrow> byte_at ser (offset + 3);
        Some (push_bit 24 (ucast p0 :: u32) OR push_bit 16 (ucast p1) OR push_bit 8 (ucast p2) OR ucast p3, ret)
      })"

definition decode_ascending_i32 :: "u32 \<Rightarrow> bytes \<Rightarrow> int \<Rightarrow> (u32 \<times> int) option" where
  "decode_ascending_i32 out ser offset =
     (let ret = offset + 4 in
      if ret > int (length ser) then Some (out, -1)
      else do {
        p0 \<leftarrow> byte_at ser offset;
        p1 \<leftarrow> byte_at ser (offset + 1);
        p2 \<leftarrow> byte_at ser (offset + 2);
        p3 \<leftarrow> byte_at ser (offset + 3);
        Some (push_bit 24 (ucast p0 XOR 0x80 :: u32) OR push_bit 16 (ucast p1) OR push_bit 8 (ucast p2) OR ucast p3, ret)
      })"

definition decode_ascending_u64 :: "u64 \<Rightarrow> bytes \<Rightarrow> int \<Rightarrow> (u64 \<times> int) option" where
  "decode_ascending_u64 out ser offset =
     (let ret = offset + 8 in
      if ret > int (length ser) then Some (out, -1)
      else do {
        p0 \<leftarrow> byte_at ser offset;
        p1 \<leftarrow> byte_at ser (offset + 1);
        p2 \<leftarrow> byte_at ser (offset + 2);
        p3 \<leftarrow> byte_at ser (offset + 3);
        p4 \<leftarrow> byte_at ser (offset + 4);
        p5 \<leftarrow> byte_at ser (offset + 5);
        p6 \<leftarrow> byte_at ser (offset + 6);
        p7 \<leftarrow> byte_at ser (offset + 7);
        Some (push_bit 56 (ucast p0 :: u64) OR push_bit 48 (ucast p1) OR
              push_bit 40 (ucast p2) OR push_bit 32 (ucast p3) OR
              push_bit 24 (ucast p4) OR push_bit 16 (ucast p5) OR
              push_bit 8 (ucast p6) OR ucast p7, ret)
      })"

definition decode_ascending_i64 :: "u64 \<Rightarrow> bytes \<Rightarrow> int \<Rightarrow> (u64 \<times> int) option" where
  "decode_ascending_i64 out ser offset =
     (let ret = offset + 8 in
      if ret > int (length ser) then Some (out, -1)
      else do {
        p0 \<leftarrow> byte_at ser offset;
        p1 \<leftarrow> byte_at ser (offset + 1);
        p2 \<leftarrow> byte_at ser (offset + 2);
        p3 \<leftarrow> byte_at ser (offset + 3);
        p4 \<leftarrow> byte_at ser (offset + 4);
        p5 \<leftarrow> byte_at ser (offset + 5);
        p6 \<leftarrow> byte_at ser (offset + 6);
        p7 \<leftarrow> byte_at ser (offset + 7);
        Some (push_bit 56 (ucast p0 XOR 0x80 :: u64) OR push_bit 48 (ucast p1) OR
              push_bit 40 (ucast p2) OR push_bit 32 (ucast p3) OR
              push_bit 24 (ucast p4) OR push_bit 16 (ucast p5) OR
              push_bit 8 (ucast p6) OR ucast p7, ret)
      })"

definition decode_ascending_float ::
  "ieee754_float \<Rightarrow> bytes \<Rightarrow> int \<Rightarrow> (ieee754_float \<times> int) option" where
  "decode_ascending_float out ser offset =
     (let ret = offset + 4 in
      if ret > int (length ser) then Some (out, -1)
      else do {
        p0 \<leftarrow> byte_at ser offset;
        p1 \<leftarrow> byte_at ser (offset + 1);
        p2 \<leftarrow> byte_at ser (offset + 2);
        p3 \<leftarrow> byte_at ser (offset + 3);
        let neg = (ucast (1 XOR drop_bit 7 p0) :: 1 word);
        let ex = push_bit 1 (p0 AND 0x7f) OR drop_bit 7 p1;
        let ex = (if neg = 1 then (ex AND 0xff) XOR 0xff else ex);
        let man = ucast (push_bit 16 (ucast (p1 AND 0x7f) :: u32) OR push_bit 8 (ucast p2) OR ucast p3);
        Some (\<lparr>negative = neg, exponent = ex, mantissa = man\<rparr>, ret)
      })"

definition decode_ascending_double ::
  "ieee754_double \<Rightarrow> bytes \<Rightarrow> int \<Rightarrow> (ieee754_double \<times> int) option" where
  "decode_ascending_double out ser offset =
     (let ret = offset + 8 in
      if ret > int (length ser) then Some (out, -1)
      else do {
        p0 \<leftarrow> byte_at ser offset;
        p1 \<leftarrow> byte_at ser (offset + 1);
        p2 \<leftarrow> byte_at ser (offset + 2);
        p3 \<leftarrow> byte_at ser (offset + 3);
        p4 \<leftarrow> byte_at ser (offset + 4);
        p5 \<leftarrow> byte_at ser (offset + 5);
        p6 \<leftarrow> byte_at ser (offset + 6);
        p7 \<leftarrow> byte_at ser (offset + 7);
        let neg = (ucast (1 XOR drop_bit 7 p0) :: 1 word);
        let ex = (ucast (push_bit 4 (ucast (p0 AND 0x7f) :: u32) OR ucast (drop_bit 4 p1)) :: 11 word);
        let m0 = ucast (push_bit 16 (ucast (p1 AND 0x0f) :: u32) OR push_bit 8 (ucast p2) OR ucast p3);
        let m1 = push_bit 24 (ucast p4) OR push_bit 16 (ucast p5) OR push_bit 8 (ucast p6) OR ucast p7;
        let ex = (if neg = 1 then (ex AND 0x7ff) XOR 0x7ff else ex);
        Some (\<lparr>dnegative = neg, dexponent = ex, mantissa0 = m0, mantissa1 = m1\<rparr>, ret)
      })"

text \<open>\<open>x\<close> is uninitialised in the overload for \<open>bool\<close>; a short buffer leaves it so.\<close>

definition decode_ascending_bool :: "u8 \<Rightarrow> bytes \<Rightarrow> int \<Rightarrow> (bool \<times> int) option" where
  "decode_ascending_bool uninit ser offset = do {
     (x, ret) \<leftarrow> decode_ascending_u8 uninit ser offset;
     Some (x \<noteq> 0, ret)
   }"

text \<open>Scan for the terminating zero byte, pushing every byte before it.\<close>

function decode_ascending_string :: "bytes \<Rightarrow> bytes \<Rightarrow> int \<Rightarrow> (bytes \<times> int) option" where
  "decode_ascending_string out ser offset =
     (if offset < int (length ser)
      then (case byte_at ser offset of
              None \<Rightarrow> None
            | Some x \<Rightarrow> if x = 0 then Some (out, offset + 1)
                        else decode_ascending_string (out @ [x]) ser (offset + 1))
      else Some (out, -1))"
  by pat_completeness auto
termination
  by (relation "measure (\<lambda>(out, ser, offset). nat (int (length ser) - offset))") auto

declare decode_ascending_string.simps [simp del]

subsection \<open>The integer overloads\<close>

lemma encode_u8_be: "encode_ascending_u8 x = be_bytes 1 x"
  by (simp add: encode_ascending_u8_def)

lemma encode_u16_be: "encode_ascending_u16 x = be_bytes 2 x"
  by (simp add: encode_ascending_u16_def byte_simps)

lemma encode_u32_be: "encode_ascending_u32 x = be_bytes 4 x"
  by (simp add: encode_ascending_u32_def byte_simps)

lemma encode_u64_be: "encode_ascending_u64 x = be_bytes 8 x"
  by (simp add: encode_ascending_u64_def byte_simps)

lemma encode_i8_be: "encode_ascending_i8 x = be_bytes 1 (x XOR push_bit 7 1)"
  by (simp add: encode_ascending_i8_def byte_simps drop_bit_xor)

lemma encode_i16_be: "encode_ascending_i16 x = be_bytes 2 (x XOR push_bit 15 1)"
  by (simp add: encode_ascending_i16_def byte_simps drop_bit_xor)

lemma encode_i32_be: "encode_ascending_i32 x = be_bytes 4 (x XOR push_bit 31 1)"
  by (simp add: encode_ascending_i32_def byte_simps drop_bit_xor)

lemma encode_i64_be: "encode_ascending_i64 x = be_bytes 8 (x XOR push_bit 63 1)"
  by (simp add: encode_ascending_i64_def byte_simps drop_bit_xor)


lemma encode_be_lengths [simp]:
  "length (encode_ascending_u8 x1) = 1" "length (encode_ascending_i8 x1) = 1"
  "length (encode_ascending_u16 x2) = 2" "length (encode_ascending_i16 x2) = 2"
  "length (encode_ascending_u32 x4) = 4" "length (encode_ascending_i32 x4) = 4"
  "length (encode_ascending_u64 x8) = 8" "length (encode_ascending_i64 x8) = 8"
  by (simp_all only: encode_u8_be encode_u16_be encode_u32_be encode_u64_be
      encode_i8_be encode_i16_be encode_i32_be encode_i64_be length_be_bytes)

text \<open>
  The contract of one primitive overload of \<open>encode_ascending\<close> and \<open>decode_ascending\<close>:
  a fixed width, a comparison by \<open>memcmp\<close> that agrees with the order of the values, a decoder
  that reports a short buffer with \<open>-1\<close> and inverts the encoder at any position.
\<close>

locale ascending_codec =
  fixes enc :: "'a \<Rightarrow> bytes"
    and dec :: "'a \<Rightarrow> bytes \<Rightarrow> int \<Rightarrow> ('a \<times> int) option"
    and width :: nat
    and val :: "'a \<Rightarrow> int"
  assumes width_pos: "0 < width"
    and enc_length: "length (enc x) = width"
    and enc_order: "memcmp_less (enc x) (enc y) \<longleftrightarrow> val x < val y"
    and dec_short: "int (length ser) < offset + int width \<Longrightarrow> dec out ser offset = Some (out, -1)"
    and dec_enc: "dec out (pre @ enc x @ post) (int (length pre)) =
        Some (x, int (length pre) + int width)"
    and dec_total: "0 \<le> offset \<Longrightarrow> offset + int width \<le> int (length ser) \<Longrightarrow>
        \<exists>x. dec out ser offset = Some (x, offset + int width)"
begin

lemma enc_inj: "enc x = enc y \<Longrightarrow> x = y"
  using dec_enc [of x "[]" x "[]"] dec_enc [of x "[]" y "[]"] by simp

lemma enc_eq_iff: "enc x = enc y \<longleftrightarrow> x = y"
  using enc_inj by blast

text \<open>A key made of this field followed by more fields sorts by the field first.\<close>

lemma enc_append_order:
  "memcmp_less (enc x @ r) (enc y @ s) \<longleftrightarrow> val x < val y \<or> (x = y \<and> memcmp_less r s)"
  by (simp add: memcmp_append enc_length enc_order enc_eq_iff)

lemma dec_nonneg_Some: "0 \<le> offset \<Longrightarrow> \<exists>r. dec out ser offset = Some r"
  using dec_short [of ser offset out] dec_total [of offset ser out]
  by (cases "offset + int width \<le> int (length ser)") auto

end

lemma be_order_unsigned:
  assumes "\<And>x. enc x = be_bytes n (x :: 'a::len word)" and "LENGTH('a) = 8 * n"
  shows "memcmp_less (enc x) (enc y) \<longleftrightarrow> uint x < uint y"
proof -
  have *: "unat (z :: 'a word) mod 256 ^ n = unat z" for z
  proof -
    have "unat z < 2 ^ LENGTH('a)" by (rule unsigned_less)
    then show ?thesis by (simp add: assms(2) power_mult)
  qed
  show ?thesis by (simp add: assms(1) be_simps *) (simp add: word_less_nat_alt [symmetric] word_less_def)
qed

lemma be_order_signed:
  assumes "\<And>x. enc x = be_bytes n ((x :: 'a::len word) XOR push_bit (LENGTH('a) - 1) 1)"
    and "LENGTH('a) = 8 * n"
  shows "memcmp_less (enc x) (enc y) \<longleftrightarrow> sint x < sint y"
proof -
  have "memcmp_less (be_bytes n (x XOR push_bit (LENGTH('a) - 1) 1))
          (be_bytes n (y XOR push_bit (LENGTH('a) - 1) 1)) \<longleftrightarrow>
        uint (x XOR push_bit (LENGTH('a) - 1) 1) < uint (y XOR push_bit (LENGTH('a) - 1) 1)"
    by (rule be_order_unsigned) (use assms in auto)
  then show ?thesis by (simp only: assms(1) uint_xor_top_bit add_less_cancel_right)
qed

lemma ucast_u16_of_u32 [byte_simps]:
  "(ucast (push_bit 8 (ucast p0 :: u32) OR ucast p1) :: u16) =
    push_bit 8 (ucast (p0 :: u8)) OR ucast (p1 :: u8)"
  by (rule bit_word_eqI) (auto simp: bit_simps)

lemma ucast_u16_of_u32_xor [byte_simps]:
  "(ucast ((push_bit 8 (ucast p0 :: u32) XOR 32768) OR ucast p1) :: u16) =
    (push_bit 8 (ucast (p0 :: u8)) XOR 32768) OR ucast (p1 :: u8)"
proof -
  have top: "(32768 :: 'a::len word) = push_bit 15 1" by simp
  show ?thesis unfolding top by (rule bit_word_eqI) (auto simp: bit_simps simp del: push_bit_of_1)
qed

lemma decode_u8_at:
  "decode_ascending_u8 out (pre @ b0 # post) (int (length pre)) =
    Some (be_word [b0], int (length pre) + 1)"
  by (simp add: decode_ascending_u8_def byte_simps)

lemma decode_u16_at:
  "decode_ascending_u16 out (pre @ b0 # b1 # post) (int (length pre)) =
    Some (be_word [b0, b1], int (length pre) + 2)"
  by (simp add: decode_ascending_u16_def byte_simps)

lemma decode_u32_at:
  "decode_ascending_u32 out (pre @ b0 # b1 # b2 # b3 # post) (int (length pre)) =
    Some (be_word [b0, b1, b2, b3], int (length pre) + 4)"
  by (simp add: decode_ascending_u32_def byte_simps)

lemma decode_u64_at:
  "decode_ascending_u64 out (pre @ b0 # b1 # b2 # b3 # b4 # b5 # b6 # b7 # post) (int (length pre)) =
    Some (be_word [b0, b1, b2, b3, b4, b5, b6, b7], int (length pre) + 8)"
  by (simp add: decode_ascending_u64_def byte_simps)

lemma decode_i8_at:
  "decode_ascending_i8 out (pre @ b0 # post) (int (length pre)) =
    Some (be_word [b0 XOR 0x80], int (length pre) + 1)"
  by (simp add: decode_ascending_i8_def byte_simps)

lemma decode_i16_at:
  "decode_ascending_i16 out (pre @ b0 # b1 # post) (int (length pre)) =
    Some (be_word [b0 XOR 0x80, b1], int (length pre) + 2)"
  by (simp add: decode_ascending_i16_def byte_simps)

lemma decode_i32_at:
  "decode_ascending_i32 out (pre @ b0 # b1 # b2 # b3 # post) (int (length pre)) =
    Some (be_word [b0 XOR 0x80, b1, b2, b3], int (length pre) + 4)"
  by (simp add: decode_ascending_i32_def byte_simps)

lemma decode_i64_at:
  "decode_ascending_i64 out (pre @ b0 # b1 # b2 # b3 # b4 # b5 # b6 # b7 # post) (int (length pre)) =
    Some (be_word [b0 XOR 0x80, b1, b2, b3, b4, b5, b6, b7], int (length pre) + 8)"
  by (simp add: decode_ascending_i64_def byte_simps)


interpretation u8: ascending_codec encode_ascending_u8 decode_ascending_u8 1 uint
proof
  show "memcmp_less (encode_ascending_u8 x) (encode_ascending_u8 y) \<longleftrightarrow> uint x < uint y" for x y
    by (rule be_order_unsigned [where n = 1]) (simp_all add: encode_u8_be)
  show "decode_ascending_u8 out ser offset = Some (out, -1)"
    if "int (length ser) < offset + int 1" for ser offset out
    using that by (simp add: decode_ascending_u8_def)
  show "decode_ascending_u8 out (pre @ encode_ascending_u8 x @ post) (int (length pre)) =
      Some (x, int (length pre) + int 1)" for out pre x post
    using be_word_be_bytes [of 1 x]
    by (simp add: encode_u8_be decode_u8_at)
  show "\<exists>x. decode_ascending_u8 out ser offset = Some (x, offset + int 1)"
    if "0 \<le> offset" "offset + int 1 \<le> int (length ser)" for out ser offset
    by (rule buffer_split [OF that]) (auto simp: decode_u8_at length_Suc_conv numeral_eq_Suc)
qed simp_all

interpretation u16: ascending_codec encode_ascending_u16 decode_ascending_u16 2 uint
proof
  show "memcmp_less (encode_ascending_u16 x) (encode_ascending_u16 y) \<longleftrightarrow> uint x < uint y" for x y
    by (rule be_order_unsigned [where n = 2]) (simp_all add: encode_u16_be)
  show "decode_ascending_u16 out ser offset = Some (out, -1)"
    if "int (length ser) < offset + int 2" for ser offset out
    using that by (simp add: decode_ascending_u16_def)
  show "decode_ascending_u16 out (pre @ encode_ascending_u16 x @ post) (int (length pre)) =
      Some (x, int (length pre) + int 2)" for out pre x post
    using be_word_be_bytes [of 2 x]
    by (simp add: encode_u16_be decode_u16_at)
  show "\<exists>x. decode_ascending_u16 out ser offset = Some (x, offset + int 2)"
    if "0 \<le> offset" "offset + int 2 \<le> int (length ser)" for out ser offset
    by (rule buffer_split [OF that]) (auto simp: decode_u16_at length_Suc_conv numeral_eq_Suc)
qed simp_all

interpretation u32: ascending_codec encode_ascending_u32 decode_ascending_u32 4 uint
proof
  show "memcmp_less (encode_ascending_u32 x) (encode_ascending_u32 y) \<longleftrightarrow> uint x < uint y" for x y
    by (rule be_order_unsigned [where n = 4]) (simp_all add: encode_u32_be)
  show "decode_ascending_u32 out ser offset = Some (out, -1)"
    if "int (length ser) < offset + int 4" for ser offset out
    using that by (simp add: decode_ascending_u32_def)
  show "decode_ascending_u32 out (pre @ encode_ascending_u32 x @ post) (int (length pre)) =
      Some (x, int (length pre) + int 4)" for out pre x post
    using be_word_be_bytes [of 4 x]
    by (simp add: encode_u32_be decode_u32_at)
  show "\<exists>x. decode_ascending_u32 out ser offset = Some (x, offset + int 4)"
    if "0 \<le> offset" "offset + int 4 \<le> int (length ser)" for out ser offset
    by (rule buffer_split [OF that]) (auto simp: decode_u32_at length_Suc_conv numeral_eq_Suc)
qed simp_all

interpretation u64: ascending_codec encode_ascending_u64 decode_ascending_u64 8 uint
proof
  show "memcmp_less (encode_ascending_u64 x) (encode_ascending_u64 y) \<longleftrightarrow> uint x < uint y" for x y
    by (rule be_order_unsigned [where n = 8]) (simp_all add: encode_u64_be)
  show "decode_ascending_u64 out ser offset = Some (out, -1)"
    if "int (length ser) < offset + int 8" for ser offset out
    using that by (simp add: decode_ascending_u64_def)
  show "decode_ascending_u64 out (pre @ encode_ascending_u64 x @ post) (int (length pre)) =
      Some (x, int (length pre) + int 8)" for out pre x post
    using be_word_be_bytes [of 8 x]
    by (simp add: encode_u64_be decode_u64_at)
  show "\<exists>x. decode_ascending_u64 out ser offset = Some (x, offset + int 8)"
    if "0 \<le> offset" "offset + int 8 \<le> int (length ser)" for out ser offset
    by (rule buffer_split [OF that]) (auto simp: decode_u64_at length_Suc_conv numeral_eq_Suc)
qed simp_all

interpretation i8: ascending_codec encode_ascending_i8 decode_ascending_i8 1 sint
proof
  show "memcmp_less (encode_ascending_i8 x) (encode_ascending_i8 y) \<longleftrightarrow> sint x < sint y" for x y
    by (rule be_order_signed [where n = 1]) (simp_all add: encode_i8_be)
  show "decode_ascending_i8 out ser offset = Some (out, -1)"
    if "int (length ser) < offset + int 1" for ser offset out
    using that by (simp add: decode_ascending_i8_def)
  show "decode_ascending_i8 out (pre @ encode_ascending_i8 x @ post) (int (length pre)) =
      Some (x, int (length pre) + int 1)" for out pre x post
    using be_word_be_bytes [of 1 x]
    by (simp add: encode_ascending_i8_def decode_i8_at byte_simps)
  show "\<exists>x. decode_ascending_i8 out ser offset = Some (x, offset + int 1)"
    if "0 \<le> offset" "offset + int 1 \<le> int (length ser)" for out ser offset
    by (rule buffer_split [OF that]) (auto simp: decode_i8_at length_Suc_conv numeral_eq_Suc)
qed simp_all

interpretation i16: ascending_codec encode_ascending_i16 decode_ascending_i16 2 sint
proof
  show "memcmp_less (encode_ascending_i16 x) (encode_ascending_i16 y) \<longleftrightarrow> sint x < sint y" for x y
    by (rule be_order_signed [where n = 2]) (simp_all add: encode_i16_be)
  show "decode_ascending_i16 out ser offset = Some (out, -1)"
    if "int (length ser) < offset + int 2" for ser offset out
    using that by (simp add: decode_ascending_i16_def)
  show "decode_ascending_i16 out (pre @ encode_ascending_i16 x @ post) (int (length pre)) =
      Some (x, int (length pre) + int 2)" for out pre x post
    using be_word_be_bytes [of 2 x]
    by (simp add: encode_ascending_i16_def decode_i16_at byte_simps)
  show "\<exists>x. decode_ascending_i16 out ser offset = Some (x, offset + int 2)"
    if "0 \<le> offset" "offset + int 2 \<le> int (length ser)" for out ser offset
    by (rule buffer_split [OF that]) (auto simp: decode_i16_at length_Suc_conv numeral_eq_Suc)
qed simp_all

interpretation i32: ascending_codec encode_ascending_i32 decode_ascending_i32 4 sint
proof
  show "memcmp_less (encode_ascending_i32 x) (encode_ascending_i32 y) \<longleftrightarrow> sint x < sint y" for x y
    by (rule be_order_signed [where n = 4]) (simp_all add: encode_i32_be)
  show "decode_ascending_i32 out ser offset = Some (out, -1)"
    if "int (length ser) < offset + int 4" for ser offset out
    using that by (simp add: decode_ascending_i32_def)
  show "decode_ascending_i32 out (pre @ encode_ascending_i32 x @ post) (int (length pre)) =
      Some (x, int (length pre) + int 4)" for out pre x post
    using be_word_be_bytes [of 4 x]
    by (simp add: encode_ascending_i32_def decode_i32_at byte_simps)
  show "\<exists>x. decode_ascending_i32 out ser offset = Some (x, offset + int 4)"
    if "0 \<le> offset" "offset + int 4 \<le> int (length ser)" for out ser offset
    by (rule buffer_split [OF that]) (auto simp: decode_i32_at length_Suc_conv numeral_eq_Suc)
qed simp_all

interpretation i64: ascending_codec encode_ascending_i64 decode_ascending_i64 8 sint
proof
  show "memcmp_less (encode_ascending_i64 x) (encode_ascending_i64 y) \<longleftrightarrow> sint x < sint y" for x y
    by (rule be_order_signed [where n = 8]) (simp_all add: encode_i64_be)
  show "decode_ascending_i64 out ser offset = Some (out, -1)"
    if "int (length ser) < offset + int 8" for ser offset out
    using that by (simp add: decode_ascending_i64_def)
  show "decode_ascending_i64 out (pre @ encode_ascending_i64 x @ post) (int (length pre)) =
      Some (x, int (length pre) + int 8)" for out pre x post
    using be_word_be_bytes [of 8 x]
    by (simp add: encode_ascending_i64_def decode_i64_at byte_simps)
  show "\<exists>x. decode_ascending_i64 out ser offset = Some (x, offset + int 8)"
    if "0 \<le> offset" "offset + int 8 \<le> int (length ser)" for out ser offset
    by (rule buffer_split [OF that]) (auto simp: decode_i64_at length_Suc_conv numeral_eq_Suc)
qed simp_all


subsection \<open>Floating point fields\<close>

lemma encode_to_append: "encode_ascending_to enc ser v = ser @ enc v"
proof -
  have "foldl (\<lambda>b x. b @ [x]) ser xs = ser @ xs" for xs :: bytes
    by (induction xs arbitrary: ser) auto
  then show ?thesis by (simp add: encode_ascending_to_def)
qed

text \<open>The encoded float is the big-endian form of one 32-bit key.\<close>

definition float_key :: "ieee754_float \<Rightarrow> u32" where
  "float_key y = push_bit 31 (ucast (negative y XOR 1)) OR
     (push_bit 23 (ucast (if float_lt_zero y then exponent y XOR 0xff else exponent y)) OR
      ucast (mantissa y))"

lemma float_bytes:
  fixes sg :: "1 word" and ex :: u8 and m :: "23 word"
  shows "[push_bit 7 (ucast sg) OR drop_bit 1 ex, push_bit 7 (ex AND 1) OR ucast (drop_bit 16 m),
      ucast (drop_bit 8 m AND 0xff), ucast (m AND 0xff)] =
    be_bytes 4 (push_bit 31 (ucast sg) OR (push_bit 23 (ucast ex) OR ucast m) :: u32)"
proof -
  let ?W = "push_bit 31 (ucast sg) OR (push_bit 23 (ucast ex) OR ucast m) :: u32"
  have "push_bit 7 (ucast sg) OR drop_bit 1 ex = (ucast (drop_bit 24 ?W) :: u8)"
    by (rule bit_word_eqI) (auto simp: bit_simps dest: bit_imp_le_length)
  moreover have "push_bit 7 (ex AND 1) OR ucast (drop_bit 16 m) = (ucast (drop_bit 16 ?W) :: u8)"
    by (rule bit_word_eqI) (auto simp: bit_simps dest: bit_imp_le_length simp del: push_bit_and)
  moreover have "ucast (drop_bit 8 m) = (ucast (drop_bit 8 ?W) :: u8)"
    by (rule bit_word_eqI) (auto simp: bit_simps dest: bit_imp_le_length)
  moreover have "ucast m = (ucast ?W :: u8)"
    by (rule bit_word_eqI) (auto simp: bit_simps dest: bit_imp_le_length)
  ultimately show ?thesis by (simp add: byte_simps del: drop_bit_or push_bit_and)
qed

lemma encode_float_be: "encode_ascending_float y = be_bytes 4 (float_key y)"
  unfolding encode_ascending_float_def float_key_def Let_def by (rule float_bytes)

lemma unat_float_word:
  fixes sg :: "1 word" and ex :: u8 and m :: "23 word"
  shows "unat (push_bit 31 (ucast sg) OR (push_bit 23 (ucast ex) OR ucast m) :: u32) =
    unat sg * 2 ^ 31 + (unat ex * 2 ^ 23 + unat m)"
proof -
  have b: "unat sg < 2" "unat ex < 256" "unat m < 8388608"
    using unsigned_less [of sg] unsigned_less [of ex] unsigned_less [of m] by simp_all
  have c: "unat (ucast sg :: u32) = unat sg" "unat (ucast ex :: u32) = unat ex"
    "unat (ucast m :: u32) = unat m"
    by (intro unat_ucast_up; simp)+
  have "unat (push_bit 23 (ucast ex) OR ucast m :: u32) = unat ex * 2 ^ 23 + unat m"
  proof -
    have "unat ex * 8388608 + unat m < 4294967296" using b by linarith
    then show ?thesis using unat_or_push [of "ucast m :: u32" 23 "ucast ex"] b(3) by (simp add: c)
  qed
  moreover have "unat sg * 2147483648 + (unat ex * 8388608 + unat m) < 4294967296"
    "unat ex * 8388608 + unat m < 2147483648" using b by linarith+
  ultimately show ?thesis
    using unat_or_push [of "push_bit 23 (ucast ex) OR ucast m :: u32" 31 "ucast sg"]
    by (simp add: c)
qed

text \<open>
  The exact value of a finite float, as an integer multiple of \<open>2 ^ -149\<close>; infinity is the
  next value after the finite ones.
\<close>

definition float_magnitude :: "ieee754_float \<Rightarrow> nat" where
  "float_magnitude y =
     (if exponent y = 0 then unat (mantissa y)
      else (2 ^ 23 + unat (mantissa y)) * 2 ^ (unat (exponent y) - 1))"

definition float_value :: "ieee754_float \<Rightarrow> int" where
  "float_value y = (if negative y = 1 then - int (float_magnitude y) else int (float_magnitude y))"

lemma mantissa_bound [simp]: "unat (m :: 23 word) < 8388608"
  using unsigned_less [of m] by simp

lemma float_magnitude_upper: "float_magnitude y < 2 ^ 23 * 2 ^ unat (exponent y)"
proof (cases "exponent y = 0")
  case True
  then show ?thesis by (simp add: float_magnitude_def)
next
  case False
  then obtain k where k: "unat (exponent y) = Suc k"
    by (metis not0_implies_Suc unat_eq_0)
  have "(8388608 + unat (mantissa y)) * 2 ^ k < (8388608 * 2) * 2 ^ k"
    using mantissa_bound [of "mantissa y"] by (intro mult_strict_right_mono) simp_all
  with False k show ?thesis by (simp add: float_magnitude_def mult.assoc)
qed

lemma float_magnitude_lower: "exponent y \<noteq> 0 \<Longrightarrow> 2 ^ 23 * 2 ^ (unat (exponent y) - 1) \<le> float_magnitude y"
  by (simp add: float_magnitude_def)

lemma float_magnitude_exponent_less:
  assumes "unat (exponent a) < unat (exponent b)"
  shows "float_magnitude a < float_magnitude b"
proof -
  have b0: "exponent b \<noteq> 0" using assms by auto
  have "float_magnitude a < 2 ^ 23 * 2 ^ unat (exponent a)" by (rule float_magnitude_upper)
  also have "\<dots> \<le> 2 ^ 23 * 2 ^ (unat (exponent b) - 1)"
    using assms by (intro mult_le_mono2 power_increasing) auto
  also have "\<dots> \<le> float_magnitude b" using b0 by (rule float_magnitude_lower)
  finally show ?thesis .
qed

lemma float_magnitude_exponent_eq:
  "exponent a = exponent b \<Longrightarrow>
    float_magnitude a < float_magnitude b \<longleftrightarrow> unat (mantissa a) < unat (mantissa b)"
  by (simp add: float_magnitude_def)

lemma float_magnitude_order:
  "float_magnitude a < float_magnitude b \<longleftrightarrow>
    unat (exponent a) < unat (exponent b) \<or>
    (exponent a = exponent b \<and> unat (mantissa a) < unat (mantissa b))"
proof (rule linorder_cases [of "unat (exponent a)" "unat (exponent b)"])
  assume "unat (exponent a) < unat (exponent b)"
  then show ?thesis using float_magnitude_exponent_less by blast
next
  assume "unat (exponent a) = unat (exponent b)"
  then have "exponent a = exponent b" by (simp add: word_unat_eq_iff)
  then show ?thesis by (simp add: float_magnitude_exponent_eq)
next
  assume *: "unat (exponent b) < unat (exponent a)"
  then have "float_magnitude b < float_magnitude a" by (rule float_magnitude_exponent_less)
  with * show ?thesis by auto
qed

text \<open>Values the overload treats consistently: negative values are below zero (no \<open>-0\<close>, no NaN).\<close>

definition float_ordinary :: "ieee754_float \<Rightarrow> bool" where
  "float_ordinary y \<longleftrightarrow> (negative y = 1 \<longrightarrow> float_lt_zero y) \<and> \<not> (exponent y = 0xff \<and> mantissa y \<noteq> 0)"

lemma one_word_cases: "(s :: 1 word) = 0 \<or> s = 1"
proof -
  have "unat s < 2" using unsigned_less [of s] by simp
  then have "unat s = 0 \<or> unat s = 1" by linarith
  then show ?thesis by (simp add: word_unat_eq_iff)
qed

lemma unat_flip_exponent: "unat (ex XOR 0xff :: u8) = 255 - unat ex"
proof -
  have "(0xff :: u8) = - 1" by simp
  then have "ex XOR 0xff = NOT ex" by (simp only: bit.xor_one_right)
  also have "\<dots> = 0xff - ex" by (simp add: not_eq_complement)
  finally have "ex XOR 0xff = 0xff - ex" .
  moreover have "unat ex \<le> unat (0xff :: u8)" 
    using unat_u8_bound [of ex] by (subst unsigned_numeral) (simp add: less_Suc_eq_le flip: Suc_le_eq)
  ultimately show ?thesis using unat_sub [of ex "0xff"] by (simp add: word_le_nat_alt)
qed

lemma float_key_value:
  "float_ordinary y \<Longrightarrow> unat (float_key y) =
    (if negative y = 1 then (255 - unat (exponent y)) * 2 ^ 23 + unat (mantissa y)
     else 2 ^ 31 + (unat (exponent y) * 2 ^ 23 + unat (mantissa y)))"
  using one_word_cases [of "negative y"]
  by (auto simp: float_key_def unat_float_word unat_flip_exponent float_ordinary_def float_lt_zero_def)

lemma float_encode_order:
  assumes "float_ordinary a" "float_ordinary b"
  shows "memcmp_less (encode_ascending_float a) (encode_ascending_float b) \<longleftrightarrow>
    (if negative a = 1 \<and> negative b = 1 \<and> exponent a = exponent b
     then float_value b < float_value a else float_value a < float_value b)"
proof -
  have K: "memcmp_less (encode_ascending_float a) (encode_ascending_float b) \<longleftrightarrow>
      unat (float_key a) < unat (float_key b)"
    using be_order_unsigned [of "be_bytes 4" 4 "float_key a" "float_key b"]
    by (simp only: encode_float_be) (simp add: word_less_nat_alt [symmetric] word_less_def)
  have E: "unat (exponent a) < 256" "unat (exponent b) < 256" by simp_all
  have M: "unat (mantissa a) < 8388608" "unat (mantissa b) < 8388608" by simp_all
  have eqE: "exponent a = exponent b \<longleftrightarrow> unat (exponent a) = unat (exponent b)"
    by (simp add: word_unat_eq_iff)
  have pos: "0 < float_magnitude y" if "float_lt_zero y" for y
    using that by (auto simp: float_lt_zero_def float_magnitude_def unat_gt_0)
  have neg: "negative y = 1 \<Longrightarrow> float_ordinary y \<Longrightarrow> 0 < float_magnitude y" for y
    by (simp add: float_ordinary_def pos)
  consider "negative a = 1" "negative b = 1" | "negative a = 1" "negative b = 0"
    | "negative a = 0" "negative b = 1" | "negative a = 0" "negative b = 0"
    using one_word_cases by metis
  then show ?thesis
  proof cases
    case 1
    have flip: "255 - unat (exponent a) < 255 - unat (exponent b) \<longleftrightarrow>
        unat (exponent b) < unat (exponent a)"
      "255 - unat (exponent a) = 255 - unat (exponent b) \<longleftrightarrow> exponent a = exponent b"
      using E unfolding eqE by linarith+
    have "unat (float_key a) < unat (float_key b) \<longleftrightarrow> unat (exponent b) < unat (exponent a) \<or>
        (exponent a = exponent b \<and> unat (mantissa a) < unat (mantissa b))"
      using 1 assms by (simp add: float_key_value digit_less_iff flip)
    then show ?thesis using 1 unfolding K float_value_def
      by (auto simp: float_magnitude_order)
  next
    case 2
    have "(255 - unat (exponent a)) * 8388608 + unat (mantissa a) < 2147483648"
      using M by linarith
    then have "unat (float_key a) < unat (float_key b)" using 2 assms by (simp add: float_key_value)
    then show ?thesis using 2 assms neg [of a] unfolding K float_value_def by simp
  next
    case 3
    have "(255 - unat (exponent b)) * 8388608 + unat (mantissa b) < 2147483648"
      using M by linarith
    then have "unat (float_key b) < unat (float_key a)" using 3 assms by (simp add: float_key_value)
    then show ?thesis using 3 assms neg [of b] unfolding K float_value_def by simp
  next
    case 4
    then show ?thesis using assms unfolding K float_value_def
      by (simp add: float_key_value digit_less_iff float_magnitude_order word_unat_eq_iff)
  qed
qed

text \<open>The decoder rebuilds the three fields from the key word.\<close>

lemma decode_float_at:
  "decode_ascending_float out (pre @ b0 # b1 # b2 # b3 # post) (int (length pre)) =
    Some (let neg = ucast (1 XOR drop_bit 7 b0); ex = push_bit 1 (b0 AND 0x7f) OR drop_bit 7 b1
          in \<lparr>negative = neg, exponent = (if neg = 1 then (ex AND 0xff) XOR 0xff else ex),
              mantissa = ucast (push_bit 16 (ucast (b1 AND 0x7f) :: u32) OR push_bit 8 (ucast b2) OR ucast b3)\<rparr>,
       int (length pre) + 4)"
  by (simp add: decode_ascending_float_def Let_def)

lemma float_fields_back:
  fixes sg :: "1 word" and ex :: u8 and m :: "23 word"
  defines "b0 \<equiv> push_bit 7 (ucast sg) OR drop_bit 1 ex"
    and "b1 \<equiv> push_bit 7 (ex AND 1) OR ucast (drop_bit 16 m)"
  shows "(ucast (1 XOR drop_bit 7 b0) :: 1 word) = 1 XOR sg"
    and "push_bit 1 (b0 AND 0x7f) OR drop_bit 7 b1 = ex"
    and "ucast (push_bit 16 (ucast (b1 AND 0x7f) :: u32) OR push_bit 8 (ucast (ucast (drop_bit 8 m) :: u8)) OR
        ucast (ucast m :: u8)) = m"
proof -
  have m7: "(0x7f :: u8) = mask 7" by (simp add: mask_numeral)
  show "(ucast (1 XOR drop_bit 7 b0) :: 1 word) = 1 XOR sg"
    unfolding b0_def by (rule bit_word_eqI) (auto simp: bit_simps dest: bit_imp_le_length)
  show "push_bit 1 (b0 AND 0x7f) OR drop_bit 7 b1 = ex"
    unfolding b0_def b1_def m7
    by (rule bit_word_eqI, unfold bit_or_iff bit_push_bit_iff bit_and_iff bit_drop_bit_eq comp_def bit_mask_iff)
      (auto simp: bit_simps dest: bit_imp_le_length)
  show "ucast (push_bit 16 (ucast (b1 AND 0x7f) :: u32) OR push_bit 8 (ucast (ucast (drop_bit 8 m) :: u8)) OR
        ucast (ucast m :: u8)) = m"
    unfolding b1_def m7
    by (rule bit_word_eqI) (auto simp: bit_simps dest: bit_imp_le_length simp del: push_bit_and)
qed

lemma float_decoded:
  "decode_ascending_float out (pre @ encode_ascending_float y @ post) (int (length pre)) =
    (let ex = (if float_lt_zero y then exponent y XOR 0xff else exponent y) in
     Some (\<lparr>negative = negative y,
            exponent = (if negative y = 1 then (ex AND 0xff) XOR 0xff else ex),
            mantissa = mantissa y\<rparr>, int (length pre) + 4))"
proof -
  have neg: "1 XOR (negative y XOR 1) = negative y" by (simp add: xor.commute xor.left_commute)
  show ?thesis
    unfolding encode_ascending_float_def Let_def append.simps decode_float_at
      ucast_shift_mask float_fields_back neg by (rule refl)
qed

lemma float_roundtrip:
  assumes "negative y = 1 \<Longrightarrow> float_lt_zero y"
  shows "decode_ascending_float out (pre @ encode_ascending_float y @ post) (int (length pre)) =
    Some (y, int (length pre) + 4)"
  using assms unfolding float_decoded Let_def
  by (auto simp: float_lt_zero_def and_255 byte_simps take_bit_word_eq_self)

lemma float_roundtrip_iff:
  "decode_ascending_float out (pre @ encode_ascending_float y @ post) (int (length pre)) =
    Some (y, int (length pre) + 4) \<longleftrightarrow> negative y = 0 \<or> float_lt_zero y"
proof (cases "negative y = 1 \<and> \<not> float_lt_zero y")
  case True
  then have "exponent y XOR 0xff \<noteq> exponent y"
  proof -
    have "255 - unat (exponent y) \<noteq> unat (exponent y)"
      using unat_u8_bound [of "exponent y"] by presburger
    then show ?thesis by (metis unat_flip_exponent)
  qed
  with True show ?thesis
    using float_decoded [of out pre y post] by (simp add: and_255 take_bit_word_eq_self) (metis ieee754_float.select_convs(2))
next
  case False
  then show ?thesis using float_roundtrip [of y] one_word_cases [of "negative y"] by auto
qed

text \<open>
  A negative zero is not below zero, so the encoder keeps its exponent, but the decoder flips
  the exponent of every value with the sign bit set.
\<close>

lemma float_negative_zero:
  "decode_ascending_float out
      (encode_ascending_float \<lparr>negative = 1, exponent = 0, mantissa = 0\<rparr>) 0 =
    Some (\<lparr>negative = 1, exponent = 0xff, mantissa = 0\<rparr>, 4)"
  by (simp add: encode_ascending_float_def decode_ascending_float_def float_lt_zero_def Let_def)

subsection \<open>String fields\<close>

lemma memcmp_terminated:
  "0 \<notin> set s \<Longrightarrow> 0 \<notin> set t \<Longrightarrow>
    memcmp_less (s @ 0 # r) (t @ 0 # q) \<longleftrightarrow> memcmp_less s t \<or> (s = t \<and> memcmp_less r q)"
proof (induction s t rule: memcmp_less.induct)
  case (1 xs)
  then show ?case by (cases xs) (auto simp: word_gt_0)
next
  case (2 y ys)
  then show ?case by (auto simp: word_gt_0)
next
  case (3 x xs y ys)
  then show ?case by auto
qed

lemma decode_string_at:
  "0 \<notin> set str \<Longrightarrow>
    decode_ascending_string out (pre @ str @ 0 # post) (int (length pre)) =
      Some (out @ str, int (length pre) + int (length str) + 1)"
proof (induction str arbitrary: out pre)
  case Nil
  show ?case by (subst decode_ascending_string.simps) simp
next
  case (Cons x str)
  have "decode_ascending_string (out @ [x]) ((pre @ [x]) @ str @ 0 # post) (int (length (pre @ [x]))) =
      Some ((out @ [x]) @ str, int (length (pre @ [x])) + int (length str) + 1)"
    using Cons by (intro Cons.IH) simp
  with Cons.prems show ?case by (subst decode_ascending_string.simps) (simp add: add.commute)
qed

lemma decode_string_unterminated:
  "0 \<notin> set str \<Longrightarrow>
    decode_ascending_string out (pre @ str) (int (length pre)) = Some (out @ str, -1)"
proof (induction str arbitrary: out pre)
  case Nil
  show ?case by (subst decode_ascending_string.simps) simp
next
  case (Cons x str)
  have "decode_ascending_string (out @ [x]) ((pre @ [x]) @ str) (int (length (pre @ [x]))) =
      Some ((out @ [x]) @ str, -1)"
    using Cons by (intro Cons.IH) simp
  with Cons.prems show ?case by (subst decode_ascending_string.simps) (simp add: add.commute)
qed

subsection \<open>Properties\<close>

text \<open>C11: Keys compare as the values do: for every integer type, signed or unsigned, the bytes
  written by the encoder compare with memcmp exactly as the integers compare.\<close>

theorem integer_key_order:
  "(memcmp_less (encode_ascending_u8 a8) (encode_ascending_u8 b8) \<longleftrightarrow> uint a8 < uint b8) \<and>
   (memcmp_less (encode_ascending_i8 a8) (encode_ascending_i8 b8) \<longleftrightarrow> sint a8 < sint b8) \<and>
   (memcmp_less (encode_ascending_u16 a16) (encode_ascending_u16 b16) \<longleftrightarrow> uint a16 < uint b16) \<and>
   (memcmp_less (encode_ascending_i16 a16) (encode_ascending_i16 b16) \<longleftrightarrow> sint a16 < sint b16) \<and>
   (memcmp_less (encode_ascending_u32 a32) (encode_ascending_u32 b32) \<longleftrightarrow> uint a32 < uint b32) \<and>
   (memcmp_less (encode_ascending_i32 a32) (encode_ascending_i32 b32) \<longleftrightarrow> sint a32 < sint b32) \<and>
   (memcmp_less (encode_ascending_u64 a64) (encode_ascending_u64 b64) \<longleftrightarrow> uint a64 < uint b64) \<and>
   (memcmp_less (encode_ascending_i64 a64) (encode_ascending_i64 b64) \<longleftrightarrow> sint a64 < sint b64)"
  by (intro conjI u8.enc_order i8.enc_order u16.enc_order i16.enc_order u32.enc_order
      i32.enc_order u64.enc_order i64.enc_order)

text \<open>C25: Decoding inverts encoding for every integer type at any position of a buffer, and the
  returned offset is the position after the field.\<close>

theorem integer_key_roundtrip:
  "(decode_ascending_u8 out8 (pre @ encode_ascending_u8 x8 @ post) (int (length pre)) = Some (x8, int (length pre) + 1)) \<and>
   (decode_ascending_i8 out8 (pre @ encode_ascending_i8 x8 @ post) (int (length pre)) = Some (x8, int (length pre) + 1)) \<and>
   (decode_ascending_u16 out16 (pre @ encode_ascending_u16 x16 @ post) (int (length pre)) = Some (x16, int (length pre) + 2)) \<and>
   (decode_ascending_i16 out16 (pre @ encode_ascending_i16 x16 @ post) (int (length pre)) = Some (x16, int (length pre) + 2)) \<and>
   (decode_ascending_u32 out32 (pre @ encode_ascending_u32 x32 @ post) (int (length pre)) = Some (x32, int (length pre) + 4)) \<and>
   (decode_ascending_i32 out32 (pre @ encode_ascending_i32 x32 @ post) (int (length pre)) = Some (x32, int (length pre) + 4)) \<and>
   (decode_ascending_u64 out64 (pre @ encode_ascending_u64 x64 @ post) (int (length pre)) = Some (x64, int (length pre) + 8)) \<and>
   (decode_ascending_i64 out64 (pre @ encode_ascending_i64 x64 @ post) (int (length pre)) = Some (x64, int (length pre) + 8))"
  by (simp_all add: u8.dec_enc i8.dec_enc u16.dec_enc i16.dec_enc u32.dec_enc i32.dec_enc
      u64.dec_enc i64.dec_enc)

text \<open>C26: The keys of floating point values (other than -0 and NaN) compare as the values do,
  except for two negative values with the same exponent: there the order of the keys is reversed,
  because the encoder flips the exponent of a negative value but not its mantissa.\<close>

theorem float_key_order:
  assumes "float_ordinary a" "float_ordinary b"
  shows "memcmp_less (encode_ascending_float a) (encode_ascending_float b) \<longleftrightarrow>
    (if negative a = 1 \<and> negative b = 1 \<and> exponent a = exponent b
     then float_value b < float_value a else float_value a < float_value b)"
  using assms by (rule float_encode_order)

theorem float_key_order_witness:
  "memcmp_less (encode_ascending_float \<lparr>negative = 1, exponent = 127, mantissa = 0\<rparr>)
     (encode_ascending_float \<lparr>negative = 1, exponent = 127, mantissa = 4194304\<rparr>) \<and>
   float_value \<lparr>negative = 1, exponent = 127, mantissa = 4194304\<rparr> <
     float_value \<lparr>negative = 1, exponent = 127, mantissa = 0\<rparr>"
  using float_key_order [of "\<lparr>negative = 1, exponent = 127, mantissa = 0\<rparr>"
      "\<lparr>negative = 1, exponent = 127, mantissa = 4194304\<rparr>"]
  by (simp add: float_ordinary_def float_lt_zero_def float_value_def float_magnitude_def)

text \<open>A floating point key is decoded to the encoded value exactly when the value is
  non-negative or below zero; the exceptions are -0 (decoded as minus infinity) and NaN values with
  the sign bit set.\<close>

theorem float_key_roundtrip:
  "decode_ascending_float out (pre @ encode_ascending_float y @ post) (int (length pre)) =
    Some (y, int (length pre) + 4) \<longleftrightarrow> negative y = 0 \<or> float_lt_zero y"
  by (rule float_roundtrip_iff)

text \<open>C27: String fields without zero bytes sort as the strings do, also when more fields follow
  in the key; they are decoded to the same string with the offset after the terminator, and a
  missing terminator is reported with -1.\<close>

theorem string_key:
  assumes "0 \<notin> set s" "0 \<notin> set t"
  shows "(memcmp_less (encode_ascending_string k s @ r) (encode_ascending_string k t @ q) \<longleftrightarrow>
      memcmp_less s t \<or> (s = t \<and> memcmp_less r q)) \<and>
    decode_ascending_string out (encode_ascending_string k s @ r) (int (length k)) =
      Some (out @ s, int (length (encode_ascending_string k s))) \<and>
    decode_ascending_string out (k @ s) (int (length k)) = Some (out @ s, -1)"
  using assms memcmp_terminated decode_string_at [of s out k r] decode_string_unterminated
  by (simp add: encode_ascending_string_def)

theorem string_key_witness:
  "memcmp_less (encode_ascending_string [] [65] @ [9]) (encode_ascending_string [] [65, 66] @ [1])"
  using string_key [of "[65]" "[65, 66]" "[]" "[9]" "[1]" "[]"] by simp

end
