(* ===== verification/Serialize.thy ===== *)
theory Serialize
  imports Codec
begin

text \<open>
  Record serialisation (\<open>neumodb/serialize.h\<close> and \<open>neumodb/deserialize.h\<close>). The
  templates become higher-order definitions: the overload of \<open>serialize\<close>,
  \<open>serialized_size\<close> or \<open>deserialize\<close> for the element type is an argument. Serialised
  data is appended to the buffer \<open>ser\<close>; a container is preceded by its size in bytes, which
  is written as a placeholder first and patched afterwards. Deserialisation returns the new offset,
  or \<open>-1\<close> when the buffer is too short; \<open>None\<close> is a read outside of the buffer or an
  overflow of the \<open>int\<close> in which the end of a container is computed.
\<close>

subsection \<open>Sizes\<close>

definition serialized_size_prim :: "('a \<Rightarrow> bytes) \<Rightarrow> 'a \<Rightarrow> int" where
  "serialized_size_prim enc v = int (length (enc v))"

definition serialized_size_databuffer :: "('a \<Rightarrow> int) \<Rightarrow> 'a list \<Rightarrow> int" where
  "serialized_size_databuffer elem_size data = foldl (\<lambda>ret x. ret + elem_size x) 4 data"

text \<open>Fundamental element types take the size of the raw array instead.\<close>

definition serialized_size_fundamental :: "int \<Rightarrow> 'a list \<Rightarrow> int" where
  "serialized_size_fundamental item_size data = item_size * int (length data) + 4"

definition serialized_size_string :: "bytes \<Rightarrow> int" where
  "serialized_size_string str = 4 + (int (length str) + 1)"

subsection \<open>Serialisation\<close>

definition serialize_prim :: "('a \<Rightarrow> bytes) \<Rightarrow> bytes \<Rightarrow> 'a \<Rightarrow> bytes" where
  "serialize_prim enc ser v = encode_ascending_to enc ser v"

definition serialize_bool :: "bytes \<Rightarrow> bool \<Rightarrow> bytes" where
  "serialize_bool ser v = encode_ascending_to encode_ascending_u8 ser (if v then 1 else 0)"

text \<open>\<open>memcpy\<close> of \<open>src\<close> over the bytes of \<open>ser\<close> from \<open>pos\<close> on.\<close>

definition patch :: "bytes \<Rightarrow> nat \<Rightarrow> bytes \<Rightarrow> bytes" where
  "patch ser pos src = take pos ser @ src @ drop (pos + length src) ser"

definition serialize_databuffer :: "(bytes \<Rightarrow> 'a \<Rightarrow> bytes) \<Rightarrow> bytes \<Rightarrow> 'a list \<Rightarrow> bytes" where
  "serialize_databuffer serialize_elem ser data =
     (let size_offset = length ser;
          ser = ser @ [0, 0, 0, 0];
          ser = foldl serialize_elem ser data;
          size = of_nat (length ser - size_offset - 4) :: u32
      in patch ser size_offset (encode_ascending_u32 size))"

definition serialize_string :: "bytes \<Rightarrow> bytes \<Rightarrow> bytes" where
  "serialize_string ser str =
     (let size = of_nat (length str + 1) :: u32
      in encode_ascending_to encode_ascending_u32 ser size @ str @ [0])"

subsection \<open>Deserialisation\<close>

text \<open>
  The data types that a foreign record may have used for an integer field, by their identifier
  with the enumeration and vector bits cleared.
\<close>

datatype int_type = uint8 | boolean | int8 | uint16 | int16 | uint32 | int32 | uint64 | int64

text \<open>
  \<open>val_\<close> is uninitialised and is copied to the result even when the buffer is too short.
\<close>

definition deserialize_int ::
  "u64 \<Rightarrow> bytes \<Rightarrow> int_type \<Rightarrow> int \<Rightarrow> ('a::len word \<times> int) option" where
  "deserialize_int uninit ser foreign_type offset =
     (case foreign_type of
        uint8 \<Rightarrow> map_option (map_prod ucast id) (decode_ascending_u8 (ucast uninit) ser offset)
      | boolean \<Rightarrow> map_option (map_prod ucast id) (decode_ascending_u8 (ucast uninit) ser offset)
      | int8 \<Rightarrow> map_option (map_prod scast id) (decode_ascending_i8 (ucast uninit) ser offset)
      | uint16 \<Rightarrow> map_option (map_prod ucast id) (decode_ascending_u16 (ucast uninit) ser offset)
      | int16 \<Rightarrow> map_option (map_prod scast id) (decode_ascending_i16 (ucast uninit) ser offset)
      | uint32 \<Rightarrow> map_option (map_prod ucast id) (decode_ascending_u32 (ucast uninit) ser offset)
      | int32 \<Rightarrow> map_option (map_prod scast id) (decode_ascending_i32 (ucast uninit) ser offset)
      | uint64 \<Rightarrow> map_option (map_prod ucast id) (decode_ascending_u64 uninit ser offset)
      | int64 \<Rightarrow> map_option (map_prod scast id) (decode_ascending_i64 uninit ser offset))"

text \<open>
  The loop of the container overload: an element is default constructed by \<open>data[i]\<close> and then
  filled. \<open>limit\<close> is an \<open>int\<close>, computed with a signed size: a malformed size may overflow it. A loop whose element overload does not
  advance would not end; \<open>partial_function\<close> makes that \<open>None\<close>. The comparison of the
  sizes that debug builds assert at the end is left out.
\<close>

partial_function (option) deserialize_loop ::
  "'a \<Rightarrow> ('a \<Rightarrow> bytes \<Rightarrow> int \<Rightarrow> ('a \<times> int) option) \<Rightarrow> bytes \<Rightarrow> int \<Rightarrow> 'a list \<Rightarrow> int \<Rightarrow> ('a list \<times> int) option"
where
  "deserialize_loop dflt deserialize_elem ser limit data offset =
     (if offset < limit
      then (case deserialize_elem dflt ser offset of
              None \<Rightarrow> None
            | Some (x, offset') \<Rightarrow>
                if offset' < 0 then Some (data @ [x], -1)
                else deserialize_loop dflt deserialize_elem ser limit (data @ [x]) offset')
      else Some (data, offset))"

definition deserialize_databuffer ::
  "u32 \<Rightarrow> 'a \<Rightarrow> ('a \<Rightarrow> bytes \<Rightarrow> int \<Rightarrow> ('a \<times> int) option) \<Rightarrow> bytes \<Rightarrow> int \<Rightarrow> ('a list \<times> int) option"
where
  "deserialize_databuffer uninit dflt deserialize_elem ser offset = do {
     (size, offset) \<leftarrow> decode_ascending_u32 uninit ser offset;
     if offset < 0 then Some ([], -1)
     else let limit = offset + sint size
          in if - (2 ^ 31) \<le> limit \<and> limit < 2 ^ 31 then deserialize_loop dflt deserialize_elem ser limit [] offset else None
   }"

text \<open>
  \<open>copy_raw\<close> replaces the string; a stored size of at most one leaves it unchanged. Only
  \<open>size\<close> bytes are checked to be present, not the terminating zero.
\<close>

definition deserialize_string :: "u32 \<Rightarrow> bytes \<Rightarrow> bytes \<Rightarrow> int \<Rightarrow> (bytes \<times> int) option" where
  "deserialize_string uninit str ser offset = do {
     (size, offset) \<leftarrow> decode_ascending_u32 uninit ser offset;
     if offset < 0 then Some (str, -1)
     else let size = (if size > 0 then size - 1 else size) in
       if size > 0 \<and> uint size > int (length ser) - offset then Some (str, -1)
       else Some (if size > 0 then take (unat size) (drop (nat offset) ser) else str,
                  offset + uint size + 1)
   }"

subsection \<open>Containers\<close>

lemma patch_placeholder: "length src = length old \<Longrightarrow> patch (pre @ old @ post) (length pre) src = pre @ src @ post"
  by (simp add: patch_def)

lemma foldl_appending:
  assumes "\<And>ser x. f ser x = ser @ g x"
  shows "foldl f ser xs = ser @ concat (map g xs)"
  using assms by (induction xs arbitrary: ser) auto

lemma serialize_databuffer_append:
  assumes "\<And>ser x. serialize_elem ser x = ser @ g x"
  shows "serialize_databuffer serialize_elem ser data =
    ser @ encode_ascending_u32 (of_nat (length (concat (map g data)))) @ concat (map g data)"
proof -
  have "foldl serialize_elem (ser @ [0, 0, 0, 0]) data = ser @ [0, 0, 0, 0] @ concat (map g data)"
    by (simp add: foldl_appending [OF assms])
  then show ?thesis
    by (simp add: serialize_databuffer_def patch_placeholder [of _ "[0, 0, 0, 0]", simplified] Let_def)
qed

text \<open>
  The contract of an element overload: serialisation appends, the announced size is the number of
  bytes appended, and deserialisation at the right position returns the value and the position
  after it.
\<close>

locale element_serializer =
  fixes ser_elem :: "bytes \<Rightarrow> 'a \<Rightarrow> bytes"
    and body :: "'a \<Rightarrow> bytes"
    and size_elem :: "'a \<Rightarrow> int"
    and deser_elem :: "'a \<Rightarrow> bytes \<Rightarrow> int \<Rightarrow> ('a \<times> int) option"
    and dflt :: 'a
    and valid :: "'a \<Rightarrow> bool"
  assumes ser_append: "ser_elem ser x = ser @ body x"
    and size_body: "size_elem x = int (length (body x))"
    and body_nonempty: "body x \<noteq> []"
    and deser_body: "valid x \<Longrightarrow>
      deser_elem dflt (pre @ body x @ post) (int (length pre)) = Some (x, int (length pre + length (body x)))"
begin

lemma loop_body:
  "list_all valid xs \<Longrightarrow>
    deserialize_loop dflt deser_elem (pre @ concat (map body xs) @ post)
      (int (length pre + length (concat (map body xs)))) data (int (length pre)) =
    Some (data @ xs, int (length pre + length (concat (map body xs))))"
proof (induction xs arbitrary: pre data)
  case Nil
  show ?case by (subst deserialize_loop.simps) simp
next
  case (Cons x xs)
  have "deserialize_loop dflt deser_elem ((pre @ body x) @ concat (map body xs) @ post)
      (int (length (pre @ body x) + length (concat (map body xs)))) (data @ [x]) (int (length (pre @ body x))) =
    Some ((data @ [x]) @ xs, int (length (pre @ body x) + length (concat (map body xs))))"
    using Cons by (intro Cons.IH) simp
  moreover have "deser_elem dflt (pre @ body x @ concat (map body xs) @ post) (int (length pre)) =
      Some (x, int (length pre + length (body x)))"
    using Cons.prems by (intro deser_body) simp
  moreover have "int (length pre) < int (length pre + length (concat (map body (x # xs))))"
    using body_nonempty [of x] by simp (metis add_pos_nonneg length_greater_0_conv of_nat_0_le_iff of_nat_0_less_iff)
  ultimately show ?case
    by (subst deserialize_loop.simps) (simp add: add.assoc)
qed

theorem databuffer_roundtrip:
  assumes "list_all valid xs" and "length (serialize_databuffer ser_elem ser xs) < 2 ^ 31"
  shows "deserialize_databuffer uninit dflt deser_elem
      (serialize_databuffer ser_elem ser xs @ post) (int (length ser)) =
    Some (xs, int (length (serialize_databuffer ser_elem ser xs)))"
proof -
  let ?b = "concat (map body xs)"
  let ?n = "of_nat (length ?b) :: u32"
  have l: "int (length ser) + 4 + int (length ?b) < 2 ^ 31"
    using assms(2) by (simp add: serialize_databuffer_append [OF ser_append])
  then have "sint ?n = int (length ?b)"
    by (simp add: sint_uint signed_take_bit_int_eq_self take_bit_eq_mod unsigned_of_nat)
  moreover have "deserialize_loop dflt deser_elem ((ser @ encode_ascending_u32 ?n) @ ?b @ post)
      (int (length (ser @ encode_ascending_u32 ?n) + length ?b)) [] (int (length (ser @ encode_ascending_u32 ?n))) =
    Some ([] @ xs, int (length (ser @ encode_ascending_u32 ?n) + length ?b))"
    using assms(1) by (rule loop_body)
  ultimately show ?thesis
    using l by (simp add: serialize_databuffer_append [OF ser_append] deserialize_databuffer_def u32.dec_enc Let_def
        add.assoc add.left_commute)
qed

lemma databuffer_size:
  "int (length (serialize_databuffer ser_elem ser xs)) =
    int (length ser) + serialized_size_databuffer size_elem xs"
proof -
  have "foldl (\<lambda>ret x. ret + size_elem x) k xs = k + int (length (concat (map body xs)))" for k
    by (induction xs arbitrary: k) (auto simp: size_body)
  then show ?thesis
    by (simp add: serialize_databuffer_append [OF ser_append] serialized_size_databuffer_def)
qed

end

sublocale ascending_codec < prim: element_serializer "serialize_prim enc" enc
  "serialized_size_prim enc" dec dflt "\<lambda>_. True" for dflt
  by unfold_locales
    (use width_pos in \<open>auto simp: serialize_prim_def encode_to_append serialized_size_prim_def
      dec_enc enc_length simp flip: length_greater_0_conv\<close>)

context ascending_codec
begin

lemma fundamental_size:
  "int (length (serialize_databuffer (serialize_prim enc) ser xs)) =
    int (length ser) + serialized_size_fundamental (int width) xs"
proof -
  have "length (concat (map enc xs)) = width * length xs"
    by (induction xs) (auto simp: enc_length)
  then show ?thesis
    by (simp add: serialize_databuffer_append [OF prim.ser_append] serialized_size_fundamental_def)
qed

end

definition string_body :: "bytes \<Rightarrow> bytes" where
  "string_body str = encode_ascending_u32 (of_nat (length str + 1)) @ str @ [0]"

interpretation str: element_serializer serialize_string string_body serialized_size_string
  "deserialize_string uninit" "[]" "\<lambda>s. length s + 1 < 2 ^ 32" for uninit
proof
  show "serialize_string ser x = ser @ string_body x" for ser x
    by (simp add: serialize_string_def encode_to_append string_body_def)
  show "serialized_size_string x = int (length (string_body x))" for x
    by (simp add: serialized_size_string_def string_body_def)
  show "string_body x \<noteq> []" for x by (simp add: string_body_def)
  show "deserialize_string uninit [] (pre @ string_body x @ post) (int (length pre)) =
      Some (x, int (length pre + length (string_body x)))" if "length x + 1 < 2 ^ 32" for pre x post
  proof -
    let ?n = "of_nat (length x + 1) :: u32"
    have n: "unat ?n = length x + 1" using that by (simp only: unsigned_of_nat take_bit_eq_mod) simp
    then have nz: "?n \<noteq> 0" by (metis add_is_0 one_neq_zero unat_0)
    then have pos: "?n > 0" by (simp only: word_gt_0 not_False_eq_True)
    have "unat (?n - 1) = unat ?n - 1" using nz by (rule unat_minus_one)
    then have pred: "unat (?n - 1) = length x" by (simp only: n add_diff_cancel_right')
    from pred have upred: "uint (?n - 1) = int (length x)" by (simp only: uint_nat)
    have "drop (length pre + 4) (pre @ encode_ascending_u32 ?n @ x @ 0 # post) = x @ 0 # post"
      by simp
    then show ?thesis using pos pred upred
      by (auto simp: deserialize_string_def string_body_def u32.dec_enc nat_add_distrib Let_def
          unat_gt_0 word_gt_0)
  qed
qed

subsection \<open>Properties\<close>

text \<open>C15: A serialised vector of integers, a serialised byte buffer (whose bytes are stored with
  the sign bit flipped) and a serialised vector of strings are read back unchanged, whatever precedes
  and follows them, and the offset returned is the end of the serialised data; that end must stay
  below \<open>2 ^ 31\<close>, the range of the offsets that the reader computes with.\<close>

theorem container_roundtrip:
  assumes "length (serialize_databuffer (serialize_prim encode_ascending_i32) ser is) < 2 ^ 31"
    and "length (serialize_databuffer (serialize_prim encode_ascending_i8) ser cs) < 2 ^ 31"
    and "length (serialize_databuffer serialize_string ser ss) < 2 ^ 31"
    and "list_all (\<lambda>s. length s + 1 < 2 ^ 32) ss"
  shows "deserialize_databuffer uninit 0 decode_ascending_i32
      (serialize_databuffer (serialize_prim encode_ascending_i32) ser is @ post) (int (length ser)) =
      Some (is, int (length (serialize_databuffer (serialize_prim encode_ascending_i32) ser is))) \<and>
    deserialize_databuffer uninit 0 decode_ascending_i8
      (serialize_databuffer (serialize_prim encode_ascending_i8) ser cs @ post) (int (length ser)) =
      Some (cs, int (length (serialize_databuffer (serialize_prim encode_ascending_i8) ser cs))) \<and>
    deserialize_databuffer uninit [] (deserialize_string uninit)
      (serialize_databuffer serialize_string ser ss @ post) (int (length ser)) =
      Some (ss, int (length (serialize_databuffer serialize_string ser ss)))"
  using assms by (auto intro!: i32.prim.databuffer_roundtrip i8.prim.databuffer_roundtrip
      str.databuffer_roundtrip simp: list_all_iff)

theorem container_roundtrip_witness:
  "deserialize_databuffer 0 [] (deserialize_string 0)
      (serialize_databuffer serialize_string [7] [[65, 66], [67]] @ [9]) 1 =
      Some ([[65, 66], [67]], int (length (serialize_databuffer serialize_string [7] [[65, 66], [67]])))"
proof -
  have "length (serialize_databuffer (serialize_prim encode_ascending_i32) [7] []) < 2 ^ 31"
    "length (serialize_databuffer (serialize_prim encode_ascending_i8) [7] []) < 2 ^ 31"
    "length (serialize_databuffer serialize_string [7] [[65, 66], [67]]) < 2 ^ 31"
    by (simp_all add: serialize_databuffer_append [OF i32.prim.ser_append] serialize_databuffer_append [OF i8.prim.ser_append]
        serialize_databuffer_append [OF str.ser_append] string_body_def)
  from container_roundtrip [OF this, of 0 "[9]"] show ?thesis by simp
qed

text \<open>The size announced for a container or a string is exactly the number of bytes that
  serialising it appends, for both ways in which the size of a vector is computed.\<close>

theorem serialized_size_exact:
  "(int (length (serialize_databuffer serialize_string ser ss)) =
    int (length ser) + serialized_size_databuffer serialized_size_string ss) \<and>
   (int (length (serialize_databuffer (serialize_prim encode_ascending_u16) ser us)) =
    int (length ser) + serialized_size_fundamental 2 us) \<and>
   (int (length (serialize_databuffer (serialize_prim encode_ascending_u16) ser us)) =
    int (length ser) + serialized_size_databuffer (serialized_size_prim encode_ascending_u16) us) \<and>
   (int (length (serialize_string ser s)) = int (length ser) + serialized_size_string s)"
  using str.databuffer_size u16.fundamental_size u16.prim.databuffer_size
    str.ser_append str.size_body by simp_all

text \<open>An integer field written with one type and read with a record definition that uses a
  wider type keeps its value: unsigned types and booleans are zero extended, signed types sign
  extended.\<close>

theorem deserialize_int_converts:
  "(deserialize_int uninit (pre @ encode_ascending_u8 x8 @ post) uint8 (int (length pre)) =
    Some (ucast x8, int (length pre) + 1)) \<and>
   (deserialize_int uninit (pre @ encode_ascending_u8 x8 @ post) boolean (int (length pre)) =
    Some (ucast x8, int (length pre) + 1)) \<and>
   (deserialize_int uninit (pre @ encode_ascending_i8 x8 @ post) int8 (int (length pre)) =
    Some (scast x8, int (length pre) + 1)) \<and>
   (deserialize_int uninit (pre @ encode_ascending_u16 x16 @ post) uint16 (int (length pre)) =
    Some (ucast x16, int (length pre) + 2)) \<and>
   (deserialize_int uninit (pre @ encode_ascending_i16 x16 @ post) int16 (int (length pre)) =
    Some (scast x16, int (length pre) + 2)) \<and>
   (deserialize_int uninit (pre @ encode_ascending_u32 x32 @ post) uint32 (int (length pre)) =
    Some (ucast x32, int (length pre) + 4)) \<and>
   (deserialize_int uninit (pre @ encode_ascending_i32 x32 @ post) int32 (int (length pre)) =
    Some (scast x32, int (length pre) + 4)) \<and>
   (deserialize_int uninit (pre @ encode_ascending_u64 x64 @ post) uint64 (int (length pre)) =
    Some (ucast x64, int (length pre) + 8)) \<and>
   (deserialize_int uninit (pre @ encode_ascending_i64 x64 @ post) int64 (int (length pre)) =
    Some (scast x64, int (length pre) + 8)) \<and>
   (uint (ucast x8 :: u16) = uint x8) \<and>
   (sint (scast x8 :: u16) = sint x8) \<and>
   (uint (ucast x16 :: u32) = uint x16) \<and>
   (sint (scast x16 :: u32) = sint x16) \<and>
   (uint (ucast x32 :: u64) = uint x32) \<and>
   (sint (scast x32 :: u64) = sint x32)"
  by (simp_all add: deserialize_int_def u8.dec_enc i8.dec_enc u16.dec_enc i16.dec_enc u32.dec_enc
      i32.dec_enc u64.dec_enc i64.dec_enc uint_ucast_up sint_scast_up)

end
