(* ===== verification/Section_Header.thy ===== *)
theory Section_Header
  imports Prelude
begin

text \<open>
  The header of a PSI/SI section (\<open>section_header_t\<close> in
  \<open>receiver/streamparser/section.h\<close>) and its classification by table and pid.
\<close>

record section_header_t =
  pid :: u16
  len :: u16
  header_len :: u16
  table_id_extension :: u16
  table_id_extension1 :: u16
  table_id_extension2 :: u16
  segment_last_section_number :: int
  table_id :: u8
  last_table_id :: u8
  version_number :: u8
  section_number :: u8
  last_section_number :: u8
  current_next :: bool
  section_syntax_indicator :: bool
  private_bit :: bool

definition default_section_header :: section_header_t where
  "default_section_header = \<lparr>pid = 0x1fff, len = 0, header_len = 0, table_id_extension = 0,
     table_id_extension1 = 0, table_id_extension2 = 0, segment_last_section_number = 0, table_id = 0,
     last_table_id = 0, version_number = 0, section_number = 0, last_section_number = 0,
     current_next = True, section_syntax_indicator = False, private_bit = False\<rparr>"

definition is_sdt :: "section_header_t \<Rightarrow> bool" where
  "is_sdt h \<longleftrightarrow> section_syntax_indicator h \<and> (table_id h = 0x42 \<or> table_id h = 0x46)"

definition is_freesat_eit :: "section_header_t \<Rightarrow> bool" where
  "is_freesat_eit h \<longleftrightarrow> section_syntax_indicator h \<and>
     (pid h = 3004 \<or> pid h = 3003 \<or> pid h = 3842 \<or> pid h = 3843)"

definition is_eit :: "section_header_t \<Rightarrow> bool" where
  "is_eit h \<longleftrightarrow> (section_syntax_indicator h \<and> table_id h \<ge> 0x4e \<and> table_id h \<le> 0x6f) \<or> is_freesat_eit h"

definition is_sky_summary :: "section_header_t \<Rightarrow> bool" where
  "is_sky_summary h \<longleftrightarrow> section_syntax_indicator h \<and> pid h \<ge> 0x40 \<and> pid h < 0x48"

definition is_mhw2 :: "section_header_t \<Rightarrow> bool" where
  "is_mhw2 h \<longleftrightarrow> section_syntax_indicator h \<and> ((pid h \<ge> 561 \<and> pid h < 567) \<or> pid h = 644)"

definition is_sky_title :: "section_header_t \<Rightarrow> bool" where
  "is_sky_title h \<longleftrightarrow> section_syntax_indicator h \<and> pid h \<ge> 0x30 \<and> pid h < 0x38"

end
