(* ===== verification/Si_State.thy ===== *)
theory Si_State
  imports Section_Header
begin

text \<open>
  Tracking of received sections (\<open>receiver/streamparser/si_state.h\<close> and
  \<open>si_state.cc\<close>). A parser keeps one completion record per subtable, a bit per section
  number, and one timeout per table id. Readings of the steady clock are arguments, in nanoseconds; a
  function that reads the clock several times takes the readings in order. \<open>None\<close> is a failed
  assertion. Records are kept in an association list ordered by insertion, with the 64-bit key by
  which \<open>std::map\<close> compares subtables.
\<close>

subsection \<open>Timeouts\<close>

definition default_timeout :: "u8 \<Rightarrow> int" where
  "default_timeout tid =
     (if tid = 0x0 then 40000
      else if tid = 0x2 then 1000
      else if tid = 0x40 \<or> tid = 0x41 then 40000
      else if tid = 0x42 then 20000
      else if tid = 0x46 then 40000
      else if tid = 0x4a then 40000
      else if tid = 0x4e then 4000
      else if tid = 0x4f then 20000
      else if 0x50 \<le> tid \<and> tid \<le> 0x5f then 30000
      else if 0x60 \<le> tid \<and> tid \<le> 0x6f then 300000
      else if tid \<in> {0x95, 0x96, 0x97, 0xc8, 0xd2, 0xdc, 0xdd, 0xe6, 0xf0, 0xf2, 0xf3, 0xfa} then 300000
      else if tid = 0xd1 \<or> tid = 0xd5 then 300000
      else if 0xa0 \<le> tid \<and> tid \<le> 0xab then 300000
      else 20000)"

record table_timeout_t =
  start_time :: int
  has_timedout :: bool
  timeoutms :: int
  timeout_table_id :: u8

definition new_table_timeout :: "int \<Rightarrow> u8 \<Rightarrow> table_timeout_t" where
  "new_table_timeout now tid =
     \<lparr>start_time = now, has_timedout = False, timeoutms = default_timeout tid, timeout_table_id = tid\<rparr>"

definition timeout_reset :: "int \<Rightarrow> int \<Rightarrow> table_timeout_t \<Rightarrow> table_timeout_t" where
  "timeout_reset now1 now2 t = (new_table_timeout now1 (timeout_table_id t))\<lparr>start_time := now2\<rparr>"

text \<open>A timeout is reported once.\<close>

definition table_timedout_now :: "int \<Rightarrow> table_timeout_t \<Rightarrow> bool \<times> table_timeout_t" where
  "table_timedout_now now t =
     (if \<not> has_timedout t
      then let timedout = (now - start_time t > timeoutms t * 1000000)
           in (timedout, t\<lparr>has_timedout := timedout\<rparr>)
      else (False, t))"

definition table_timedout :: "int \<Rightarrow> int \<Rightarrow> table_timeout_t \<Rightarrow> bool \<times> table_timeout_t" where
  "table_timedout now last_reset_time t =
     (if has_timedout t then (True, t)
      else if last_reset_time > start_time t then (False, t\<lparr>start_time := last_reset_time\<rparr>)
      else if now - start_time t > timeoutms t * 1000000 then (True, t\<lparr>has_timedout := True\<rparr>)
      else (False, t))"

subsection \<open>Completion of one subtable\<close>

datatype section_type_t = DUPLICATE | COMPLETE | NEW | LAST | BAD_VERSION

record completion_status_t =
  cs_version_number :: int
  cs_last_section_number :: int
  count :: int
  maxcount :: int
  completed :: bool
  section_flags :: "u32 list"

definition empty_completion_status :: completion_status_t where
  "empty_completion_status = \<lparr>cs_version_number = -1, cs_last_section_number = -1, count = 0,
     maxcount = 0, completed = False, section_flags = replicate 16 0\<rparr>"

definition new_completion_status :: "section_header_t \<Rightarrow> completion_status_t" where
  "new_completion_status hdr = empty_completion_status\<lparr>cs_version_number := uint (version_number hdr),
     cs_last_section_number := uint (last_section_number hdr),
     maxcount := uint (last_section_number hdr) + 1\<rparr>"

definition completion_reset :: "section_header_t \<Rightarrow> completion_status_t \<Rightarrow> completion_status_t" where
  "completion_reset hdr cs = new_completion_status hdr"

definition set_flag_idx :: "nat \<Rightarrow> completion_status_t \<Rightarrow> (bool \<times> completion_status_t) option" where
  "set_flag_idx idx cs =
     (let idx2 = idx mod 32;
          idx1 = (idx - idx2) div 32
      in if idx1 < length (section_flags cs)
         then let v = section_flags cs ! idx1;
                  mask = push_bit idx2 1 :: u32
              in Some (v AND mask \<noteq> 0, cs\<lparr>section_flags := (section_flags cs)[idx1 := v OR mask]\<rparr>)
         else None)"

text \<open>The sections after the last one of a segment, up to the end of its group of eight.\<close>

definition segment_gap :: "section_header_t \<Rightarrow> nat list" where
  "segment_gap hdr =
     (let n = unat (section_number hdr)
      in filter (\<lambda>i. i < unat (last_section_number hdr)) [n + 1 ..< n + (7 - n mod 8) + 1])"

fun set_gap_flags :: "nat list \<Rightarrow> completion_status_t \<Rightarrow> completion_status_t option" where
  "set_gap_flags [] cs = Some cs"
| "set_gap_flags (i # is) cs = do {
     (ex, cs) \<leftarrow> set_flag_idx i cs;
     set_gap_flags is (cs\<lparr>count := count cs + (if ex then 0 else 1)\<rparr>)
   }"

definition set_flag ::
  "section_header_t \<Rightarrow> completion_status_t \<Rightarrow> (section_type_t \<times> completion_status_t) option" where
  "set_flag hdr cs =
     (if section_number hdr > last_section_number hdr \<and> section_syntax_indicator hdr
      then Some (NEW, cs)
      else if completed cs then None
      else do {
        (ex, cs) \<leftarrow> set_flag_idx (unat (section_number hdr)) cs;
        cs \<leftarrow> (if \<not> ex
              then let cs = cs\<lparr>count := count cs + 1\<rparr>
                   in if section_syntax_indicator hdr \<and>
                         uint (section_number hdr) = segment_last_section_number hdr \<and>
                         segment_last_section_number hdr < uint (last_section_number hdr)
                      then set_gap_flags (segment_gap hdr) cs
                      else Some cs
              else Some cs);
        if count cs \<le> maxcount cs
        then let cs = cs\<lparr>completed := (count cs = maxcount cs)\<rparr>
             in Some (if ex then (if completed cs then COMPLETE else DUPLICATE)
                      else (if completed cs then LAST else NEW), cs)
        else None
      })"

subsection \<open>All subtables of a parser\<close>

record subtable_key_t =
  key_extension :: u16
  key_extension1 :: u16
  key_extension2 :: u16
  key_table_id :: u16

definition subtable_key :: "section_header_t \<Rightarrow> subtable_key_t" where
  "subtable_key hdr = \<lparr>key_extension = table_id_extension hdr, key_extension1 = table_id_extension1 hdr,
     key_extension2 = table_id_extension2 hdr, key_table_id = ucast (table_id hdr)\<rparr>"

definition subtable_key_for :: "section_header_t \<Rightarrow> nat \<Rightarrow> subtable_key_t" where
  "subtable_key_for hdr tid = (subtable_key hdr)\<lparr>key_table_id := of_nat tid\<rparr>"

text \<open>The table id is a signed 16-bit number and is sign extended.\<close>

definition key_value :: "subtable_key_t \<Rightarrow> u64" where
  "key_value k = push_bit 48 (ucast (key_extension k)) OR push_bit 32 (ucast (key_extension1 k)) OR
     push_bit 16 (ucast (key_extension2 k)) OR scast (key_table_id k)"

record parser_status_t =
  last_new_section :: int
  last_section :: int
  count_completed :: int
  all_completed :: bool
  last_cc_error_count :: int
  last_cc_error_time :: int
  cstates :: "(u64 \<times> completion_status_t) list"
  table_timeouts :: "u8 \<Rightarrow> table_timeout_t option"

definition new_parser_status :: parser_status_t where
  "new_parser_status = \<lparr>last_new_section = 0, last_section = 0, count_completed = 0,
     all_completed = False, last_cc_error_count = 0, last_cc_error_time = 0, cstates = [],
     table_timeouts = (\<lambda>_. None)\<rparr>"

definition parser_reset_all :: "parser_status_t \<Rightarrow> parser_status_t" where
  "parser_reset_all ps = new_parser_status"

definition try_emplace ::
  "u64 \<Rightarrow> completion_status_t \<Rightarrow> (u64 \<times> completion_status_t) list \<Rightarrow> (u64 \<times> completion_status_t) list" where
  "try_emplace k v m = (if map_of m k = None then m @ [(k, v)] else m)"

definition put :: "u64 \<Rightarrow> completion_status_t \<Rightarrow> (u64 \<times> completion_status_t) list \<Rightarrow> (u64 \<times> completion_status_t) list" where
  "put k v m = map (\<lambda>(k', v'). if k' = k then (k', v) else (k', v')) m"

definition emplace_group ::
  "section_header_t \<Rightarrow> nat list \<Rightarrow> (u64 \<times> completion_status_t) list \<Rightarrow> (u64 \<times> completion_status_t) list" where
  "emplace_group hdr tids m = foldl (\<lambda>m tid. if tid \<noteq> unat (table_id hdr)
     then try_emplace (key_value (subtable_key_for hdr tid)) empty_completion_status m else m) m tids"

text \<open>
  The record for a section, created when missing; a schedule section also creates empty records for
  the other tables of its group of sixteen, so that the parser waits for all of them.
\<close>

definition completion_status_for_section ::
  "section_header_t \<Rightarrow> (u64 \<times> completion_status_t) list \<Rightarrow> (u64 \<times> completion_status_t) list option" where
  "completion_status_for_section hdr m =
     (let k = key_value (subtable_key hdr);
          inserted = (map_of m k = None);
          m = try_emplace k (new_completion_status hdr) m
      in if table_id hdr \<ge> 0x50 \<and> table_id hdr \<le> 0x6F
         then let m = (case map_of m k of
                         Some cs \<Rightarrow> if \<not> inserted \<and> cs_version_number cs < 0
                                    then put k (completion_reset hdr cs) m else m
                       | None \<Rightarrow> m)
              in if inserted
                 then let first_table_id = table_id hdr AND NOT 0xf
                      in if first_table_id = last_table_id hdr AND NOT 0xf
                         then Some (emplace_group hdr [unat first_table_id ..< unat (last_table_id hdr) + 1] m)
                         else None
                 else Some m
         else Some m)"

text \<open>\<open>check\<close> first notes the time and the error count, then looks the subtable up.\<close>

definition note_section :: "(nat \<Rightarrow> int) \<Rightarrow> section_header_t \<Rightarrow> int \<Rightarrow> parser_status_t \<Rightarrow> parser_status_t" where
  "note_section now hdr cc_error_count ps =
     (let ps = ps\<lparr>last_section := now 0\<rparr>;
          ps = (if cc_error_count > last_cc_error_count ps
                then ps\<lparr>last_cc_error_count := cc_error_count, last_cc_error_time := now 1\<rparr> else ps);
          tid = table_id hdr
      in if table_timeouts ps tid = None
         then ps\<lparr>table_timeouts := (table_timeouts ps)(tid \<mapsto> new_table_timeout (now 2) tid)\<rparr> else ps)"

definition check_section ::
  "(nat \<Rightarrow> int) \<Rightarrow> section_header_t \<Rightarrow> parser_status_t \<Rightarrow> ((bool \<times> bool \<times> section_type_t) \<times> parser_status_t) option"
where
  "check_section now hdr ps =
     (let k = key_value (subtable_key hdr);
          tid = table_id hdr
      in do {
        m \<leftarrow> completion_status_for_section hdr (cstates ps);
        let ps = ps\<lparr>cstates := m\<rparr>;
        cstate \<leftarrow> map_of m k;
        if \<not> (count_completed ps \<le> int (length m)) then None
        else if \<not> current_next hdr \<or> cs_version_number cstate \<noteq> uint (version_number hdr)
        then Some ((False, True, BAD_VERSION), ps)
        else if completed cstate then Some ((False, False, COMPLETE), ps)
        else do {
          (st, cstate) \<leftarrow> set_flag hdr cstate;
          let ps = ps\<lparr>cstates := put k cstate m\<rparr>;
          case st of
            COMPLETE \<Rightarrow> None
          | NEW \<Rightarrow> Some ((False, False, NEW), ps\<lparr>last_section := now 3, last_new_section := now 3\<rparr>)
          | DUPLICATE \<Rightarrow> (case table_timeouts ps tid of
                None \<Rightarrow> None
              | Some t \<Rightarrow>
                  let (timedout, t) = table_timedout_now (now 4) t
                  in Some ((timedout, False, DUPLICATE),
                       ps\<lparr>last_section := now 3, table_timeouts := (table_timeouts ps)(tid \<mapsto> t)\<rparr>))
          | BAD_VERSION \<Rightarrow> None
          | LAST \<Rightarrow>
              (if completed cstate \<and> count_completed ps < int (length m)
               then let n = count_completed ps + 1;
                        ps = ps\<lparr>count_completed := n, all_completed := (n = int (length m)),
                               last_section := now 3, last_new_section := now 4\<rparr>
                    in Some ((False, False, if all_completed ps then LAST else NEW), ps)
               else None)
        }
      })"

definition check ::
  "(nat \<Rightarrow> int) \<Rightarrow> section_header_t \<Rightarrow> int \<Rightarrow> parser_status_t \<Rightarrow> ((bool \<times> bool \<times> section_type_t) \<times> parser_status_t) option"
where
  "check now hdr cc_error_count ps = check_section now hdr (note_section now hdr cc_error_count ps)"

definition parser_reset ::
  "(nat \<Rightarrow> int) \<Rightarrow> section_header_t \<Rightarrow> parser_status_t \<Rightarrow> parser_status_t option" where
  "parser_reset now hdr ps =
     (let ps = ps\<lparr>last_cc_error_time := now 0\<rparr>;
          tid = table_id hdr;
          ps = (case table_timeouts ps tid of
                  None \<Rightarrow> ps
                | Some t \<Rightarrow> ps\<lparr>table_timeouts := (table_timeouts ps)(tid \<mapsto> timeout_reset (now 1) (now 2) t)\<rparr>);
          k = key_value (subtable_key hdr)
      in do {
        m \<leftarrow> completion_status_for_section hdr (cstates ps);
        cstate \<leftarrow> map_of m k;
        if \<not> (count_completed ps \<le> int (length m)) then None
        else if completed cstate \<and> \<not> (count_completed ps > 0) then None
        else let n = (if completed cstate then count_completed ps - 1 else count_completed ps)
             in Some (ps\<lparr>cstates := put k (completion_reset hdr cstate) m, count_completed := n,
                         all_completed := False\<rparr>)
      })"

definition parser_timedout_now :: "int \<Rightarrow> u8 \<Rightarrow> parser_status_t \<Rightarrow> bool \<times> parser_status_t" where
  "parser_timedout_now now tid ps =
     (case table_timeouts ps tid of
        Some t \<Rightarrow> (let (r, t) = table_timedout_now now t
                   in (r, ps\<lparr>table_timeouts := (table_timeouts ps)(tid \<mapsto> t)\<rparr>))
      | None \<Rightarrow> (True, ps))"

definition get_counts :: "parser_status_t \<Rightarrow> int \<times> int" where
  "get_counts ps = (count_completed ps, int (length (cstates ps)))"

subsection \<open>Section flags as a set\<close>

definition flags :: "completion_status_t \<Rightarrow> nat set" where
  "flags cs = {i. i < 512 \<and> bit (section_flags cs ! (i div 32)) (i mod 32)}"

lemma finite_flags [simp]: "finite (flags cs)"
  by (simp add: flags_def)

lemma flags_update [simp]:
  "flags (cs\<lparr>count := c\<rparr>) = flags cs" "flags (cs\<lparr>completed := b\<rparr>) = flags cs"
  by (simp_all add: flags_def)

lemma set_flag_idx_spec:
  assumes "length (section_flags cs) = 16" "idx < 512"
  obtains fs where "set_flag_idx idx cs = Some (idx \<in> flags cs, cs\<lparr>section_flags := fs\<rparr>)"
    and "length fs = 16" and "flags (cs\<lparr>section_flags := fs\<rparr>) = insert idx (flags cs)"
proof
  let ?v = "section_flags cs ! (idx div 32)"
  let ?fs = "(section_flags cs)[idx div 32 := ?v OR push_bit (idx mod 32) 1]"
  have i1: "(idx - idx mod 32) div 32 = idx div 32" by (simp add: minus_mod_eq_mult_div)
  have lt: "idx div 32 < 16" using assms(2) by simp
  have m32: "idx mod 32 < 32" by simp
  have "(?v AND push_bit (idx mod 32) 1 \<noteq> 0) = bit ?v (idx mod 32)"
    using and_exp_eq_0_iff_not_bit [of ?v "idx mod 32"] by (simp add: push_bit_of_1)
  then show "set_flag_idx idx cs = Some (idx \<in> flags cs, cs\<lparr>section_flags := ?fs\<rparr>)"
    using assms lt by (simp add: set_flag_idx_def i1 flags_def Let_def)
  show "length ?fs = 16" using assms(1) by simp
  have "bit (?fs ! (j div 32)) (j mod 32) \<longleftrightarrow> j = idx \<or> bit (section_flags cs ! (j div 32)) (j mod 32)"
    if "j < 512" for j
  proof (cases "j div 32 = idx div 32")
    case True
    then have "j = idx \<longleftrightarrow> j mod 32 = idx mod 32" by (metis mult_div_mod_eq)
    with True show ?thesis using assms(1) lt
      by (auto simp: bit_simps)
  next
    case False
    then show ?thesis by auto
  qed
  then show "flags (cs\<lparr>section_flags := ?fs\<rparr>) = insert idx (flags cs)"
    using assms(2) by (auto simp: flags_def)
qed

text \<open>
  The invariant of a completion record: the counter is the number of flags that are set, all of them
  belong to sections of the table, and the record is completed when all sections are flagged.
\<close>

definition cs_inv :: "completion_status_t \<Rightarrow> bool" where
  "cs_inv cs \<longleftrightarrow> length (section_flags cs) = 16 \<and> count cs = int (card (flags cs)) \<and>
     flags cs \<subseteq> {..< nat (maxcount cs)} \<and> maxcount cs = cs_last_section_number cs + 1 \<and>
     0 \<le> maxcount cs \<and> maxcount cs \<le> 256 \<and> (cs_version_number cs < 0 \<longrightarrow> maxcount cs = 0) \<and>
     (completed cs \<longleftrightarrow> 0 < maxcount cs \<and> count cs = maxcount cs)"

lemma flags_new [simp]: "flags (new_completion_status hdr) = {}" "flags empty_completion_status = {}"
proof -
  have "i div 32 < 16" if "i < 512" for i :: nat using that by simp
  then show "flags (new_completion_status hdr) = {}" "flags empty_completion_status = {}"
    by (auto simp: flags_def new_completion_status_def empty_completion_status_def)
qed

lemma cs_inv_new: "cs_inv (new_completion_status hdr)"
proof -
  have b: "uint (last_section_number hdr) < 256" "0 \<le> uint (last_section_number hdr)"
    using unsigned_less [of "last_section_number hdr"] by simp_all
  then have "uint (last_section_number hdr) + 1 \<noteq> 0" by linarith
  with b(1) show ?thesis
    using flags_new(1) [of hdr]
    by (simp add: cs_inv_def) (simp add: new_completion_status_def empty_completion_status_def)
qed

lemma cs_inv_empty: "cs_inv empty_completion_status"
  using flags_new(2) by (simp add: cs_inv_def) (simp add: empty_completion_status_def)

lemma cs_inv_completed_iff:
  assumes "cs_inv cs" "0 < maxcount cs"
  shows "completed cs \<longleftrightarrow> flags cs = {..< nat (maxcount cs)}"
proof -
  have "flags cs = {..< nat (maxcount cs)} \<longleftrightarrow> card (flags cs) = nat (maxcount cs)"
    using assms card_subset_eq [of "{..< nat (maxcount cs)}" "flags cs"] by (auto simp: cs_inv_def)
  then show ?thesis using assms by (auto simp: cs_inv_def)
qed

text \<open>A header that agrees with the record of its subtable.\<close>

definition header_fits :: "section_header_t \<Rightarrow> completion_status_t \<Rightarrow> bool" where
  "header_fits hdr cs \<longleftrightarrow> uint (last_section_number hdr) = cs_last_section_number cs \<and>
     section_number hdr \<le> last_section_number hdr"

definition gap_of :: "section_header_t \<Rightarrow> nat set" where
  "gap_of hdr =
     (if section_syntax_indicator hdr \<and> uint (section_number hdr) = segment_last_section_number hdr \<and>
         segment_last_section_number hdr < uint (last_section_number hdr)
      then set (segment_gap hdr) else {})"

lemma segment_gap_bound: "i \<in> set (segment_gap hdr) \<Longrightarrow> i < unat (last_section_number hdr)"
  by (auto simp: segment_gap_def Let_def)

lemma set_gap_flags_spec:
  "length (section_flags cs) = 16 \<Longrightarrow> count cs = int (card (flags cs)) \<Longrightarrow> (\<forall>i \<in> set is. i < 512) \<Longrightarrow>
    \<exists>fs c. set_gap_flags is cs = Some (cs\<lparr>section_flags := fs, count := c\<rparr>) \<and> length fs = 16 \<and>
      flags (cs\<lparr>section_flags := fs\<rparr>) = flags cs \<union> set is \<and> c = int (card (flags cs \<union> set is))"
proof (induction "is" arbitrary: cs)
  case Nil
  then show ?case
    by (intro exI [of _ "section_flags cs"] exI [of _ "count cs"]) simp
next
  case (Cons i "is")
  obtain fs where fs: "set_flag_idx i cs = Some (i \<in> flags cs, cs\<lparr>section_flags := fs\<rparr>)"
    "length fs = 16" "flags (cs\<lparr>section_flags := fs\<rparr>) = insert i (flags cs)"
    using set_flag_idx_spec [of cs i] Cons.prems by auto
  let ?cs = "cs\<lparr>section_flags := fs, count := count cs + (if i \<in> flags cs then 0 else 1)\<rparr>"
  have fl: "flags ?cs = insert i (flags cs)" using fs(3) by (simp add: flags_def)
  then have "count ?cs = int (card (flags ?cs))" using Cons.prems(2) by (simp add: card_insert_if)
  with Cons.IH [of ?cs] fs Cons.prems fl show ?case
    by (auto simp: flags_def insert_absorb)
qed

definition mark_gap :: "section_header_t \<Rightarrow> completion_status_t \<Rightarrow> completion_status_t option" where
  "mark_gap hdr cs =
     (if section_syntax_indicator hdr \<and> uint (section_number hdr) = segment_last_section_number hdr \<and>
         segment_last_section_number hdr < uint (last_section_number hdr)
      then set_gap_flags (segment_gap hdr) cs else Some cs)"

lemma mark_gap_spec:
  assumes "length (section_flags cs) = 16" "count cs = int (card (flags cs))"
  shows "\<exists>fs. mark_gap hdr cs = Some (cs\<lparr>section_flags := fs, count := int (card (flags cs \<union> gap_of hdr))\<rparr>) \<and>
    length fs = 16 \<and> flags (cs\<lparr>section_flags := fs\<rparr>) = flags cs \<union> gap_of hdr"
proof (cases "section_syntax_indicator hdr \<and> uint (section_number hdr) = segment_last_section_number hdr \<and>
         segment_last_section_number hdr < uint (last_section_number hdr)")
  case True
  have "\<forall>i \<in> set (segment_gap hdr). i < 512"
  proof
    fix i assume "i \<in> set (segment_gap hdr)"
    from segment_gap_bound [OF this] unat_u8_bound [of "last_section_number hdr"] show "i < 512" by linarith
  qed
  from set_gap_flags_spec [OF assms this] True show ?thesis
    by (auto simp: mark_gap_def gap_of_def)
next
  case False
  then have "mark_gap hdr cs = Some cs" "gap_of hdr = {}" by (auto simp: mark_gap_def gap_of_def)
  then show ?thesis using assms by (intro exI [of _ "section_flags cs"]) simp
qed

lemma set_flag_new_section:
  assumes "\<not> (section_number hdr > last_section_number hdr \<and> section_syntax_indicator hdr)"
    and "\<not> completed cs"
    and "set_flag_idx (unat (section_number hdr)) cs = Some (False, cs1)"
    and "mark_gap hdr (cs1\<lparr>count := count cs1 + 1\<rparr>) = Some cs2" and "count cs2 \<le> maxcount cs2"
  shows "set_flag hdr cs = Some (if count cs2 = maxcount cs2 then LAST else NEW,
    cs2\<lparr>completed := (count cs2 = maxcount cs2)\<rparr>)"
  using assms unfolding set_flag_def mark_gap_def Let_def by (auto simp: not_less)

lemma set_flag_spec:
  assumes inv: "cs_inv cs" and fits: "header_fits hdr cs" and open_cs: "\<not> completed cs"
  defines "n \<equiv> unat (section_number hdr)"
  shows "\<exists>cs'. set_flag hdr cs =
      Some (if n \<in> flags cs then DUPLICATE else if completed cs' then LAST else NEW, cs') \<and>
    cs_inv cs' \<and> cs_version_number cs' = cs_version_number cs \<and> maxcount cs' = maxcount cs \<and>
    flags cs' = (if n \<in> flags cs then flags cs else insert n (flags cs) \<union> gap_of hdr) \<and>
    (n \<in> flags cs \<longrightarrow> \<not> completed cs')"
proof -
  have not_gt: "\<not> (section_number hdr > last_section_number hdr \<and> section_syntax_indicator hdr)"
    using fits by (auto simp: header_fits_def)
  have L: "unat (last_section_number hdr) = nat (cs_last_section_number cs)"
    using fits by (simp add: header_fits_def unat_eq_nat_uint)
  have pos: "0 < maxcount cs"
    using inv fits uint_ge_0 [of "last_section_number hdr"] unfolding cs_inv_def header_fits_def by linarith
  have n_le: "n < nat (maxcount cs)"
    using fits inv L pos by (auto simp: header_fits_def n_def cs_inv_def word_le_nat_alt)
  have n512: "n < 512" using inv n_le by (auto simp: cs_inv_def)
  obtain fs where fs: "set_flag_idx n cs = Some (n \<in> flags cs, cs\<lparr>section_flags := fs\<rparr>)"
    "length fs = 16" "flags (cs\<lparr>section_flags := fs\<rparr>) = insert n (flags cs)"
    using set_flag_idx_spec [of cs n] inv n512 by (auto simp: cs_inv_def)
  have gap: "gap_of hdr \<subseteq> {..< nat (maxcount cs)}"
  proof
    fix i assume "i \<in> gap_of hdr"
    then have "i < unat (last_section_number hdr)"
      using segment_gap_bound [of i hdr] by (auto simp: gap_of_def split: if_splits)
    then show "i \<in> {..< nat (maxcount cs)}" using L inv by (auto simp: cs_inv_def)
  qed
  show ?thesis
  proof (cases "n \<in> flags cs")
    case True
    let ?cs = "cs\<lparr>section_flags := fs, completed := (count cs = maxcount cs)\<rparr>"
    have fl: "flags ?cs = flags cs" using fs(3) True by (simp add: insert_absorb flags_def)
    have "count cs \<noteq> maxcount cs" using inv open_cs pos by (simp add: cs_inv_def)
    moreover have "count cs \<le> maxcount cs"
      using inv card_mono [of "{..< nat (maxcount cs)}" "flags cs"] by (auto simp: cs_inv_def)
    ultimately have "set_flag hdr cs = Some (DUPLICATE, ?cs)" "\<not> completed ?cs"
      using open_cs fs(1) True not_gt by (auto simp: set_flag_def n_def [symmetric])
    moreover have "cs_inv ?cs" using inv fs(2) pos unfolding cs_inv_def fl by auto
    ultimately show ?thesis using True fl by (intro exI [of _ ?cs]) simp
  next
    case False
    let ?c1 = "cs\<lparr>section_flags := fs, count := count cs + 1\<rparr>" and ?F = "insert n (flags cs) \<union> gap_of hdr"
    have fl1: "flags ?c1 = insert n (flags cs)" using fs(3) by (simp add: flags_def)
    have cnt1: "count ?c1 = int (card (flags ?c1))" using inv False by (simp add: fs(3) cs_inv_def)
    obtain fs2 where fs2: "mark_gap hdr ?c1 = Some (cs\<lparr>section_flags := fs2, count := int (card ?F)\<rparr>)"
      "length fs2 = 16" "flags (cs\<lparr>section_flags := fs2\<rparr>) = ?F"
      using mark_gap_spec [of ?c1 hdr] cnt1 fs(2) fl1 by (auto simp: flags_def)
    have sub: "?F \<subseteq> {..< nat (maxcount cs)}" using inv n_le gap by (auto simp: cs_inv_def)
    have le: "int (card ?F) \<le> maxcount cs" using card_mono [OF _ sub] pos by simp
    let ?cs = "cs\<lparr>section_flags := fs2, count := int (card ?F), completed := (int (card ?F) = maxcount cs)\<rparr>"
    have "set_flag hdr cs = Some (if int (card ?F) = maxcount cs then LAST else NEW, ?cs)"
      using set_flag_new_section [OF not_gt open_cs, of "cs\<lparr>section_flags := fs\<rparr>"
          "cs\<lparr>section_flags := fs2, count := int (card ?F)\<rparr>"] fs(1) False fs2(1) le
      by (simp add: n_def)
    moreover have fl: "flags ?cs = ?F" using fs2(3) by (simp add: flags_def)
    moreover have "cs_inv ?cs" using inv fs2(2) pos sub unfolding cs_inv_def fl by simp
    ultimately show ?thesis using False by (intro exI [of _ ?cs]) simp
  qed
qed


subsection \<open>Invariant of the parser\<close>

abbreviation completed_in :: "(u64 \<times> completion_status_t) list \<Rightarrow> nat" where
  "completed_in m \<equiv> length (filter (\<lambda>(k, cs). completed cs) m)"

definition cstates_inv :: "(u64 \<times> completion_status_t) list \<Rightarrow> bool" where
  "cstates_inv m \<longleftrightarrow> distinct (map fst m) \<and> (\<forall>(k, cs) \<in> set m. cs_inv cs)"

definition parser_inv :: "parser_status_t \<Rightarrow> bool" where
  "parser_inv ps \<longleftrightarrow> cstates_inv (cstates ps) \<and> count_completed ps = int (completed_in (cstates ps))"

lemma put_keys [simp]: "map fst (put k v m) = map fst m"
  by (induction m) (auto simp: put_def)

lemma put_length [simp]: "length (put k v m) = length m"
  by (simp add: put_def)

lemma put_lookup: "map_of (put k v m) k' = (if k' = k \<and> map_of m k \<noteq> None then Some v else map_of m k')"
  by (induction m) (auto simp: put_def)

lemma put_absent: "k \<notin> fst ` set m \<Longrightarrow> put k v m = m"
  by (induction m) (auto simp: put_def)

lemma put_inv: "cstates_inv m \<Longrightarrow> cs_inv v \<Longrightarrow> cstates_inv (put k v m)"
  unfolding cstates_inv_def put_keys by (auto simp: put_def split: if_splits)

lemma put_completed:
  "distinct (map fst m) \<Longrightarrow> map_of m k = Some cs \<Longrightarrow>
    int (completed_in (put k v m)) = int (completed_in m) - of_bool (completed cs) + of_bool (completed v)"
proof (induction m)
  case (Cons p m)
  obtain k' c' where p: "p = (k', c')" by force
  have unf: "put k v (p # m) = (if k' = k then (k', v) else (k', c')) # put k v m"
    by (simp add: put_def p)
  show ?case
  proof (cases "k' = k")
    case True
    then have "put k v m = m" using Cons.prems by (intro put_absent) (auto simp: p)
    then show ?thesis using Cons.prems True unfolding unf by (simp add: p)
  next
    case False
    then show ?thesis using Cons.IH Cons.prems unfolding unf by (simp add: p)
  qed
qed simp

lemma lookup_inv: "cstates_inv m \<Longrightarrow> map_of m k = Some cs \<Longrightarrow> cs_inv cs"
  by (auto simp: cstates_inv_def dest: map_of_SomeD)

lemma try_emplace_lookup:
  "map_of (try_emplace k v m) k' = (if k' = k \<and> map_of m k = None then Some v else map_of m k')"
  by (auto simp: try_emplace_def map_add_def split: option.splits)

lemma try_emplace_inv: "cstates_inv m \<Longrightarrow> cs_inv v \<Longrightarrow> cstates_inv (try_emplace k v m)"
  by (auto simp: try_emplace_def cstates_inv_def map_of_eq_None_iff)

lemma try_emplace_completed: "\<not> completed v \<Longrightarrow> completed_in (try_emplace k v m) = completed_in m"
  by (simp add: try_emplace_def)

lemma not_completed_new [simp]:
  "\<not> completed (new_completion_status hdr)" "\<not> completed empty_completion_status"
  by (simp_all add: new_completion_status_def empty_completion_status_def)

lemma emplace_group_spec:
  assumes "cstates_inv m"
  shows "cstates_inv (emplace_group hdr tids m) \<and>
    completed_in (emplace_group hdr tids m) = completed_in m \<and>
    (\<forall>k cs. map_of m k = Some cs \<longrightarrow> map_of (emplace_group hdr tids m) k = Some cs)"
  using assms
proof (induction tids arbitrary: m)
  case Nil
  then show ?case by (simp add: emplace_group_def)
next
  case (Cons t tids)
  let ?m = "emplace_group hdr [t] m"
  have "cstates_inv ?m" "completed_in ?m = completed_in m" "map_of m k = Some cs \<Longrightarrow> map_of ?m k = Some cs" for k cs
    using Cons.prems
    by (auto simp: emplace_group_def try_emplace_inv cs_inv_empty try_emplace_lookup try_emplace_completed)
  moreover have "emplace_group hdr (t # tids) m = emplace_group hdr tids ?m" by (simp add: emplace_group_def)
  ultimately show ?case using Cons.IH [of ?m] by auto
qed

abbreviation is_schedule :: "section_header_t \<Rightarrow> bool" where
  "is_schedule hdr \<equiv> table_id hdr \<ge> 0x50 \<and> table_id hdr \<le> 0x6F"

definition group_ok :: "section_header_t \<Rightarrow> bool" where
  "group_ok hdr \<longleftrightarrow> (is_schedule hdr \<longrightarrow> table_id hdr AND NOT 0xf = last_table_id hdr AND NOT 0xf)"

text \<open>The record with which a section is compared: a missing one, or an empty one of a schedule, is fresh.\<close>

definition record_for :: "section_header_t \<Rightarrow> (u64 \<times> completion_status_t) list \<Rightarrow> completion_status_t" where
  "record_for hdr m = (case map_of m (key_value (subtable_key hdr)) of
      None \<Rightarrow> new_completion_status hdr
    | Some cs \<Rightarrow> if is_schedule hdr \<and> cs_version_number cs < 0 then new_completion_status hdr else cs)"

text \<open>Records of other subtables are kept, and only a schedule section creates any.\<close>

definition others_kept ::
  "section_header_t \<Rightarrow> (u64 \<times> completion_status_t) list \<Rightarrow> (u64 \<times> completion_status_t) list \<Rightarrow> bool" where
  "others_kept hdr m m' \<longleftrightarrow> (\<forall>k. k \<noteq> key_value (subtable_key hdr) \<longrightarrow>
     (map_of m k \<noteq> None \<or> \<not> is_schedule hdr) \<longrightarrow> map_of m' k = map_of m k)"

lemma others_kept_put: "others_kept hdr m m' \<Longrightarrow> others_kept hdr m (put (key_value (subtable_key hdr)) cs m')"
  by (auto simp: others_kept_def put_lookup)

lemma completion_status_for_section_spec:
  assumes inv: "cstates_inv m" and ok: "group_ok hdr"
  shows "\<exists>m'. completion_status_for_section hdr m = Some m' \<and> cstates_inv m' \<and>
    completed_in m' = completed_in m \<and> map_of m' (key_value (subtable_key hdr)) = Some (record_for hdr m) \<and>
    others_kept hdr m m'"
proof (cases "map_of m (key_value (subtable_key hdr))")
  case None
  let ?m = "try_emplace (key_value (subtable_key hdr)) (new_completion_status hdr) m"
  have "cstates_inv ?m" "map_of ?m (key_value (subtable_key hdr)) = Some (new_completion_status hdr)"
    "completed_in ?m = completed_in m"
    using inv None by (simp_all add: try_emplace_inv cs_inv_new try_emplace_lookup try_emplace_completed)
  moreover have "map_of ?m k = map_of m k" if "k \<noteq> key_value (subtable_key hdr)" for k
    using that by (simp add: try_emplace_lookup)
  ultimately show ?thesis
    using emplace_group_spec [of ?m hdr "[unat (last_table_id hdr AND NOT 0xf) ..< unat (last_table_id hdr) + 1]"] ok None
    by (auto simp: completion_status_for_section_def record_for_def group_ok_def others_kept_def Let_def
        simp del: upt_Suc)
next
  case (Some cs)
  have te: "try_emplace (key_value (subtable_key hdr)) (new_completion_status hdr) m = m"
    using Some by (simp add: try_emplace_def)
  show ?thesis
  proof (cases "is_schedule hdr \<and> cs_version_number cs < 0")
    case True
    have "cs_inv cs" using inv Some by (rule lookup_inv)
    then have "\<not> completed cs" using True by (auto simp: cs_inv_def)
    moreover have "distinct (map fst m)" using inv by (simp add: cstates_inv_def)
    ultimately have "completed_in (put (key_value (subtable_key hdr)) (new_completion_status hdr) m) = completed_in m"
      using put_completed [OF _ Some, of "new_completion_status hdr"] by simp
    then show ?thesis using True Some inv te
      by (simp add: completion_status_for_section_def record_for_def Let_def completion_reset_def
          put_lookup put_inv cs_inv_new others_kept_def)
  next
    case False
    then show ?thesis using Some inv te
      by (auto simp: completion_status_for_section_def record_for_def others_kept_def Let_def)
  qed
qed


text \<open>
  A section agrees with a parser state when the sections of its subtable announce the same last
  section number and its own number does not exceed it (or is announced as too large and ignored).
\<close>

definition consistent :: "section_header_t \<Rightarrow> parser_status_t \<Rightarrow> bool" where
  "consistent hdr ps \<longleftrightarrow> group_ok hdr \<and> section_number hdr \<le> last_section_number hdr \<and>
     (cs_version_number (record_for hdr (cstates ps)) = uint (version_number hdr) \<longrightarrow>
      cs_last_section_number (record_for hdr (cstates ps)) = uint (last_section_number hdr))"

text \<open>What a section is worth to a parser, from the sections flagged so far.\<close>

definition verdict :: "section_header_t \<Rightarrow> parser_status_t \<Rightarrow> parser_status_t \<Rightarrow> section_type_t" where
  "verdict hdr ps ps' =
     (let cs = record_for hdr (cstates ps)
      in if \<not> current_next hdr \<or> cs_version_number cs \<noteq> uint (version_number hdr) then BAD_VERSION
         else if completed cs then COMPLETE
         else if unat (section_number hdr) \<in> flags cs then DUPLICATE
         else if (\<forall>(k, cs) \<in> set (cstates ps'). completed cs) then LAST
         else NEW)"

lemma verdict_cong: "cstates p = cstates q \<Longrightarrow> verdict hdr ps p = verdict hdr ps q"
  by (simp only: verdict_def)

lemma completed_in_all: "completed_in m = length m \<longleftrightarrow> (\<forall>(k, cs) \<in> set m. completed cs)"
  by (metis (no_types, lifting) case_prod_beta filter_True filter_id_conv length_filter_less nat_less_le)

lemma completed_in_le: "completed_in m \<le> length m"
  by simp

lemma record_for_inv: "cstates_inv m \<Longrightarrow> cs_inv (record_for hdr m)"
  by (auto simp: record_for_def cs_inv_new lookup_inv split: option.splits)

lemma not_all_completed:
  assumes "map_of m k = Some cs" "\<not> completed cs"
  shows "completed_in m < length m"
proof -
  have "\<not> (\<forall>(k, cs) \<in> set m. completed cs)" using map_of_SomeD [OF assms(1)] assms(2) by fastforce
  then show ?thesis using completed_in_all [of m] completed_in_le [of m] by linarith
qed

lemma record_for_schedule: "is_schedule hdr \<Longrightarrow> 0 \<le> cs_version_number (record_for hdr m)"
  by (auto simp: record_for_def new_completion_status_def split: option.splits)

lemma record_for_found:
  assumes "map_of m' (key_value (subtable_key hdr)) = Some cs"
    and "cs_version_number cs = cs_version_number (record_for hdr m)"
  shows "record_for hdr m' = cs"
  using assms record_for_schedule [of hdr m] by (auto simp: record_for_def [of hdr m'])

lemma note_section_frame [simp]:
  "cstates (note_section now hdr c ps) = cstates ps"
  "count_completed (note_section now hdr c ps) = count_completed ps"
  "table_timeouts (note_section now hdr c ps) (table_id hdr) = None \<longleftrightarrow> False"
  by (simp_all add: note_section_def Let_def)

definition flags_after :: "section_header_t \<Rightarrow> parser_status_t \<Rightarrow> section_type_t \<Rightarrow> nat set" where
  "flags_after hdr ps st =
     (if st = NEW \<or> st = LAST
      then insert (unat (section_number hdr)) (flags (record_for hdr (cstates ps))) \<union> gap_of hdr
      else flags (record_for hdr (cstates ps)))"

text \<open>The result of a check, for the state before and after it.\<close>

definition check_result ::
  "section_header_t \<Rightarrow> parser_status_t \<Rightarrow> ((bool \<times> bool \<times> section_type_t) \<times> parser_status_t) option \<Rightarrow> bool" where
  "check_result hdr ps r \<longleftrightarrow> (\<exists>b ps'.
     r = Some ((b, verdict hdr ps ps' = BAD_VERSION, verdict hdr ps ps'), ps') \<and> parser_inv ps' \<and>
     flags (record_for hdr (cstates ps')) = flags_after hdr ps (verdict hdr ps ps') \<and>
     (verdict hdr ps ps' = LAST \<longrightarrow> all_completed ps') \<and> others_kept hdr (cstates ps) (cstates ps') \<and>
     map_of (cstates ps') (key_value (subtable_key hdr)) = Some (record_for hdr (cstates ps')) \<and>
     cs_version_number (record_for hdr (cstates ps')) = cs_version_number (record_for hdr (cstates ps)) \<and>
     maxcount (record_for hdr (cstates ps')) = maxcount (record_for hdr (cstates ps)))"

lemma check_resultI:
  assumes "r = Some ((b, st = BAD_VERSION, st), ps')" "verdict hdr ps ps' = st" "parser_inv ps'"
    and "flags (record_for hdr (cstates ps')) = flags_after hdr ps st" "st = LAST \<Longrightarrow> all_completed ps'"
    and "others_kept hdr (cstates ps) (cstates ps')"
    and "map_of (cstates ps') (key_value (subtable_key hdr)) = Some (record_for hdr (cstates ps'))"
    and "cs_version_number (record_for hdr (cstates ps')) = cs_version_number (record_for hdr (cstates ps))"
    and "maxcount (record_for hdr (cstates ps')) = maxcount (record_for hdr (cstates ps))"
  shows "check_result hdr ps r"
  using assms unfolding check_result_def by blast

lemma check_section_live_step:
  assumes "completion_status_for_section hdr (cstates ps) = Some m"
    and "map_of m (key_value (subtable_key hdr)) = Some cs"
    and "count_completed ps < int (length m)" and "table_timeouts ps (table_id hdr) \<noteq> None"
    and "current_next hdr" "cs_version_number cs = uint (version_number hdr)" "\<not> completed cs"
    and "set_flag hdr cs = Some (st, cs')" "st = LAST \<longrightarrow> completed cs'"
  shows "check_section now hdr ps =
    (let m' = put (key_value (subtable_key hdr)) cs' m
     in case st of
          NEW \<Rightarrow> Some ((False, False, NEW), ps\<lparr>cstates := m', last_section := now 3, last_new_section := now 3\<rparr>)
        | DUPLICATE \<Rightarrow> let (b, t) = table_timedout_now (now 4) (the (table_timeouts ps (table_id hdr)))
            in Some ((b, False, DUPLICATE), ps\<lparr>cstates := m', last_section := now 3,
                 table_timeouts := (table_timeouts ps)(table_id hdr \<mapsto> t)\<rparr>)
        | LAST \<Rightarrow> let all = (count_completed ps + 1 = int (length m))
            in Some ((False, False, if all then LAST else NEW), ps\<lparr>cstates := m',
                 count_completed := count_completed ps + 1, all_completed := all,
                 last_section := now 3, last_new_section := now 4\<rparr>)
        | _ \<Rightarrow> None)"
  using assms by (auto simp: check_section_def Let_def split: option.splits section_type_t.splits)

lemma check_section_live:
  assumes inv: "parser_inv ps" and ok: "consistent hdr ps"
    and tt: "table_timeouts ps (table_id hdr) \<noteq> None"
    and m: "completion_status_for_section hdr (cstates ps) = Some m" "cstates_inv m"
      "completed_in m = completed_in (cstates ps)"
      "map_of m (key_value (subtable_key hdr)) = Some (record_for hdr (cstates ps))"
      "others_kept hdr (cstates ps) m"
    and live: "current_next hdr" "cs_version_number (record_for hdr (cstates ps)) = uint (version_number hdr)"
      "\<not> completed (record_for hdr (cstates ps))"
  shows "check_result hdr ps (check_section now hdr ps)"
proof -
  let ?k = "key_value (subtable_key hdr)" and ?cs = "record_for hdr (cstates ps)"
    and ?n = "unat (section_number hdr)"
  have "header_fits hdr ?cs" using ok live by (auto simp: consistent_def header_fits_def)
  from set_flag_spec [OF record_for_inv [of "cstates ps" hdr] this live(3)] inv obtain cs' where cs':
    "set_flag hdr ?cs = Some (if ?n \<in> flags ?cs then DUPLICATE else if completed cs' then LAST else NEW, cs')"
    "cs_inv cs'" "cs_version_number cs' = cs_version_number ?cs"
    "flags cs' = (if ?n \<in> flags ?cs then flags ?cs else insert ?n (flags ?cs) \<union> gap_of hdr)"
    "?n \<in> flags ?cs \<longrightarrow> \<not> completed cs'" "maxcount cs' = maxcount ?cs"
    by (auto simp: parser_inv_def)
  let ?m = "put ?k cs' m"
  have lk: "map_of ?m ?k = Some cs'" using m(4) by (simp add: put_lookup)
  have rm': "record_for hdr ?m = cs'" using lk cs'(3) by (rule record_for_found)
  have cc: "count_completed ps = int (completed_in m)" using inv m by (simp add: parser_inv_def)
  have lt: "count_completed ps < int (length m)" using not_all_completed [OF m(4) live(3)] cc by simp
  have invm: "cstates_inv ?m" using m(2) cs'(2) by (rule put_inv)
  have cnt: "int (completed_in ?m) = int (completed_in m) + of_bool (completed cs')"
    using put_completed [OF _ m(4), of cs'] m(2) live(3) by (simp add: cstates_inv_def)
  have all: "(completed_in ?m = length m) = (\<forall>(k, cs) \<in> set ?m. completed cs)"
    using completed_in_all [of ?m] by simp
  have not_all: "\<not> (\<forall>(k, cs) \<in> set ?m. completed cs)" if "\<not> completed cs'"
    using map_of_SomeD [OF lk] that by fastforce
  note step = check_section_live_step [OF m(1,4) lt tt live cs'(1), of now]
  obtain b t where bt: "table_timedout_now (now 4) (the (table_timeouts ps (table_id hdr))) = (b, t)" by force
  show ?thesis
  proof (rule check_resultI)
    show "check_section now hdr ps = Some ((if ?n \<in> flags ?cs then b else False,
          verdict hdr ps (ps\<lparr>cstates := ?m\<rparr>) = BAD_VERSION, verdict hdr ps (ps\<lparr>cstates := ?m\<rparr>)),
        snd (the (check_section now hdr ps)))" (is "_ = Some (_, ?ps')")
      using step bt live cc cnt all not_all cs'(5) by (auto simp: verdict_def Let_def)
    have ps': "cstates ?ps' = ?m" "count_completed ?ps' = int (completed_in ?m)"
      "verdict hdr ps (ps\<lparr>cstates := ?m\<rparr>) = LAST \<Longrightarrow> all_completed ?ps'"
      using step bt live cc cnt all not_all cs'(5) by (auto simp: verdict_def Let_def split: if_splits)
    then show "parser_inv ?ps'" using invm by (simp add: parser_inv_def)
    show "verdict hdr ps ?ps' = verdict hdr ps (ps\<lparr>cstates := ?m\<rparr>)" using ps'(1) by (intro verdict_cong) simp
    show "verdict hdr ps (ps\<lparr>cstates := ?m\<rparr>) = LAST \<Longrightarrow> all_completed ?ps'" by (rule ps'(3))
    show "flags (record_for hdr (cstates ?ps')) = flags_after hdr ps (verdict hdr ps (ps\<lparr>cstates := ?m\<rparr>))"
      using ps'(1) rm' cs'(4) live by (simp add: flags_after_def verdict_def)
    show "others_kept hdr (cstates ps) (cstates ?ps')"
      "map_of (cstates ?ps') ?k = Some (record_for hdr (cstates ?ps'))"
      "cs_version_number (record_for hdr (cstates ?ps')) = cs_version_number ?cs"
      "maxcount (record_for hdr (cstates ?ps')) = maxcount ?cs"
      using ps'(1) rm' lk cs'(3,6) m(5) by (simp_all add: others_kept_put)
  qed
qed

lemma check_section_spec:
  assumes inv: "parser_inv ps" and ok: "consistent hdr ps"
    and tt: "table_timeouts ps (table_id hdr) \<noteq> None"
  shows "check_result hdr ps (check_section now hdr ps)"
proof -
  let ?cs = "record_for hdr (cstates ps)"
  obtain m where m: "completion_status_for_section hdr (cstates ps) = Some m" "cstates_inv m"
    "completed_in m = completed_in (cstates ps)" "map_of m (key_value (subtable_key hdr)) = Some ?cs"
    "others_kept hdr (cstates ps) m"
    using completion_status_for_section_spec [of "cstates ps" hdr] inv ok
    by (auto simp: parser_inv_def consistent_def)
  have cc: "count_completed ps = int (completed_in m)" using inv m by (simp add: parser_inv_def)
  have le: "count_completed ps \<le> int (length m)" using cc completed_in_le [of m] by simp
  have rm: "record_for hdr m = ?cs" using m(4) by (rule record_for_found) simp
  show ?thesis
  proof (cases "current_next hdr \<and> cs_version_number ?cs = uint (version_number hdr) \<and> \<not> completed ?cs")
    case True
    then show ?thesis using check_section_live [OF inv ok tt m] by simp
  next
    case False
    let ?st = "if \<not> current_next hdr \<or> cs_version_number ?cs \<noteq> uint (version_number hdr)
      then BAD_VERSION else COMPLETE"
    have "check_section now hdr ps = Some ((False, ?st = BAD_VERSION, ?st), ps\<lparr>cstates := m\<rparr>)"
      using False m le by (auto simp: check_section_def Let_def)
    moreover have "verdict hdr ps (ps\<lparr>cstates := m\<rparr>) = ?st" using False by (auto simp: verdict_def)
    moreover have "parser_inv (ps\<lparr>cstates := m\<rparr>)" using m(2) cc by (simp add: parser_inv_def)
    ultimately show ?thesis by (rule check_resultI) (use m rm in \<open>simp_all add: flags_after_def split: if_splits\<close>)
  qed
qed

lemma check_spec:
  assumes "parser_inv ps" "consistent hdr ps"
  shows "check_result hdr ps (check now hdr c ps)"
proof -
  let ?ps = "note_section now hdr c ps"
  have "parser_inv ?ps" "consistent hdr ?ps" using assms by (simp_all add: parser_inv_def consistent_def)
  then have "check_result hdr ?ps (check now hdr c ps)" unfolding check_def by (rule check_section_spec) simp
  moreover have "verdict hdr ?ps = verdict hdr ps" "flags_after hdr ?ps = flags_after hdr ps"
    by (simp_all add: fun_eq_iff verdict_def flags_after_def)
  ultimately show ?thesis by (simp add: check_result_def)
qed


lemma parser_reset_spec:
  assumes inv: "parser_inv ps" and ok: "group_ok hdr"
  shows "\<exists>ps'. parser_reset now hdr ps = Some ps' \<and> parser_inv ps' \<and> \<not> all_completed ps' \<and>
    record_for hdr (cstates ps') = new_completion_status hdr \<and> others_kept hdr (cstates ps) (cstates ps')"
proof -
  let ?k = "key_value (subtable_key hdr)" and ?cs = "record_for hdr (cstates ps)"
  obtain m where m: "completion_status_for_section hdr (cstates ps) = Some m" "cstates_inv m"
    "completed_in m = completed_in (cstates ps)" "map_of m ?k = Some ?cs" "others_kept hdr (cstates ps) m"
    using completion_status_for_section_spec [of "cstates ps" hdr] inv ok by (auto simp: parser_inv_def)
  have cc: "count_completed ps = int (completed_in m)" using inv m by (simp add: parser_inv_def)
  let ?m = "put ?k (new_completion_status hdr) m"
  have cnt: "int (completed_in ?m) = int (completed_in m) - of_bool (completed ?cs)"
    using put_completed [OF _ m(4), of "new_completion_status hdr"] m(2) by (simp add: cstates_inv_def)
  have pos: "0 < count_completed ps" if "completed ?cs"
  proof -
    have "int (completed_in ?m) = count_completed ps - 1" using cnt cc that by simp
    then show ?thesis by linarith
  qed
  have "\<exists>ps'. parser_reset now hdr ps = Some ps' \<and> cstates ps' = ?m \<and>
      count_completed ps' = int (completed_in ?m) \<and> \<not> all_completed ps'"
    using m cc pos completed_in_le [of m] unfolding cnt
    by (auto simp: parser_reset_def completion_reset_def Let_def split: option.splits)
  moreover have "cstates_inv ?m" using m(2) cs_inv_new by (rule put_inv)
  moreover have "map_of ?m ?k = Some (new_completion_status hdr)" using m(4) by (simp add: put_lookup)
  ultimately show ?thesis
    using others_kept_put [OF m(5)]
    by (fastforce simp: parser_inv_def record_for_def)
qed

lemma parser_inv_new: "parser_inv new_parser_status"
  by (simp add: parser_inv_def cstates_inv_def new_parser_status_def)

subsection \<open>Receiving one subtable\<close>

fun check_run ::
  "(nat \<Rightarrow> int) \<Rightarrow> section_header_t list \<Rightarrow> parser_status_t \<Rightarrow> (section_type_t list \<times> parser_status_t) option" where
  "check_run now [] ps = Some ([], ps)"
| "check_run now (h # hs) ps = do {
     ((_, _, st), ps) \<leftarrow> check now h 0 ps;
     (sts, ps) \<leftarrow> check_run now hs ps;
     Some (st # sts, ps)
   }"

text \<open>Headers of the same version of one subtable that is not divided into segments.\<close>

definition same_subtable :: "section_header_t \<Rightarrow> section_header_t \<Rightarrow> bool" where
  "same_subtable h0 h \<longleftrightarrow> subtable_key h = subtable_key h0 \<and> version_number h = version_number h0 \<and>
     last_section_number h = last_section_number h0 \<and> section_number h \<le> last_section_number h \<and>
     current_next h \<and> \<not> is_schedule h \<and> gap_of h = {}"

definition receiving :: "section_header_t \<Rightarrow> nat set \<Rightarrow> parser_status_t \<Rightarrow> bool" where
  "receiving h0 F ps \<longleftrightarrow> parser_inv ps \<and> (\<forall>k. k \<noteq> key_value (subtable_key h0) \<longrightarrow> map_of (cstates ps) k = None) \<and>
     cs_version_number (record_for h0 (cstates ps)) = uint (version_number h0) \<and>
     maxcount (record_for h0 (cstates ps)) = uint (last_section_number h0) + 1 \<and>
     flags (record_for h0 (cstates ps)) = F"

lemma record_for_same: "same_subtable h0 h \<Longrightarrow> \<not> is_schedule h0 \<Longrightarrow> record_for h m = record_for h0 m"
  unfolding record_for_def same_subtable_def new_completion_status_def by (auto split: option.splits)

lemma receiving_completed:
  assumes "receiving h0 F ps"
  shows "completed (record_for h0 (cstates ps)) \<longleftrightarrow> F = {.. unat (last_section_number h0)}"
proof -
  have "nat (uint (last_section_number h0) + 1) = Suc (unat (last_section_number h0))"
    by (simp add: nat_add_distrib)
  moreover have "0 < uint (last_section_number h0) + 1" using uint_ge_0 [of "last_section_number h0"] by linarith
  ultimately show ?thesis
    using assms cs_inv_completed_iff [of "record_for h0 (cstates ps)"] record_for_inv [of "cstates ps" h0]
    by (simp add: receiving_def parser_inv_def lessThan_Suc_atMost)
qed

lemma receiving_all:
  assumes "receiving h0 F ps" "map_of (cstates ps) (key_value (subtable_key h0)) = Some (record_for h0 (cstates ps))"
  shows "(\<forall>(k, cs) \<in> set (cstates ps). completed cs) \<longleftrightarrow> F = {.. unat (last_section_number h0)}"
proof -
  have d: "distinct (map fst (cstates ps))" using assms(1) by (simp add: receiving_def parser_inv_def cstates_inv_def)
  have "(k, cs) \<in> set (cstates ps) \<longleftrightarrow> k = key_value (subtable_key h0) \<and> cs = record_for h0 (cstates ps)" for k cs
    using assms map_of_eq_Some_iff [OF d, of k cs] by (cases "k = key_value (subtable_key h0)") (auto simp: receiving_def)
  then have "set (cstates ps) = {(key_value (subtable_key h0), record_for h0 (cstates ps))}" by auto
  then show ?thesis using receiving_completed [OF assms(1)] by simp
qed

lemma receiving_check:
  assumes rc: "receiving h0 F ps" and h: "same_subtable h0 h" "\<not> is_schedule h0"
  shows "\<exists>b st ps'. check now h c ps = Some ((b, False, st), ps') \<and> receiving h0 (insert (unat (section_number h)) F) ps' \<and>
    (st = LAST \<longleftrightarrow> F \<noteq> {.. unat (last_section_number h0)} \<and>
       insert (unat (section_number h)) F = {.. unat (last_section_number h0)})"
proof -
  let ?L = "{.. unat (last_section_number h0)}" and ?n = "unat (section_number h)"
  have rf: "record_for h m = record_for h0 m" for m using h by (rule record_for_same)
  have k: "subtable_key h = subtable_key h0" using h(1) by (simp add: same_subtable_def)
  have inv: "parser_inv ps" using rc by (simp add: receiving_def)
  have "cs_inv (record_for h0 (cstates ps))" using inv by (simp add: parser_inv_def record_for_inv)
  then have "consistent h ps" using rc h rf
    by (auto simp: consistent_def group_ok_def same_subtable_def receiving_def cs_inv_def)
  from check_spec [OF inv this, of now c] obtain b ps' where ps':
    "check now h c ps = Some ((b, verdict h ps ps' = BAD_VERSION, verdict h ps ps'), ps')" "parser_inv ps'"
    "flags (record_for h0 (cstates ps')) = flags_after h ps (verdict h ps ps')"
    "others_kept h (cstates ps) (cstates ps')"
    "map_of (cstates ps') (key_value (subtable_key h0)) = Some (record_for h0 (cstates ps'))"
    "cs_version_number (record_for h0 (cstates ps')) = cs_version_number (record_for h0 (cstates ps))"
    "maxcount (record_for h0 (cstates ps')) = maxcount (record_for h0 (cstates ps))"
    by (auto simp: check_result_def rf k)
  have n: "?n \<in> ?L" using h(1) by (auto simp: same_subtable_def word_le_nat_alt)
  have v: "verdict h ps ps' = (if F = ?L then COMPLETE else if ?n \<in> F then DUPLICATE
      else if (\<forall>(k, cs) \<in> set (cstates ps'). completed cs) then LAST else NEW)"
    using rc h(1) receiving_completed [OF rc] by (simp add: verdict_def rf same_subtable_def receiving_def)
  then have "flags (record_for h0 (cstates ps')) = insert ?n F"
    using ps'(3) rc h(1) n by (auto simp: flags_after_def rf receiving_def same_subtable_def)
  then have rc': "receiving h0 (insert ?n F) ps'"
    using ps' rc h k by (auto simp: receiving_def others_kept_def same_subtable_def)
  from receiving_all [OF rc' ps'(5)] v n have "verdict h ps ps' = LAST \<longleftrightarrow> F \<noteq> ?L \<and> insert ?n F = ?L"
    by (auto simp: insert_absorb)
  then show ?thesis using ps'(1) v rc' by (auto intro!: exI [of _ b] exI [of _ ps'])
qed

lemma receiving_run:
  assumes "receiving h0 F ps" "\<forall>h \<in> set hs. same_subtable h0 h" "\<not> is_schedule h0"
  shows "\<exists>sts ps'. check_run now hs ps = Some (sts, ps') \<and>
    receiving h0 (F \<union> (\<lambda>h. unat (section_number h)) ` set hs) ps' \<and>
    count_list sts LAST = of_bool (F \<noteq> {.. unat (last_section_number h0)} \<and>
      F \<union> (\<lambda>h. unat (section_number h)) ` set hs = {.. unat (last_section_number h0)})"
  using assms
proof (induction hs arbitrary: F ps)
  case (Cons h hs)
  let ?L = "{.. unat (last_section_number h0)}" and ?F = "insert (unat (section_number h)) F"
  obtain b st ps1 where 1: "check now h 0 ps = Some ((b, False, st), ps1)" "receiving h0 ?F ps1"
    "st = LAST \<longleftrightarrow> F \<noteq> ?L \<and> ?F = ?L"
    using receiving_check [OF Cons.prems(1), of h now 0] Cons.prems by auto
  obtain sts ps2 where 2: "check_run now hs ps1 = Some (sts, ps2)"
    "receiving h0 (?F \<union> (\<lambda>h. unat (section_number h)) ` set hs) ps2"
    "count_list sts LAST = of_bool (?F \<noteq> ?L \<and> ?F \<union> (\<lambda>h. unat (section_number h)) ` set hs = ?L)"
    using Cons.IH [OF 1(2)] Cons.prems by auto
  have "(\<lambda>h. unat (section_number h)) ` set (h # hs) \<subseteq> ?L"
    using Cons.prems(2) by (auto simp: same_subtable_def word_le_nat_alt)
  then show ?case using 1 2 by (auto simp: of_bool_def)
qed (simp add: receiving_def)


subsection \<open>Properties\<close>

text \<open>C29: For a section that agrees with the state, \<open>check\<close> runs through all its assertions, keeps the
  parser invariant (counters equal to the number of flagged sections and of completed subtables), leaves the
  records of other subtables alone, reports a wrong version, a completed subtable, a duplicate or a new
  section exactly when it is one, and reports the last section exactly when every subtable is complete.\<close>
theorem check_correct:
  assumes "parser_inv ps" "consistent hdr ps"
  shows "\<exists>b ps'. check now hdr c ps = Some ((b, verdict hdr ps ps' = BAD_VERSION, verdict hdr ps ps'), ps') \<and>
    parser_inv ps' \<and> flags (record_for hdr (cstates ps')) = flags_after hdr ps (verdict hdr ps ps') \<and>
    others_kept hdr (cstates ps) (cstates ps') \<and> (verdict hdr ps ps' = LAST \<longrightarrow> all_completed ps')"
  using check_spec [OF assms] unfolding check_result_def by blast

definition example_header :: section_header_t where
  "example_header = default_section_header\<lparr>table_id := 0x42, section_syntax_indicator := True,
     current_next := True, last_section_number := 1, version_number := 3,
     segment_last_section_number := 1\<rparr>"

theorem check_correct_witness:
  "\<exists>b ps'. check (\<lambda>_. 0) example_header 0 new_parser_status =
      Some ((b, verdict example_header new_parser_status ps' = BAD_VERSION,
        verdict example_header new_parser_status ps'), ps') \<and> parser_inv ps'"
proof -
  have "consistent example_header new_parser_status"
    by (simp add: consistent_def group_ok_def record_for_def new_parser_status_def example_header_def
        default_section_header_def new_completion_status_def)
  from check_correct [OF parser_inv_new this, of "\<lambda>_. 0" 0] show ?thesis by blast
qed

text \<open>Resetting a subtable never trips an assertion: it keeps the parser invariant, forgets the flags of
  this subtable only and reopens the parser.\<close>
theorem parser_reset_correct:
  assumes "parser_inv ps" "group_ok hdr"
  shows "\<exists>ps'. parser_reset now hdr ps = Some ps' \<and> parser_inv ps' \<and> \<not> all_completed ps' \<and>
    record_for hdr (cstates ps') = new_completion_status hdr \<and> others_kept hdr (cstates ps) (cstates ps')"
  using assms by (rule parser_reset_spec)

theorem parser_reset_correct_witness:
  "\<exists>ps'. parser_reset (\<lambda>_. 0) example_header new_parser_status = Some ps' \<and> parser_inv ps'"
proof -
  have "group_ok example_header" by (simp add: group_ok_def example_header_def)
  from parser_reset_correct [OF parser_inv_new this, of "\<lambda>_. 0"] show ?thesis by blast
qed

text \<open>C5: For a new parser that sees the sections of a single subtable only, one without segments: the subtable is reported
  complete exactly once, in whatever order and however often its sections arrive. One \<open>LAST\<close> appears when all numbers up to the
  last have been seen, none before. (While another subtable that the parser knows is incomplete, the code reports the completing section
  as \<open>NEW\<close>.)\<close>
theorem subtable_completion:
  assumes "\<forall>h \<in> set (h0 # hs). same_subtable h0 h"
  shows "\<exists>sts ps. check_run now (h0 # hs) new_parser_status = Some (sts, ps) \<and> parser_inv ps \<and>
    count_list sts LAST =
      of_bool ((\<lambda>h. unat (section_number h)) ` set (h0 # hs) = {.. unat (last_section_number h0)})"
proof -
  have "receiving h0 {} new_parser_status"
    using parser_inv_new flags_new(1) [of h0]
    by (simp add: receiving_def record_for_def new_parser_status_def) (simp add: new_completion_status_def)
  moreover have "\<not> is_schedule h0" using assms by (auto simp: same_subtable_def)
  ultimately obtain sts ps where r: "check_run now (h0 # hs) new_parser_status = Some (sts, ps)"
    "receiving h0 ({} \<union> (\<lambda>h. unat (section_number h)) ` set (h0 # hs)) ps"
    "count_list sts LAST = of_bool ({} \<noteq> {.. unat (last_section_number h0)} \<and>
      {} \<union> (\<lambda>h. unat (section_number h)) ` set (h0 # hs) = {.. unat (last_section_number h0)})"
    using receiving_run [OF _ assms, of "{}" new_parser_status now] by blast
  moreover have "{} \<noteq> {.. unat (last_section_number h0)}" by blast
  ultimately show ?thesis
    by (intro exI [of _ sts] exI [of _ ps]) (simp add: receiving_def del: check_run.simps)
qed

theorem subtable_completion_witness:
  "\<exists>sts ps. check_run (\<lambda>_. 0) [example_header, example_header\<lparr>section_number := 1\<rparr>] new_parser_status = Some (sts, ps) \<and>
    count_list sts LAST = 1"
proof -
  let ?h = "example_header\<lparr>section_number := 1\<rparr>"
  have "\<forall>h \<in> set [example_header, ?h]. same_subtable example_header h"
    by (simp add: same_subtable_def example_header_def default_section_header_def gap_of_def subtable_key_def)
  from subtable_completion [OF this, of "\<lambda>_. 0"]
  have "\<exists>sts ps. check_run (\<lambda>_. 0) [example_header, ?h] new_parser_status = Some (sts, ps) \<and>
    count_list sts LAST = of_bool ((\<lambda>h. unat (section_number h)) ` set [example_header, ?h] =
      {.. unat (last_section_number example_header)})" by blast
  moreover have "(\<lambda>h. unat (section_number h)) ` set [example_header, ?h] = {.. unat (last_section_number example_header)}"
    by (auto simp: example_header_def default_section_header_def)
  ultimately show ?thesis by simp
qed

text \<open>The assertion on the section count depends on the broadcaster: two sections of one version of a
  subtable that announce different last section numbers abort the program.\<close>
theorem check_inconsistent_last_section:
  "check_run (\<lambda>_. 0) [example_header, example_header\<lparr>section_number := 8, last_section_number := 20,
     segment_last_section_number := 8\<rparr>] new_parser_status = None"
  by code_simp

end
