(* ===== verification/Chdb_Types.thy ===== *)
theory Chdb_Types
  imports Prelude
begin

text \<open>
  Records of the channel database that the stream parsers fill, restricted to the fields they set, and
  the conversions from stream codes to the enumerations of the tuning API
  (\<open>receiver/streamparser/psi_impl.h\<close>, \<open>neumodb/chdb/chdb_extra.cc\<close>). A C++ cast from a
  number to an enumeration is the function \<open>..._of_code\<close>, with the values of the generated
  declarations.
\<close>

subsection \<open>Enumerations\<close>

datatype fe_polarisation_t = POL_NONE | POL_H | POL_V | POL_L | POL_R

datatype fe_code_rate_t = FEC_NONE | FEC_1_2 | FEC_2_3 | FEC_3_4 | FEC_4_5 | FEC_5_6 | FEC_6_7 | FEC_7_8
  | FEC_8_9 | FEC_AUTO | FEC_3_5 | FEC_9_10 | FEC_2_5 | FEC_5_11 | FEC_1_4 | FEC_1_3

datatype fe_modulation_t = QPSK | QAM_16 | QAM_32 | QAM_64 | QAM_128 | QAM_256 | QAM_AUTO | VSB_8 | VSB_16
  | PSK_8 | APSK_16 | APSK_32 | DQPSK | QAM_4_NR

datatype fe_transmit_mode_t = TRANSMISSION_MODE_2K | TRANSMISSION_MODE_8K | TRANSMISSION_MODE_AUTO
  | TRANSMISSION_MODE_4K

datatype fe_bandwidth_t = BANDWIDTH_8_MHZ | BANDWIDTH_7_MHZ | BANDWIDTH_6_MHZ | BANDWIDTH_AUTO | BANDWIDTH_5_MHZ

datatype fe_guard_interval_t = GUARD_INTERVAL_1_32 | GUARD_INTERVAL_1_16 | GUARD_INTERVAL_1_8
  | GUARD_INTERVAL_1_4 | GUARD_INTERVAL_AUTO

datatype fe_hierarchy_t = HIERARCHY_NONE | HIERARCHY_1 | HIERARCHY_2 | HIERARCHY_4 | HIERARCHY_AUTO

datatype fe_rolloff_t = ROLLOFF_35 | ROLLOFF_25 | ROLLOFF_20 | ROLLOFF_AUTO

datatype fe_pls_mode_t = PLS_ROOT | PLS_GOLD | PLS_COMBO

datatype delivery_system_t = SYS_DVBS | SYS_DVBS2 | SYS_DVBC | SYS_DVBT | SYS_DVBT2

datatype tune_src_t = TUNE_NIT_ACTUAL | TUNE_NIT_OTHER | TUNE_AUTO

datatype key_src_t = KEY_NIT_ACTUAL | KEY_NIT_OTHER | KEY_NONE

datatype media_mode_t = MEDIA_UNKNOWN | MEDIA_TV | MEDIA_RADIO | MEDIA_DATA | MEDIA_T2MI

definition fe_polarisation_of_code :: "nat \<Rightarrow> fe_polarisation_t" where
  "fe_polarisation_of_code n = [POL_H, POL_V, POL_L, POL_R] ! n"

definition fe_code_rate_of_code :: "nat \<Rightarrow> fe_code_rate_t" where
  "fe_code_rate_of_code n = [FEC_NONE, FEC_1_2, FEC_2_3, FEC_3_4, FEC_4_5, FEC_5_6, FEC_6_7, FEC_7_8,
     FEC_8_9, FEC_AUTO, FEC_3_5, FEC_9_10, FEC_2_5, FEC_5_11, FEC_1_4, FEC_1_3] ! n"

subsection \<open>Conversions from stream codes\<close>

definition dvbs_modulation_from_stream :: "nat \<Rightarrow> fe_modulation_t" where
  "dvbs_modulation_from_stream val = [QAM_AUTO, QPSK, PSK_8, QAM_16] ! (val mod 4)"

definition dvt_modulation_from_stream :: "nat \<Rightarrow> fe_modulation_t" where
  "dvt_modulation_from_stream val = [QPSK, QAM_16, QAM_64, QAM_AUTO] ! (val mod 4)"

definition dvbc_modulation_from_stream :: "nat \<Rightarrow> fe_modulation_t" where
  "dvbc_modulation_from_stream val =
     [QAM_AUTO, QAM_16, QAM_32, QAM_64, QAM_128, QAM_256, QAM_AUTO, QAM_AUTO] ! (val mod 8)"

definition dvbs_code_rate_from_stream :: "nat \<Rightarrow> fe_code_rate_t" where
  "dvbs_code_rate_from_stream val =
     [FEC_AUTO, FEC_1_2, FEC_2_3, FEC_3_4, FEC_5_6, FEC_7_8, FEC_8_9, FEC_3_5, FEC_4_5, FEC_9_10, FEC_AUTO,
      FEC_AUTO, FEC_AUTO, FEC_AUTO, FEC_AUTO, FEC_AUTO] ! (val mod 16)"

definition dvbt_code_rate_from_stream :: "nat \<Rightarrow> fe_code_rate_t option" where
  "dvbt_code_rate_from_stream val =
     (if val \<le> 10
      then Some ([FEC_1_2, FEC_2_3, FEC_3_4, FEC_5_6, FEC_7_8, FEC_AUTO, FEC_AUTO, FEC_AUTO] ! (val mod 8))
      else None)"

definition dvbc_inner_code_rate_from_stream :: "nat \<Rightarrow> fe_code_rate_t" where
  "dvbc_inner_code_rate_from_stream val =
     [FEC_AUTO, FEC_1_2, FEC_2_3, FEC_3_4, FEC_5_6, FEC_7_8, FEC_8_9, FEC_3_5, FEC_4_5, FEC_9_10, FEC_AUTO,
      FEC_AUTO, FEC_AUTO, FEC_AUTO, FEC_AUTO, FEC_AUTO] ! (val mod 16)"

definition dvbt_transmission_mode_from_stream :: "nat \<Rightarrow> fe_transmit_mode_t" where
  "dvbt_transmission_mode_from_stream val =
     [TRANSMISSION_MODE_2K, TRANSMISSION_MODE_8K, TRANSMISSION_MODE_4K, TRANSMISSION_MODE_AUTO] ! (val mod 4)"

definition dvbt_transmission_guard_interval_from_stream :: "nat \<Rightarrow> fe_guard_interval_t" where
  "dvbt_transmission_guard_interval_from_stream val =
     [GUARD_INTERVAL_1_32, GUARD_INTERVAL_1_16, GUARD_INTERVAL_1_8, GUARD_INTERVAL_1_4] ! (val mod 4)"

definition dvt_bandwidth_from_stream :: "nat \<Rightarrow> fe_bandwidth_t" where
  "dvt_bandwidth_from_stream val =
     [BANDWIDTH_8_MHZ, BANDWIDTH_7_MHZ, BANDWIDTH_6_MHZ, BANDWIDTH_5_MHZ, BANDWIDTH_AUTO, BANDWIDTH_AUTO,
      BANDWIDTH_AUTO, BANDWIDTH_AUTO] ! (val mod 8)"

definition dvbt_hierarchy_from_stream :: "nat \<Rightarrow> fe_hierarchy_t" where
  "dvbt_hierarchy_from_stream val = [HIERARCHY_NONE, HIERARCHY_1, HIERARCHY_2, HIERARCHY_4] ! (val mod 4)"

definition media_mode_for_service_type :: "u8 \<Rightarrow> media_mode_t" where
  "media_mode_for_service_type st =
     (if st \<in> {0x01, 0x04, 0x05, 0x06, 0x1F} then MEDIA_TV
      else if st = 0x0b then MEDIA_UNKNOWN
      else if st = 0x0c then MEDIA_DATA
      else if st \<in> {0x11, 0x16, 0x17, 0x18, 0x19, 0x1A, 0x1B, 0x82} then MEDIA_TV
      else if st \<in> {0x02, 0x07, 0x0a} then MEDIA_RADIO
      else MEDIA_UNKNOWN)"

subsection \<open>Database records\<close>

abbreviation sat_pos_none :: int where "sat_pos_none \<equiv> -32767"
abbreviation sat_pos_dvbc :: int where "sat_pos_dvbc \<equiv> 20001"
abbreviation sat_pos_dvbt :: int where "sat_pos_dvbt \<equiv> 20002"
abbreviation null_pid :: u16 where "null_pid \<equiv> 8191"

record mux_common_t =
  nit_network_id :: u16
  nit_ts_id :: u16
  tune_src :: tune_src_t
  key_src :: key_src_t

record dvbs_mux_t =
  dvbs_sat_pos :: int
  dvbs_stream_id :: int
  dvbs_delivery_system :: delivery_system_t
  dvbs_frequency :: u32
  dvbs_pol :: fe_polarisation_t
  dvbs_symbol_rate :: u32
  dvbs_modulation :: fe_modulation_t
  dvbs_fec :: fe_code_rate_t
  dvbs_rolloff :: fe_rolloff_t
  dvbs_pls_mode :: fe_pls_mode_t
  dvbs_pls_code :: u32
  dvbs_c :: mux_common_t

record dvbc_mux_t =
  dvbc_sat_pos :: int
  dvbc_delivery_system :: delivery_system_t
  dvbc_frequency :: u32
  dvbc_symbol_rate :: u32
  dvbc_modulation :: fe_modulation_t
  dvbc_fec_inner :: fe_code_rate_t
  dvbc_fec_outer :: fe_code_rate_t
  dvbc_c :: mux_common_t

record dvbt_mux_t =
  dvbt_sat_pos :: int
  dvbt_delivery_system :: delivery_system_t
  dvbt_frequency :: u32
  dvbt_bandwidth :: fe_bandwidth_t
  dvbt_modulation :: fe_modulation_t
  dvbt_transmission_mode :: fe_transmit_mode_t
  dvbt_guard_interval :: fe_guard_interval_t
  dvbt_hierarchy :: fe_hierarchy_t
  dvbt_HP_code_rate :: fe_code_rate_t
  dvbt_LP_code_rate :: fe_code_rate_t
  dvbt_c :: mux_common_t

datatype any_mux_t = Dvbs dvbs_mux_t | Dvbc dvbc_mux_t | Dvbt dvbt_mux_t

definition default_mux_common :: mux_common_t where
  "default_mux_common = \<lparr>nit_network_id = 0, nit_ts_id = 0, tune_src = TUNE_AUTO, key_src = KEY_NONE\<rparr>"

definition default_dvbs_mux :: dvbs_mux_t where
  "default_dvbs_mux = \<lparr>dvbs_sat_pos = sat_pos_none, dvbs_stream_id = -1, dvbs_delivery_system = SYS_DVBS2,
     dvbs_frequency = 0, dvbs_pol = POL_V, dvbs_symbol_rate = 27500000, dvbs_modulation = PSK_8,
     dvbs_fec = FEC_AUTO, dvbs_rolloff = ROLLOFF_35, dvbs_pls_mode = PLS_ROOT, dvbs_pls_code = 1,
     dvbs_c = default_mux_common\<rparr>"

definition default_dvbc_mux :: dvbc_mux_t where
  "default_dvbc_mux = \<lparr>dvbc_sat_pos = sat_pos_none, dvbc_delivery_system = SYS_DVBC, dvbc_frequency = 0,
     dvbc_symbol_rate = 27500000, dvbc_modulation = QAM_AUTO, dvbc_fec_inner = FEC_AUTO,
     dvbc_fec_outer = FEC_AUTO, dvbc_c = default_mux_common\<rparr>"

definition default_dvbt_mux :: dvbt_mux_t where
  "default_dvbt_mux = \<lparr>dvbt_sat_pos = sat_pos_none, dvbt_delivery_system = SYS_DVBT2, dvbt_frequency = 0,
     dvbt_bandwidth = BANDWIDTH_8_MHZ, dvbt_modulation = QAM_AUTO,
     dvbt_transmission_mode = TRANSMISSION_MODE_2K, dvbt_guard_interval = GUARD_INTERVAL_1_32,
     dvbt_hierarchy = HIERARCHY_NONE, dvbt_HP_code_rate = FEC_AUTO, dvbt_LP_code_rate = FEC_AUTO,
     dvbt_c = default_mux_common\<rparr>"

record service_key_t =
  sk_network_id :: u16
  sk_ts_id :: u16
  sk_service_id :: u16

record service_t =
  svc_k :: service_key_t
  svc_service_type :: u16
  svc_media_mode :: media_mode_t
  svc_encrypted :: bool
  svc_name :: bytes
  svc_provider :: bytes

definition default_service_key :: service_key_t where
  "default_service_key = \<lparr>sk_network_id = 0, sk_ts_id = 0, sk_service_id = 0\<rparr>"

definition default_service :: service_t where
  "default_service = \<lparr>svc_k = default_service_key, svc_service_type = 0, svc_media_mode = MEDIA_UNKNOWN,
     svc_encrypted = False, svc_name = [], svc_provider = []\<rparr>"

record epg_record_t =
  epg_service :: service_key_t
  epg_start_time :: int
  epg_event_id :: u32
  epg_end_time :: int
  epg_series_link :: u16
  epg_event_name :: bytes
  epg_story :: bytes
  epg_content_codes :: "u16 list"

definition default_epg_record :: epg_record_t where
  "default_epg_record = \<lparr>epg_service = default_service_key, epg_start_time = 0, epg_event_id = 0,
     epg_end_time = 0, epg_series_link = 0xffff, epg_event_name = [], epg_story = [],
     epg_content_codes = []\<rparr>"

end
