(* ===== verification/Dvbtext.thy ===== *)
theory Dvbtext
  imports Prelude
begin

text \<open>
  Decoding of SI strings (\<open>receiver/streamparser/dvbtext.cc\<close>). A string lies in a larger buffer,
  at an offset, and is cleaned in place: the functions take the buffer and return it changed. Bytes
  before and behind the string are visible to the code, as they are here; an access outside of the
  buffer and a failed assertion are \<open>None\<close>. The conversion to UTF-8, which ends in the
  \<open>iconv\<close> library, and the decoders for compressed text are parameters.
\<close>

record text_env =
  append_as_utf8 :: "bytes \<Rightarrow> bytes \<Rightarrow> int \<Rightarrow> string \<Rightarrow> int \<times> bytes"
  freesat_huffman_decode :: "bytes \<Rightarrow> bytes \<Rightarrow> int \<Rightarrow> int \<times> bytes"
  opentv_decode_string :: "bytes \<Rightarrow> bytes \<Rightarrow> int \<Rightarrow> bytes"

subsection \<open>Character tables\<close>

definition CharacterTables1 :: "string option list" where
  "CharacterTables1 = [None, Some ''ISO-8859-5'', Some ''ISO-8859-6'', Some ''ISO-8859-7'',
     Some ''ISO-8859-8'', Some ''ISO-8859-9'', Some ''ISO-8859-10'', Some ''ISO-8859-11'',
     Some ''ISO-8859-12'', Some ''ISO-8859-13'', Some ''ISO-8859-14'', Some ''ISO-8859-15'',
     None, None, None, None, None, Some ''UTF-16'', Some ''EUC-KR'', Some ''GB2312'', Some ''GBK'',
     Some ''UTF-8'', None, None, None, None, None, None, None, None, None, None]"

definition CharacterTables2 :: "string option list" where
  "CharacterTables2 = [None, Some ''ISO-8859-1'', Some ''ISO-8859-2'', Some ''ISO-8859-3'',
     Some ''ISO-8859-4'', Some ''ISO-8859-5'', Some ''ISO-8859-6'', Some ''ISO-8859-7'',
     Some ''ISO-8859-8'', Some ''ISO-8859-9'', Some ''ISO-8859-10'', Some ''ISO-8859-11'', None,
     Some ''ISO-8859-13'', Some ''ISO-8859-14'', Some ''ISO-8859-15'']"

definition table_entry :: "string option list \<Rightarrow> nat \<Rightarrow> string option" where
  "table_entry t tag = (if tag < length t then t ! tag else None)"

text \<open>The name of the table, whether it has single-byte characters, and the rest of the string.\<close>

definition get_char_table_and_size :: "bytes \<Rightarrow> nat \<Rightarrow> nat \<Rightarrow> string \<times> bool \<times> nat \<times> nat" where
  "get_char_table_and_size buf off len =
     (let cs = ''ISO6937'';
          tag = unat (buf ! off)
      in if len = 0 then (cs, True, off, len)
         else if tag \<ge> 0x20 then (cs, True, off, len)
         else if tag = 0x10
         then (if len \<ge> 3
               then (case table_entry CharacterTables2 (256 * unat (buf ! (off + 1)) + unat (buf ! (off + 2))) of
                       Some name \<Rightarrow> (name, True, off + 3, len - 3)
                     | None \<Rightarrow> (cs, False, off, len))
               else (cs, False, off, len))
         else (case table_entry CharacterTables1 tag of
                 Some name \<Rightarrow> (name, tag \<le> 0x0B, off + 1, len - 1)
               | None \<Rightarrow> (cs, False, off, len)))"

subsection \<open>Control characters\<close>

definition convert_char :: "bool \<Rightarrow> u8 \<Rightarrow> u8 option" where
  "convert_char clean c =
     (if c = 0x8A then Some 0x0A
      else if c = 0xA0 then Some 0x20
      else if c = 0x86 \<or> c = 0x87 then (if clean then None else Some 0x2A)
      else Some c)"

function translate_single :: "bool \<Rightarrow> nat \<Rightarrow> nat \<Rightarrow> bytes \<Rightarrow> nat \<Rightarrow> nat \<Rightarrow> (bytes \<times> nat \<times> nat) option" where
  "translate_single clean start end buf from to =
     (if from < end
      then let c = buf ! from;
               from = from + 1
           in if c = 0x5F
              then (if from \<ge> start + 2 \<and> buf ! (from - 2) = 0x20
                    then (if to \<ge> 1 \<and> buf ! (to - 1) = 0x20
                          then translate_single clean start end (buf[to - 1 := 0x27]) from to
                          else None)
                    else translate_single clean start end buf from to)
              else (case convert_char clean c of
                      Some r \<Rightarrow> translate_single clean start end (buf[to := r]) from (to + 1)
                    | None \<Rightarrow> translate_single clean start end buf from to)
      else Some (buf, from, to))"
  by pat_completeness auto
termination
  by (relation "measure (\<lambda>(_, _, end, _, from, _). end - from)") auto

function translate_multi :: "bool \<Rightarrow> nat \<Rightarrow> bytes \<Rightarrow> nat \<Rightarrow> nat \<Rightarrow> (bytes \<times> nat \<times> nat) option" where
  "translate_multi clean end buf from to =
     (if from < end
      then let last = buf ! from;
               from = from + 1
           in if last = 0xe0
              then let buf = buf[to := 0]; to = to + 1
                   in if from < end
                      then (case convert_char clean (buf ! from) of
                              Some r \<Rightarrow> translate_multi clean end (buf[to := r]) (from + 1) (to + 1)
                            | None \<Rightarrow> translate_multi clean end buf (from + 1) to)
                      else translate_multi clean end buf from to
              else if from < length buf
              then let buf = buf[to := buf ! from]; from = from + 1; to = to + 1
                   in if from < end
                      then translate_multi clean end (buf[to := buf ! from]) (from + 1) (to + 1)
                      else translate_multi clean end buf from to
              else None
      else Some (buf, from, to))"
  by pat_completeness auto
termination
  by (relation "measure (\<lambda>(_, end, _, from, _). end - from)") (auto simp: Let_def)

declare translate_single.simps [simp del] translate_multi.simps [simp del]

definition translate_dvb_control_characters ::
  "bytes \<Rightarrow> nat \<Rightarrow> nat \<Rightarrow> bool \<Rightarrow> bool \<Rightarrow> (int \<times> bytes) option" where
  "translate_dvb_control_characters buf start sz single_byte_char clean = do {
     (buf, from, to) \<leftarrow> (if single_byte_char then translate_single clean start (start + sz) buf start start
                        else translate_multi clean (start + sz) buf start start);
     let delta = int from - int to;
     if delta \<ge> 0 then Some (int sz - delta, buf) else None
   }"

fun strip_zeros :: "bytes \<Rightarrow> nat \<Rightarrow> nat \<Rightarrow> nat" where
  "strip_zeros buf off 0 = 0"
| "strip_zeros buf off (Suc n) = (if buf ! (off + n) = 0 then strip_zeros buf off n else Suc n)"

definition decode_text :: "text_env \<Rightarrow> bytes \<Rightarrow> bytes \<Rightarrow> nat \<Rightarrow> int \<Rightarrow> (int \<times> bytes \<times> bytes) option" where
  "decode_text env out buf off len =
     (if len \<le> 0 then Some (0, out, buf)
      else if off + nat len > length buf then None
      else let n = strip_zeros buf off (nat len)
           in if n < 1 then Some (int n, out, buf)
              else if buf ! off = 0x1f
              then let (ret, out) = freesat_huffman_decode env out (drop off buf) (int n) in Some (ret, out, buf)
              else let (cs, single_byte_char, off, n) = get_char_table_and_size buf off n
                   in do {
                     (new_len, buf) \<leftarrow> translate_dvb_control_characters buf off n single_byte_char True;
                     let (ret, out) = append_as_utf8 env out (drop off buf) new_len cs;
                     Some (ret, out, buf)
                   })"


subsection \<open>Single-byte text\<close>

text \<open>
  The loop invariant: the cleaned text ends before the read position, and when the byte just read was a
  blank, the cleaned text ends in a blank, which is what the assertion in the loop relies on.
\<close>

definition single_inv :: "nat \<Rightarrow> nat \<Rightarrow> bytes \<Rightarrow> nat \<Rightarrow> nat \<Rightarrow> bool" where
  "single_inv start e buf from to \<longleftrightarrow> start \<le> to \<and> to \<le> from \<and> from \<le> e \<and> e \<le> length buf \<and>
     (start < from \<and> buf ! (from - 1) = 0x20 \<longrightarrow> start < to \<and> buf ! (to - 1) = 0x20)"

lemma convert_char_blank: "convert_char clean 0x20 = Some 0x20"
  by (simp add: convert_char_def)

lemma single_inv_write:
  "single_inv start e buf from to \<Longrightarrow> from < e \<Longrightarrow> (buf ! from = 0x20 \<Longrightarrow> r = 0x20) \<Longrightarrow>
    single_inv start e (buf[to := r]) (from + 1) (to + 1)"
  by (auto simp: single_inv_def nth_list_update)

lemma single_inv_drop:
  "single_inv start e buf from to \<Longrightarrow> from < e \<Longrightarrow> buf ! from \<noteq> 0x20 \<Longrightarrow> single_inv start e buf (from + 1) to"
  by (auto simp: single_inv_def)

lemma single_inv_quote:
  "single_inv start e buf from to \<Longrightarrow> from < e \<Longrightarrow> buf ! from = 0x5F \<Longrightarrow> start < to \<Longrightarrow>
    single_inv start e (buf[to - 1 := 0x27]) (from + 1) to"
  by (auto simp: single_inv_def nth_list_update)

lemmas single_inv_steps = single_inv_write single_inv_drop single_inv_quote

text \<open>Nothing outside of the string is changed.\<close>

definition same_outside :: "nat \<Rightarrow> nat \<Rightarrow> bytes \<Rightarrow> bytes \<Rightarrow> bool" where
  "same_outside start e buf buf' \<longleftrightarrow> length buf' = length buf \<and> (\<forall>i. i < start \<or> e \<le> i \<longrightarrow> buf' ! i = buf ! i)"

lemma same_outside_update:
  "same_outside start e (buf[i := r]) buf' \<Longrightarrow> start \<le> i \<Longrightarrow> i < e \<Longrightarrow> same_outside start e buf buf'"
  by (auto simp: same_outside_def)

lemma translate_single_total:
  assumes "single_inv start e buf from to"
  shows "\<exists>buf' to'. translate_single clean start e buf from to = Some (buf', e, to') \<and>
    start \<le> to' \<and> to' \<le> e \<and> same_outside start e buf buf'"
  using assms
proof (induction clean start e buf "from" to rule: translate_single.induct)
  case (1 clean start e buf "from" to)
  note inv = \<open>single_inv start e buf from to\<close>
  show ?case
  proof (cases "from < e")
    case False
    then show ?thesis using inv by (subst translate_single.simps) (auto simp: single_inv_def same_outside_def)
  next
    case True
    have blank: "start < to \<and> buf ! (to - 1) = 0x20" if "from + 1 \<ge> start + 2 \<and> buf ! (from + 1 - 2) = 0x20"
      using inv that by (auto simp: single_inv_def)
    consider (quote) "buf ! from = 0x5F" "from + 1 \<ge> start + 2 \<and> buf ! (from + 1 - 2) = 0x20"
      | (underscore) "buf ! from = 0x5F" "\<not> (from + 1 \<ge> start + 2 \<and> buf ! (from + 1 - 2) = 0x20)"
      | (dropped) "buf ! from \<noteq> 0x5F" "convert_char clean (buf ! from) = None"
      | (kept) r where "buf ! from \<noteq> 0x5F" "convert_char clean (buf ! from) = Some r"
      by blast
    then show ?thesis
    proof cases
      case quote
      have "single_inv start e (buf[to - 1 := 0x27]) (from + 1) to"
        using inv True quote blank by (intro single_inv_quote) auto
      from "1.IH"(1) [OF True refl refl quote(1) quote(2) _ this] blank [OF quote(2)] obtain buf' to' where
        "translate_single clean start e (buf[to - 1 := 0x27]) (from + 1) to = Some (buf', e, to')"
        "start \<le> to'" "to' \<le> e" "same_outside start e (buf[to - 1 := 0x27]) buf'" by auto
      moreover have "start \<le> to - 1" "to - 1 < e" "to \<ge> 1" using inv blank [OF quote(2)] by (auto simp: single_inv_def)
      ultimately show ?thesis using True quote blank [OF quote(2)]
        by (subst translate_single.simps) (auto intro: same_outside_update)
    next
      case underscore
      have "single_inv start e buf (from + 1) to" using inv True underscore by (intro single_inv_drop) auto
      from "1.IH"(2) [OF True refl refl underscore this] show ?thesis using True underscore
        by (subst translate_single.simps) (auto simp: Let_def)
    next
      case dropped
      then have "buf ! from \<noteq> 0x20" by (auto simp: convert_char_def)
      then have "single_inv start e buf (from + 1) to" using inv True by (intro single_inv_drop)
      from "1.IH"(3) [OF True refl refl dropped this] show ?thesis using True dropped
        by (subst translate_single.simps) (auto simp: Let_def)
    next
      case kept
      then have "single_inv start e (buf[to := r]) (from + 1) (to + 1)"
        using inv True convert_char_blank [of clean] by (intro single_inv_write) auto
      from "1.IH"(4) [OF True refl refl kept this] obtain buf' to' where
        "translate_single clean start e (buf[to := r]) (from + 1) (to + 1) = Some (buf', e, to')"
        "start \<le> to'" "to' \<le> e" "same_outside start e (buf[to := r]) buf'" by auto
      moreover have "start \<le> to" "to < e" using inv True by (auto simp: single_inv_def)
      ultimately show ?thesis using True kept
        by (subst translate_single.simps) (auto simp: Let_def intro: same_outside_update)
    qed
  qed
qed

text \<open>Without underscores the cleaned text is the converted text.\<close>

lemma translate_single_convert:
  assumes "translate_single clean start e buf from to = Some (buf', from', to')"
    and "start \<le> to" "to \<le> from" "from \<le> e" "e \<le> length buf"
    and "0x5F \<notin> set (take (e - from) (drop from buf))"
  shows "take (to' - start) (drop start buf') =
    take (to - start) (drop start buf) @ List.map_filter (convert_char clean) (take (e - from) (drop from buf))"
  using assms
proof (induction clean start e buf "from" to rule: translate_single.induct)
  case (1 clean start e buf "from" to)
  show ?case
  proof (cases "from < e")
    case False
    then show ?thesis using "1.prems" by (subst (asm) translate_single.simps) simp
  next
    case True
    have split: "take (e - from) (drop from buf) = buf ! from # take (e - Suc from) (drop (Suc from) buf)"
      using True "1.prems" by (metis Cons_nth_drop_Suc Suc_diff_Suc less_le_trans take_Suc_Cons)
    have ne: "buf ! from \<noteq> 0x5F" "0x5F \<notin> set (take (e - Suc from) (drop (Suc from) buf))"
      using "1.prems"(6) by (auto simp: split)
    show ?thesis
    proof (cases "convert_char clean (buf ! from)")
      case None
      with "1.IH"(3) [OF True refl refl ne(1) None] "1.prems" True ne show ?thesis
        by (subst (asm) translate_single.simps) (simp add: split Let_def List.map_filter_simps)
    next
      case (Some r)
      have "take (to + 1 - start) (drop start (buf[to := r])) = take (to - start) (drop start buf) @ [r]"
        using "1.prems"(2-5) True
        by (simp add: Suc_diff_le take_Suc_conv_app_nth drop_update_swap)
      with "1.IH"(4) [OF True refl refl ne(1) Some] "1.prems" True ne Some show ?thesis
        by (subst (asm) translate_single.simps) (simp add: split Let_def List.map_filter_simps)
    qed
  qed
qed


lemma translate_single_spec:
  assumes "start + sz \<le> length buf"
  shows "\<exists>n buf'. translate_dvb_control_characters buf start sz True clean = Some (int n, buf') \<and> n \<le> sz \<and>
    same_outside start (start + sz) buf buf' \<and>
    (0x5F \<notin> set (take sz (drop start buf)) \<longrightarrow>
      take n (drop start buf') = List.map_filter (convert_char clean) (take sz (drop start buf)))"
proof -
  have "single_inv start (start + sz) buf start start" using assms by (simp add: single_inv_def)
  from translate_single_total [OF this, of clean] obtain buf' to' where
    r: "translate_single clean start (start + sz) buf start start = Some (buf', start + sz, to')"
      "start \<le> to'" "to' \<le> start + sz" "same_outside start (start + sz) buf buf'" by blast
  have "translate_dvb_control_characters buf start sz True clean = Some (int (to' - start), buf')"
    using r by (simp add: translate_dvb_control_characters_def of_nat_diff)
  moreover have "take (to' - start) (drop start buf') = List.map_filter (convert_char clean) (take sz (drop start buf))"
    if "0x5F \<notin> set (take sz (drop start buf))"
    using translate_single_convert [OF r(1)] assms that by simp
  ultimately show ?thesis using r by (intro exI [of _ "to' - start"] exI [of _ buf']) auto
qed

lemma strip_zeros_le: "strip_zeros buf off n \<le> n"
  by (induction n) auto

lemma get_char_table_range:
  "get_char_table_and_size buf off n = (cs, single, off', n') \<Longrightarrow> off \<le> off' \<and> off' + n' = off + n"
  by (auto simp: get_char_table_and_size_def Let_def split: if_splits option.splits)

text \<open>C30: Cleaning a single-byte string never trips its assertion and never leaves the string: whatever the
  buffer holds, a length between zero and the old one is returned and only bytes of the string are
  changed; a string without underscores comes out as its characters with the control codes converted or removed.\<close>
theorem translate_single_byte_text:
  assumes "start + sz \<le> length buf"
  shows "\<exists>n buf'. translate_dvb_control_characters buf start sz True clean = Some (int n, buf') \<and> n \<le> sz \<and>
    same_outside start (start + sz) buf buf' \<and>
    (0x5F \<notin> set (take sz (drop start buf)) \<longrightarrow>
      take n (drop start buf') = List.map_filter (convert_char clean) (take sz (drop start buf)))"
  using assms by (rule translate_single_spec)

theorem translate_single_byte_text_witness:
  "\<exists>n buf'. translate_dvb_control_characters [0x41, 0x86, 0x8A, 0x42, 0x87] 0 5 True True = Some (int n, buf') \<and>
    take n buf' = [0x41, 0x0A, 0x42]"
proof -
  have "List.map_filter (convert_char True) (take 5 (drop 0 [0x41, 0x86, 0x8A, 0x42, 0x87])) = [0x41, 0x0A, 0x42]"
    by (simp add: List.map_filter_simps convert_char_def)
  then show ?thesis
    using translate_single_byte_text [of 0 5 "[0x41, 0x86, 0x8A, 0x42, 0x87]" True] by auto
qed

text \<open>Multi-byte text is damaged: of every three bytes the first one is lost, unless it is the control
  code prefix \<open>0xe0\<close>, and a string of one byte reads the byte behind it.\<close>
theorem translate_multi_byte_loses_text:
  "(a \<noteq> 0xe0 \<longrightarrow> translate_dvb_control_characters [a, b, c] 0 3 False True = Some (2, [b, c, c])) \<and>
   (a \<noteq> 0xe0 \<longrightarrow> translate_dvb_control_characters [a, b] 0 1 False True = Some (0, [b, b])) \<and>
   (a \<noteq> 0xe0 \<longrightarrow> translate_dvb_control_characters [a] 0 1 False True = None)"
  by (simp add: translate_dvb_control_characters_def translate_multi.simps)

theorem translate_multi_byte_loses_text_witness:
  "translate_dvb_control_characters [0x61, 0x62, 0x63] 0 3 False True = Some (2, [0x62, 0x63, 0x63])"
  using translate_multi_byte_loses_text [where a = "0x61" and b = "0x62" and c = "0x63"] by simp

text \<open>Decoding a single-byte string, with or without a table prefix, always succeeds and leaves the
  rest of the buffer unchanged, so that the bytes of a section behind the string can still be parsed.\<close>
theorem decode_text_keeps_rest:
  assumes "off + nat len \<le> length buf"
    and "buf ! off = 0x1f \<or> fst (snd (get_char_table_and_size buf off (strip_zeros buf off (nat len))))"
  shows "\<exists>ret out' buf'. decode_text env out buf off len = Some (ret, out', buf') \<and>
    same_outside off (off + nat len) buf buf'"
proof -
  let ?n = "strip_zeros buf off (nat len)"
  obtain cs single o' n' where g: "get_char_table_and_size buf off ?n = (cs, single, o', n')"
    by (metis prod_cases4)
  have r: "off \<le> o'" "o' + n' \<le> off + nat len"
    using get_char_table_range [OF g] strip_zeros_le [of buf off "nat len"] by auto
  obtain k buf' where t: "translate_dvb_control_characters buf o' n' True True = Some (k, buf')"
    "same_outside off (off + nat len) buf buf'"
    using translate_single_spec [of o' n' buf True] r assms(1) by (auto simp: same_outside_def)
  obtain ret out' where u: "append_as_utf8 env out (drop o' buf') k cs = (ret, out')" by force
  show ?thesis
  proof (cases "len \<le> 0 \<or> ?n < 1 \<or> buf ! off = 0x1f")
    case True
    then show ?thesis using assms(1) by (auto simp: decode_text_def same_outside_def Let_def split: prod.splits)
  next
    case False
    then have "decode_text env out buf off len = Some (ret, out', buf')"
      using assms g t(1) u by (simp add: decode_text_def Let_def)
    then show ?thesis using t(2) by blast
  qed
qed

definition latin_env :: text_env where
  "latin_env = \<lparr>append_as_utf8 = (\<lambda>out text size cs. (size, out @ take (nat size) text)),
     freesat_huffman_decode = (\<lambda>out text size. (size, out @ take (nat size) text)),
     opentv_decode_string = (\<lambda>out text size. out @ take (nat size) text)\<rparr>"

theorem decode_text_keeps_rest_witness:
  "\<exists>ret out' buf'. decode_text latin_env [] [0x05, 0x41, 0x42, 0x99] 0 3 = Some (ret, out', buf') \<and> buf' ! 3 = 0x99"
proof -
  have "fst (snd (get_char_table_and_size [0x05, 0x41, 0x42, 0x99] 0 (strip_zeros [0x05, 0x41, 0x42, 0x99] 0 (nat 3))))"
    by code_simp
  then show ?thesis
    using decode_text_keeps_rest [of 0 3 "[0x05, 0x41, 0x42, 0x99]" latin_env "[]"] by (auto simp: same_outside_def)
qed

end
