(* ===== verification/Section_Reader.thy ===== *)
theory Section_Reader
  imports Section_Header Chdb_Types Dvbtext
begin

text \<open>
  The cursor over a stored section (\<open>stored_section_t\<close> in
  \<open>receiver/streamparser/section.h\<close>). Operations take the reader and return it changed;
  \<open>None\<close> is a failed assertion, a null pointer that is used, a copy with a negative size, or a loop
  that never ends. A read past the end sets the error flag and leaves the returned storage
  uninitialised: its content is taken from \<open>junk\<close>, indexed by the number of failed reads, so that
  nothing is known about it.
\<close>

record stored_section_t =
  section_pid :: u16
  payload :: bytes
  bytes_read :: int
  section_error :: bool
  junk :: "nat \<Rightarrow> nat"
  failed_reads :: nat

definition open_section :: "(nat \<Rightarrow> nat) \<Rightarrow> bytes \<Rightarrow> u16 \<Rightarrow> stored_section_t" where
  "open_section j data p = \<lparr>section_pid = p, payload = data, bytes_read = 0, section_error = False,
     junk = j, failed_reads = 0\<rparr>"

definition available :: "stored_section_t \<Rightarrow> int" where
  "available s = int (length (payload s)) - bytes_read s"

definition throw_bad_data :: "stored_section_t \<Rightarrow> stored_section_t" where
  "throw_bad_data s = s\<lparr>section_error := True\<rparr>"

text \<open>The pointer into the payload, as an offset; \<open>None\<close> is the null pointer.\<close>

definition current_pointer :: "int \<Rightarrow> stored_section_t \<Rightarrow> int option \<times> stored_section_t" where
  "current_pointer n s =
     (if available s < n then (None, throw_bad_data s)
      else (Some (bytes_read s), s\<lparr>bytes_read := bytes_read s + n\<rparr>))"

definition get_buffer :: "int \<Rightarrow> stored_section_t \<Rightarrow> (bytes option \<times> stored_section_t) option" where
  "get_buffer n s =
     (if n > available s then Some (None, throw_bad_data s)
      else if n < 0 \<or> bytes_read s < 0 then None
      else Some (Some (take (nat n) (drop (nat (bytes_read s)) (payload s))),
                 s\<lparr>bytes_read := bytes_read s + n\<rparr>))"

definition skip :: "int \<Rightarrow> stored_section_t \<Rightarrow> int \<times> stored_section_t" where
  "skip n s = (if n > available s then (-1, throw_bad_data s) else (1, s\<lparr>bytes_read := bytes_read s + n\<rparr>))"

text \<open>Reading a big-endian number into uninitialised storage.\<close>

definition get :: "nat \<Rightarrow> stored_section_t \<Rightarrow> ('a::len word \<times> stored_section_t) option" where
  "get n s = do {
     (r, s) \<leftarrow> get_buffer (int n) s;
     case r of
       Some bs \<Rightarrow> Some (be_word bs, s)
     | None \<Rightarrow> Some (of_nat (junk s (failed_reads s)), s\<lparr>failed_reads := failed_reads s + 1\<rparr>)
   }"

definition get_uint8 :: "stored_section_t \<Rightarrow> (u8 \<times> stored_section_t) option" where
  "get_uint8 = get 1"

definition get_uint16 :: "stored_section_t \<Rightarrow> (u16 \<times> stored_section_t) option" where
  "get_uint16 = get 2"

definition get_uint32 :: "stored_section_t \<Rightarrow> (u32 \<times> stored_section_t) option" where
  "get_uint32 = get 4"

record descriptor_t =
  desc_tag :: u8
  desc_len :: int

definition get_descriptor :: "stored_section_t \<Rightarrow> (descriptor_t \<times> stored_section_t) option" where
  "get_descriptor s =
     (if available s < 2 then Some (\<lparr>desc_tag = 0, desc_len = 0\<rparr>, throw_bad_data s)
      else do {
        (tag, s) \<leftarrow> get_uint8 s;
        (l, s) \<leftarrow> get_uint8 s;
        Some (\<lparr>desc_tag = tag, desc_len = uint l\<rparr>, s)
      })"

subsection \<open>Loops\<close>

text \<open>
  A \<open>while\<close> loop that may not end, and one whose body may return from the function with a value
  \<open>Inl r\<close>.
\<close>

partial_function (option) while_loop :: "('s \<Rightarrow> bool) \<Rightarrow> ('s \<Rightarrow> 's option) \<Rightarrow> 's \<Rightarrow> 's option" where
  "while_loop c b s = (if c s then Option.bind (b s) (while_loop c b) else Some s)"

partial_function (option) while_return ::
  "('s \<Rightarrow> bool) \<Rightarrow> ('s \<Rightarrow> ('r + 's) option) \<Rightarrow> 's \<Rightarrow> ('r + 's) option" where
  "while_return c b s =
     (if c s
      then Option.bind (b s) (\<lambda>r. case r of Inl v \<Rightarrow> Some (Inl v) | Inr s' \<Rightarrow> while_return c b s')
      else Some (Inr s))"

declare while_loop.simps [code] while_return.simps [code]

lemma while_loop_exit [simp]: "\<not> c s \<Longrightarrow> while_loop c b s = Some s"
  by (subst while_loop.simps) simp

lemma while_loop_step: "c s \<Longrightarrow> while_loop c b s = Option.bind (b s) (while_loop c b)"
  by (subst while_loop.simps) simp

lemma while_return_exit [simp]: "\<not> c s \<Longrightarrow> while_return c b s = Some (Inr s)"
  by (subst while_return.simps) simp

lemma while_return_step:
  "c s \<Longrightarrow> while_return c b s =
    Option.bind (b s) (\<lambda>r. case r of Inl v \<Rightarrow> Some (Inl v) | Inr s' \<Rightarrow> while_return c b s')"
  by (subst while_return.simps) simp

text \<open>A loop returns when its body does and a measure decreases.\<close>

lemma while_loop_returns:
  assumes "\<And>s. P s \<Longrightarrow> c s \<Longrightarrow> \<exists>s'. b s = Some s' \<and> P s' \<and> m s' < (m s :: nat)"
  shows "P s \<Longrightarrow> \<exists>s'. while_loop c b s = Some s' \<and> P s' \<and> \<not> c s'"
proof (induction "m s" arbitrary: s rule: less_induct)
  case less
  show ?case
  proof (cases "c s")
    case True
    with assms less obtain s' where "b s = Some s'" "P s'" "m s' < m s" by blast
    with less.hyps [of s'] True show ?thesis by (simp add: while_loop_step)
  qed (use less in simp)
qed

lemma while_return_returns:
  assumes "\<And>s. P s \<Longrightarrow> c s \<Longrightarrow> \<exists>r. b s = Some r \<and> (case r of Inl v \<Rightarrow> Q v | Inr s' \<Rightarrow> P s' \<and> m s' < (m s :: nat))"
  shows "P s \<Longrightarrow> \<exists>r. while_return c b s = Some r \<and> (case r of Inl v \<Rightarrow> Q v | Inr s' \<Rightarrow> P s' \<and> \<not> c s')"
proof (induction "m s" arbitrary: s rule: less_induct)
  case less
  show ?case
  proof (cases "c s")
    case True
    with assms less obtain r where "b s = Some r" "case r of Inl v \<Rightarrow> Q v | Inr s' \<Rightarrow> P s' \<and> m s' < m s" by blast
    with less.hyps True show ?thesis by (cases r) (auto simp: while_return_step)
  qed (use less in simp)
qed

text \<open>A loop whose body keeps a condition that implies the guard never ends.\<close>

lemma while_loop_diverges:
  assumes "\<And>s. P s \<Longrightarrow> c s" and "\<And>s s'. P s \<Longrightarrow> b s = Some s' \<Longrightarrow> P s'"
  shows "P s \<Longrightarrow> while_loop c b s = None"
proof -
  have "c' = c \<longrightarrow> b' = b \<longrightarrow> \<not> P t" if "while_loop c' b' t = Some t'" for c' b' t t'
    by (rule while_loop.raw_induct [where P = "\<lambda>c' b' t t'. c' = c \<longrightarrow> b' = b \<longrightarrow> \<not> P t", OF _ that])
      (use assms in \<open>(auto split: if_splits Option.bind_splits), blast\<close>)
  then show "P s \<Longrightarrow> while_loop c b s = None" by (cases "while_loop c b s") auto
qed


lemma while_return_diverges:
  assumes "\<And>s. P s \<Longrightarrow> c s" and "\<And>s r. P s \<Longrightarrow> b s = Some r \<Longrightarrow> \<exists>s'. r = Inr s' \<and> P s'"
  shows "P s \<Longrightarrow> while_return c b s = None"
proof -
  have "c' = c \<longrightarrow> b' = b \<longrightarrow> \<not> P t" if "while_return c' b' t = Some t'" for c' b' t t'
    by (rule while_return.raw_induct [where P = "\<lambda>c' b' t t'. c' = c \<longrightarrow> b' = b \<longrightarrow> \<not> P t", OF _ that])
      (use assms in \<open>(auto split: if_splits Option.bind_splits sum.splits), (blast | fastforce)+\<close>)
  then show "P s \<Longrightarrow> while_return c b s = None" by (cases "while_return c b s") auto
qed

text \<open>What the body of a loop keeps holds when the loop has returned.\<close>

lemma while_return_keeps:
  assumes "\<And>s s'. P s \<Longrightarrow> c s \<Longrightarrow> b s = Some (Inr s') \<Longrightarrow> P s'" "\<And>s v. P s \<Longrightarrow> c s \<Longrightarrow> b s = Some (Inl v) \<Longrightarrow> Q v"
    and "while_return c b s = Some r" "P s"
  shows "case r of Inl v \<Rightarrow> Q v | Inr s' \<Rightarrow> P s'"
proof -
  have "c = c \<longrightarrow> b = b \<longrightarrow> P s \<longrightarrow> (case r of Inl v \<Rightarrow> Q v | Inr s' \<Rightarrow> P s')"
  proof (rule while_return.raw_induct [where P = "\<lambda>c' b' t t'. c' = c \<longrightarrow> b' = b \<longrightarrow> P t \<longrightarrow> (case t' of Inl v \<Rightarrow> Q v | Inr s' \<Rightarrow> P s')",
        OF _ assms(3)], intro impI)
    fix W c' b' t t'
    assume IH: "\<And>c' b' t t'. W c' b' t = Some t' \<Longrightarrow> c' = c \<longrightarrow> b' = b \<longrightarrow> P t \<longrightarrow> (case t' of Inl v \<Rightarrow> Q v | Inr s' \<Rightarrow> P s')"
      and step: "(if c' t then Option.bind (b' t) (\<lambda>r. case r of Inl v \<Rightarrow> Some (Inl v) | Inr s' \<Rightarrow> W c' b' s') else Some (Inr t)) = Some t'"
      and eq: "c' = c" "b' = b" and "P t"
    show "case t' of Inl v \<Rightarrow> Q v | Inr s' \<Rightarrow> P s'"
    proof (cases "c t")
      case True
      with step eq obtain r where r: "b t = Some r" "(case r of Inl v \<Rightarrow> Some (Inl v) | Inr s' \<Rightarrow> W c b s') = Some t'"
        by (auto simp: bind_eq_Some_conv)
      then show ?thesis
        using assms(1) [OF \<open>P t\<close> True] assms(2) [OF \<open>P t\<close> True] IH [of c b _ t'] by (cases r) auto
    qed (use step eq \<open>P t\<close> in auto)
  qed
  with assms(4) show ?thesis by blast
qed

lemma while_loop_keeps:
  assumes "\<And>s s'. P s \<Longrightarrow> c s \<Longrightarrow> b s = Some s' \<Longrightarrow> P s'" and "while_loop c b s = Some r" "P s"
  shows "P r \<and> \<not> c r"
proof -
  have "c = c \<longrightarrow> b = b \<longrightarrow> P s \<longrightarrow> P r \<and> \<not> c r"
  proof (rule while_loop.raw_induct [where P = "\<lambda>c' b' t t'. c' = c \<longrightarrow> b' = b \<longrightarrow> P t \<longrightarrow> P t' \<and> \<not> c t'", OF _ assms(2)], intro impI)
    fix W c' b' t t'
    assume IH: "\<And>c' b' t t'. W c' b' t = Some t' \<Longrightarrow> c' = c \<longrightarrow> b' = b \<longrightarrow> P t \<longrightarrow> P t' \<and> \<not> c t'"
      and step: "(if c' t then Option.bind (b' t) (W c' b') else Some t) = Some t'" and eq: "c' = c" "b' = b" and "P t"
    show "P t' \<and> \<not> c t'"
    proof (cases "c t")
      case True
      with step eq obtain r where "b t = Some r" "W c b r = Some t'" by (auto simp: bind_eq_Some_conv)
      then show ?thesis using assms(1) [OF \<open>P t\<close> True] IH by blast
    qed (use step eq \<open>P t\<close> in simp)
  qed
  with assms(3) show ?thesis by blast
qed

subsection \<open>Readers at a position\<close>

text \<open>
  The reader \<open>at_pos s pre rest\<close> has consumed \<open>pre\<close> and has \<open>rest\<close> before it, without an
  error so far. The operations below are stated for such readers, so that a parser can be run on an
  encoded section by simplification.
\<close>

definition at_pos :: "stored_section_t \<Rightarrow> bytes \<Rightarrow> bytes \<Rightarrow> stored_section_t" where
  "at_pos s pre rest = s\<lparr>payload := pre @ rest, bytes_read := int (length pre)\<rparr>"

named_theorems section_simps

lemma at_pos_available [simp]: "available (at_pos s pre rest) = int (length rest)"
  by (simp add: at_pos_def available_def)

lemma at_pos_error [simp]: "section_error (at_pos s pre rest) = section_error s"
  by (simp add: at_pos_def)

lemma at_pos_read [simp]: "bytes_read (at_pos s pre rest) = int (length pre)" "section_pid (at_pos s pre rest) = section_pid s"
  "payload (at_pos s pre rest) = pre @ rest"
  by (simp_all add: at_pos_def)

lemma open_section_at: "open_section j data p = at_pos (open_section j [] p) [] data"
  by (simp add: open_section_def at_pos_def)

lemma get_buffer_at: "n = int (length x) \<Longrightarrow>
    get_buffer n (at_pos s pre (x @ rest)) = Some (Some x, at_pos s (pre @ x) rest)"
  by (simp add: get_buffer_def available_def at_pos_def)

lemma get_at: "n = length x \<Longrightarrow> get n (at_pos s pre (x @ rest)) = Some (be_word x, at_pos s (pre @ x) rest)"
  using get_buffer_at [of "int n" x s pre rest] by (simp add: get_def)

lemma get_uint8_at [section_simps]: "get_uint8 (at_pos s pre (a # rest)) = Some (a, at_pos s (pre @ [a]) rest)"
  using get_at [of 1 "[a]" s pre rest, where 'a = 8] by (simp add: get_uint8_def be_word_def)

lemma get_uint16_at [section_simps]:
  "get_uint16 (at_pos s pre (a # b # rest)) = Some (be_word [a, b], at_pos s (pre @ [a, b]) rest)"
  using get_at [of 2 "[a, b]" s pre rest, where 'a = 16] by (simp add: get_uint16_def)

lemma get_uint32_at [section_simps]:
  "get_uint32 (at_pos s pre (a # b # c # d # rest)) = Some (be_word [a, b, c, d], at_pos s (pre @ [a, b, c, d]) rest)"
  using get_at [of 4 "[a, b, c, d]" s pre rest, where 'a = 32] by (simp add: get_uint32_def)

lemma get_descriptor_at [section_simps]:
  "get_descriptor (at_pos s pre (t # l # rest)) =
    Some (\<lparr>desc_tag = t, desc_len = uint l\<rparr>, at_pos s (pre @ [t, l]) rest)"
  by (simp add: get_descriptor_def section_simps)

lemma get_uint16_bytes: "get_uint16 (at_pos s pre (be_bytes 2 w @ rest)) = Some (w, at_pos s (pre @ be_bytes 2 w) rest)"
  using get_at [of 2 "be_bytes 2 w" s pre rest, where 'a = 16] be_word_be_bytes [of 2 w] by (simp add: get_uint16_def)

lemma get_uint32_bytes: "get_uint32 (at_pos s pre (be_bytes 4 w @ rest)) = Some (w, at_pos s (pre @ be_bytes 4 w) rest)"
  using get_at [of 4 "be_bytes 4 w" s pre rest, where 'a = 32] be_word_be_bytes [of 4 w] by (simp add: get_uint32_def)

lemma skip_at: "n = int (length x) \<Longrightarrow> skip n (at_pos s pre (x @ rest)) = (1, at_pos s (pre @ x) rest)"
  by (simp add: skip_def available_def at_pos_def)

lemma current_pointer_at: "n = int (length x) \<Longrightarrow>
    current_pointer n (at_pos s pre (x @ rest)) = (Some (int (length pre)), at_pos s (pre @ x) rest)"
  by (simp add: current_pointer_def available_def at_pos_def)

end
