(* ===== verification/Section_Descriptors.thy ===== *)
theory Section_Descriptors
  imports Section_Reader
begin

text \<open>
  Parsers for descriptors (\<open>stored_section_t::get_fields\<close> and
  \<open>stored_section_t::get\<close> in \<open>receiver/streamparser/section.cc\<close>), in the order of the
  source. Each takes the structure to fill and the reader and returns the C++ result (0 or \<open>has_error()\<close>,
  \<open>-1\<close> on failure), the structure and the reader. Local strings that are only logged start empty.
\<close>

subsection \<open>Numbers and times\<close>

definition BCDCHARTOINT :: "u32 \<Rightarrow> nat" where
  "BCDCHARTOINT x = 10 * unat (drop_bit 4 (x AND 0xF0)) + unat (x AND 0xF)"

definition BCD2INT :: "u32 \<Rightarrow> nat" where
  "BCD2INT x = 1000000 * BCDCHARTOINT (drop_bit 24 x AND 0xFF) + 10000 * BCDCHARTOINT (drop_bit 16 x AND 0xFF) +
     100 * BCDCHARTOINT (drop_bit 8 x AND 0xFF) + BCDCHARTOINT (x AND 0xFF)"

definition bcdToDec :: "u8 \<Rightarrow> u8" where
  "bcdToDec b = (drop_bit 4 b AND 0x0F) * 10 + (b AND 0x0F)"

text \<open>Division of C++, towards zero.\<close>

definition trunc_div :: "int \<Rightarrow> int \<Rightarrow> int" where
  "trunc_div a b = sgn a * (\<bar>a\<bar> div b)"

text \<open>\<open>timegm\<close> of the C library, for months in any range.\<close>

definition timegm :: "int \<Rightarrow> int \<Rightarrow> int \<Rightarrow> int \<Rightarrow> int \<Rightarrow> int \<Rightarrow> int" where
  "timegm tm_year tm_mon tm_mday tm_hour tm_min tm_sec =
     (let y = 1900 + tm_year + tm_mon div 12;
          m = tm_mon mod 12 + 1;
          y' = (if m \<le> 2 then y - 1 else y);
          m' = (if m \<le> 2 then m + 9 else m - 3);
          days = 365 * y' + y' div 4 - y' div 100 + y' div 400 + (153 * m' + 2) div 5 + tm_mday - 1 - 719468
      in 86400 * days + 3600 * tm_hour + 60 * tm_min + tm_sec)"

text \<open>
  The start time from a modified Julian date. The source computes with \<open>double\<close>; the decimal
  constants are written as fractions here, which gives the same integers: no quotient comes closer to an
  integer than \<open>1/306001\<close>.
\<close>

definition mjd_start_time :: "u16 \<Rightarrow> int \<Rightarrow> int \<Rightarrow> int \<Rightarrow> int" where
  "mjd_start_time mjd tm_hour tm_min tm_sec =
     (let d = uint mjd;
          tm_year = trunc_div (20 * d - 301564) 7305;
          tm_mon = trunc_div (1000 * (10 * d - 149561 - 10 * trunc_div (1461 * tm_year) 4)) 306001;
          tm_mday = d - 14956 - trunc_div (1461 * tm_year) 4 - trunc_div (306001 * tm_mon) 10000;
          k = (if tm_mon = 14 \<or> tm_mon = 15 then 1 else 0)
      in timegm (tm_year + k) (tm_mon - 1 - k * 12 - 1) tm_mday tm_hour tm_min tm_sec)"

definition get_bcd_time :: "stored_section_t \<Rightarrow> ((int \<times> int \<times> int) \<times> stored_section_t) option" where
  "get_bcd_time s = do {
     (h, s) \<leftarrow> get_uint8 s;
     (m, s) \<leftarrow> get_uint8 s;
     (sec, s) \<leftarrow> get_uint8 s;
     Some ((uint (bcdToDec h), uint (bcdToDec m), uint (bcdToDec sec)), s)
   }"

definition get_start_time_duration :: "epg_record_t \<Rightarrow> stored_section_t \<Rightarrow> (int \<times> epg_record_t \<times> stored_section_t) option" where
  "get_start_time_duration rec s = do {
     (mjd, s) \<leftarrow> get_uint16 s;
     ((h, m, sec), s) \<leftarrow> get_bcd_time s;
     let start = mjd_start_time mjd h m sec;
     ((h, m, sec), s) \<leftarrow> get_bcd_time s;
     let duration = h * 3600 + m * 60 + sec;
     Some (of_bool (section_error s), rec\<lparr>epg_start_time := start, epg_end_time := start + duration\<rparr>, s)
   }"

definition get_mhw2_start_time_duration :: "epg_record_t \<Rightarrow> stored_section_t \<Rightarrow> (int \<times> epg_record_t \<times> stored_section_t) option" where
  "get_mhw2_start_time_duration rec s = do {
     (mjd, s) \<leftarrow> get_uint16 s;
     ((h, m, sec), s) \<leftarrow> get_bcd_time s;
     let start = mjd_start_time mjd h m sec;
     (d1, s) \<leftarrow> get_uint8 s;
     (d2, s) \<leftarrow> get_uint8 s;
     let duration = drop_bit 4 (push_bit 8 (ucast d1) OR ucast d2 :: u32);
     Some (of_bool (section_error s), rec\<lparr>epg_start_time := start, epg_end_time := start + uint (duration * 60)\<rparr>, s)
   }"

subsection \<open>Strings\<close>

definition get_text :: "text_env \<Rightarrow> int \<Rightarrow> bytes \<Rightarrow> stored_section_t \<Rightarrow> (int \<times> bytes \<times> stored_section_t) option" where
  "get_text env l out s =
     (case current_pointer l s of
        (None, s) \<Rightarrow> Some (-1, out, s)
      | (Some p, s) \<Rightarrow>
          if p < 0 then None
          else do {
            (_, out, buf) \<leftarrow> decode_text env out (payload s) (nat p) l;
            Some (0, out, s\<lparr>payload := buf\<rparr>)
          })"

definition get_mhw2_dvb_text :: "text_env \<Rightarrow> bytes \<Rightarrow> stored_section_t \<Rightarrow> (int \<times> bytes \<times> stored_section_t) option" where
  "get_mhw2_dvb_text env out s = do {
     (l, s) \<leftarrow> get_uint16 s;
     get_text env (uint (l AND 0xfff)) out s
   }"

definition get_dvb_text_desc :: "text_env \<Rightarrow> bytes \<Rightarrow> descriptor_t \<Rightarrow> stored_section_t \<Rightarrow> (int \<times> bytes \<times> stored_section_t) option" where
  "get_dvb_text_desc env out desc s = get_text env (desc_len desc) out s"

definition get_dvb_text :: "text_env \<Rightarrow> bytes \<Rightarrow> stored_section_t \<Rightarrow> (int \<times> bytes \<times> stored_section_t) option" where
  "get_dvb_text env out s = do {
     (l, s) \<leftarrow> get_uint8 s;
     get_text env (uint l) out s
   }"

text \<open>Three language characters through a pointer that is used without a test.\<close>

definition get_lang :: "stored_section_t \<Rightarrow> (nat \<times> stored_section_t) option" where
  "get_lang s =
     (case current_pointer 3 s of
        (None, _) \<Rightarrow> None
      | (Some p, s) \<Rightarrow>
          if p < 0 then None
          else let b = (\<lambda>i. unat (payload s ! (nat p + i)))
               in Some (65536 * b 0 + 256 * b 1 + b 2, s))"

subsection \<open>Lists\<close>

definition get_vector_fields :: "descriptor_t \<Rightarrow> stored_section_t \<Rightarrow> (int \<times> u8 list \<times> stored_section_t) option" where
  "get_vector_fields desc s =
     (let e = available s - desc_len desc
      in do {
        r \<leftarrow> while_return (\<lambda>(xs, s). available s > e)
          (\<lambda>(xs, s). do {
             (x, s) \<leftarrow> get_uint8 s;
             Some (if section_error s then Inl (xs, s) else Inr (xs @ [x], s))
           }) ([], s);
        Some (case r of Inl (xs, s) \<Rightarrow> (-1, xs, s) | Inr (xs, s) \<Rightarrow> (0, xs, s))
      })"

definition get_frequency_list :: "descriptor_t \<Rightarrow> stored_section_t \<Rightarrow> (int \<times> u32 list \<times> stored_section_t) option" where
  "get_frequency_list desc s =
     (let e = available s - desc_len desc
      in do {
        (coding_type, s) \<leftarrow> get_uint8 s;
        let coding_type = coding_type AND 0x3;
        (fs, s) \<leftarrow> while_loop (\<lambda>(fs, s). available s > e)
          (\<lambda>(fs, s). do {
             (f, s) \<leftarrow> get_uint32 s;
             Some (fs @ [f], s)
           }) ([], s);
        let fs = (if coding_type = 1 then map (\<lambda>f. of_nat (BCD2INT f div 100)) fs
                  else if coding_type = 2 then map (\<lambda>f. of_nat (BCD2INT f div 10)) fs
                  else if coding_type = 3 then map (\<lambda>f. f * 10) fs
                  else fs);
        Some (0, fs, s)
      })"

subsection \<open>Delivery systems\<close>

definition get_s2_satellite_delivery_system :: "dvbs_mux_t \<Rightarrow> stored_section_t \<Rightarrow> (int \<times> dvbs_mux_t \<times> stored_section_t) option" where
  "get_s2_satellite_delivery_system mux s = do {
     (flags, s) \<leftarrow> get_uint8 s;
     (mux, s) \<leftarrow> (if flags AND 0x80 \<noteq> 0
       then do {
         (x, s) \<leftarrow> get_uint8 s;
         (y, s) \<leftarrow> get_uint16 s;
         Some (mux\<lparr>dvbs_pls_code := push_bit 16 (ucast (x AND 0x3)) OR ucast y, dvbs_pls_mode := PLS_ROOT\<rparr>, s)
       }
       else Some (mux, s));
     (mux, s) \<leftarrow> (if flags AND 0x40 \<noteq> 0
       then do {
         (sid, s) \<leftarrow> get_uint8 s;
         Some (mux\<lparr>dvbs_stream_id := uint sid\<rparr>, s)
       }
       else Some (mux\<lparr>dvbs_stream_id := -1\<rparr>, s));
     Some (if section_error s then -1 else 0, mux, s)
   }"

definition rolloff_of :: "nat \<Rightarrow> fe_rolloff_t" where
  "rolloff_of r = (if r = 0 then ROLLOFF_35 else if r = 1 then ROLLOFF_20 else if r = 2 then ROLLOFF_25 else ROLLOFF_AUTO)"

definition get_satellite_delivery_system :: "dvbs_mux_t \<Rightarrow> stored_section_t \<Rightarrow> (int \<times> dvbs_mux_t \<times> stored_section_t) option" where
  "get_satellite_delivery_system mux s = do {
     (frequency, s) \<leftarrow> get_uint32 s;
     let frequency = (of_nat (BCD2INT frequency * 10) :: u32);
     (orbital_position, s) \<leftarrow> get_uint16 s;
     let orbital_position = (of_nat (BCD2INT (ucast orbital_position) * 10) :: u16);
     (flags, s) \<leftarrow> get_uint8 s;
     let is_east = (flags AND 0x80 \<noteq> 0);
     let orbital_position = (if \<not> is_east then - orbital_position else orbital_position);
     let pol = unat (drop_bit 5 flags AND 0x3);
     let roll_off = unat (drop_bit 3 flags AND 0x3);
     let is_dvbs2 = (drop_bit 2 flags AND 0x1 \<noteq> 0);
     let modulation = dvbs_modulation_from_stream (unat (flags AND 0x1f));
     (symbol_rate, s) \<leftarrow> get_uint32 s;
     let fec_inner = unat (symbol_rate AND 0xf);
     let symbol_rate = (of_nat (BCD2INT (drop_bit 4 symbol_rate)) :: u32);
     if section_error s then Some (-1, mux, s)
     else Some (0, mux\<lparr>dvbs_sat_pos := sint orbital_position, dvbs_frequency := frequency,
       dvbs_pol := fe_polarisation_of_code pol, dvbs_symbol_rate := symbol_rate * 100,
       dvbs_delivery_system := (if is_dvbs2 then SYS_DVBS2 else SYS_DVBS),
       dvbs_rolloff := rolloff_of roll_off, dvbs_modulation := modulation,
       dvbs_fec := fe_code_rate_of_code fec_inner\<rparr>, s)
   }"

definition get_cable_delivery_system :: "dvbc_mux_t \<Rightarrow> stored_section_t \<Rightarrow> (int \<times> dvbc_mux_t \<times> stored_section_t) option" where
  "get_cable_delivery_system mux s = do {
     (frequency, s) \<leftarrow> get_uint32 s;
     let frequency = (of_nat (BCD2INT frequency div 10) :: u32);
     (fec_outer, s) \<leftarrow> get_uint16 s;
     let fec_outer = unat (fec_outer AND 0xf);
     (modulation, s) \<leftarrow> get_uint8 s;
     (symbol_rate, s) \<leftarrow> get_uint32 s;
     let fec_inner = dvbc_inner_code_rate_from_stream (unat (symbol_rate AND 0xf));
     let symbol_rate = (of_nat (BCD2INT (drop_bit 4 symbol_rate)) :: u32);
     if section_error s then Some (-1, mux, s)
     else Some (0, mux\<lparr>dvbc_sat_pos := sat_pos_dvbc, dvbc_delivery_system := SYS_DVBC,
       dvbc_modulation := dvbc_modulation_from_stream (unat modulation), dvbc_frequency := frequency,
       dvbc_symbol_rate := symbol_rate * 100, dvbc_fec_inner := fec_inner,
       dvbc_fec_outer := fe_code_rate_of_code fec_outer\<rparr>, s)
   }"

definition get_terrestrial_delivery_system :: "dvbt_mux_t \<Rightarrow> stored_section_t \<Rightarrow> (int \<times> dvbt_mux_t \<times> stored_section_t) option" where
  "get_terrestrial_delivery_system mux s = do {
     (frequency, s) \<leftarrow> get_uint32 s;
     let ret = (if frequency = 0xffffffff then -1 else 0);
     let frequency = frequency div 100;
     (flags, s) \<leftarrow> get_uint8 s;
     let bandwidth = dvt_bandwidth_from_stream (unat (drop_bit 5 flags));
     (flags2, s) \<leftarrow> get_uint8 s;
     let modulation = dvt_modulation_from_stream (unat (drop_bit 6 flags2));
     let hierarchy = dvbt_hierarchy_from_stream (unat (drop_bit 3 flags2 AND 0x7));
     code_rate_hp \<leftarrow> dvbt_code_rate_from_stream (unat (flags2 AND 0x7));
     (flags3, s) \<leftarrow> get_uint8 s;
     code_rate_lp \<leftarrow> dvbt_code_rate_from_stream (unat (drop_bit 5 flags3));
     let guard_interval = dvbt_transmission_guard_interval_from_stream (unat (drop_bit 3 flags3 AND 0x3));
     let transmission_mode = dvbt_transmission_mode_from_stream (unat (drop_bit 1 flags3 AND 0x3));
     (_, s) \<leftarrow> get_uint32 s;
     Some (ret, mux\<lparr>dvbt_sat_pos := sat_pos_dvbt, dvbt_delivery_system := SYS_DVBT,
       dvbt_modulation := modulation, dvbt_frequency := frequency, dvbt_HP_code_rate := code_rate_hp,
       dvbt_LP_code_rate := code_rate_lp, dvbt_transmission_mode := transmission_mode,
       dvbt_guard_interval := guard_interval, dvbt_bandwidth := bandwidth, dvbt_hierarchy := hierarchy\<rparr>, s)
   }"


subsection \<open>Services\<close>

definition get_multiprotocol_encapsulation_info :: "stored_section_t \<Rightarrow> (int \<times> stored_section_t) option" where
  "get_multiprotocol_encapsulation_info s = do {
     (_, s) \<leftarrow> get_uint8 s;
     (_, s) \<leftarrow> get_uint8 s;
     Some (0, s)
   }"

definition set_service_type :: "u8 \<Rightarrow> service_t \<Rightarrow> service_t" where
  "set_service_type st svc = svc\<lparr>svc_service_type := ucast st, svc_media_mode := media_mode_for_service_type st\<rparr>"

definition get_service_descriptor :: "text_env \<Rightarrow> service_t \<Rightarrow> stored_section_t \<Rightarrow> (int \<times> service_t \<times> stored_section_t) option" where
  "get_service_descriptor env svc s =
     (if available s < 2 then Some (-1, svc, throw_bad_data s)
      else do {
        (st, s) \<leftarrow> get_uint8 s;
        let svc = set_service_type st svc;
        (r, provider, s) \<leftarrow> get_dvb_text env (svc_provider svc) s;
        let svc = svc\<lparr>svc_provider := provider\<rparr>;
        if r \<noteq> 0 then Some (-1, svc, s)
        else do {
          (r, name, s) \<leftarrow> get_dvb_text env (svc_name svc) s;
          let svc = svc\<lparr>svc_name := name\<rparr>;
          Some (if r \<noteq> 0 then -1 else 0, svc, s)
        }
      })"

definition get_data_broadcast_tail :: "stored_section_t \<Rightarrow> (int \<times> stored_section_t) option" where
  "get_data_broadcast_tail s =
     (if available s < 4 then Some (-1, throw_bad_data s)
      else do {
        (_, s) \<leftarrow> get_lang s;
        (text_len, s) \<leftarrow> get_uint8 s;
        if available s < uint text_len then Some (-1, throw_bad_data s)
        else let (_, s) = skip (uint text_len) s in Some (0, s)
      })"

definition get_data_broadcast :: "service_t \<Rightarrow> stored_section_t \<Rightarrow> (int \<times> service_t \<times> stored_section_t) option" where
  "get_data_broadcast svc s =
     (if available s < 7 then Some (-1, svc, throw_bad_data s)
      else do {
        (data_broadcast_id, s) \<leftarrow> get_uint16 s;
        (_, s) \<leftarrow> get_uint8 s;
        (selector_len, s) \<leftarrow> get_uint8 s;
        if available s < 5 then Some (-1, svc, throw_bad_data s)
        else if data_broadcast_id = 0x3 \<and> selector_len \<noteq> 0 then Some (-1, svc, throw_bad_data s)
        else if data_broadcast_id = 0x5 \<and> selector_len \<noteq> 2 then Some (-1, svc, throw_bad_data s)
        else do {
          (svc, s) \<leftarrow> (if data_broadcast_id = 0x3 then Some (set_service_type 0x0c svc, s)
            else if data_broadcast_id = 0x5
            then do { (_, s) \<leftarrow> get_multiprotocol_encapsulation_info s; Some (set_service_type 0x0c svc, s) }
            else let (_, s) = skip (uint selector_len) s in Some (svc, s));
          (r, s) \<leftarrow> get_data_broadcast_tail s;
          Some (r, svc, s)
        }
      })"

record chgm_t =
  ch_service_key :: service_key_t
  ch_lcn :: u16
  ch_service_type :: u8
  ch_is_opentv_or_mhw2 :: bool

record bouquet_t =
  bouquet_id :: u16
  bq_is_sky :: bool
  bq_is_mhw2 :: bool
  bq_name :: bytes
  bq_channels :: "u16 \<rightharpoonup> chgm_t"

definition default_bouquet :: bouquet_t where
  "default_bouquet = \<lparr>bouquet_id = 0xffff, bq_is_sky = False, bq_is_mhw2 = False, bq_name = [],
     bq_channels = (\<lambda>_. None)\<rparr>"

definition set_channel :: "u16 \<Rightarrow> chgm_t \<Rightarrow> bouquet_t \<Rightarrow> bouquet_t" where
  "set_channel channel_id c b = b\<lparr>bq_channels := (bq_channels b)(channel_id \<mapsto> c)\<rparr>"

definition get_service_list ::
  "u16 \<Rightarrow> u16 \<Rightarrow> bouquet_t \<Rightarrow> descriptor_t \<Rightarrow> stored_section_t \<Rightarrow> (int \<times> bouquet_t \<times> stored_section_t) option" where
  "get_service_list network_id ts_id bouquet desc s =
     (let e = available s - desc_len desc
      in do {
        (bouquet, s) \<leftarrow> while_loop (\<lambda>(b, s). available s \<ge> 3 + e)
          (\<lambda>(b, s). do {
             (sid, s) \<leftarrow> get_uint16 s;
             (st, s) \<leftarrow> get_uint8 s;
             let c = \<lparr>ch_service_key = \<lparr>sk_network_id = network_id, sk_ts_id = ts_id, sk_service_id = sid\<rparr>,
                      ch_lcn = 0, ch_service_type = st, ch_is_opentv_or_mhw2 = False\<rparr>;
             Some (set_channel sid c b, s)
           }) (bouquet, s);
        let s = (if available s > e then snd (skip (available s - e) s) else s);
        if available s = e then Some (of_bool (section_error s), bouquet, s) else None
      })"

definition get_otv_service :: "u16 \<Rightarrow> u16 \<Rightarrow> bouquet_t \<Rightarrow> stored_section_t \<Rightarrow> (int \<times> bouquet_t \<times> stored_section_t) option" where
  "get_otv_service network_id ts_id bouquet s =
     (if available s < 9 then Some (-1, bouquet, throw_bad_data s)
      else do {
        (sid, s) \<leftarrow> get_uint16 s;
        (st, s) \<leftarrow> get_uint8 s;
        (channel_id, s) \<leftarrow> get_uint16 s;
        (lcn, s) \<leftarrow> get_uint16 s;
        (_, s) \<leftarrow> get_uint16 s;
        let c = \<lparr>ch_service_key = \<lparr>sk_network_id = network_id, sk_ts_id = ts_id, sk_service_id = sid\<rparr>,
                 ch_lcn = lcn, ch_service_type = st, ch_is_opentv_or_mhw2 = True\<rparr>;
        Some (of_bool (section_error s), set_channel channel_id c bouquet, s)
      })"

definition get_fst_region_list ::
  "text_env \<Rightarrow> int \<Rightarrow> bytes \<Rightarrow> descriptor_t \<Rightarrow> stored_section_t \<Rightarrow> (int \<times> bytes \<times> stored_section_t) option" where
  "get_fst_region_list env selected_region_id bouquet_name desc s =
     (let e = available s - desc_len desc
      in do {
        (found, name, s) \<leftarrow> while_loop (\<lambda>(found, name, s). available s > e)
          (\<lambda>(found, name, s). do {
             (region_id, s) \<leftarrow> get_uint16 s;
             (_, s) \<leftarrow> get_lang s;
             if uint region_id = selected_region_id \<or> (region_id = 0xffff \<and> \<not> found)
             then do {
               (_, name, s) \<leftarrow> get_dvb_text env name s;
               Some (found \<or> region_id \<noteq> 0xffff, name, s)
             }
             else do {
               (_, _, s) \<leftarrow> get_dvb_text env [] s;
               Some (found, name, s)
             }
           }) (False, bouquet_name, s);
        if available s = e then Some (of_bool (section_error s), name, s) else None
      })"

definition get_fst_category_description_list :: "text_env \<Rightarrow> descriptor_t \<Rightarrow> stored_section_t \<Rightarrow> (int \<times> stored_section_t) option" where
  "get_fst_category_description_list env desc s =
     (let e = available s - desc_len desc
      in do {
        s \<leftarrow> while_loop (\<lambda>s. available s > e)
          (\<lambda>s. do {
             (_, s) \<leftarrow> get_uint8 s;
             (_, s) \<leftarrow> get_uint8 s;
             (_, s) \<leftarrow> get_uint16 s;
             (_, s) \<leftarrow> get_uint16 s;
             (_, _, s) \<leftarrow> get_dvb_text env [] s;
             Some s
           }) s;
        if available s = e then Some (of_bool (section_error s), s) else None
      })"

definition get_fst_channel_category_list :: "descriptor_t \<Rightarrow> stored_section_t \<Rightarrow> (int \<times> stored_section_t) option" where
  "get_fst_channel_category_list desc s =
     (let e = available s - desc_len desc
      in do {
        s \<leftarrow> while_loop (\<lambda>s. available s > e + 2)
          (\<lambda>s. do {
             (_, s) \<leftarrow> get_uint8 s;
             (_, s) \<leftarrow> get_uint8 s;
             (desc_loop_len, s) \<leftarrow> get_uint8 s;
             let end1 = available s - uint desc_loop_len;
             if uint desc_loop_len mod 2 \<noteq> 0 then None
             else do {
               s \<leftarrow> while_loop (\<lambda>s. available s > end1) (\<lambda>s. do { (_, s) \<leftarrow> get_uint16 s; Some s }) s;
               if available s = end1 then Some s else None
             }
           }) s;
        if available s \<ge> e
        then let s = (if available s > e then snd (skip (available s - e) s) else s)
             in Some (of_bool (section_error s), s)
        else None
      })"

text \<open>The mask is applied before the service type is taken from the upper bits.\<close>

definition get_fst_service ::
  "u16 \<Rightarrow> u16 \<Rightarrow> int \<Rightarrow> bouquet_t \<Rightarrow> stored_section_t \<Rightarrow> (int \<times> bouquet_t \<times> stored_section_t) option" where
  "get_fst_service network_id ts_id selected_region_id bouquet s = do {
     (service_id, s) \<leftarrow> get_uint16 s;
     (channel_id, s) \<leftarrow> get_uint16 s;
     (desc_loop_len, s) \<leftarrow> get_uint8 s;
     let end1 = available s - uint desc_loop_len;
     (bouquet, s) \<leftarrow> while_loop (\<lambda>(b, s). available s > end1)
       (\<lambda>(b, s). do {
          (lcn, s) \<leftarrow> get_uint16 s;
          let lcn = lcn AND 0xfff;
          let service_type = (ucast (drop_bit 12 lcn) :: u8);
          let lcn = lcn AND 0x0fff;
          (region_id, s) \<leftarrow> get_uint16 s;
          Some (if uint region_id = selected_region_id
                then set_channel channel_id
                  \<lparr>ch_service_key = \<lparr>sk_network_id = network_id, sk_ts_id = ts_id, sk_service_id = service_id\<rparr>,
                   ch_lcn = lcn, ch_service_type = service_type, ch_is_opentv_or_mhw2 = False\<rparr> b
                else b, s)
        }) (bouquet, s);
     if end1 = available s then Some (of_bool (section_error s), bouquet, s) else None
   }"

definition get_fst_service_list ::
  "u16 \<Rightarrow> u16 \<Rightarrow> int \<Rightarrow> bouquet_t \<Rightarrow> descriptor_t \<Rightarrow> stored_section_t \<Rightarrow> (int \<times> bouquet_t \<times> stored_section_t) option" where
  "get_fst_service_list network_id ts_id selected_region_id bouquet desc s =
     (if available s < 7 then Some (-1, bouquet, throw_bad_data s)
      else let e = available s - desc_len desc
           in do {
             (bouquet, s) \<leftarrow> while_loop (\<lambda>(b, s). available s > e)
               (\<lambda>(b, s). do {
                  (_, b, s) \<leftarrow> get_fst_service network_id ts_id selected_region_id b s;
                  Some (b, s)
                }) (bouquet, s);
             if e = available s then Some (of_bool (section_error s), bouquet, s) else None
           })"

definition get_otv_service_list ::
  "u16 \<Rightarrow> u16 \<Rightarrow> bouquet_t \<Rightarrow> descriptor_t \<Rightarrow> stored_section_t \<Rightarrow> (int \<times> bouquet_t \<times> stored_section_t) option" where
  "get_otv_service_list network_id ts_id bouquet desc s =
     (let e = available s - desc_len desc
      in do {
        (_, s) \<leftarrow> get_uint16 s;
        (bouquet, s) \<leftarrow> while_loop (\<lambda>(b, s). available s > e)
          (\<lambda>(b, s). do {
             (_, b, s) \<leftarrow> get_otv_service network_id ts_id b s;
             Some (b, s)
           }) (bouquet, s);
        if available s = e then Some (of_bool (section_error s), bouquet, s) else None
      })"

definition get_ca_identifier :: "descriptor_t \<Rightarrow> stored_section_t \<Rightarrow> (int \<times> stored_section_t) option" where
  "get_ca_identifier desc s =
     (if available s < desc_len desc then Some (-1, throw_bad_data s)
      else do {
        (r, _, s) \<leftarrow> get_vector_fields desc s;
        Some (if r \<noteq> 0 then -1 else 0, s)
      })"

record bouquet_linkage_t =
  bl_network_id :: u16
  bl_ts_id :: u16

definition get_linkage_fields :: "stored_section_t \<Rightarrow> ((u16 \<times> u16 \<times> u16 \<times> u8) \<times> stored_section_t) option" where
  "get_linkage_fields s = do {
     (ts_id, s) \<leftarrow> get_uint16 s;
     (original_network_id, s) \<leftarrow> get_uint16 s;
     (service_id, s) \<leftarrow> get_uint16 s;
     (linkage_type, s) \<leftarrow> get_uint8 s;
     Some ((ts_id, original_network_id, service_id, linkage_type), s)
   }"

definition get_bouquet_linkage ::
  "bouquet_linkage_t \<Rightarrow> descriptor_t \<Rightarrow> stored_section_t \<Rightarrow> (int \<times> bouquet_linkage_t \<times> stored_section_t) option" where
  "get_bouquet_linkage l desc s = do {
     ((ts_id, original_network_id, _, linkage_type), s) \<leftarrow> get_linkage_fields s;
     let l = (if linkage_type = 0x02 \<or> linkage_type = 0x04
              then l\<lparr>bl_network_id := original_network_id, bl_ts_id := ts_id\<rparr> else l);
     let (_, s) = skip (desc_len desc - 7) s;
     Some (0, l, s)
   }"

definition get_service_linkage :: "descriptor_t \<Rightarrow> stored_section_t \<Rightarrow> (int \<times> stored_section_t) option" where
  "get_service_linkage desc s = do {
     (_, s) \<leftarrow> get_linkage_fields s;
     let (_, s) = skip (desc_len desc - 7) s;
     Some (0, s)
   }"


subsection \<open>Events\<close>

definition get_short_event :: "text_env \<Rightarrow> epg_record_t \<Rightarrow> stored_section_t \<Rightarrow> (int \<times> epg_record_t \<times> stored_section_t) option" where
  "get_short_event env rec s = do {
     (_, s) \<leftarrow> get_lang s;
     (_, event_name, s) \<leftarrow> get_dvb_text env (epg_event_name rec) s;
     (_, story, s) \<leftarrow> get_dvb_text env (epg_story rec) s;
     Some (0, rec\<lparr>epg_event_name := event_name, epg_story := story\<rparr>, s)
   }"

text \<open>A string compressed with the OpenTV tables.\<close>

definition get_opentv_string :: "text_env \<Rightarrow> int \<Rightarrow> bytes \<Rightarrow> stored_section_t \<Rightarrow> (int \<times> bytes \<times> stored_section_t) option" where
  "get_opentv_string env l out s =
     (case current_pointer l s of
        (None, s) \<Rightarrow> Some (-1, out, s)
      | (Some p, s) \<Rightarrow>
          if p < 0 then None
          else Some (0, opentv_decode_string env out (drop (nat p) (payload s)) l, s))"

definition get_opentv_title ::
  "text_env \<Rightarrow> epg_record_t \<Rightarrow> descriptor_t \<Rightarrow> u16 \<Rightarrow> stored_section_t \<Rightarrow> (int \<times> epg_record_t \<times> stored_section_t) option" where
  "get_opentv_title env rec desc mjd_time s =
     (let e = available s
      in do {
        (time_offset, s) \<leftarrow> get_uint16 s;
        (duration, s) \<leftarrow> get_uint16 s;
        (_, s) \<leftarrow> get_uint8 s;
        (_, s) \<leftarrow> get_uint16 s;
        let start = (uint mjd_time - 40587) * 86400 + 2 * uint time_offset;
        let rec = rec\<lparr>epg_start_time := start, epg_end_time := start + 2 * uint duration\<rparr>;
        (r, event_name, s) \<leftarrow> get_opentv_string env (desc_len desc - (e - available s)) (epg_event_name rec) s;
        Some (r, rec\<lparr>epg_event_name := event_name\<rparr>, s)
      })"

definition get_opentv_summary ::
  "text_env \<Rightarrow> epg_record_t \<Rightarrow> descriptor_t \<Rightarrow> stored_section_t \<Rightarrow> (int \<times> epg_record_t \<times> stored_section_t) option" where
  "get_opentv_summary env rec desc s = do {
     (r, story, s) \<leftarrow> get_opentv_string env (desc_len desc) (epg_story rec) s;
     Some (r, rec\<lparr>epg_story := story\<rparr>, s)
   }"

definition get_opentv_description ::
  "text_env \<Rightarrow> epg_record_t \<Rightarrow> descriptor_t \<Rightarrow> stored_section_t \<Rightarrow> (int \<times> epg_record_t \<times> stored_section_t) option" where
  "get_opentv_description env rec desc s = do {
     (r, _, s) \<leftarrow> get_opentv_string env (desc_len desc) [] s;
     Some (r, rec, s)
   }"

definition get_opentv_serieslink :: "epg_record_t \<Rightarrow> stored_section_t \<Rightarrow> (int \<times> epg_record_t \<times> stored_section_t) option" where
  "get_opentv_serieslink rec s = do {
     (l, s) \<leftarrow> get_uint16 s;
     Some (0, rec\<lparr>epg_series_link := l\<rparr>, s)
   }"

definition get_extended_event :: "text_env \<Rightarrow> epg_record_t \<Rightarrow> stored_section_t \<Rightarrow> (int \<times> epg_record_t \<times> stored_section_t) option" where
  "get_extended_event env rec s = do {
     (_, s) \<leftarrow> get_uint8 s;
     (_, s) \<leftarrow> get_lang s;
     (len_of_items, s) \<leftarrow> get_uint8 s;
     let e = available s - uint len_of_items;
     s \<leftarrow> while_loop (\<lambda>s. available s > e)
       (\<lambda>s. do {
          (_, _, s) \<leftarrow> get_dvb_text env [] s;
          (_, _, s) \<leftarrow> get_dvb_text env [] s;
          Some s
        }) s;
     if available s = e
     then do {
       (_, story, s) \<leftarrow> get_dvb_text env (epg_story rec) s;
       Some (0, rec\<lparr>epg_story := story\<rparr>, s)
     }
     else None
   }"

definition get_time_shifted_event :: "epg_record_t \<Rightarrow> stored_section_t \<Rightarrow> (int \<times> epg_record_t \<times> stored_section_t) option" where
  "get_time_shifted_event rec s = do {
     (_, s) \<leftarrow> get_uint16 s;
     (_, s) \<leftarrow> get_uint16 s;
     Some (0, rec, s)
   }"

definition get_component ::
  "text_env \<Rightarrow> epg_record_t \<Rightarrow> descriptor_t \<Rightarrow> stored_section_t \<Rightarrow> (int \<times> epg_record_t \<times> stored_section_t) option" where
  "get_component env rec desc s =
     (let e = available s - desc_len desc
      in do {
        (_, s) \<leftarrow> get_uint8 s;
        (_, s) \<leftarrow> get_uint8 s;
        (_, s) \<leftarrow> get_uint8 s;
        (_, s) \<leftarrow> get_lang s;
        (r, _, s) \<leftarrow> get_text env (available s - e) [] s;
        Some (r, rec, s)
      })"

definition get_multilingual_component ::
  "text_env \<Rightarrow> epg_record_t \<Rightarrow> descriptor_t \<Rightarrow> stored_section_t \<Rightarrow> (int \<times> epg_record_t \<times> stored_section_t) option" where
  "get_multilingual_component env rec desc s =
     (let e = available s - desc_len desc
      in do {
        (_, s) \<leftarrow> get_uint8 s;
        s \<leftarrow> while_loop (\<lambda>s. available s > e)
          (\<lambda>s. do {
             (_, s) \<leftarrow> get_lang s;
             (_, _, s) \<leftarrow> get_dvb_text env [] s;
             Some s
           }) s;
        Some (0, rec, s)
      })"

definition get_content :: "epg_record_t \<Rightarrow> descriptor_t \<Rightarrow> stored_section_t \<Rightarrow> (int \<times> epg_record_t \<times> stored_section_t) option" where
  "get_content rec desc s =
     (let e = available s - desc_len desc
      in do {
        (rec, s) \<leftarrow> while_loop (\<lambda>(rec, s). available s > e)
          (\<lambda>(rec, s). do {
             (content_code, s) \<leftarrow> get_uint8 s;
             (_, s) \<leftarrow> get_uint8 s;
             Some (rec\<lparr>epg_content_codes := epg_content_codes rec @ [ucast content_code]\<rparr>, s)
           }) (rec, s);
        Some (0, rec, s)
      })"

subsection \<open>Descriptors of the PMT\<close>

record ca_info_t =
  ca_stream_pid :: u16
  ca_system_id :: u16
  ca_pid :: u16

record service_move_info_t =
  sm_stream_pid :: u16
  new_original_network_id :: u16
  new_transport_stream_id :: u16
  new_service_id :: u16

record subtitle_info_t =
  subtitle_type :: u8
  sub_lang_code :: "u8 \<times> u8 \<times> u8"
  composition_page_id :: u16
  ancillary_page_id :: u16

record audio_language_info_t =
  audio_lang_code :: "u8 \<times> u8 \<times> u8"
  audio_type :: u8
  ac3 :: bool
  ac3_descriptor_data :: bytes

record pid_info_t =
  stream_pid :: u16
  stream_type :: u8
  t2mi_stream_id :: int
  num_t2mi_streams_minus_one :: int
  audio_lang :: audio_language_info_t
  subtitle_descriptors :: "subtitle_info_t list"

record pmt_info_t =
  pmt_service_id :: u16
  pcr_pid :: u16
  video_pid :: u16
  pmt_pid :: u16
  pmt_version_number :: u16
  pmt_current_next :: bool
  num_sky_title_pids :: u8
  num_sky_summary_pids :: u8
  num_freesat_pids :: u8
  has_freesat_epg :: bool
  has_skyuk_epg :: bool
  capmt_data :: bytes
  pid_descriptors :: "pid_info_t list"
  ca_descriptors :: "ca_info_t list"
  service_move_descriptors :: "service_move_info_t list"
  estimated_media_mode :: media_mode_t

definition default_audio_language_info :: audio_language_info_t where
  "default_audio_language_info = \<lparr>audio_lang_code = (0, 0, 0), audio_type = 0, ac3 = False, ac3_descriptor_data = []\<rparr>"

definition new_pid_info :: "u16 \<Rightarrow> u8 \<Rightarrow> pid_info_t" where
  "new_pid_info p st = \<lparr>stream_pid = p, stream_type = st, t2mi_stream_id = -1, num_t2mi_streams_minus_one = -1,
     audio_lang = default_audio_language_info, subtitle_descriptors = []\<rparr>"

definition default_pmt_info :: pmt_info_t where
  "default_pmt_info = \<lparr>pmt_service_id = 0, pcr_pid = null_pid, video_pid = null_pid, pmt_pid = null_pid,
     pmt_version_number = 0, pmt_current_next = True, num_sky_title_pids = 0, num_sky_summary_pids = 0,
     num_freesat_pids = 0, has_freesat_epg = False, has_skyuk_epg = False, capmt_data = [],
     pid_descriptors = [], ca_descriptors = [], service_move_descriptors = [],
     estimated_media_mode = MEDIA_UNKNOWN\<rparr>"

definition has_ca_pid :: "u16 \<Rightarrow> pmt_info_t \<Rightarrow> bool" where
  "has_ca_pid p pmt = list_ex (\<lambda>d. ca_pid d = p) (ca_descriptors pmt)"

definition get_ca ::
  "pmt_info_t \<Rightarrow> descriptor_t \<Rightarrow> u16 \<Rightarrow> stored_section_t \<Rightarrow> (ca_info_t \<times> pmt_info_t \<times> stored_section_t) option" where
  "get_ca pmt desc p s =
     (let start = bytes_read s
      in do {
        (sid, s) \<leftarrow> get_uint16 s;
        (capid, s) \<leftarrow> get_uint16 s;
        let capid = capid AND 0x1fff;
        let header = [desc_tag desc, word_of_int (desc_len desc), ucast (drop_bit 8 sid), ucast (sid AND 0xff),
                      ucast (drop_bit 8 capid) OR 0xe0, ucast (capid AND 0xff)];
        let l = desc_len desc - (bytes_read s - start);
        (r, s) \<leftarrow> get_buffer l s;
        data \<leftarrow> r;
        Some (\<lparr>ca_stream_pid = p, ca_system_id = sid, ca_pid = capid\<rparr>,
              pmt\<lparr>capmt_data := capmt_data pmt @ header @ data\<rparr>, s)
      })"

definition get_service_move_info :: "u16 \<Rightarrow> stored_section_t \<Rightarrow> (service_move_info_t \<times> stored_section_t) option" where
  "get_service_move_info p s = do {
     (nid, s) \<leftarrow> get_uint16 s;
     (tid, s) \<leftarrow> get_uint16 s;
     (sid, s) \<leftarrow> get_uint16 s;
     Some (\<lparr>sm_stream_pid = p, new_original_network_id = nid, new_transport_stream_id = tid, new_service_id = sid\<rparr>, s)
   }"

definition get_lang_code :: "stored_section_t \<Rightarrow> ((u8 \<times> u8 \<times> u8) \<times> stored_section_t) option" where
  "get_lang_code s = do {
     (a, s) \<leftarrow> get_uint8 s;
     (b, s) \<leftarrow> get_uint8 s;
     (c, s) \<leftarrow> get_uint8 s;
     Some ((a, b, c), s)
   }"

definition get_subtitle_info :: "stored_section_t \<Rightarrow> (subtitle_info_t \<times> stored_section_t) option" where
  "get_subtitle_info s = do {
     (l, s) \<leftarrow> get_lang_code s;
     (t, s) \<leftarrow> get_uint8 s;
     (cp, s) \<leftarrow> get_uint16 s;
     (ap, s) \<leftarrow> get_uint16 s;
     Some (\<lparr>subtitle_type = t, sub_lang_code = l, composition_page_id = cp, ancillary_page_id = ap\<rparr>, s)
   }"

definition get_audio_language_info ::
  "audio_language_info_t \<Rightarrow> stored_section_t \<Rightarrow> (audio_language_info_t \<times> stored_section_t) option" where
  "get_audio_language_info ai s = do {
     (l, s) \<leftarrow> get_lang_code s;
     (t, s) \<leftarrow> get_uint8 s;
     Some (ai\<lparr>audio_lang_code := l, audio_type := t\<rparr>, s)
   }"

subsection \<open>Times\<close>

text \<open>
  The calendar year and month that the modified Julian date formula finds, counted in days \<open>n\<close>
  since 1 March 1900.
\<close>

lemma div_bounds: "0 < (b :: int) \<Longrightarrow> b * (a div b) \<le> a \<and> a < b * (a div b) + b"
  using pos_mod_sign [of b a] pos_mod_bound [of b a] by (simp add: minus_mod_eq_mult_div [symmetric])

lemma mjd_year:
  fixes n :: int
  assumes "0 \<le> n"
  defines "y \<equiv> (20 * n + 16) div 7305"
  shows "0 \<le> y" "1461 * y div 4 \<le> n" "n \<le> 1461 * y div 4 + 365" "n \<le> 50456 \<Longrightarrow> y \<le> 138"
proof -
  have y: "7305 * y \<le> 20 * n + 16" "20 * n + 16 < 7305 * y + 7305"
    using div_bounds [of 7305 "20 * n + 16"] by (simp_all add: y_def)
  have q: "4 * (1461 * y div 4) \<le> 1461 * y" "1461 * y < 4 * (1461 * y div 4) + 4"
    using div_bounds [of 4 "1461 * y"] by simp_all
  show "0 \<le> y" using y assms(1) by linarith
  show "1461 * y div 4 \<le> n" using y q by linarith
  show "n \<le> 1461 * y div 4 + 365" using y q by linarith
  show "y \<le> 138" if "n \<le> 50456" using y that by linarith
qed

lemma mjd_month:
  fixes r :: int
  assumes "123 \<le> r" "r \<le> 488"
  defines "m \<equiv> 1000 * (10 * r - 1) div 306001"
  shows "4 \<le> m" "m \<le> 15"
proof -
  have m: "306001 * m \<le> 1000 * (10 * r - 1)" "1000 * (10 * r - 1) < 306001 * m + 306001"
    using div_bounds [of 306001 "1000 * (10 * r - 1)"] by (simp_all add: m_def)
  show "4 \<le> m" using m assms(1) by simp
  show "m \<le> 15" using m assms(2) by simp
qed

lemma months: "4 \<le> (m :: int) \<Longrightarrow> m \<le> 15 \<Longrightarrow> m \<in> {4, 5, 6, 7, 8, 9, 10, 11, 12, 13, 14, 15}"
  unfolding insert_iff empty_iff by presburger

lemma month_days:
  assumes "4 \<le> (m :: int)" "m \<le> 15"
  shows "306001 * m div 10000 = (153 * (m - 4) + 2) div 5 + 122"
  using months [OF assms] by (elim insertE) simp_all

lemma century_days:
  fixes y :: int
  assumes "0 \<le> y" "y < 200"
  shows "(1900 + y) div 4 - (1900 + y) div 100 + (1900 + y) div 400 = 460 + y div 4"
proof -
  define a b where "a = (1900 + y) div 100" and "b = (1900 + y) div 400"
  have a: "100 * a \<le> 1900 + y" "1900 + y < 100 * a + 100" using div_bounds [of 100 "1900 + y"] by (simp_all add: a_def)
  have b: "400 * b \<le> 1900 + y" "1900 + y < 400 * b + 400" using div_bounds [of 400 "1900 + y"] by (simp_all add: b_def)
  have "a = 19 \<and> b = 4 \<or> a = 20 \<and> b = 5"
  proof (cases "y < 100")
    case True
    then have "a < 20" "18 < a" "b < 5" "3 < b" using a b assms by linarith+
    then show ?thesis by simp
  next
    case False
    then have "a < 21" "19 < a" "b < 6" "4 < b" using a b assms by linarith+
    then show ?thesis by simp
  qed
  moreover have "(1900 + y) div 4 = 475 + y div 4" by simp
  ultimately show ?thesis unfolding a_def [symmetric] b_def [symmetric] by auto
qed

lemma year_days: "1461 * y div 4 = 365 * y + y div (4 :: int)"
proof -
  have "1461 * y = y + (365 * y) * 4" by simp
  then have "1461 * y div 4 = (y + (365 * y) * 4) div 4" by (rule arg_cong)
  then show ?thesis by simp
qed

lemma timegm_march:
  assumes "4 \<le> mon" "mon \<le> 15" and k: "k = (if mon = 14 \<or> mon = 15 then 1 else 0)"
  shows "timegm (y + k) (mon - 1 - k * 12 - 1) d h mi s =
    86400 * (365 * (1900 + y) + (1900 + y) div 4 - (1900 + y) div 100 + (1900 + y) div 400 +
      (153 * (mon - 4) + 2) div 5 + d - 1 - 719468) + 3600 * h + 60 * mi + s"
  unfolding k using months [OF assms(1,2)] by (elim insertE) (simp_all add: timegm_def Let_def)

lemma trunc_div_nonneg: "0 \<le> a \<Longrightarrow> trunc_div a b = a div b"
  by (auto simp: trunc_div_def sgn_if)

lemma mjd_start_time_correct:
  assumes "15079 \<le> uint mjd"
  shows "mjd_start_time mjd h m s = 86400 * (uint mjd - 40587) + 3600 * h + 60 * m + s"
proof -
  define n where "n = uint mjd - 15079"
  define y where "y = (20 * n + 16) div 7305"
  define r where "r = n + 123 - 1461 * y div 4"
  define mon where "mon = 1000 * (10 * r - 1) div 306001"
  have n: "0 \<le> n" "n \<le> 50456" using assms uint_bounded [of mjd] by (simp_all add: n_def)
  note year = mjd_year [OF n(1), folded y_def]
  have y: "0 \<le> y" "y \<le> 138" using year(1) year(4) [OF n(2)] by simp_all
  have r: "123 \<le> r" "r \<le> 488" using year by (simp_all add: r_def)
  note month = mjd_month [OF r, folded mon_def]
  have d: "uint mjd = n + 15079" by (simp add: n_def)
  have ty: "trunc_div (20 * uint mjd - 301564) 7305 = y"
    using n by (simp add: d y_def trunc_div_nonneg algebra_simps)
  have tyd: "trunc_div (1461 * y) 4 = 1461 * y div 4" using y by (simp add: trunc_div_nonneg)
  have tm: "trunc_div (1000 * (10 * uint mjd - 149561 - 10 * (1461 * y div 4))) 306001 = mon"
    using r by (simp add: d mon_def r_def trunc_div_nonneg algebra_simps)
  have td: "uint mjd - 14956 - 1461 * y div 4 - trunc_div (306001 * mon) 10000 = r - 306001 * mon div 10000"
    using month by (simp add: d r_def trunc_div_nonneg)
  have "mjd_start_time mjd h m s = 86400 * (365 * (1900 + y) + (460 + y div 4) +
      (153 * (mon - 4) + 2) div 5 + (r - 306001 * mon div 10000) - 1 - 719468) + 3600 * h + 60 * m + s"
    unfolding mjd_start_time_def Let_def ty tyd tm td timegm_march [OF month refl]
    using century_days [of y] y by simp
  also have "\<dots> = 86400 * (uint mjd - 40587) + 3600 * h + 60 * m + s"
    unfolding month_days [OF month] using year_days [of y] by (simp add: r_def d)
  finally show ?thesis .
qed

text \<open>Numbers in binary coded decimal.\<close>

definition bcd_byte :: "nat \<Rightarrow> u8" where
  "bcd_byte n = of_nat (16 * (n div 10) + n mod 10)"

lemma unat_bcd_byte: "n < 100 \<Longrightarrow> unat (bcd_byte n) = 16 * (n div 10) + n mod 10"
  unfolding bcd_byte_def unat_of_nat by simp

lemma bcd_digits:
  assumes "n < 100"
  shows "unat (drop_bit 4 (bcd_byte n)) = n div 10" "unat (take_bit 4 (bcd_byte n)) = n mod 10"
proof -
  have "n mod 10 < 16" by (rule less_trans [of _ 10]) simp_all
  moreover have "16 * (n div 10) + n mod 10 < 256" using assms by (metis unat_bcd_byte unat_u8_bound)
  ultimately show "unat (drop_bit 4 (bcd_byte n)) = n div 10" "unat (take_bit 4 (bcd_byte n)) = n mod 10"
    unfolding unsigned_drop_bit_eq unsigned_take_bit_eq unat_bcd_byte [OF assms]
    by (simp_all add: drop_bit_eq_div take_bit_eq_mod)
qed

lemma bcdToDec_byte:
  assumes "n < 100"
  shows "uint (bcdToDec (bcd_byte n)) = int n"
proof -
  have hi: "drop_bit 4 (bcd_byte n) = of_nat (n div 10)" and lo: "take_bit 4 (bcd_byte n) = of_nat (n mod 10)"
    using bcd_digits [OF assms] assms by (simp_all add: word_unat_eq_iff unat_of_nat del: of_nat_mod of_nat_div)
  have "drop_bit 4 (bcd_byte n) AND 15 = drop_bit 4 (bcd_byte n)"
    unfolding and_15 by (rule bit_word_eqI) (auto simp: bit_simps dest: bit_imp_le_length)
  then have "bcdToDec (bcd_byte n) = of_nat (n div 10) * 10 + of_nat (n mod 10)"
    unfolding bcdToDec_def and_15 by (simp add: hi lo and_15)
  also have "\<dots> = of_nat n"
    by (metis mult.commute mult_div_mod_eq of_nat_add of_nat_mult of_nat_numeral)
  finally show ?thesis using assms by (simp add: uint_nat unat_of_nat)
qed

text \<open>C31: The date of an event, a modified Julian date of 16 bits, is converted to the number of seconds since
  1970 for every day from 1 March 1900 on, and an event start time with a duration, as two-digit decimal bytes,
  gives the start and end times of the record.\<close>
theorem event_times:
  fixes mjd :: u16
  assumes "15079 \<le> uint mjd" "h < 24" "m < 60" "sec < 60" "dh < 100" "dm < 60" "ds < 60"
  shows "get_start_time_duration rec (at_pos s pre
      (be_bytes 2 mjd @ map bcd_byte [h, m, sec, dh, dm, ds] @ rest)) =
    Some (of_bool (section_error s),
      rec\<lparr>epg_start_time := 86400 * (uint mjd - 40587) + 3600 * int h + 60 * int m + int sec,
          epg_end_time := 86400 * (uint mjd - 40587) + 3600 * int h + 60 * int m + int sec +
            3600 * int dh + 60 * int dm + int ds\<rparr>,
      at_pos s (pre @ be_bytes 2 mjd @ map bcd_byte [h, m, sec, dh, dm, ds]) rest)"
proof -
  obtain a b where ab: "be_bytes 2 mjd = [a, b]" by simp
  have mjd: "be_word [a, b] = mjd" using be_word_be_bytes [of 2 mjd] by (simp add: ab del: be_bytes_numeral)
  show ?thesis
    unfolding ab get_start_time_duration_def get_bcd_time_def
    using assms by (simp add: section_simps mjd mjd_start_time_correct bcdToDec_byte Let_def del: be_word.simps)
qed

theorem event_times_witness:
  "get_start_time_duration default_epg_record (at_pos (open_section (\<lambda>_. 0) [] 18) []
      (be_bytes 2 (0xC079 :: u16) @ map bcd_byte [12, 45, 0, 1, 45, 30] @ [])) =
    Some (0, default_epg_record\<lparr>epg_start_time := 750516300, epg_end_time := 750522630\<rparr>,
      at_pos (open_section (\<lambda>_. 0) [] 18) (be_bytes 2 (0xC079 :: u16) @ map bcd_byte [12, 45, 0, 1, 45, 30]) [])"
  by (subst event_times) (simp_all add: open_section_def)

subsection \<open>Tuning parameters\<close>

definition bcd_word :: "nat \<Rightarrow> u32" where
  "bcd_word n = be_word (map bcd_byte [n div 1000000, n div 10000 mod 100, n div 100 mod 100, n mod 100])"

lemma BCDCHARTOINT_byte:
  assumes "n < 100"
  shows "BCDCHARTOINT (ucast (bcd_byte n)) = n"
proof -
  define b where "b = bcd_byte n"
  have mask: "(0xF0 :: u32) = push_bit 4 (mask 4)" by (simp add: mask_numeral)
  have "drop_bit 4 (ucast b AND 0xF0 :: u32) = ucast (drop_bit 4 b)"
    unfolding mask by (rule bit_word_eqI) (auto simp: bit_simps dest: bit_imp_le_length)
  moreover have "(ucast b AND 0xF :: u32) = ucast (take_bit 4 b)"
    unfolding and_15 by (rule bit_word_eqI) (auto simp: bit_simps)
  ultimately show ?thesis
    using bcd_digits [OF assms] by (simp add: BCDCHARTOINT_def b_def unat_ucast_up del: bit_simps)
qed

lemma be_word_bytes_of:
  fixes a b c d :: u8
  defines "w \<equiv> be_word [a, b, c, d] :: u32"
  shows "drop_bit 24 w AND 0xFF = ucast a" "drop_bit 16 w AND 0xFF = ucast b" "drop_bit 8 w AND 0xFF = ucast c"
    "w AND 0xFF = ucast d"
  unfolding w_def and_255
  by (rule bit_word_eqI; auto simp: bit_simps dest: bit_imp_le_length)+

lemma pairs_value: "100 * p + a = n \<Longrightarrow> 100 * q + b = p \<Longrightarrow> 100 * r + c = q \<Longrightarrow>
    1000000 * r + 10000 * c + 100 * b + a = (n :: nat)"
  by simp

lemma bcd_pairs: "(n :: nat) div 10000 = n div 100 div 100" "n div 1000000 = n div 100 div 100 div 100"
  by (simp_all add: div_mult2_eq [symmetric])

lemma BCD2INT_word:
  assumes "n < 10 ^ 8"
  shows "BCD2INT (bcd_word n) = n"
proof -
  have "n div 1000000 < 100" using assms by simp
  then have "BCD2INT (bcd_word n) = 1000000 * (n div 1000000) + 10000 * (n div 10000 mod 100) + 100 * (n div 100 mod 100) + n mod 100"
    unfolding BCD2INT_def bcd_word_def list.map be_word_bytes_of by (simp add: BCDCHARTOINT_byte)
  also have "\<dots> = n"
    unfolding bcd_pairs by (rule pairs_value [of "n div 100" "n mod 100" n "n div 100 div 100"]) (rule mult_div_mod_eq)+
  finally show ?thesis .
qed

lemma unat_bcd_word:
  assumes "n < 10 ^ 8"
  shows "unat (bcd_word n) = be_val (map bcd_byte [n div 1000000, n div 10000 mod 100, n div 100 mod 100, n mod 100])"
  unfolding bcd_word_def by (subst unat_be_word) simp_all

lemma bcd_byte_0: "bcd_byte 0 = 0"
  by (simp add: bcd_byte_def)

lemma bcd_word_small:
  shows "n < 10 ^ 4 \<Longrightarrow> unat (bcd_word n) < 2 ^ 16" and "n < 10 ^ 7 \<Longrightarrow> unat (bcd_word n) < 2 ^ 28"
proof -
  assume n: "n < 10 ^ 4"
  then have "n div 1000000 = 0" "n div 10000 = 0" by simp_all
  with n show "unat (bcd_word n) < 2 ^ 16"
    using unat_u8_bound [of "bcd_byte (n div 100)"] unat_u8_bound [of "bcd_byte (n mod 100)"]
    by (subst unat_bcd_word) (simp_all add: bcd_byte_0 del: unat_u8_bound)
next
  assume n: "n < 10 ^ 7"
  then have "unat (bcd_byte (n div 1000000)) < 16" by (simp add: unat_bcd_byte)
  with n show "unat (bcd_word n) < 2 ^ 28"
    using unat_u8_bound [of "bcd_byte (n div 10000 mod 100)"] unat_u8_bound [of "bcd_byte (n div 100 mod 100)"]
      unat_u8_bound [of "bcd_byte (n mod 100)"]
    by (subst unat_bcd_word) (simp_all del: unat_u8_bound)
qed

lemma symbol_rate_word:
  fixes fec :: u32
  assumes "rate < 10 ^ 7" "unat fec < 16"
  shows "(push_bit 4 (bcd_word rate) OR fec) AND 0xf = fec" "drop_bit 4 (push_bit 4 (bcd_word rate) OR fec) = bcd_word rate"
proof -
  define w where "w = bcd_word rate"
  have hi: "n < 28" if "bit w n" for n using bit_small [of w 28 n] bcd_word_small(2) [OF assms(1)] that by (simp add: w_def)
  have lo: "n < 4" if "bit fec n" for n using bit_small [of fec 4 n] assms(2) that by simp
  show "(push_bit 4 (bcd_word rate) OR fec) AND 0xf = fec"
    unfolding and_15 w_def [symmetric] by (rule bit_word_eqI) (use lo in \<open>auto simp: bit_simps\<close>)
  show "drop_bit 4 (push_bit 4 (bcd_word rate) OR fec) = bcd_word rate"
    unfolding w_def [symmetric] by (rule bit_word_eqI) (use hi lo in \<open>fastforce simp: bit_simps\<close>)
qed

lemma orbital_word: "pos < 10 ^ 4 \<Longrightarrow> ucast (ucast (bcd_word pos) :: u16) = bcd_word pos"
  using bit_small [of "bcd_word pos" 16] bcd_word_small(1) by (intro bit_word_eqI) (auto simp: bit_simps)

lemma sint_orbital:
  assumes "pos \<le> 1800"
  shows "sint (of_nat (pos * 10) :: u16) = 10 * int pos" "sint (- of_nat (pos * 10) :: u16) = - 10 * int pos"
proof -
  have "sint (word_of_int i :: u16) = i" if "-32768 \<le> i" "i < 32768" for i :: int
    using that by (simp add: signed_of_int signed_take_bit_int_eq_self)
  from this [of "10 * int pos"] this [of "- 10 * int pos"]
  show "sint (of_nat (pos * 10) :: u16) = 10 * int pos" "sint (- of_nat (pos * 10) :: u16) = - 10 * int pos"
    using assms by (simp_all add: mult.commute)
qed

lemma flag_bits: "(flags AND 0x80 \<noteq> 0) = bit (flags :: u8) 7" "(drop_bit 2 flags AND 0x1 \<noteq> 0) = bit flags 2"
  using and_exp_eq_0_iff_not_bit [of flags 7] and_exp_eq_0_iff_not_bit [of "drop_bit 2 flags" 0]
  by (simp_all add: bit_simps)

definition satellite_bytes :: "nat \<Rightarrow> nat \<Rightarrow> u8 \<Rightarrow> nat \<Rightarrow> u32 \<Rightarrow> bytes" where
  "satellite_bytes f pos flags rate fec = be_bytes 4 (bcd_word f) @ be_bytes 2 (ucast (bcd_word pos) :: u16) @ [flags] @
     be_bytes 4 (push_bit 4 (bcd_word rate) OR fec)"

text \<open>A satellite delivery system descriptor that carries a frequency in units of 10 kHz, an orbital position
  in tenths of a degree and a symbol rate in units of 100 symbols per second, all in binary coded decimal, sets these
  values in kHz, hundredths of a degree (negative for western positions) and symbols per second. The code rate
  is the enumeration member whose number is the stream code, which is not the code rate of the stream coding
  (\<open>dvbs_code_rate_from_stream\<close>) for the codes above 3.\<close>
theorem satellite_descriptor:
  assumes "f < 10 ^ 8" "pos \<le> 1800" "rate < 10 ^ 7" "\<not> section_error s" "unat fec < 16"
  shows "\<exists>mux'. get_satellite_delivery_system mux (at_pos s pre (satellite_bytes f pos flags rate fec @ rest)) =
      Some (0, mux', at_pos s (pre @ satellite_bytes f pos flags rate fec) rest) \<and>
     unat (dvbs_frequency mux') = 10 * f \<and>
     dvbs_sat_pos mux' = (if bit flags 7 then 10 * int pos else - 10 * int pos) \<and>
     unat (dvbs_symbol_rate mux') = 100 * rate \<and>
     dvbs_delivery_system mux' = (if bit flags 2 then SYS_DVBS2 else SYS_DVBS) \<and>
     dvbs_fec mux' = fe_code_rate_of_code (unat fec)"
proof -
  have freq: "unat (of_nat (BCD2INT (bcd_word f) * 10) :: u32) = 10 * f"
    using assms(1) by (simp only: BCD2INT_word unat_of_nat) simp
  have rate: "unat (of_nat (BCD2INT (bcd_word rate)) * 100 :: u32) = 100 * rate"
    using assms(3) by (simp add: BCD2INT_word unat_word_ariths unat_of_nat)
  have pos: "BCD2INT (ucast (ucast (bcd_word pos) :: u16)) = pos"
    using assms(2) by (simp add: orbital_word BCD2INT_word)
  show ?thesis
    unfolding satellite_bytes_def get_satellite_delivery_system_def
    using assms freq rate sint_orbital [OF assms(2)]
    by (simp add: get_uint32_bytes get_uint16_bytes section_simps pos symbol_rate_word flag_bits Let_def
      del: be_bytes_numeral of_nat_mult drop_bit_or)
qed

theorem satellite_descriptor_witness:
  "\<exists>mux'. get_satellite_delivery_system default_dvbs_mux (at_pos (open_section (\<lambda>_. 0) [] 16) []
      (satellite_bytes 1172550 282 0xA1 275000 4 @ [])) =
      Some (0, mux', at_pos (open_section (\<lambda>_. 0) [] 16) ([] @ satellite_bytes 1172550 282 0xA1 275000 4) []) \<and>
     unat (dvbs_frequency mux') = 11725500 \<and> dvbs_sat_pos mux' = 2820 \<and> unat (dvbs_symbol_rate mux') = 27500000 \<and>
     dvbs_delivery_system mux' = SYS_DVBS \<and>
     dvbs_fec mux' = FEC_4_5 \<and> dvbs_fec mux' \<noteq> dvbs_code_rate_from_stream 4"
proof -
  have "\<not> section_error (open_section (\<lambda>_. 0) [] 16)" by (simp add: open_section_def)
  from satellite_descriptor [OF _ _ _ this, of 1172550 282 275000 4 default_dvbs_mux "[]" "0xA1" "[]"]
  show ?thesis by (auto simp: fe_code_rate_of_code_def dvbs_code_rate_from_stream_def)
qed

end
