(* ===== verification/Streamtime.thy ===== *)
theory Streamtime
  imports Prelude "HOL-Library.Signed_Division"
begin

text \<open>
  Stream clocks (\<open>receiver/streamparser/streamtime.h\<close>): the 33-bit presentation time stamp
  \<open>pts_dts_t\<close> on a 90 kHz clock and the programme clock reference \<open>pcr_t\<close> with its
  27 MHz extension. Both keep the 33 bits at the top of a 64-bit word, so that machine arithmetic wraps
  around exactly when the stream clock does. Tick counts are 64-bit words read with \<open>sint\<close>.
  An operation that asserts validity of its operands returns \<open>None\<close> when the assertion fails, and so does one whose
  signed 64-bit arithmetic overflows, which is undefined behaviour.
\<close>

subsection \<open>Time stamps\<close>

record pts_dts_t =
  pts_time :: u64

record pcr_t =
  pcr_time :: u64
  extension :: u16

definition pts_invalid :: pts_dts_t where
  "pts_invalid = \<lparr>pts_time = 1\<rparr>"

definition pts_is_valid :: "pts_dts_t \<Rightarrow> bool" where
  "pts_is_valid p \<longleftrightarrow> pts_time p \<noteq> 1"

definition pts_of_ticks :: "u64 \<Rightarrow> pts_dts_t" where
  "pts_of_ticks ticks = \<lparr>pts_time = push_bit 31 ticks\<rparr>"

text \<open>Shift distances of 64 and more are undefined behaviour.\<close>

definition pts_scale :: "pts_dts_t \<Rightarrow> int \<Rightarrow> pts_dts_t option" where
  "pts_scale p v =
     (if v > 0 then if v < 64 then Some \<lparr>pts_time = drop_bit (nat v) (pts_time p) AND 0xffffffff80000000\<rparr> else None
      else if v < 0 then if - v < 64 then Some \<lparr>pts_time = push_bit (nat (- v)) (pts_time p)\<rparr> else None
      else Some p)"

definition pts_plus_ticks :: "pts_dts_t \<Rightarrow> u64 \<Rightarrow> pts_dts_t option" where
  "pts_plus_ticks p delta_ticks =
     (if pts_is_valid p then Some \<lparr>pts_time = pts_time p + push_bit 31 delta_ticks\<rparr> else None)"

definition pts_minus_ticks :: "pts_dts_t \<Rightarrow> u64 \<Rightarrow> pts_dts_t option" where
  "pts_minus_ticks p delta_ticks =
     (if pts_is_valid p \<and> sint delta_ticks \<noteq> - (2 ^ 63) then pts_plus_ticks p (- delta_ticks) else None)"

definition pts_ticks :: "pts_dts_t \<Rightarrow> u64 option" where
  "pts_ticks p = (if pts_is_valid p then Some (signed_drop_bit 31 (pts_time p)) else None)"

definition from_raw_timestamp :: "u64 \<Rightarrow> pts_dts_t" where
  "from_raw_timestamp timestamp = pts_invalid\<lparr>pts_time := timestamp\<rparr>"

definition pts_milliseconds :: "pts_dts_t \<Rightarrow> u64" where
  "pts_milliseconds p = drop_bit 31 (pts_time p) div 90"

text \<open>The difference is one of two signed words, not of the unsigned ones that are kept.\<close>

definition pts_subtractable :: "pts_dts_t \<Rightarrow> pts_dts_t \<Rightarrow> bool" where
  "pts_subtractable a b \<longleftrightarrow>
     - (2 ^ 63) \<le> sint (pts_time a) - sint (pts_time b) \<and> sint (pts_time a) - sint (pts_time b) < 2 ^ 63"

definition pts_minus :: "pts_dts_t \<Rightarrow> pts_dts_t \<Rightarrow> pts_dts_t option" where
  "pts_minus a b =
     (if pts_is_valid a \<and> pts_is_valid b \<and> pts_subtractable a b
      then Some (pts_of_ticks (signed_drop_bit 31 (pts_time a - pts_time b))) else None)"

definition pts_plus :: "pts_dts_t \<Rightarrow> pts_dts_t \<Rightarrow> pts_dts_t option" where
  "pts_plus a b =
     (if pts_is_valid a \<and> pts_is_valid b
      then do { t \<leftarrow> pts_ticks b; pts_plus_ticks a t } else None)"

definition pts_plus_assign :: "pts_dts_t \<Rightarrow> pts_dts_t \<Rightarrow> pts_dts_t option" where
  "pts_plus_assign a other =
     (if pts_is_valid a \<and> pts_is_valid other then pts_plus a other else None)"

definition pts_less :: "pts_dts_t \<Rightarrow> pts_dts_t \<Rightarrow> bool" where
  "pts_less a b \<longleftrightarrow> sint (pts_time a - pts_time b) < 0"

definition pts_less_eq :: "pts_dts_t \<Rightarrow> pts_dts_t \<Rightarrow> bool" where
  "pts_less_eq a b \<longleftrightarrow> sint (pts_time a - pts_time b) \<le> 0"

definition pts_greater_eq :: "pts_dts_t \<Rightarrow> pts_dts_t \<Rightarrow> bool" where
  "pts_greater_eq a b \<longleftrightarrow> \<not> pts_less a b"

definition pts_greater :: "pts_dts_t \<Rightarrow> pts_dts_t \<Rightarrow> bool" where
  "pts_greater a b \<longleftrightarrow> \<not> pts_less_eq a b"

definition pts_equal :: "pts_dts_t \<Rightarrow> pts_dts_t \<Rightarrow> bool" where
  "pts_equal a b \<longleftrightarrow> pts_time a = pts_time b"

subsection \<open>Clock references\<close>

definition pcr_is_valid :: "pcr_t \<Rightarrow> bool" where
  "pcr_is_valid p \<longleftrightarrow> pcr_time p \<noteq> 1"

definition pcr_of_ticks :: "u64 \<Rightarrow> u32 \<Rightarrow> pcr_t" where
  "pcr_of_ticks val ext = \<lparr>pcr_time = push_bit 31 val, extension = ucast ext\<rparr>"

definition pcr_of_pts :: "pts_dts_t \<Rightarrow> pcr_t" where
  "pcr_of_pts other = \<lparr>pcr_time = pts_time other, extension = 0\<rparr>"

definition pcr_to_pts :: "pcr_t \<Rightarrow> pts_dts_t" where
  "pcr_to_pts p = \<lparr>pts_time = pcr_time p\<rparr>"

definition max_pcr_interval :: pcr_t where
  "max_pcr_interval = pcr_of_ticks (2 * 9000) 0"

definition pcr_plus_ticks :: "pcr_t \<Rightarrow> u64 \<Rightarrow> pcr_t" where
  "pcr_plus_ticks p delta = \<lparr>pcr_time = pcr_time p + push_bit 31 delta, extension = extension p\<rparr>"

definition pcr_minus_ticks :: "pcr_t \<Rightarrow> u64 \<Rightarrow> pcr_t" where
  "pcr_minus_ticks p delta = pcr_plus_ticks p (- delta)"

definition pcr_scale :: "pcr_t \<Rightarrow> int \<Rightarrow> pcr_t option" where
  "pcr_scale p v =
     (if v > 0 then
        if v < 32 then Some \<lparr>pcr_time = drop_bit (nat v) (pcr_time p) AND 0xffffffff80000000,
                              extension = drop_bit (nat v) (extension p)\<rparr> else None
      else if v < 0 then
        if - v < 32 then
          (let time = push_bit (nat (- v)) (pcr_time p);
               ext = push_bit (nat (- v)) (extension p)
           in if ext > 300
              then (let ticks = ext div 300
                    in Some \<lparr>pcr_time = time + push_bit 31 (ucast ticks), extension = ext - ticks * 300\<rparr>)
              else Some \<lparr>pcr_time = time, extension = ext\<rparr>)
        else None
      else Some p)"

text \<open>In units of the 27 MHz clock; negative for negative differences.\<close>

definition pcr_ticks :: "pcr_t \<Rightarrow> u64" where
  "pcr_ticks p = signed_drop_bit 31 (pcr_time p) * 300 + ucast (extension p)"

definition pcr_milliseconds :: "pcr_t \<Rightarrow> u64" where
  "pcr_milliseconds p = word_of_int (sint (signed_drop_bit 31 (pcr_time p)) sdiv 90)"

definition one_tick :: u64 where
  "one_tick = push_bit 31 1"

text \<open>The two normalisation loops of the subtraction, and the one of the addition.\<close>

function normalize_down :: "int \<Rightarrow> u64 \<Rightarrow> int \<times> u64" where
  "normalize_down delta time =
     (if delta > 300 then normalize_down (delta - 300) (time + one_tick) else (delta, time))"
  by pat_completeness auto
termination
  by (relation "measure (\<lambda>(delta, time). nat delta)") auto

function normalize_up :: "int \<Rightarrow> u64 \<Rightarrow> int \<times> u64" where
  "normalize_up delta time =
     (if delta < 0 then normalize_up (delta + 300) (time - one_tick) else (delta, time))"
  by pat_completeness auto
termination
  by (relation "measure (\<lambda>(delta, time). nat (- delta))") auto

function normalize_plus :: "u16 \<Rightarrow> u64 \<Rightarrow> u16 \<times> u64" where
  "normalize_plus ext time =
     (if ext > 300 then normalize_plus (ext - 300) (time + one_tick) else (ext, time))"
  by pat_completeness auto
termination
  by (relation "measure (\<lambda>(ext, time). unat ext)") (auto simp: word_less_nat_alt unat_sub_if_size)

declare normalize_down.simps [simp del] normalize_up.simps [simp del] normalize_plus.simps [simp del]

definition pcr_minus :: "pcr_t \<Rightarrow> pcr_t \<Rightarrow> pcr_t" where
  "pcr_minus a b =
     (let time = pcr_time a - pcr_time b;
          delta = uint (extension a) - uint (extension b);
          (delta, time) = (if delta \<ge> 300 then normalize_down delta time
                           else if delta < 0 then normalize_up delta time
                           else (delta, time))
      in \<lparr>pcr_time = time, extension = word_of_int delta\<rparr>)"

definition pcr_plus :: "pcr_t \<Rightarrow> pcr_t \<Rightarrow> pcr_t" where
  "pcr_plus a b =
     (let (ext, time) = normalize_plus (extension a + extension b) (pcr_time a + pcr_time b)
      in \<lparr>pcr_time = time, extension = ext\<rparr>)"

definition pcr_less :: "pcr_t \<Rightarrow> pcr_t \<Rightarrow> bool" where
  "pcr_less a b \<longleftrightarrow>
     (if pcr_time a = pcr_time b then extension a < extension b
      else sint (pcr_time a - pcr_time b) < 0)"

definition pcr_less_eq :: "pcr_t \<Rightarrow> pcr_t \<Rightarrow> bool" where
  "pcr_less_eq a b \<longleftrightarrow>
     (if pcr_time a = pcr_time b then extension a \<le> extension b
      else sint (pcr_time a - pcr_time b) \<le> 0)"

definition pcr_equal :: "pcr_t \<Rightarrow> pcr_t \<Rightarrow> bool" where
  "pcr_equal a b \<longleftrightarrow> pcr_time a = pcr_time b \<and> extension a = extension b"

subsection \<open>Aligned times\<close>

text \<open>
  Values made from tick counts have their low 31 bits clear. The abstract value of a time stamp is
  its 33-bit tick count.
\<close>

definition aligned :: "u64 \<Rightarrow> bool" where
  "aligned t \<longleftrightarrow> take_bit 31 t = 0"

abbreviation ticks33 :: "u64 \<Rightarrow> nat" where
  "ticks33 t \<equiv> unat t div 2 ^ 31"

lemma aligned_mult: "aligned t \<longleftrightarrow> (\<exists>k. t = k * 2 ^ 31)"
proof
  assume "aligned t"
  then have "push_bit 31 (drop_bit 31 t) = t"
    using bits_ident [of 31 t] by (simp add: aligned_def)
  then show "\<exists>k. t = k * 2 ^ 31" by (metis push_bit_eq_mult)
next
  assume "\<exists>k. t = k * 2 ^ 31"
  then obtain k where "t = push_bit 31 k" by (auto simp: push_bit_eq_mult)
  then show "aligned t"
    unfolding aligned_def by (auto intro!: bit_word_eqI simp: bit_simps)
qed

lemma aligned_push [simp]: "aligned (push_bit 31 t)"
  by (auto simp: aligned_mult push_bit_eq_mult)

lemma aligned_add: "aligned a \<Longrightarrow> aligned b \<Longrightarrow> aligned (a + b)"
  unfolding aligned_mult by (metis distrib_right)

lemma aligned_diff: "aligned a \<Longrightarrow> aligned b \<Longrightarrow> aligned (a - b)"
  unfolding aligned_mult by (metis left_diff_distrib)

lemma push_signed_drop: "aligned t \<Longrightarrow> push_bit 31 (signed_drop_bit 31 t) = t"
proof (rule bit_word_eqI)
  fix n
  assume "aligned t" and "n < LENGTH(64)"
  then show "bit (push_bit 31 (signed_drop_bit 31 t)) n = bit t n"
    by (auto simp: aligned_def bit_simps bit_eq_iff)
qed

lemma aligned_not_one: "aligned t \<Longrightarrow> t \<noteq> 1"
  unfolding aligned_def by auto

lemma sint_word_of_int: "- (2 ^ 63) \<le> i \<Longrightarrow> i < 2 ^ 63 \<Longrightarrow> sint (word_of_int i :: u64) = i"
  by (simp add: signed_of_int signed_take_bit_int_eq_self)

lemma push_bit_word_of_int: "push_bit 31 (t :: u64) = word_of_int (sint t * 2 ^ 31)"
  by (simp add: push_bit_eq_mult)

lemma sint_push:
  assumes "- (2 ^ 32) \<le> sint t" "sint t < 2 ^ 32"
  shows "sint (push_bit 31 (t :: u64)) = sint t * 2 ^ 31"
  using assms by (simp only: push_bit_word_of_int) (rule sint_word_of_int; simp)

lemma ticks_roundtrip:
  assumes "- (2 ^ 32) \<le> sint t" "sint t < 2 ^ 32"
  shows "signed_drop_bit 31 (push_bit 31 t) = (t :: u64)"
proof -
  have "sint (signed_drop_bit 31 (push_bit 31 t)) = sint t"
    using sint_push [OF assms] by (simp only: sint_signed_drop_bit_eq) (simp add: drop_bit_eq_div)
  then show ?thesis by (simp only: signed_word_eqI)
qed

text \<open>The 33-bit tick count of a time, as an integer.\<close>

definition tick_count :: "u64 \<Rightarrow> int" where
  "tick_count t = uint t div 2 ^ 31"

lemma aligned_uint: "aligned t \<Longrightarrow> uint t = 2 ^ 31 * tick_count t"
proof -
  assume "aligned t"
  then have "uint (take_bit 31 t) = 0" by (simp add: aligned_def)
  then have "take_bit 31 (uint t) = 0" by (simp only: unsigned_take_bit_eq)
  then have "uint t mod 2 ^ 31 = 0" by (simp only: take_bit_eq_mod)
  then show ?thesis using mult_div_mod_eq [of "2 ^ 31" "uint t"] by (simp only: tick_count_def add_0_right)
qed

lemma uint_mod_tick: "uint t = (2 ^ 31 * k) mod 2 ^ 64 \<Longrightarrow> tick_count t = k mod 2 ^ 33"
  using mod_mult_mult1 [of "2 ^ 31" k "2 ^ 33"] by (simp add: tick_count_def)

lemma tick_count_add:
  assumes "aligned a" "aligned b"
  shows "tick_count (a + b) = (tick_count a + tick_count b) mod 2 ^ 33"
  by (rule uint_mod_tick)
    (simp add: uint_word_ariths aligned_uint [OF assms(1)] aligned_uint [OF assms(2)] distrib_left)

lemma tick_count_diff:
  assumes "aligned a" "aligned b"
  shows "tick_count (a - b) = (tick_count a - tick_count b) mod 2 ^ 33"
  by (rule uint_mod_tick)
    (simp add: uint_word_ariths aligned_uint [OF assms(1)] aligned_uint [OF assms(2)] right_diff_distrib)

lemma tick_count_one: "aligned one_tick" "tick_count one_tick = 1"
proof -
  show "aligned one_tick" unfolding one_tick_def by (rule aligned_push)
  show "tick_count one_tick = 1" by (simp add: tick_count_def one_tick_def)
qed

lemma tick_count_bound: "0 \<le> tick_count t" "tick_count t < 2 ^ 33"
proof -
  have "uint t < 2 ^ 64" using unsigned_less [of t] by simp
  then show "tick_count t < 2 ^ 33" by (simp add: tick_count_def)
next
  have "0 \<le> uint t" by simp
  then show "0 \<le> tick_count t" unfolding tick_count_def by (rule pos_imp_zdiv_nonneg_iff [THEN iffD2, rotated]) simp
qed

lemma tick_count_mod: "tick_count t mod 8589934592 = tick_count t"
  using tick_count_bound [of t] by simp

subsection \<open>Modular clocks\<close>

text \<open>
  What both stream clocks promise: addition and subtraction act on the clock value modulo the
  period of the clock, whatever wraps around on the way. A subtraction may be undefined for some operands.
\<close>

locale stream_clock =
  fixes clock :: "'c \<Rightarrow> int"
    and plus :: "'c \<Rightarrow> 'c \<Rightarrow> 'c"
    and minus :: "'c \<Rightarrow> 'c \<Rightarrow> 'c"
    and ok :: "'c \<Rightarrow> bool"
    and subtractable :: "'c \<Rightarrow> 'c \<Rightarrow> bool"
    and period :: int
  assumes clock_plus: "ok a \<Longrightarrow> ok b \<Longrightarrow> clock (plus a b) = (clock a + clock b) mod period"
    and clock_minus: "ok a \<Longrightarrow> ok b \<Longrightarrow> subtractable a b \<Longrightarrow> clock (minus a b) = (clock a - clock b) mod period"
    and ok_plus: "ok a \<Longrightarrow> ok b \<Longrightarrow> ok (plus a b)"
    and ok_minus: "ok a \<Longrightarrow> ok b \<Longrightarrow> subtractable a b \<Longrightarrow> ok (minus a b)"
    and clock_range: "ok a \<Longrightarrow> clock a mod period = clock a"
begin

lemma plus_minus: "ok a \<Longrightarrow> ok b \<Longrightarrow> subtractable (plus a b) b \<Longrightarrow> clock (minus (plus a b) b) = clock a"
  by (simp add: clock_minus clock_plus ok_plus mod_simps clock_range)

lemma minus_plus: "ok a \<Longrightarrow> ok b \<Longrightarrow> subtractable a b \<Longrightarrow> clock (plus (minus a b) b) = clock a"
  by (simp add: clock_minus clock_plus ok_minus mod_simps clock_range)

end

definition pts_ok :: "pts_dts_t \<Rightarrow> bool" where
  "pts_ok p \<longleftrightarrow> aligned (pts_time p)"

lemma pts_ok_valid: "pts_ok p \<Longrightarrow> pts_is_valid p"
  by (simp add: pts_ok_def pts_is_valid_def aligned_not_one)

lemma pts_plus_eq: "pts_ok a \<Longrightarrow> pts_ok b \<Longrightarrow> pts_plus a b = Some \<lparr>pts_time = pts_time a + pts_time b\<rparr>"
  by (simp add: pts_plus_def pts_ok_valid pts_ticks_def pts_plus_ticks_def pts_ok_def push_signed_drop)

lemma pts_minus_eq: "pts_ok a \<Longrightarrow> pts_ok b \<Longrightarrow> pts_subtractable a b \<Longrightarrow> pts_minus a b = Some \<lparr>pts_time = pts_time a - pts_time b\<rparr>"
  by (simp add: pts_minus_def pts_ok_valid pts_of_ticks_def pts_ok_def push_signed_drop aligned_diff)

interpretation pts: stream_clock "\<lambda>p. tick_count (pts_time p)" "\<lambda>a b. the (pts_plus a b)"
  "\<lambda>a b. the (pts_minus a b)" pts_ok pts_subtractable "2 ^ 33"
  by unfold_locales
    (auto simp: pts_plus_eq pts_minus_eq pts_ok_def aligned_add aligned_diff tick_count_add
      tick_count_diff tick_count_mod)

text \<open>The 27 MHz value of a clock reference, modulo the period of the 33-bit base.\<close>

definition pcr_clock :: "pcr_t \<Rightarrow> int" where
  "pcr_clock p = (tick_count (pcr_time p) * 300 + uint (extension p)) mod (2 ^ 33 * 300)"

definition pcr_ok :: "pcr_t \<Rightarrow> bool" where
  "pcr_ok p \<longleftrightarrow> aligned (pcr_time p) \<and> uint (extension p) < 600"

lemma mod_base: "(k mod 2 ^ 33) * 300 mod (2 ^ 33 * 300) = k * 300 mod (2 ^ 33 * 300 :: int)"
  by (simp only: mod_mult_mult2 mod_mod_trivial)

lemma mod_base_add:
  "((k mod 2 ^ 33) * 300 + e) mod (2 ^ 33 * 300) = (k * 300 + e) mod (2 ^ 33 * 300 :: int)"
  by (subst (1 2) mod_add_left_eq [symmetric]) (simp only: mod_base)

text \<open>What a normalisation loop keeps: the value of the pair, and an aligned time.\<close>

definition pair_clock :: "u64 \<Rightarrow> int \<Rightarrow> int" where
  "pair_clock time e = (tick_count time * 300 + e) mod (2 ^ 33 * 300)"

lemma pair_clock_carry: "aligned time \<Longrightarrow> pair_clock (time + one_tick) (e - 300) = pair_clock time e"
  using tick_count_add [of time one_tick] tick_count_one
    mod_base_add [of "tick_count time + 1" "e - 300"]
  by (simp add: pair_clock_def algebra_simps)

lemma pair_clock_borrow: "aligned time \<Longrightarrow> pair_clock (time - one_tick) (e + 300) = pair_clock time e"
  using tick_count_diff [of time one_tick] tick_count_one
    mod_base_add [of "tick_count time - 1" "e + 300"]
  by (simp add: pair_clock_def algebra_simps)

lemma normalize_down_spec:
  "aligned time \<Longrightarrow> 0 \<le> delta \<Longrightarrow> normalize_down delta time = (d, t) \<Longrightarrow>
    aligned t \<and> 0 \<le> d \<and> d \<le> 300 \<and> pair_clock t d = pair_clock time delta"
proof (induction delta time rule: normalize_down.induct)
  case (1 delta time)
  then show ?case
    by (subst (asm) normalize_down.simps) (auto split: if_splits simp: aligned_add tick_count_one pair_clock_carry)
qed

lemma normalize_up_spec:
  "aligned time \<Longrightarrow> delta < 300 \<Longrightarrow> normalize_up delta time = (d, t) \<Longrightarrow>
    aligned t \<and> 0 \<le> d \<and> d < 300 \<and> pair_clock t d = pair_clock time delta"
proof (induction delta time rule: normalize_up.induct)
  case (1 delta time)
  then show ?case
    by (subst (asm) normalize_up.simps) (auto split: if_splits simp: aligned_diff tick_count_one pair_clock_borrow)
qed

lemma normalize_plus_spec:
  "aligned time \<Longrightarrow> normalize_plus ext time = (e, t) \<Longrightarrow>
    aligned t \<and> uint e \<le> 300 \<and> pair_clock t (uint e) = pair_clock time (uint ext)"
proof (induction ext time rule: normalize_plus.induct)
  case (1 ext time)
  show ?case
  proof (cases "300 < ext")
    case True
    then have "uint (ext - 300) = uint ext - 300" by (simp add: uint_sub_if' word_less_def)
    with True 1 show ?thesis
      by (simp add: normalize_plus.simps [of ext time] aligned_add tick_count_one pair_clock_carry)
  next
    case False
    with 1(2,3) show ?thesis
      by (subst (asm) normalize_plus.simps) (auto simp: word_less_def not_less)
  qed
qed

lemma pcr_clock_pair: "pcr_clock p = pair_clock (pcr_time p) (uint (extension p))"
  by (simp add: pcr_clock_def pair_clock_def)

lemma pair_clock_add:
  "aligned s \<Longrightarrow> aligned t \<Longrightarrow>
    pair_clock (s + t) (d + e) = (pair_clock s d + pair_clock t e) mod (2 ^ 33 * 300)"
  using mod_base_add [of "tick_count s + tick_count t" "d + e"]
  by (simp only: pair_clock_def tick_count_add mod_add_eq distrib_right) (simp only: ac_simps)

lemma pair_clock_diff:
  "aligned s \<Longrightarrow> aligned t \<Longrightarrow>
    pair_clock (s - t) (d - e) = (pair_clock s d - pair_clock t e) mod (2 ^ 33 * 300)"
  using mod_base_add [of "tick_count s - tick_count t" "d - e"]
  by (simp only: pair_clock_def tick_count_diff mod_diff_eq left_diff_distrib)
    (simp only: diff_add_eq diff_diff_eq2 diff_diff_add add_diff_eq ac_simps)

lemma pcr_plus_spec:
  assumes "pcr_ok a" "pcr_ok b"
  shows "aligned (pcr_time (pcr_plus a b)) \<and> uint (extension (pcr_plus a b)) \<le> 300 \<and>
    pcr_clock (pcr_plus a b) = (pcr_clock a + pcr_clock b) mod (2 ^ 33 * 300)"
proof -
  obtain e t where n: "normalize_plus (extension a + extension b) (pcr_time a + pcr_time b) = (e, t)"
    by force
  have al: "aligned (pcr_time a)" "aligned (pcr_time b)" using assms by (auto simp: pcr_ok_def)
  have "uint (extension a) < 600" "uint (extension b) < 600" using assms by (simp_all add: pcr_ok_def)
  then have "uint (extension a + extension b) = uint (extension a) + uint (extension b)"
    by (simp add: uint_word_ariths)
  with normalize_plus_spec [OF aligned_add [OF al] n] pair_clock_add [OF al]
  show ?thesis by (simp add: pcr_plus_def n pcr_clock_pair)
qed

lemma pcr_minus_spec:
  assumes "pcr_ok a" "pcr_ok b"
  shows "aligned (pcr_time (pcr_minus a b)) \<and> uint (extension (pcr_minus a b)) \<le> 300 \<and>
    pcr_clock (pcr_minus a b) = (pcr_clock a - pcr_clock b) mod (2 ^ 33 * 300)"
proof -
  let ?delta = "uint (extension a) - uint (extension b)"
  let ?time = "pcr_time a - pcr_time b"
  let ?norm = "if ?delta \<ge> 300 then normalize_down ?delta ?time
    else if ?delta < 0 then normalize_up ?delta ?time else (?delta, ?time)"
  have al: "aligned (pcr_time a)" "aligned (pcr_time b)" using assms by (auto simp: pcr_ok_def)
  obtain d t where n: "?norm = (d, t)" by force
  consider (ge) "300 \<le> ?delta" | (neg) "?delta < 0" | (mid) "0 \<le> ?delta" "?delta < 300" by linarith
  then have "aligned t \<and> 0 \<le> d \<and> d \<le> 300 \<and> pair_clock t d = pair_clock ?time ?delta"
  proof cases
    case ge
    with n show ?thesis using normalize_down_spec [OF aligned_diff [OF al], of ?delta d t] by simp
  next
    case neg
    with n show ?thesis using normalize_up_spec [OF aligned_diff [OF al], of ?delta d t] by simp
  next
    case mid
    with n show ?thesis using aligned_diff [OF al] by auto
  qed
  moreover from this have "uint (word_of_int d :: u16) = d"
    by (simp add: unsigned_of_int take_bit_int_eq_self)
  moreover have "pcr_minus a b = \<lparr>pcr_time = t, extension = word_of_int d\<rparr>"
    using n by (simp only: pcr_minus_def Let_def split)
  ultimately show ?thesis using pair_clock_diff [OF al] by (simp add: pcr_clock_pair)
qed

interpretation pcr: stream_clock pcr_clock pcr_plus pcr_minus pcr_ok "\<lambda>_ _. True" "2 ^ 33 * 300"
proof
  fix a b
  assume ab: "pcr_ok a" "pcr_ok b"
  show "pcr_clock (pcr_plus a b) = (pcr_clock a + pcr_clock b) mod (2 ^ 33 * 300)"
    using pcr_plus_spec [OF ab] by blast
  show "pcr_clock (pcr_minus a b) = (pcr_clock a - pcr_clock b) mod (2 ^ 33 * 300)"
    using pcr_minus_spec [OF ab] by blast
  show "pcr_ok (pcr_plus a b)" using pcr_plus_spec [OF ab] unfolding pcr_ok_def by linarith
  show "pcr_ok (pcr_minus a b)" using pcr_minus_spec [OF ab] unfolding pcr_ok_def by linarith
qed (simp only: pcr_clock_def mod_mod_trivial)

lemma pts_ok_of_ticks [simp]: "pts_ok (pts_of_ticks t)"
  by (simp only: pts_ok_def pts_of_ticks_def pts_dts_t.simps aligned_push)

lemma tick_count_sint: "sint (signed_drop_bit 31 x) mod 2 ^ 33 = tick_count (x :: u64)"
proof -
  have "tick_count x = drop_bit 31 (take_bit 64 (sint x))"
    by (simp only: tick_count_def drop_bit_eq_div [symmetric]) (simp add: uint_sint)
  also have "\<dots> = take_bit 33 (drop_bit 31 (sint x))" by (simp add: drop_bit_take_bit)
  finally show ?thesis by (simp only: sint_signed_drop_bit_eq take_bit_eq_mod)
qed

subsection \<open>Properties\<close>

lemma mod_once: "0 \<le> x \<Longrightarrow> x < 2 * p \<Longrightarrow> x mod p = (if x < p then x else x - p)" for x p :: int
  using minus_mod_self2 [of x p] mod_pos_pos_trivial [of "x - p" p] mod_pos_pos_trivial [of x p] by auto

lemma sint_tick_count: "aligned t \<Longrightarrow> sint t = 2 ^ 31 * (if tick_count t < 2 ^ 32 then tick_count t else tick_count t - 2 ^ 33)"
proof -
  assume "aligned t"
  then have u: "uint t = 2 ^ 31 * tick_count t" by (rule aligned_uint)
  have "uint t div 2 ^ 63 = (if uint t < 2 ^ 63 then 0 else 1)"
    using unsigned_less [of t, where 'a = int] by (auto simp: div_pos_pos_trivial div_pos_geq)
  then have "bit (uint t) 63 \<longleftrightarrow> \<not> uint t < 2 ^ 63" by (simp add: bit_iff_odd)
  then have "sint t = (if uint t < 2 ^ 63 then uint t else uint t - 2 ^ 64)"
    using sint_uint [of t] unsigned_less [of t, where 'a = int] by (simp add: signed_take_bit_eq_take_bit_minus take_bit_int_eq_self)
  then show ?thesis using u by simp
qed

text \<open>C23: Time stamp arithmetic across wrap-around of the 33-bit clock: adding a positive number of ticks below half the period
  gives a later time stamp and the earlier one is not later. Subtracting the two gives back the number of ticks, also when the clock
  wrapped around from its last tick to zero; but when the two lie on both sides of the middle of the clock period, the
  subtraction overflows a signed word and its result is undefined.\<close>

theorem pts_wrap_around:
  assumes "pts_ok a" "0 < sint d" "sint d < 2 ^ 32"
  shows "\<exists>b. pts_plus_ticks a d = Some b \<and> pts_less a b \<and> pts_greater b a \<and> \<not> pts_less b a \<and>
    pts_minus b a = (if tick_count (pts_time a) < 2 ^ 32 \<and> 2 ^ 32 \<le> tick_count (pts_time a) + sint d then None else Some (pts_of_ticks d)) \<and>
    pts_ticks (pts_of_ticks d) = Some d"
proof -
  let ?b = "\<lparr>pts_time = pts_time a + push_bit 31 d\<rparr>"
  let ?mid = "tick_count (pts_time a) < 2 ^ 32 \<and> 2 ^ 32 \<le> tick_count (pts_time a) + sint d"
  have s: "sint (push_bit 31 d) = sint d * 2 ^ 31" using assms by (intro sint_push) auto
  have m: "sint (- push_bit 31 d) = - (sint d * 2 ^ 31)"
  proof -
    have "- push_bit 31 d = word_of_int (- (sint d * 2 ^ 31))"
      by (simp only: push_bit_word_of_int of_int_minus)
    then show ?thesis using assms by (simp only:) (rule sint_word_of_int; simp)
  qed
  have al: "aligned (pts_time a)" "aligned (pts_time a + push_bit 31 d)" using assms by (simp_all add: pts_ok_def aligned_add)
  have "pts_plus_ticks a d = Some ?b" using assms by (simp add: pts_plus_ticks_def pts_ok_valid)
  moreover have "pts_less a ?b" using m assms by (simp add: pts_less_def)
  moreover have "pts_greater ?b a" "\<not> pts_less ?b a"
    using s assms by (simp_all add: pts_greater_def pts_less_eq_def pts_less_def)
  moreover have "pts_minus ?b a = (if ?mid then None else Some (pts_of_ticks d))"
  proof -
    have d: "tick_count (push_bit 31 d) = sint d"
      using assms sint_tick_count [OF aligned_push, of d] tick_count_bound [of "push_bit 31 d"] s by (simp split: if_splits)
    have "tick_count (pts_time a + push_bit 31 d) = (tick_count (pts_time a) + sint d) mod 2 ^ 33"
      using tick_count_add [OF al(1) aligned_push, of d] d by simp
    also have "\<dots> = (if tick_count (pts_time a) + sint d < 2 ^ 33 then tick_count (pts_time a) + sint d else tick_count (pts_time a) + sint d - 2 ^ 33)"
      using tick_count_bound [of "pts_time a"] assms by (intro mod_once; simp)
    finally have "pts_subtractable ?b a \<longleftrightarrow> \<not> ?mid"
      using tick_count_bound [of "pts_time a"] assms by (simp add: pts_subtractable_def sint_tick_count [OF al(1)] sint_tick_count [OF al(2)])
    then show ?thesis
      using assms al pts_minus_eq [of ?b a] by (auto simp: pts_minus_def pts_ok_def pts_of_ticks_def)
  qed
  moreover have "pts_ticks (pts_of_ticks d) = Some d"
    using assms by (simp add: pts_ticks_def pts_of_ticks_def pts_is_valid_def aligned_not_one ticks_roundtrip)
  ultimately show ?thesis by blast
qed

theorem pts_wrap_around_witness:
  "(\<exists>b. pts_plus_ticks (pts_of_ticks (2 ^ 33 - 1)) 5 = Some b \<and> pts_less (pts_of_ticks (2 ^ 33 - 1)) b \<and>
    pts_minus b (pts_of_ticks (2 ^ 33 - 1)) = Some (pts_of_ticks 5)) \<and>
   (\<exists>b. pts_plus_ticks (pts_of_ticks (2 ^ 32 - 1)) 5 = Some b \<and> pts_less (pts_of_ticks (2 ^ 32 - 1)) b \<and>
    pts_minus b (pts_of_ticks (2 ^ 32 - 1)) = None)"
  using pts_wrap_around [OF pts_ok_of_ticks, of 5 "2 ^ 33 - 1"] pts_wrap_around [OF pts_ok_of_ticks, of 5 "2 ^ 32 - 1"]
  by (auto simp: tick_count_def pts_of_ticks_def)

text \<open>C28: Addition and subtraction of programme clock references compute the sum and the difference
  of the 27 MHz clock values modulo the clock period, and each undoes the other, for references
  with an aligned base and an extension below 600; the extension of a result is at most 300.\<close>

theorem pcr_arithmetic:
  assumes "pcr_ok a" "pcr_ok b"
  shows "pcr_clock (pcr_plus a b) = (pcr_clock a + pcr_clock b) mod (2 ^ 33 * 300) \<and>
    pcr_clock (pcr_minus a b) = (pcr_clock a - pcr_clock b) mod (2 ^ 33 * 300) \<and>
    pcr_clock (pcr_minus (pcr_plus a b) b) = pcr_clock a \<and>
    pcr_clock (pcr_plus (pcr_minus a b) b) = pcr_clock a \<and>
    uint (extension (pcr_plus a b)) \<le> 300 \<and> uint (extension (pcr_minus a b)) \<le> 300"
  using pcr.clock_plus [OF assms] pcr.clock_minus [OF assms TrueI] pcr.plus_minus [OF assms TrueI]
    pcr.minus_plus [OF assms TrueI] pcr_plus_spec [OF assms] pcr_minus_spec [OF assms] by blast

theorem pcr_arithmetic_witness:
  "pcr_clock (pcr_plus (pcr_of_ticks 1 200) (pcr_of_ticks 2 150)) =
    (pcr_clock (pcr_of_ticks 1 200) + pcr_clock (pcr_of_ticks 2 150)) mod (2 ^ 33 * 300)"
proof -
  have "aligned (push_bit 31 1)" "aligned (push_bit 31 2)" by (rule aligned_push)+
  then show ?thesis using pcr_arithmetic [of "pcr_of_ticks 1 200" "pcr_of_ticks 2 150"]
    by (simp add: pcr_ok_def pcr_of_ticks_def)
qed

text \<open>Normalisation stops at an extension of 300 instead of carrying it into the base, so two
  clock references with the same clock value may be neither equal nor ordered consistently: 150 + 150
  ticks of 27 MHz and one tick of 90 kHz have the same clock value, are not equal, and the former is
  below the latter.\<close>

theorem pcr_extension_not_normalized:
  "pcr_clock (pcr_plus (pcr_of_ticks 0 150) (pcr_of_ticks 0 150)) = pcr_clock (pcr_of_ticks 1 0) \<and>
    \<not> pcr_equal (pcr_plus (pcr_of_ticks 0 150) (pcr_of_ticks 0 150)) (pcr_of_ticks 1 0) \<and>
    pcr_less (pcr_plus (pcr_of_ticks 0 150) (pcr_of_ticks 0 150)) (pcr_of_ticks 1 0)"
  by (simp add: pcr_plus_def pcr_of_ticks_def normalize_plus.simps pcr_clock_def tick_count_def
      pcr_equal_def pcr_less_def)

end
