(* ===== verification/Data_Range.thy ===== *)
theory Data_Range
  imports Streamtime
begin

text \<open>
  Ranges of bytes with a cursor and the header of a transport stream packet (\<open>data_range_t\<close> and
  \<open>ts_packet_t\<close> in \<open>receiver/streamparser/streamparser.h\<close>,
  \<open>streamparser_impl.h\<close> and \<open>packetstream.cc\<close>). The three pointers of a range are offsets into
  the buffer it points to; a range without a buffer is not valid. \<open>None\<close> is a failed assertion or an
  access outside of the buffer.
\<close>

record data_range_t =
  dr_buffer :: "bytes option"
  dr_start_bytepos :: int
  dr_start :: int
  dr_curpos :: int
  dr_end :: int
  dr_tst :: u8
  dr_is_writer :: bool

definition default_data_range :: data_range_t where
  "default_data_range = \<lparr>dr_buffer = None, dr_start_bytepos = 0, dr_start = 0, dr_curpos = 0, dr_end = 0,
     dr_tst = 0, dr_is_writer = False\<rparr>"

definition is_valid :: "data_range_t \<Rightarrow> bool" where
  "is_valid r \<longleftrightarrow> dr_buffer r \<noteq> None"

definition dr_available :: "data_range_t \<Rightarrow> int" where
  "dr_available r = (if is_valid r then dr_end r - dr_curpos r else 0)"

definition processed :: "data_range_t \<Rightarrow> int" where
  "processed r = (if is_valid r then dr_curpos r - dr_start r else 0)"

definition end_bytepos :: "data_range_t \<Rightarrow> int" where
  "end_bytepos r = dr_start_bytepos r + (dr_end r - dr_start r)"

definition dr_length :: "data_range_t \<Rightarrow> int" where
  "dr_length r = (if is_valid r then dr_end r - dr_start r else 0)"

definition new_data_range :: "bytes \<Rightarrow> int \<Rightarrow> int \<Rightarrow> data_range_t option" where
  "new_data_range buf start l =
     (if l > 0
      then Some (default_data_range\<lparr>dr_buffer := Some buf, dr_start := start, dr_curpos := start, dr_end := start + l\<rparr>)
      else None)"

definition sub_range :: "int \<Rightarrow> int \<Rightarrow> data_range_t \<Rightarrow> data_range_t option" where
  "sub_range offset l r =
     (if offset \<le> dr_end r - dr_start r \<and> offset + l \<le> dr_end r - dr_start r \<and> l \<ge> 0
      then let ret = r\<lparr>dr_start_bytepos := dr_start_bytepos r + offset, dr_start := dr_start r + offset,
                       dr_curpos := dr_start r + offset, dr_end := dr_start r + offset + l\<rparr>
           in if dr_available r \<ge> 0 then Some ret else None
      else None)"

definition remainder_range :: "data_range_t \<Rightarrow> data_range_t option" where
  "remainder_range r =
     (if dr_available r \<ge> 0
      then Some (r\<lparr>dr_start_bytepos := dr_start_bytepos r + processed r, dr_start := dr_start r + processed r,
                   dr_curpos := dr_start r + processed r\<rparr>)
      else None)"

text \<open>Bytes of the buffer behind a range, when they all exist.\<close>

definition bytes_at :: "int \<Rightarrow> int \<Rightarrow> data_range_t \<Rightarrow> bytes option" where
  "bytes_at i n r =
     (case dr_buffer r of
        None \<Rightarrow> None
      | Some buf \<Rightarrow> if 0 \<le> i \<and> 0 \<le> n \<and> i + n \<le> int (length buf)
                    then Some (take (nat n) (drop (nat i) buf)) else None)"

definition dr_get_buffer :: "int \<Rightarrow> data_range_t \<Rightarrow> (bytes \<times> data_range_t) option" where
  "dr_get_buffer n r =
     (if dr_is_writer r then None
      else let l = min (dr_available r) n
           in do {
             bs \<leftarrow> (if l = 0 then Some [] else bytes_at (dr_curpos r) l r);
             let r = r\<lparr>dr_curpos := dr_curpos r + l\<rparr>;
             if dr_available r \<ge> 0 then Some (bs, r) else None
           })"

text \<open>
  A typed read. The assertion lets a value end at the end of the range, the test in front of the read does
  not: such a value is read as zero and the cursor stays.
\<close>

definition dr_get :: "nat \<Rightarrow> data_range_t \<Rightarrow> ('a::len word \<times> data_range_t) option" where
  "dr_get n r =
     (if \<not> (dr_curpos r + int n \<le> dr_end r) then None
      else if dr_curpos r + int n < dr_end r
      then (if dr_is_writer r then None
            else do {
              bs \<leftarrow> bytes_at (dr_curpos r) (int n) r;
              let r = r\<lparr>dr_curpos := dr_curpos r + int n\<rparr>;
              if dr_available r \<ge> 0 then Some (be_word bs, r) else None
            })
      else Some (0, r))"

definition dr_current_pointer :: "int \<Rightarrow> data_range_t \<Rightarrow> (int \<times> data_range_t) option" where
  "dr_current_pointer n r =
     (if dr_curpos r + n \<le> dr_end r then Some (dr_curpos r, r\<lparr>dr_curpos := dr_curpos r + n\<rparr>) else None)"

definition dr_skip :: "int \<Rightarrow> data_range_t \<Rightarrow> (int \<times> data_range_t) option" where
  "dr_skip n r =
     (if dr_curpos r + n > dr_end r then Some (-1, r)
      else let r = r\<lparr>dr_curpos := dr_curpos r + n\<rparr>
           in if dr_available r \<ge> 0 then Some (n, r) else None)"

definition unread :: "int \<Rightarrow> data_range_t \<Rightarrow> data_range_t option" where
  "unread n r = (if dr_curpos r \<ge> dr_start r + n then Some (r\<lparr>dr_curpos := dr_curpos r - n\<rparr>) else None)"

definition set_cursor :: "int \<Rightarrow> data_range_t \<Rightarrow> (bool \<times> data_range_t) option" where
  "set_cursor n r =
     (if dr_start r + n \<ge> dr_end r then Some (False, r)
      else let r = r\<lparr>dr_curpos := dr_start r + n\<rparr>
           in if dr_available r \<ge> 0 then Some (True, r) else None)"

text \<open>Writing, for ranges in writer mode.\<close>

definition write_at :: "int \<Rightarrow> bytes \<Rightarrow> data_range_t \<Rightarrow> data_range_t option" where
  "write_at i bs r =
     (case dr_buffer r of
        None \<Rightarrow> None
      | Some buf \<Rightarrow> if 0 \<le> i \<and> i + int (length bs) \<le> int (length buf)
                    then Some (r\<lparr>dr_buffer := Some (take (nat i) buf @ bs @ drop (nat i + length bs) buf)\<rparr>) else None)"

definition put_buffer :: "bytes \<Rightarrow> data_range_t \<Rightarrow> (int \<times> data_range_t) option" where
  "put_buffer bs r =
     (if \<not> dr_is_writer r then None
      else let l = min (dr_available r) (int (length bs))
           in do {
             r \<leftarrow> (if l = 0 then Some r else write_at (dr_curpos r) (take (nat l) bs) r);
             Some (l, r\<lparr>dr_curpos := dr_curpos r + l\<rparr>)
           })"

definition dr_put :: "nat \<Rightarrow> 'a::len word \<Rightarrow> data_range_t \<Rightarrow> data_range_t option" where
  "dr_put n v r =
     (if dr_curpos r + int n \<le> dr_end r \<and> dr_is_writer r
      then do {
        r \<leftarrow> write_at (dr_curpos r) (be_bytes n v) r;
        let r = r\<lparr>dr_curpos := dr_curpos r + int n\<rparr>;
        if dr_available r \<ge> 0 then Some r else None
      }
      else None)"

definition put_start_code :: "u8 \<Rightarrow> data_range_t \<Rightarrow> data_range_t option" where
  "put_start_code code r = dr_put 4 (0x00000100 OR ucast code :: u32) r"

end
