(* ===== verification/Section_Tables.thy ===== *)
theory Section_Tables
  imports Section_Descriptors Data_Range
begin

text \<open>
  Parsers for whole sections (\<open>stored_section_t::parse_..._section\<close> and
  \<open>pmt_info_t::parse_descriptors\<close> in \<open>receiver/streamparser/section.cc\<close>). A parser takes the
  structure to fill, the section header and the reader, and returns the C++ result, the structure and
  the reader; \<open>None\<close> is a crash or an endless loop, as for the descriptors. Loops over descriptors
  carry the structure, the reader and the byte count \<open>tst\<close> that the source checks with an assertion.
\<close>

subsection \<open>Headers\<close>

definition parse_section_header :: "section_header_t \<Rightarrow> stored_section_t \<Rightarrow> (section_header_t \<times> stored_section_t) option" where
  "parse_section_header ret s = do {
     let ret = ret\<lparr>pid := section_pid s\<rparr>;
     (tid, s) \<leftarrow> get_uint8 s;
     let ret = ret\<lparr>table_id := tid\<rparr>;
     let s = s\<lparr>bytes_read := 1\<rparr>;
     (l, s) \<leftarrow> get_uint16 s;
     Some (ret\<lparr>len := l AND 0xfff, section_syntax_indicator := (drop_bit 15 l \<noteq> 0),
               private_bit := (drop_bit 14 l AND 1 \<noteq> 0)\<rparr>, s)
   }"

definition parse_table_header :: "section_header_t \<Rightarrow> stored_section_t \<Rightarrow> (section_header_t \<times> stored_section_t) option" where
  "parse_table_header ret s = do {
     (ret, s) \<leftarrow> parse_section_header ret s;
     (ext, s) \<leftarrow> get_uint16 s;
     let ret = ret\<lparr>table_id_extension := ext\<rparr>;
     (v, s) \<leftarrow> get_uint8 s;
     let ret = ret\<lparr>current_next := (v AND 0x1 \<noteq> 0), version_number := drop_bit 1 (v AND 0x3f)\<rparr>;
     (sn, s) \<leftarrow> get_uint8 s;
     (lsn, s) \<leftarrow> get_uint8 s;
     let ret = ret\<lparr>section_number := sn, last_section_number := lsn\<rparr>;
     (ret, s) \<leftarrow> (if is_sdt ret
       then do {
         (e1, s) \<leftarrow> get_uint16 s;
         Some (ret\<lparr>table_id_extension1 := e1\<rparr>, s)
       }
       else if is_eit ret
       then do {
         (e1, s) \<leftarrow> get_uint16 s;
         (e2, s) \<leftarrow> get_uint16 s;
         Some (ret\<lparr>table_id_extension1 := e1, table_id_extension2 := e2\<rparr>, s)
       }
       else Some (ret, s));
     Some (ret\<lparr>header_len := word_of_int (bytes_read s)\<rparr>, s)
   }"

subsection \<open>PAT\<close>

record pat_entry_t =
  pat_service_id :: u16
  pat_pmt_pid :: u16

record pat_services_t =
  pat_ts_id :: u16
  pat_version_number :: u16
  pat_entries :: "pat_entry_t list"

definition default_pat_services :: pat_services_t where
  "default_pat_services = \<lparr>pat_ts_id = 0xffff, pat_version_number = 0, pat_entries = []\<rparr>"

fun pat_loop :: "nat \<Rightarrow> pat_entry_t list \<Rightarrow> stored_section_t \<Rightarrow> (pat_entry_t list \<times> stored_section_t) option" where
  "pat_loop 0 es s = Some (es, s)"
| "pat_loop (Suc n) es s = do {
     (program_number, s) \<leftarrow> get_uint16 s;
     (p, s) \<leftarrow> get_uint16 s;
     pat_loop n (es @ [\<lparr>pat_service_id = program_number, pat_pmt_pid = p AND 0x1fff\<rparr>]) s
   }"

definition parse_pat_section_hdr ::
  "pat_services_t \<Rightarrow> section_header_t \<Rightarrow> stored_section_t \<Rightarrow> (bool \<times> pat_services_t \<times> stored_section_t) option" where
  "parse_pat_section_hdr pat hdr s =
     (let pat = pat\<lparr>pat_version_number := ucast (version_number hdr), pat_ts_id := table_id_extension hdr\<rparr>;
          remaining = uint (len hdr) - 5 - 4
      in if table_id hdr \<noteq> 0x0 then Some (False, pat, s)
         else if pid hdr \<noteq> 0 then Some (False, pat, s)
         else if remaining \<le> 0 then Some (False, pat, s\<lparr>section_error := True\<rparr>)
         else if remaining mod 4 \<noteq> 0 then Some (False, pat, s)
         else do {
           (es, s) \<leftarrow> pat_loop (nat (remaining div 4)) (pat_entries pat) s;
           let pat = pat\<lparr>pat_entries := es\<rparr>;
           (_, s) \<leftarrow> get_uint32 s;
           if available s = 0 then Some (True, pat, s) else None
         })"

definition parse_pat_section :: "pat_services_t \<Rightarrow> stored_section_t \<Rightarrow> (bool \<times> pat_services_t \<times> stored_section_t) option" where
  "parse_pat_section pat s = do {
     (hdr, s) \<leftarrow> parse_table_header default_section_header s;
     parse_pat_section_hdr pat hdr s
   }"

subsection \<open>PMT\<close>

definition is_video :: "u8 \<Rightarrow> bool" where
  "is_video st \<longleftrightarrow> st \<in> {0x01, 0x02, 0x10, 0x1B, 0x24, 0x25}"

definition is_audio :: "pid_info_t \<Rightarrow> bool" where
  "is_audio info \<longleftrightarrow> ac3_descriptor_data (audio_lang info) \<noteq> [] \<or>
     stream_type info \<in> {0x03, 0x04, 0x11, 0x0F, 0x81, 0x87}"

type_synonym pmt_state = "pmt_info_t \<times> pid_info_t \<times> stored_section_t"

definition ac3_descriptor :: "descriptor_t \<Rightarrow> pmt_state \<Rightarrow> pmt_state option" where
  "ac3_descriptor desc st =
     (case st of (pmt, info, s) \<Rightarrow>
      case current_pointer 0 s of
        (None, _) \<Rightarrow> None
      | (Some p, s) \<Rightarrow>
          if p < 0 \<or> p + desc_len desc > int (length (payload s)) then None
          else let al = audio_lang info;
                   data = take (nat (desc_len desc)) (drop (nat p) (payload s));
                   al = al\<lparr>ac3 := True, ac3_descriptor_data :=
                          ac3_descriptor_data al @ [desc_tag desc, word_of_int (desc_len desc)] @ data\<rparr>;
                   (_, s) = skip (desc_len desc) s
               in Some (pmt, info\<lparr>audio_lang := al\<rparr>, s))"

definition private_data_descriptor :: "pmt_state \<Rightarrow> pmt_state option" where
  "private_data_descriptor st =
     (case st of (pmt, info, s) \<Rightarrow> do {
        (specifier, s) \<leftarrow> get_uint32 s;
        (pd, s) \<leftarrow> get_descriptor s;
        (pmt, s) \<leftarrow> (if desc_len pd = 1
          then do {
            (_, s) \<leftarrow> get_uint8 s;
            Some (if specifier = 0x2 \<and> 0x30 \<le> stream_pid info \<and> stream_pid info \<le> 0x37
                  then pmt\<lparr>num_sky_title_pids := num_sky_title_pids pmt + 1\<rparr>
                  else if specifier = 0x2 \<and> 32 \<le> stream_pid info \<and> stream_pid info \<le> 0x47
                  then pmt\<lparr>num_sky_summary_pids := num_sky_summary_pids pmt + 1\<rparr>
                  else pmt, s)
          }
          else let (_, s) = skip (desc_len pd) s in Some (pmt, s));
        Some (if specifier = 0x46534154 \<and> 3840 \<le> stream_pid info \<and> stream_pid info \<le> 3844
              then pmt\<lparr>has_freesat_epg := True, num_freesat_pids := num_freesat_pids pmt + 1\<rparr>
              else pmt, info, s)
      })"

definition subtitling_descriptor :: "descriptor_t \<Rightarrow> pmt_state \<Rightarrow> (pmt_state + pmt_state) option" where
  "subtitling_descriptor desc st =
     (case st of (pmt, info, s) \<Rightarrow>
      let e = bytes_read s + desc_len desc
      in do {
        (info, s) \<leftarrow> while_loop (\<lambda>(info, s). bytes_read s < e)
          (\<lambda>(info, s). do {
             (sub, s) \<leftarrow> get_subtitle_info s;
             Some (info\<lparr>subtitle_descriptors := subtitle_descriptors info @ [sub]\<rparr>, s)
           }) (info, s);
        Some (if bytes_read s \<noteq> e then Inl (pmt, info, throw_bad_data s) else Inr (pmt, info, s))
      })"

definition extension_descriptor :: "descriptor_t \<Rightarrow> pmt_state \<Rightarrow> pmt_state option" where
  "extension_descriptor desc st =
     (case st of (pmt, info, s) \<Rightarrow>
      let e = available s - desc_len desc
      in do {
        (ext, s) \<leftarrow> get_uint8 s;
        if ext = 0x11
        then do {
          (sid, s) \<leftarrow> get_uint8 s;
          (num, s) \<leftarrow> get_uint8 s;
          (_, s) \<leftarrow> get_uint8 s;
          if available s \<ge> e
          then let s = (if available s > e then snd (skip (available s - e) s) else s)
               in Some (pmt, info\<lparr>t2mi_stream_id := uint (sid AND 7), num_t2mi_streams_minus_one := uint (num AND 7)\<rparr>, s)
          else None
        }
        else let (_, s) = skip (desc_len desc - 1) s in Some (pmt, info, s)
      })"

text \<open>One turn of the descriptor loop; \<open>Inl\<close> leaves \<open>parse_descriptors\<close>.\<close>

definition pmt_descriptor :: "int \<Rightarrow> pmt_state \<Rightarrow> (pmt_state + pmt_state) option" where
  "pmt_descriptor e st =
     (case st of (pmt, info, s) \<Rightarrow> do {
        (desc, s) \<leftarrow> get_descriptor s;
        let tag = desc_tag desc;
        if tag = 0x09
        then do {
          (ca, pmt, s) \<leftarrow> get_ca pmt desc (stream_pid info) s;
          Some (Inr (pmt\<lparr>ca_descriptors := ca_descriptors pmt @ [ca]\<rparr>, info, s))
        }
        else if tag = 0x60
        then do {
          (m, s) \<leftarrow> get_service_move_info (stream_pid info) s;
          Some (Inr (pmt\<lparr>service_move_descriptors := service_move_descriptors pmt @ [m]\<rparr>, info, s))
        }
        else if tag = 0x0C
        then let (_, s) = skip (desc_len desc) s
             in if bytes_read s \<le> e then Some (Inr (pmt, info, s)) else None
        else if tag = 0x52
        then (if desc_len desc \<noteq> 1 then Some (Inl (pmt, info, throw_bad_data s))
              else do { (_, s) \<leftarrow> get_uint8 s; Some (Inr (pmt, info, s)) })
        else if tag = 0x6A \<or> tag = 0x7A
        then do { st \<leftarrow> ac3_descriptor desc (pmt, info, s); Some (Inr st) }
        else if tag = 0x5F
        then (if desc_len desc \<noteq> 4 then Some (Inl (pmt, info, throw_bad_data s))
              else do { st \<leftarrow> private_data_descriptor (pmt, info, s); Some (Inr st) })
        else if tag = 0x59 then subtitling_descriptor desc (pmt, info, s)
        else if tag = 0x0A
        then do {
          (al, s) \<leftarrow> get_audio_language_info (audio_lang info) s;
          Some (Inr (pmt, info\<lparr>audio_lang := al\<rparr>, s))
        }
        else if tag = 0x7F
        then do { st \<leftarrow> extension_descriptor desc (pmt, info, s); Some (Inr st) }
        else let (_, s) = skip (desc_len desc) s in Some (Inr (pmt, info, s))
      })"

definition parse_descriptors :: "pmt_info_t \<Rightarrow> pid_info_t \<Rightarrow> stored_section_t \<Rightarrow> pmt_state option" where
  "parse_descriptors pmt info s = do {
     (l, s) \<leftarrow> get_uint16 s;
     let program_info_len = uint (l AND 0x0fff);
     let e = program_info_len + bytes_read s;
     r \<leftarrow> while_return (\<lambda>(pmt, info, s). bytes_read s < e) (pmt_descriptor e) (pmt, info, s);
     Some (case r of
       Inl st \<Rightarrow> st
     | Inr (pmt, info, s) \<Rightarrow>
         if bytes_read s \<noteq> e
         then let s = (if bytes_read s > e then throw_bad_data s else s) in (pmt, info, s\<lparr>bytes_read := e\<rparr>)
         else (pmt, info, s))
   }"

text \<open>The media mode after an elementary stream.\<close>

definition next_media_mode :: "media_mode_t \<Rightarrow> pid_info_t \<Rightarrow> u8 \<Rightarrow> media_mode_t" where
  "next_media_mode m info st =
     (let m = (if is_video st then MEDIA_TV
               else if is_audio info then (if m \<noteq> MEDIA_TV then MEDIA_RADIO else m)
               else m)
      in if t2mi_stream_id info \<ge> 0 then MEDIA_T2MI else m)"

definition pmt_stream :: "pmt_info_t \<times> stored_section_t \<Rightarrow> (pmt_info_t \<times> stored_section_t) option" where
  "pmt_stream st =
     (case st of (pmt, s) \<Rightarrow> do {
        (stype, s) \<leftarrow> get_uint8 s;
        (spid, s) \<leftarrow> get_uint16 s;
        let pmt = pmt\<lparr>capmt_data := capmt_data pmt @ [0, 3, stype] @ be_bytes 2 spid\<rparr>;
        let spid = spid AND 0x1fff;
        (pmt, info, s) \<leftarrow> parse_descriptors pmt (new_pid_info spid stype) s;
        let pmt = (if is_video stype then pmt\<lparr>video_pid := spid\<rparr> else pmt);
        Some (pmt\<lparr>estimated_media_mode := next_media_mode (estimated_media_mode pmt) info stype,
                  pid_descriptors := pid_descriptors pmt @ [info]\<rparr>, s)
      })"

definition parse_pmt_section_hdr ::
  "pmt_info_t \<Rightarrow> section_header_t \<Rightarrow> stored_section_t \<Rightarrow> (bool \<times> pmt_info_t \<times> stored_section_t) option" where
  "parse_pmt_section_hdr pmt hdr s =
     (if table_id hdr \<noteq> 0x02 then Some (False, pmt, s)
      else if section_number hdr \<noteq> 0 \<or> last_section_number hdr \<noteq> 0 then Some (False, pmt, s)
      else do {
        let pmt = pmt\<lparr>pmt_version_number := ucast (version_number hdr), pmt_current_next := current_next hdr,
                      pmt_service_id := table_id_extension hdr\<rparr>;
        (pcr, s) \<leftarrow> get_uint16 s;
        let pmt = pmt\<lparr>pcr_pid := pcr AND 0x1fff, pmt_pid := pid hdr\<rparr>;
        (pmt, info, s) \<leftarrow> parse_descriptors pmt (new_pid_info null_pid 0) s;
        let pmt = pmt\<lparr>estimated_media_mode := (if t2mi_stream_id info \<ge> 0 then MEDIA_T2MI else MEDIA_UNKNOWN)\<rparr>;
        (pmt, s) \<leftarrow> while_loop (\<lambda>(pmt, s). available s > 4) pmt_stream (pmt, s);
        (_, s) \<leftarrow> get_uint32 s;
        let pmt = (if num_sky_summary_pids pmt \<ge> 4 \<and> num_sky_title_pids pmt \<ge> 4
                   then pmt\<lparr>has_skyuk_epg := True\<rparr> else pmt);
        if available s = 0 then Some (True, pmt, s) else None
      })"

definition parse_pmt_section :: "pmt_info_t \<Rightarrow> stored_section_t \<Rightarrow> (bool \<times> pmt_info_t \<times> stored_section_t) option" where
  "parse_pmt_section pmt s = do {
     (hdr, s) \<leftarrow> parse_table_header default_section_header s;
     parse_pmt_section_hdr pmt hdr s
   }"


subsection \<open>NIT\<close>

record nit_network_t =
  nit_is_actual :: bool
  nit_id :: int
  network_name :: bytes
  bouquet_linkage :: "bouquet_linkage_t list"
  sat_set :: bool
  muxes :: "any_mux_t list"

definition default_nit_network :: nit_network_t where
  "default_nit_network = \<lparr>nit_is_actual = False, nit_id = -1, network_name = [], bouquet_linkage = [],
     sat_set = False, muxes = []\<rparr>"

text \<open>One turn of the network descriptor loop; \<open>Inl\<close> is \<open>return false\<close>.\<close>

definition nit_network_descriptor ::
  "text_env \<Rightarrow> nit_network_t \<times> int \<times> stored_section_t \<Rightarrow>
    ((nit_network_t \<times> stored_section_t) + (nit_network_t \<times> int \<times> stored_section_t)) option" where
  "nit_network_descriptor env st =
     (case st of (network, tst, s) \<Rightarrow> do {
        (desc, s) \<leftarrow> get_descriptor s;
        r \<leftarrow> (if desc_tag desc = 0x40
          then do {
            (r, name, s) \<leftarrow> get_dvb_text_desc env (network_name network) desc s;
            let network = network\<lparr>network_name := name\<rparr>;
            Some (if r < 0 then Inl (network, s) else Inr (network, s))
          }
          else if desc_tag desc = 0x4A
          then do {
            (_, l, s) \<leftarrow> get_bouquet_linkage \<lparr>bl_network_id = 0xffff, bl_ts_id = 0xffff\<rparr> desc s;
            Some (Inr (network\<lparr>bouquet_linkage := bouquet_linkage network @ [l]\<rparr>, s))
          }
          else let (_, s) = skip (desc_len desc) s in Some (Inr (network, s)));
        case r of
          Inl v \<Rightarrow> Some (Inl v)
        | Inr (network, s) \<Rightarrow>
            if section_error s then Some (Inl (network, s))
            else let tst = tst - (desc_len desc + 2)
                 in if tst = available s then Some (Inr (network, tst, s)) else None
      })"

text \<open>The muxes that the descriptors of one transport stream may describe.\<close>

record nit_ts_state =
  ts_is_dvbs :: bool
  ts_is_dvbt :: bool
  ts_is_dvbc :: bool
  ts_dvbs :: dvbs_mux_t
  ts_dvbt :: dvbt_mux_t
  ts_dvbc :: dvbc_mux_t
  ts_sat_set :: bool

definition new_nit_ts_state :: "bool \<Rightarrow> bool \<Rightarrow> nit_ts_state" where
  "new_nit_ts_state is_actual sat =
     (let c = default_mux_common\<lparr>tune_src := (if is_actual then TUNE_NIT_ACTUAL else TUNE_NIT_OTHER),
                key_src := (if is_actual then KEY_NIT_ACTUAL else KEY_NIT_OTHER)\<rparr>
      in \<lparr>ts_is_dvbs = False, ts_is_dvbt = False, ts_is_dvbc = False, ts_dvbs = default_dvbs_mux\<lparr>dvbs_c := c\<rparr>,
          ts_dvbt = default_dvbt_mux\<lparr>dvbt_c := c\<rparr>, ts_dvbc = default_dvbc_mux\<lparr>dvbc_c := c\<rparr>, ts_sat_set = sat\<rparr>)"

definition set_nit_ids :: "u16 \<Rightarrow> u16 \<Rightarrow> mux_common_t \<Rightarrow> mux_common_t" where
  "set_nit_ids network_id ts_id c = c\<lparr>nit_network_id := network_id, nit_ts_id := ts_id\<rparr>"

definition nit_mux_descriptor ::
  "u16 \<Rightarrow> u16 \<Rightarrow> u16 \<Rightarrow> int \<Rightarrow> nit_ts_state \<times> int \<times> stored_section_t \<Rightarrow>
    ((nit_ts_state \<times> stored_section_t) + (nit_ts_state \<times> int \<times> stored_section_t)) option" where
  "nit_mux_descriptor network_id original_network_id ts_id end1 st =
     (case st of (t, tst1, s) \<Rightarrow> do {
        (desc, s) \<leftarrow> get_descriptor s;
        let tag = desc_tag desc;
        let ids = set_nit_ids original_network_id ts_id;
        r \<leftarrow> (if tag = 0x62
          then do { (_, _, s) \<leftarrow> get_frequency_list desc s; Some (Inr (t, s)) }
          else if tag = 0x79
          then (if desc_len desc > 0
                then do {
                  (_, mux, s) \<leftarrow> get_s2_satellite_delivery_system (ts_dvbs t) s;
                  Some (Inr (if \<not> ts_is_dvbs t
                    then t\<lparr>ts_dvbs := mux\<lparr>dvbs_c := ids (dvbs_c mux)\<rparr>, ts_is_dvbs := True\<rparr>
                    else t\<lparr>ts_dvbs := mux\<rparr>, s))
                }
                else Some (Inr (t, s)))
          else if tag = 0x43
          then do {
            (_, mux, s) \<leftarrow> get_satellite_delivery_system (ts_dvbs t) s;
            Some (Inr (t\<lparr>ts_dvbs := mux\<lparr>dvbs_c := ids (dvbs_c mux)\<rparr>, ts_is_dvbs := True, ts_sat_set := True\<rparr>, s))
          }
          else if tag = 0x44
          then do {
            let mux = ts_dvbc t;
            (_, mux, s) \<leftarrow> get_cable_delivery_system (mux\<lparr>dvbc_c := ids (dvbc_c mux)\<rparr>) s;
            Some (Inr (t\<lparr>ts_dvbc := mux, ts_is_dvbc := True\<rparr>, s))
          }
          else if tag = 0x5A
          then do {
            let mux = ts_dvbt t;
            (_, mux, s) \<leftarrow> get_terrestrial_delivery_system (mux\<lparr>dvbt_c := ids (dvbt_c mux)\<rparr>) s;
            Some (Inr (t\<lparr>ts_dvbt := mux, ts_is_dvbt := True\<rparr>, s))
          }
          else if tag = 0x41
          then (if available s - desc_len desc < end1 then Some (Inl (t, s))
                else do {
                  (_, _, s) \<leftarrow> get_service_list network_id ts_id default_bouquet desc s;
                  Some (Inr (t, s))
                })
          else if tag = 0x4A
          then do {
            (_, _, s) \<leftarrow> get_bouquet_linkage \<lparr>bl_network_id = 0xffff, bl_ts_id = 0xffff\<rparr> desc s;
            Some (Inr (t, s))
          }
          else let (_, s) = skip (desc_len desc) s in Some (Inr (t, s)));
        case r of
          Inl v \<Rightarrow> Some (Inl v)
        | Inr (t, s) \<Rightarrow>
            let tst1 = tst1 - (desc_len desc + 2)
            in if tst1 \<noteq> available s then None
               else if section_error s then Some (Inl (t, s))
               else Some (Inr (t, tst1, s))
      })"

definition nit_transport_stream ::
  "u16 \<Rightarrow> nit_network_t \<times> stored_section_t \<Rightarrow>
    ((nit_network_t \<times> stored_section_t) + (nit_network_t \<times> stored_section_t)) option" where
  "nit_transport_stream network_id st =
     (case st of (network, s) \<Rightarrow> do {
        let t = new_nit_ts_state (nit_is_actual network) (sat_set network);
        (ts_id, s) \<leftarrow> get_uint16 s;
        (original_network_id, s) \<leftarrow> get_uint16 s;
        (l, s) \<leftarrow> get_uint16 s;
        let end1 = available s - uint (l AND 0xfff);
        r \<leftarrow> while_return (\<lambda>(t, tst1, s). available s > end1)
          (nit_mux_descriptor network_id original_network_id ts_id end1) (t, available s, s);
        case r of
          Inl (t, s) \<Rightarrow> Some (Inl (network\<lparr>sat_set := ts_sat_set t\<rparr>, s))
        | Inr (t, _, s) \<Rightarrow>
            let network = network\<lparr>sat_set := ts_sat_set t\<rparr>
            in if end1 \<noteq> available s then None
               else let network = (if ts_is_dvbs t then network\<lparr>muxes := muxes network @ [Dvbs (ts_dvbs t)]\<rparr>
                                   else if ts_is_dvbc t then network\<lparr>muxes := muxes network @ [Dvbc (ts_dvbc t)]\<rparr>
                                   else if ts_is_dvbt t then network\<lparr>muxes := muxes network @ [Dvbt (ts_dvbt t)]\<rparr>
                                   else network)
                    in Some (if section_error s then Inl (network, s) else Inr (network, s))
      })"

definition parse_nit_section_hdr ::
  "text_env \<Rightarrow> nit_network_t \<Rightarrow> section_header_t \<Rightarrow> stored_section_t \<Rightarrow> (bool \<times> nit_network_t \<times> stored_section_t) option" where
  "parse_nit_section_hdr env network hdr s =
     (if \<not> section_syntax_indicator hdr then Some (False, network, s)
      else do {
        let network = network\<lparr>nit_id := uint (table_id_extension hdr), nit_is_actual := (table_id hdr = 0x40)\<rparr>;
        (l, s) \<leftarrow> get_uint16 s;
        let e = available s - uint (l AND 0xfff);
        r \<leftarrow> while_return (\<lambda>(network, tst, s). available s > e) (nit_network_descriptor env) (network, available s, s);
        case r of
          Inl (network, s) \<Rightarrow> Some (False, network, s)
        | Inr (network, _, s) \<Rightarrow>
            if available s \<noteq> e then None
            else do {
              (l, s) \<leftarrow> get_uint16 s;
              let e = available s - uint (l AND 0xfff);
              if e < 0 then Some (False, network, s)
              else do {
                r \<leftarrow> while_return (\<lambda>(network, s). available s > e)
                  (nit_transport_stream (table_id_extension hdr)) (network, s);
                case r of
                  Inl (network, s) \<Rightarrow> Some (False, network, s)
                | Inr (network, s) \<Rightarrow> do {
                    (_, s) \<leftarrow> get_uint32 s;
                    Some (available s = 0, network, s)
                  }
              }
            }
      })"

definition parse_nit_section ::
  "text_env \<Rightarrow> nit_network_t \<Rightarrow> stored_section_t \<Rightarrow> (bool \<times> nit_network_t \<times> stored_section_t) option" where
  "parse_nit_section env network s = do {
     (hdr, s) \<leftarrow> parse_table_header default_section_header s;
     parse_nit_section_hdr env network hdr s
   }"


subsection \<open>SDT\<close>

record sdt_services_t =
  sdt_is_actual :: bool
  sdt_ts_id :: u16
  sdt_original_network_id :: u16
  has_opentv_epg :: bool
  has_freesat_home_epg :: bool
  sdt_services :: "service_t list"

definition default_sdt_services :: sdt_services_t where
  "default_sdt_services = \<lparr>sdt_is_actual = False, sdt_ts_id = 0xffff, sdt_original_network_id = 0xffff,
     has_opentv_epg = False, has_freesat_home_epg = False, sdt_services = []\<rparr>"

definition sdt_descriptor ::
  "text_env \<Rightarrow> service_t \<times> int \<times> stored_section_t \<Rightarrow>
    ((service_t \<times> stored_section_t) + (service_t \<times> int \<times> stored_section_t)) option" where
  "sdt_descriptor env st =
     (case st of (svc, tst, s) \<Rightarrow> do {
        (desc, s) \<leftarrow> get_descriptor s;
        if \<not> desc_len desc \<le> available s then None
        else do {
          let tag = desc_tag desc;
          (svc, s) \<leftarrow> (if tag = 0x48
            then do { (_, svc, s) \<leftarrow> get_service_descriptor env svc s; Some (svc, s) }
            else if tag = 0x64
            then do { (_, svc, s) \<leftarrow> get_data_broadcast svc s; Some (svc, s) }
            else if tag = 0x53
            then do { (_, s) \<leftarrow> get_ca_identifier desc s; Some (svc, s) }
            else if tag = 0x4A
            then do { (_, s) \<leftarrow> get_service_linkage desc s; Some (svc, s) }
            else let (_, s) = skip (desc_len desc) s in Some (svc, s));
          if section_error s then Some (Inl (svc, s))
          else let tst = tst - (desc_len desc + 2)
               in if tst = available s then Some (Inr (svc, tst, s)) else None
        }
      })"

text \<open>ASCII strings and decimal numbers for generated names.\<close>

definition ascii :: "string \<Rightarrow> bytes" where
  "ascii = map (\<lambda>c. of_nat (of_char c))"

fun decimal :: "nat \<Rightarrow> bytes" where
  "decimal n = (if n < 10 then [of_nat (48 + n)] else decimal (n div 10) @ [of_nat (48 + n mod 10)])"

declare decimal.simps [simp del]

definition c_str :: "bytes \<Rightarrow> bytes" where
  "c_str = takeWhile (\<lambda>b. b \<noteq> 0)"

definition name_service :: "service_t \<Rightarrow> service_t" where
  "name_service svc =
     (if svc_name svc = []
      then svc\<lparr>svc_name := ascii ''Service '' @ decimal (unat (sk_service_id (svc_k svc)))\<rparr> else svc)"

definition sdt_service ::
  "text_env \<Rightarrow> sdt_services_t \<times> stored_section_t \<Rightarrow>
    ((sdt_services_t \<times> stored_section_t) + (sdt_services_t \<times> stored_section_t)) option" where
  "sdt_service env st =
     (case st of (ret, s) \<Rightarrow> do {
        let add = (\<lambda>svc. ret\<lparr>sdt_services := sdt_services ret @ [svc]\<rparr>);
        (sid, s) \<leftarrow> get_uint16 s;
        (_, s) \<leftarrow> get_uint8 s;
        (l, s) \<leftarrow> get_uint16 s;
        let svc = default_service\<lparr>svc_k := \<lparr>sk_network_id = sdt_original_network_id ret, sk_ts_id = sdt_ts_id ret,
              sk_service_id = sid\<rparr>, svc_encrypted := (drop_bit 12 l AND 0x1 \<noteq> 0)\<rparr>;
        let desc_loop_len = uint (l AND 0xfff);
        if available s < desc_loop_len then Some (Inl (add svc, s))
        else do {
          let e = available s - desc_loop_len;
          r \<leftarrow> while_return (\<lambda>(svc, tst, s). available s > e) (sdt_descriptor env) (svc, available s, s);
          case r of
            Inl (svc, s) \<Rightarrow> Some (Inl (add svc, s))
          | Inr (svc, _, s) \<Rightarrow>
              if \<not> e \<ge> available s then None
              else let s = (if e > available s then snd (skip (e - available s) s) else s);
                       ret = add (name_service svc);
                       ret = (if svc_service_type svc = 12 \<and> c_str (svc_name svc) = ascii ''FreesatHome''
                              then ret\<lparr>has_freesat_home_epg := True\<rparr> else ret)
                   in Some (Inr (ret, s))
        }
      })"

definition parse_sdt_section_hdr ::
  "text_env \<Rightarrow> sdt_services_t \<Rightarrow> section_header_t \<Rightarrow> stored_section_t \<Rightarrow> (bool \<times> sdt_services_t \<times> stored_section_t) option" where
  "parse_sdt_section_hdr env ret hdr s =
     (let ret = ret\<lparr>has_opentv_epg := False, has_freesat_home_epg := False, sdt_ts_id := table_id_extension hdr,
                    sdt_is_actual := (table_id hdr = 0x42)\<rparr>
      in if \<not> section_syntax_indicator hdr then Some (False, ret, s)
         else if section_error s then Some (False, ret, s)
         else do {
           let ret = ret\<lparr>sdt_original_network_id := table_id_extension1 hdr\<rparr>;
           (_, s) \<leftarrow> get_uint8 s;
           r \<leftarrow> while_return (\<lambda>(ret, s). \<not> available s < 6) (sdt_service env) (ret, s);
           case r of
             Inl (ret, s) \<Rightarrow> Some (False, ret, s)
           | Inr (ret, s) \<Rightarrow>
               if available s < 4 then Some (False, ret, s)
               else do {
                 let s = (if available s > 4 then snd (skip (available s - 4) s) else s);
                 (_, s) \<leftarrow> get_uint32 s;
                 Some (available s = 0, ret, s)
               }
         })"

definition parse_sdt_section ::
  "text_env \<Rightarrow> sdt_services_t \<Rightarrow> stored_section_t \<Rightarrow> (bool \<times> sdt_services_t \<times> stored_section_t) option" where
  "parse_sdt_section env ret s = do {
     (hdr, s) \<leftarrow> parse_table_header default_section_header s;
     parse_sdt_section_hdr env ret hdr s
   }"

subsection \<open>BAT\<close>

definition bat_bouquet_descriptor ::
  "text_env \<Rightarrow> int \<Rightarrow> bouquet_t \<times> int \<times> stored_section_t \<Rightarrow>
    ((bouquet_t \<times> stored_section_t) + (bouquet_t \<times> int \<times> stored_section_t)) option" where
  "bat_bouquet_descriptor env fst_preferred_region_id st =
     (case st of (bouquet, tst, s) \<Rightarrow> do {
        (desc, s) \<leftarrow> get_descriptor s;
        if \<not> desc_len desc \<le> available s then None
        else do {
          let tag = desc_tag desc;
          r \<leftarrow> (if tag = 0x4A
            then do { (_, s) \<leftarrow> get_service_linkage desc s; Some (Inr (bouquet, s)) }
            else if tag = 0x47
            then do {
              (r, name, s) \<leftarrow> get_dvb_text_desc env (bq_name bouquet) desc s;
              let bouquet = bouquet\<lparr>bq_name := name\<rparr>;
              Some (if r < 0 then Inl (bouquet, s) else Inr (bouquet, s))
            }
            else if tag = 0x5F
            then (if desc_len desc = 4
                  then do {
                    (data, s) \<leftarrow> get_uint32 s;
                    Some (Inr (if data = 0x02 then bouquet\<lparr>bq_is_sky := True\<rparr> else bouquet, s))
                  }
                  else if desc_len desc > 0 then let (_, s) = skip (desc_len desc) s in Some (Inr (bouquet, s))
                  else Some (Inr (bouquet, s)))
            else if tag = 0xD4
            then do {
              (_, name, s) \<leftarrow> get_fst_region_list env fst_preferred_region_id (bq_name bouquet) desc s;
              Some (Inr (bouquet\<lparr>bq_name := name\<rparr>, s))
            }
            else let (_, s) = skip (desc_len desc) s in Some (Inr (bouquet, s)));
          case r of
            Inl v \<Rightarrow> Some (Inl v)
          | Inr (bouquet, s) \<Rightarrow>
              if section_error s then Some (Inl (bouquet, s))
              else let tst = tst - (desc_len desc + 2)
                   in if tst \<noteq> available s then Some (Inl (bouquet, s)) else Some (Inr (bouquet, tst, s))
        }
      })"

definition bat_ts_descriptor ::
  "u16 \<Rightarrow> u16 \<Rightarrow> int \<Rightarrow> bouquet_t \<times> int \<times> stored_section_t \<Rightarrow>
    ((bouquet_t \<times> stored_section_t) + (bouquet_t \<times> int \<times> stored_section_t)) option" where
  "bat_ts_descriptor network_id ts_id fst_preferred_region_id st =
     (case st of (bouquet, tst1, s) \<Rightarrow> do {
        (desc, s) \<leftarrow> get_descriptor s;
        if \<not> desc_len desc \<le> available s then None
        else do {
          let tag = desc_tag desc;
          (bouquet, s) \<leftarrow> (if tag = 0xb1
            then do { (_, b, s) \<leftarrow> get_otv_service_list network_id ts_id bouquet desc s; Some (b, s) }
            else if tag = 0x41
            then do { (_, b, s) \<leftarrow> get_service_list network_id ts_id bouquet desc s; Some (b, s) }
            else if tag = 0xD3
            then do {
              (_, b, s) \<leftarrow> get_fst_service_list network_id ts_id fst_preferred_region_id bouquet desc s;
              Some (b, s)
            }
            else let (_, s) = skip (desc_len desc) s in Some (bouquet, s));
          if section_error s then Some (Inl (bouquet, s))
          else let tst1 = tst1 - (desc_len desc + 2)
               in if tst1 = available s then Some (Inr (bouquet, tst1, s)) else None
        }
      })"

definition bat_transport_stream ::
  "int \<Rightarrow> bouquet_t \<times> stored_section_t \<Rightarrow> ((bouquet_t \<times> stored_section_t) + (bouquet_t \<times> stored_section_t)) option" where
  "bat_transport_stream fst_preferred_region_id st =
     (case st of (bouquet, s) \<Rightarrow>
      if available s < 6 then Some (Inl (bouquet, s))
      else do {
        (ts_id, s) \<leftarrow> get_uint16 s;
        (network_id, s) \<leftarrow> get_uint16 s;
        (l, s) \<leftarrow> get_uint16 s;
        let ts_desc_len = uint (l AND 0xfff);
        if available s < ts_desc_len then Some (Inl (bouquet, s))
        else do {
          let end1 = available s - ts_desc_len;
          r \<leftarrow> while_return (\<lambda>(bouquet, tst1, s). available s > end1)
            (bat_ts_descriptor network_id ts_id fst_preferred_region_id) (bouquet, available s, s);
          case r of
            Inl v \<Rightarrow> Some (Inl v)
          | Inr (bouquet, _, s) \<Rightarrow> Some (if end1 > available s then Inl (bouquet, s) else Inr (bouquet, s))
        }
      })"

definition bat_transport_streams ::
  "int \<Rightarrow> bouquet_t \<Rightarrow> stored_section_t \<Rightarrow> (bool \<times> bouquet_t \<times> stored_section_t) option" where
  "bat_transport_streams fst_preferred_region_id bouquet s = do {
     (l, s) \<leftarrow> get_uint16 s;
     let ts_loop_len = uint (l AND 0xfff);
     if available s < ts_loop_len then Some (False, bouquet, s)
     else do {
       let e = available s - ts_loop_len;
       r \<leftarrow> while_return (\<lambda>(bouquet, s). available s > e) (bat_transport_stream fst_preferred_region_id) (bouquet, s);
       case r of
         Inl (bouquet, s) \<Rightarrow> Some (False, bouquet, s)
       | Inr (bouquet, s) \<Rightarrow>
           if e \<noteq> available s then None
           else do {
             (_, s) \<leftarrow> get_uint32 s;
             Some (available s = 0, bouquet, s)
           }
     }
   }"

definition parse_bat_section_hdr ::
  "text_env \<Rightarrow> int \<Rightarrow> bouquet_t \<Rightarrow> section_header_t \<Rightarrow> stored_section_t \<Rightarrow> (bool \<times> bouquet_t \<times> stored_section_t) option" where
  "parse_bat_section_hdr env fst_preferred_region_id bouquet hdr s =
     (let bouquet = bouquet\<lparr>bouquet_id := table_id_extension hdr\<rparr>
      in if \<not> section_syntax_indicator hdr then Some (False, bouquet, s)
         else if section_error s then Some (False, bouquet, s)
         else do {
           (l, s) \<leftarrow> get_uint16 s;
           let bouquet_desc_len = uint (l AND 0xfff);
           if available s < bouquet_desc_len then Some (False, bouquet, s)
           else do {
             let e = available s - bouquet_desc_len;
             r \<leftarrow> while_return (\<lambda>(bouquet, tst, s). available s > e)
               (bat_bouquet_descriptor env fst_preferred_region_id) (bouquet, available s, s);
             case r of
               Inl (bouquet, s) \<Rightarrow> Some (False, bouquet, s)
             | Inr (bouquet, _, s) \<Rightarrow>
                 if e > available s then Some (False, bouquet, s)
                 else let s = (if available s > e then snd (skip (available s - e) s) else s)
                      in bat_transport_streams fst_preferred_region_id bouquet s
           }
         })"

definition parse_bat_section ::
  "text_env \<Rightarrow> int \<Rightarrow> bouquet_t \<Rightarrow> stored_section_t \<Rightarrow> (bool \<times> bouquet_t \<times> stored_section_t) option" where
  "parse_bat_section env fst_preferred_region_id bouquet s = do {
     (hdr, s) \<leftarrow> parse_table_header default_section_header s;
     parse_bat_section_hdr env fst_preferred_region_id bouquet hdr s
   }"


subsection \<open>EIT\<close>

record epg_t =
  epg_is_actual :: bool
  epg_channel_id :: u16
  epg_service_key :: service_key_t
  epg_records :: "epg_record_t list"

definition default_epg :: epg_t where
  "default_epg = \<lparr>epg_is_actual = False, epg_channel_id = 0xffff, epg_service_key = default_service_key, epg_records = []\<rparr>"

definition eit_descriptor ::
  "text_env \<Rightarrow> epg_record_t \<times> int \<times> stored_section_t \<Rightarrow> (epg_record_t \<times> int \<times> stored_section_t) option" where
  "eit_descriptor env st =
     (case st of (rec, tst, s) \<Rightarrow> do {
        (desc, s) \<leftarrow> get_descriptor s;
        let tag = desc_tag desc;
        (rec, s) \<leftarrow> (if tag = 0x4D then do { (_, rec, s) \<leftarrow> get_short_event env rec s; Some (rec, s) }
          else if tag = 0x4E then do { (_, rec, s) \<leftarrow> get_extended_event env rec s; Some (rec, s) }
          else if tag = 0x4F then do { (_, rec, s) \<leftarrow> get_time_shifted_event rec s; Some (rec, s) }
          else if tag = 0x50 then do { (_, rec, s) \<leftarrow> get_component env rec desc s; Some (rec, s) }
          else if tag = 0x54 then do { (_, rec, s) \<leftarrow> get_content rec desc s; Some (rec, s) }
          else if tag = 0x5E then do { (_, rec, s) \<leftarrow> get_multilingual_component env rec desc s; Some (rec, s) }
          else let (_, s) = skip (desc_len desc) s in Some (rec, s));
        let tst = tst - (desc_len desc + 2);
        if tst = available s then Some (rec, tst, s) else None
      })"

definition eit_event :: "text_env \<Rightarrow> epg_t \<times> stored_section_t \<Rightarrow> (epg_t \<times> stored_section_t) option" where
  "eit_event env st =
     (case st of (ret, s) \<Rightarrow> do {
        (event_id, s) \<leftarrow> get_uint16 s;
        let rec = default_epg_record\<lparr>epg_service := epg_service_key ret, epg_event_id := ucast event_id\<rparr>;
        (_, rec, s) \<leftarrow> get_start_time_duration rec s;
        (l, s) \<leftarrow> get_uint16 s;
        let e = available s - uint (l AND 0xfff);
        (rec, _, s) \<leftarrow> while_loop (\<lambda>(rec, tst, s). available s > e) (eit_descriptor env) (rec, available s, s);
        Some (ret\<lparr>epg_records := epg_records ret @ [rec]\<rparr>, s)
      })"

definition parse_eit_section_hdr ::
  "text_env \<Rightarrow> epg_t \<Rightarrow> section_header_t \<Rightarrow> stored_section_t \<Rightarrow> (bool \<times> epg_t \<times> stored_section_t) option" where
  "parse_eit_section_hdr env ret hdr s =
     (let ret = ret\<lparr>epg_service_key := (epg_service_key ret)\<lparr>sk_service_id := table_id_extension hdr\<rparr>,
                    epg_is_actual := (table_id hdr = 0x4e \<or> (table_id hdr \<ge> 0x50 \<and> table_id hdr \<le> 0x5f))\<rparr>
      in if \<not> section_syntax_indicator hdr then Some (False, ret, s)
         else do {
           let ret = ret\<lparr>epg_service_key := (epg_service_key ret)\<lparr>sk_ts_id := table_id_extension1 hdr,
                 sk_network_id := table_id_extension2 hdr\<rparr>\<rparr>;
           (_, s) \<leftarrow> get_uint8 s;
           (_, s) \<leftarrow> get_uint8 s;
           (ret, s) \<leftarrow> while_loop (\<lambda>(ret, s). available s > 4) (eit_event env) (ret, s);
           if available s \<noteq> 4 then None
           else do {
             (_, s) \<leftarrow> get_uint32 s;
             Some (available s = 0, ret, s)
           }
         })"

definition parse_eit_section :: "text_env \<Rightarrow> epg_t \<Rightarrow> stored_section_t \<Rightarrow> (bool \<times> epg_t \<times> stored_section_t) option" where
  "parse_eit_section env ret s = do {
     (hdr, s) \<leftarrow> parse_table_header default_section_header s;
     parse_eit_section_hdr env ret hdr s
   }"

subsection \<open>OpenTV titles and summaries\<close>

definition sky_descriptor ::
  "text_env \<Rightarrow> u16 \<Rightarrow> epg_record_t \<times> int \<times> stored_section_t \<Rightarrow> (epg_record_t \<times> int \<times> stored_section_t) option" where
  "sky_descriptor env mjd_time st =
     (case st of (rec, tst, s) \<Rightarrow> do {
        (desc, s) \<leftarrow> get_descriptor s;
        let tag = desc_tag desc;
        (rec, s) \<leftarrow> (if tag = 0xb5 then do { (_, rec, s) \<leftarrow> get_opentv_title env rec desc mjd_time s; Some (rec, s) }
          else if tag = 0xb9 then do { (_, rec, s) \<leftarrow> get_opentv_summary env rec desc s; Some (rec, s) }
          else if tag = 0xbb then do { (_, rec, s) \<leftarrow> get_opentv_description env rec desc s; Some (rec, s) }
          else if tag = 0xc1 then do { (_, rec, s) \<leftarrow> get_opentv_serieslink rec s; Some (rec, s) }
          else let (_, s) = skip (desc_len desc) s in Some (rec, s));
        Some (rec, tst - (desc_len desc + 2), s)
      })"

definition sky_event :: "text_env \<Rightarrow> u16 \<Rightarrow> epg_t \<times> stored_section_t \<Rightarrow> (epg_t \<times> stored_section_t) option" where
  "sky_event env mjd_time st =
     (case st of (ret, s) \<Rightarrow> do {
        (event_id, s) \<leftarrow> get_uint16 s;
        let rec = default_epg_record\<lparr>epg_event_id := ucast event_id\<rparr>;
        (l, s) \<leftarrow> get_uint16 s;
        let e = available s - uint (l AND 0xfff);
        (rec, tst, s) \<leftarrow> while_loop (\<lambda>(rec, tst, s). available s > e) (sky_descriptor env mjd_time) (rec, available s, s);
        if tst = available s then Some (ret\<lparr>epg_records := epg_records ret @ [rec]\<rparr>, s) else None
      })"

definition parse_sky_section_hdr ::
  "text_env \<Rightarrow> epg_t \<Rightarrow> section_header_t \<Rightarrow> stored_section_t \<Rightarrow> (bool \<times> epg_t \<times> stored_section_t) option" where
  "parse_sky_section_hdr env ret hdr s =
     (let ret = ret\<lparr>epg_channel_id := table_id_extension hdr\<rparr>
      in if \<not> section_syntax_indicator hdr then Some (False, ret, s)
         else do {
           (mjd_time, s) \<leftarrow> get_uint16 s;
           let d = uint (section_pid s) - 0x30;
           if d - 8 * trunc_div d 8 \<noteq> uint mjd_time mod 8 then None
           else do {
             (ret, s) \<leftarrow> while_loop (\<lambda>(ret, s). available s > 4) (sky_event env mjd_time) (ret, s);
             if available s \<noteq> 4 then None
             else do {
               (_, s) \<leftarrow> get_uint32 s;
               Some (available s = 0, ret, s)
             }
           }
         })"

definition parse_sky_section :: "text_env \<Rightarrow> epg_t \<Rightarrow> stored_section_t \<Rightarrow> (bool \<times> epg_t \<times> stored_section_t) option" where
  "parse_sky_section env ret s = do {
     (hdr, s) \<leftarrow> parse_table_header default_section_header s;
     parse_sky_section_hdr env ret hdr s
   }"

subsection \<open>MHW2\<close>

text \<open>
  The channel names lie behind the channel records in the same payload and are decoded in place through a
  second cursor. \<open>return -1\<close> in a function that returns \<open>bool\<close> is \<open>true\<close>.
\<close>

fun mhw2_channels ::
  "text_env \<Rightarrow> nat \<Rightarrow> nat \<Rightarrow> bouquet_t \<Rightarrow> data_range_t \<Rightarrow> stored_section_t \<Rightarrow> (bool \<times> bouquet_t \<times> stored_section_t) option" where
  "mhw2_channels env 0 i bouquet names s = Some (True, bouquet, s)"
| "mhw2_channels env (Suc n) i bouquet names s = do {
     (network_id, s) \<leftarrow> get_uint16 s;
     (ts_id, s) \<leftarrow> get_uint16 s;
     (service_id, s) \<leftarrow> get_uint16 s;
     (_, s) \<leftarrow> get_uint16 s;
     let lcn = of_nat (i + 1);
     let bouquet = set_channel lcn
       \<lparr>ch_service_key = \<lparr>sk_network_id = network_id, sk_ts_id = ts_id, sk_service_id = service_id\<rparr>,
        ch_lcn = lcn, ch_service_type = 0, ch_is_opentv_or_mhw2 = True\<rparr> bouquet;
     (tl, names) \<leftarrow> (dr_get 1 (names\<lparr>dr_buffer := Some (payload s)\<rparr>) :: (u8 \<times> data_range_t) option);
     let tlen = uint (tl AND 0x3f);
     (p, names) \<leftarrow> dr_current_pointer tlen names;
     (_, _, buf) \<leftarrow> decode_text env [] (payload s) (nat p) tlen;
     let s = s\<lparr>payload := buf\<rparr>;
     if section_error s then Some (False, bouquet, s)
     else mhw2_channels env n (i + 1) bouquet names s
   }"

definition parse_mhw2_channel_section_hdr ::
  "text_env \<Rightarrow> bouquet_t \<Rightarrow> section_header_t \<Rightarrow> stored_section_t \<Rightarrow> (bool \<times> bouquet_t \<times> stored_section_t) option" where
  "parse_mhw2_channel_section_hdr env bouquet hdr s =
     (let (_, s) = skip (120 - bytes_read s) s
      in if section_error s then Some (False, bouquet, s)
         else do {
           (num_channels, s) \<leftarrow> get_uint8 s;
           let offset = bytes_read s + 8 * uint num_channels;
           let l = int (length (payload s)) - offset;
           if l \<le> 0 then Some (True, bouquet, s)
           else do {
             let bouquet = bouquet\<lparr>bq_is_mhw2 := True, bouquet_id := table_id_extension hdr, bq_name := ascii ''Movistar+''\<rparr>;
             names \<leftarrow> new_data_range (payload s) offset l;
             mhw2_channels env (unat num_channels) 0 bouquet names s
           }
         })"

definition parse_mhw2_channel_section ::
  "text_env \<Rightarrow> bouquet_t \<Rightarrow> stored_section_t \<Rightarrow> (bool \<times> bouquet_t \<times> stored_section_t) option" where
  "parse_mhw2_channel_section env bouquet s = do {
     (hdr, s) \<leftarrow> parse_table_header default_section_header s;
     parse_mhw2_channel_section_hdr env bouquet hdr s
   }"

definition get_uint24 :: "stored_section_t \<Rightarrow> (u32 \<times> stored_section_t) option" where
  "get_uint24 s = do {
     (a, s) \<leftarrow> get_uint8 s;
     (b, s) \<leftarrow> get_uint8 s;
     (c, s) \<leftarrow> get_uint8 s;
     Some (push_bit 8 (push_bit 8 (ucast a) OR ucast b) OR ucast c, s)
   }"

definition mhw2_title ::
  "text_env \<Rightarrow> epg_t \<times> stored_section_t \<Rightarrow> ((epg_t \<times> stored_section_t) + (epg_t \<times> stored_section_t)) option" where
  "mhw2_title env st =
     (case st of (epg, s) \<Rightarrow> do {
        (_, s) \<leftarrow> get_uint16 s;
        (_, s) \<leftarrow> get_uint8 s;
        (summary_id, s) \<leftarrow> get_uint24 s;
        (_, s) \<leftarrow> get_uint32 s;
        (_, rec, s) \<leftarrow> get_mhw2_start_time_duration default_epg_record s;
        if \<not> epg_start_time rec > 0 then None
        else do {
          (_, event_name, s) \<leftarrow> get_dvb_text env (epg_event_name rec) s;
          (_, s) \<leftarrow> get_uint16 s;
          let rec = rec\<lparr>epg_event_name := event_name, epg_event_id := summary_id\<rparr>;
          Some (if section_error s then Inl (epg, s)
                else Inr (epg\<lparr>epg_records := epg_records epg @ [rec]\<rparr>, s))
        }
      })"

definition parse_mhw2_title_section_hdr ::
  "text_env \<Rightarrow> epg_t \<Rightarrow> section_header_t \<Rightarrow> stored_section_t \<Rightarrow> (bool \<times> epg_t \<times> stored_section_t) option" where
  "parse_mhw2_title_section_hdr env epg hdr s =
     (let channel_id = uint (last_section_number hdr) + 1
      in if length (payload s) \<le> 7 \<or> uint (payload s ! 7) + 1 \<noteq> channel_id \<or> bytes_read s \<noteq> 8 then None
         else do {
           let epg = epg\<lparr>epg_channel_id := word_of_int channel_id\<rparr>;
           (_, s) \<leftarrow> get_uint8 s;
           r \<leftarrow> while_return (\<lambda>(epg, s). available s \<ge> 20) (mhw2_title env) (epg, s);
           Some (case r of Inl (epg, s) \<Rightarrow> (False, epg, s) | Inr (epg, s) \<Rightarrow> (True, epg, s))
         })"

definition parse_mhw2_title_section :: "text_env \<Rightarrow> epg_t \<Rightarrow> stored_section_t \<Rightarrow> (bool \<times> epg_t \<times> stored_section_t) option" where
  "parse_mhw2_title_section env epg s = do {
     (hdr, s) \<leftarrow> parse_table_header default_section_header s;
     parse_mhw2_title_section_hdr env epg hdr s
   }"

text \<open>Both summary parsers first add an empty record, which stays when they fail.\<close>

definition mhw2_fail :: "epg_t \<Rightarrow> epg_record_t \<Rightarrow> stored_section_t \<Rightarrow> bool \<times> epg_t \<times> stored_section_t" where
  "mhw2_fail epg rec s = (False, epg\<lparr>epg_records := epg_records epg @ [rec]\<rparr>, s)"

definition parse_mhw2_short_summary_section_hdr ::
  "text_env \<Rightarrow> epg_t \<Rightarrow> stored_section_t \<Rightarrow> (bool \<times> epg_t \<times> stored_section_t) option" where
  "parse_mhw2_short_summary_section_hdr env epg s =
     (if bytes_read s \<noteq> 8 then None
      else do {
        let epg = epg\<lparr>epg_channel_id := 0\<rparr>;
        let rec = default_epg_record;
        (_, s) \<leftarrow> get_uint8 s;
        (summary_id, s) \<leftarrow> get_uint24 s;
        (_, s) \<leftarrow> get_uint16 s;
        if section_error s then Some (mhw2_fail epg rec s)
        else do {
          (_, story, s) \<leftarrow> get_dvb_text env (epg_story rec) s;
          let rec = rec\<lparr>epg_story := story @ [0x0A]\<rparr>;
          (_, s) \<leftarrow> get_uint8 s;
          if section_error s then Some (mhw2_fail epg rec s)
          else do {
            (_, story, s) \<leftarrow> get_dvb_text env (epg_story rec) s;
            let rec = rec\<lparr>epg_story := story\<rparr>;
            let (_, s) = skip 9 s;
            if section_error s then Some (mhw2_fail epg rec s)
            else do {
              (_, s) \<leftarrow> get_uint32 s;
              let rec = rec\<lparr>epg_event_id := summary_id\<rparr>;
              Some (\<not> section_error s, epg\<lparr>epg_records := epg_records epg @ [rec]\<rparr>, s)
            }
          }
        }
      })"

definition parse_mhw2_short_summary_section :: "text_env \<Rightarrow> epg_t \<Rightarrow> stored_section_t \<Rightarrow> (bool \<times> epg_t \<times> stored_section_t) option" where
  "parse_mhw2_short_summary_section env epg s = do {
     (_, s) \<leftarrow> parse_table_header default_section_header s;
     parse_mhw2_short_summary_section_hdr env epg s
   }"

definition parse_mhw2_long_summary_section_hdr ::
  "text_env \<Rightarrow> epg_t \<Rightarrow> stored_section_t \<Rightarrow> (bool \<times> epg_t \<times> stored_section_t) option" where
  "parse_mhw2_long_summary_section_hdr env epg s =
     (if bytes_read s \<noteq> 8 then None
      else do {
        let epg = epg\<lparr>epg_channel_id := 0\<rparr>;
        let rec = default_epg_record;
        let s = s\<lparr>bytes_read := 6\<rparr>;
        (summary_id, s) \<leftarrow> get_uint24 s;
        let (_, s) = skip 10 s;
        (_, story, s) \<leftarrow> get_dvb_text env (epg_story rec) s;
        let rec = rec\<lparr>epg_story := story @ [0x0A]\<rparr>;
        if section_error s then Some (mhw2_fail epg rec s)
        else do {
          (_, story, s) \<leftarrow> get_mhw2_dvb_text env (epg_story rec) s;
          let rec = rec\<lparr>epg_story := story\<rparr>;
          let (_, s) = skip 10 s;
          if section_error s then Some (mhw2_fail epg rec s)
          else do {
            (_, s) \<leftarrow> get_uint32 s;
            let rec = rec\<lparr>epg_event_id := summary_id\<rparr>;
            Some (\<not> section_error s, epg\<lparr>epg_records := epg_records epg @ [rec]\<rparr>, s)
          }
        }
      })"

definition parse_mhw2_long_summary_section :: "text_env \<Rightarrow> epg_t \<Rightarrow> stored_section_t \<Rightarrow> (bool \<times> epg_t \<times> stored_section_t) option" where
  "parse_mhw2_long_summary_section env epg s = do {
     (_, s) \<leftarrow> parse_table_header default_section_header s;
     parse_mhw2_long_summary_section_hdr env epg s
   }"

subsection \<open>Table headers\<close>

definition length_word :: "u16 \<Rightarrow> bool \<Rightarrow> bool \<Rightarrow> u16" where
  "length_word l ssi priv = l OR push_bit 15 (of_bool ssi) OR push_bit 14 (of_bool priv) OR push_bit 12 (mask 2)"

definition version_byte :: "u8 \<Rightarrow> bool \<Rightarrow> u8" where
  "version_byte v cn = push_bit 1 v OR of_bool cn OR push_bit 6 (mask 2)"

definition table_header_bytes :: "section_header_t \<Rightarrow> bytes" where
  "table_header_bytes h = table_id h #
     be_bytes 2 (length_word (len h) (section_syntax_indicator h) (private_bit h)) @
     be_bytes 2 (table_id_extension h) @
     [version_byte (version_number h) (current_next h), section_number h, last_section_number h] @
     (if is_sdt h then be_bytes 2 (table_id_extension1 h)
      else if is_eit h then be_bytes 2 (table_id_extension1 h) @ be_bytes 2 (table_id_extension2 h)
      else [])"

lemma length_word_fields:
  assumes "unat l < 2 ^ 12"
  shows "length_word l ssi priv AND 0xfff = l" "(drop_bit 15 (length_word l ssi priv) \<noteq> 0) = ssi"
    "(drop_bit 14 (length_word l ssi priv) AND 1 \<noteq> 0) = priv"
proof -
  define w where "w = length_word l ssi priv"
  have l: "n < 12" if "bit l n" for n using bit_small [of l 12 n] assms(1) that by simp
  have "w AND 0xfff = l"
    unfolding and_4095 w_def length_word_def by (rule bit_word_eqI) (use l in \<open>auto simp: bit_simps\<close>)
  moreover have "bit w 15 = ssi" "bit w 14 = priv"
    using l [of 15] l [of 14] by (auto simp: w_def length_word_def bit_simps)
  moreover have "bit w (15 + n) \<Longrightarrow> n = 0" for n using bit_imp_le_length [of w "15 + n"] by simp
  then have "bit w (15 + n) = (n = 0 \<and> bit w 15)" for n by (metis add.right_neutral)
  then have "drop_bit 15 w = of_bool (bit w 15)" by (intro bit_word_eqI) (simp add: bit_drop_bit_eq bit_of_bool_iff)
  moreover have "drop_bit 14 w AND 1 = of_bool (bit w 14)"
    by (simp add: and_one_eq bit_iff_odd_drop_bit mod2_eq_if)
  ultimately show "length_word l ssi priv AND 0xfff = l" "(drop_bit 15 (length_word l ssi priv) \<noteq> 0) = ssi"
    "(drop_bit 14 (length_word l ssi priv) AND 1 \<noteq> 0) = priv"
    unfolding w_def [symmetric] by simp_all
qed

lemma version_byte_fields:
  assumes "unat v < 2 ^ 5"
  shows "drop_bit 1 (version_byte v cn AND 0x3f) = v" "(version_byte v cn AND 0x1 \<noteq> 0) = cn"
proof -
  define w where "w = version_byte v cn"
  have v: "n < 5" if "bit v n" for n using bit_small [of v 5 n] assms(1) that by simp
  have bits: "bit w n = (1 \<le> n \<and> n < 8 \<and> bit v (n - 1) \<or> n = 0 \<and> cn \<or> 6 \<le> n \<and> n < 8)" for n
    unfolding w_def version_byte_def
    by (subst bit_or_iff, subst bit_or_iff, subst bit_push_bit_iff) (auto simp: bit_simps)
  have "drop_bit 1 (w AND 0x3f) = v"
    unfolding and_63 by (rule bit_word_eqI) (auto simp: bits bit_drop_bit_eq bit_take_bit_iff dest: v)
  moreover have "w AND 1 = of_bool (bit w 0)" by (simp add: and_one_eq bit_0 mod2_eq_if)
  ultimately show "drop_bit 1 (version_byte v cn AND 0x3f) = v" "(version_byte v cn AND 0x1 \<noteq> 0) = cn"
    unfolding w_def [symmetric] by (simp_all only: bits) simp
qed

lemma rewind_at [simp]: "(at_pos s [x] rest)\<lparr>bytes_read := 1\<rparr> = at_pos s [x] rest"
  by (simp add: at_pos_def)

lemma parse_section_header_at:
  "parse_section_header h (at_pos s [] (t # be_bytes 2 w @ rest)) =
    Some (h\<lparr>pid := section_pid s, table_id := t, len := w AND 0xfff, section_syntax_indicator := (drop_bit 15 w \<noteq> 0),
            private_bit := (drop_bit 14 w AND 1 \<noteq> 0)\<rparr>, at_pos s (t # be_bytes 2 w) rest)"
  by (simp add: parse_section_header_def section_simps get_uint16_bytes Let_def del: be_bytes_numeral)

definition header_with :: "section_header_t \<Rightarrow> u16 \<Rightarrow> u8 \<Rightarrow> u16 \<Rightarrow> u16 \<Rightarrow> u8 \<Rightarrow> u8 \<Rightarrow> u8 \<Rightarrow> section_header_t" where
  "header_with d p t w ext v sn lsn =
     d\<lparr>pid := p, table_id := t, len := w AND 0xfff, section_syntax_indicator := (drop_bit 15 w \<noteq> 0),
       private_bit := (drop_bit 14 w AND 1 \<noteq> 0), table_id_extension := ext, current_next := (v AND 0x1 \<noteq> 0),
       version_number := drop_bit 1 (v AND 0x3f), section_number := sn, last_section_number := lsn\<rparr>"

lemma parse_table_header_at:
  fixes t v sn lsn :: u8 and w ext :: u16 and d :: section_header_t and s :: stored_section_t
  defines "h \<equiv> header_with d (section_pid s) t w ext v sn lsn"
    and "pre \<equiv> t # be_bytes 2 w @ be_bytes 2 ext @ [v, sn, lsn]"
  shows "\<not> is_sdt h \<Longrightarrow> \<not> is_eit h \<Longrightarrow> parse_table_header d (at_pos s [] (pre @ rest)) =
      Some (h\<lparr>header_len := 8\<rparr>, at_pos s pre rest)"
    "is_sdt h \<Longrightarrow> parse_table_header d (at_pos s [] (pre @ be_bytes 2 e1 @ rest)) =
      Some (h\<lparr>table_id_extension1 := e1, header_len := 10\<rparr>, at_pos s (pre @ be_bytes 2 e1) rest)"
    "\<not> is_sdt h \<Longrightarrow> is_eit h \<Longrightarrow> parse_table_header d (at_pos s [] (pre @ be_bytes 2 e1 @ be_bytes 2 e2 @ rest)) =
      Some (h\<lparr>table_id_extension1 := e1, table_id_extension2 := e2, header_len := 12\<rparr>,
        at_pos s (pre @ be_bytes 2 e1 @ be_bytes 2 e2) rest)"
  unfolding h_def pre_def header_with_def parse_table_header_def
  by (simp_all add: parse_section_header_at section_simps get_uint16_bytes Let_def del: be_bytes_numeral)

text \<open>Reading the header of a table gives back every field that the header bytes encode, including the
  extensions of service description and event tables, and stops behind the header.\<close>
theorem table_header_roundtrip:
  assumes "unat (len h) < 2 ^ 12" "unat (version_number h) < 2 ^ 5" "section_pid s = pid h"
  shows "parse_table_header default_section_header (at_pos s [] (table_header_bytes h @ rest)) =
    Some (h\<lparr>header_len := of_nat (length (table_header_bytes h)),
            table_id_extension1 := (if is_sdt h \<or> is_eit h then table_id_extension1 h else 0),
            table_id_extension2 := (if is_eit h \<and> \<not> is_sdt h then table_id_extension2 h else 0),
            segment_last_section_number := 0, last_table_id := 0\<rparr>,
          at_pos s (table_header_bytes h) rest)"
proof -
  define w where "w = length_word (len h) (section_syntax_indicator h) (private_bit h)"
  define v where "v = version_byte (version_number h) (current_next h)"
  note fields = length_word_fields [OF assms(1), of "section_syntax_indicator h" "private_bit h", folded w_def]
    version_byte_fields [OF assms(2), of "current_next h", folded v_def]
  define pre where "pre = table_id h # be_bytes 2 w @ be_bytes 2 (table_id_extension h) @ [v, section_number h, last_section_number h]"
  define h' where "h' = header_with default_section_header (section_pid s) (table_id h) w (table_id_extension h) v
    (section_number h) (last_section_number h)"
  have h': "h' = h\<lparr>header_len := 0, table_id_extension1 := 0, table_id_extension2 := 0,
      segment_last_section_number := 0, last_table_id := 0\<rparr>"
    by (cases h) (use fields assms(3) in \<open>simp add: h'_def header_with_def default_section_header_def\<close>)
  then have kind: "is_sdt h' = is_sdt h" "is_eit h' = is_eit h"
    by (simp_all add: is_sdt_def is_eit_def is_freesat_eit_def)
  note at = parse_table_header_at [of default_section_header s "table_id h" w "table_id_extension h" v
    "section_number h" "last_section_number h", folded h'_def pre_def]
  have bytes: "table_header_bytes h = pre @ (if is_sdt h then be_bytes 2 (table_id_extension1 h)
      else if is_eit h then be_bytes 2 (table_id_extension1 h) @ be_bytes 2 (table_id_extension2 h) else [])"
    by (simp add: table_header_bytes_def pre_def w_def v_def del: be_bytes_numeral)
  have "length pre = 8" by (simp add: pre_def)
  moreover consider "is_sdt h" | "\<not> is_sdt h" "is_eit h" | "\<not> is_sdt h" "\<not> is_eit h" by blast
  ultimately show ?thesis
    unfolding bytes
    by cases (simp_all add: at(2) [unfolded kind] at(3) [unfolded kind] at(1) [unfolded kind] h' del: be_bytes_numeral)
qed

definition sdt_header :: section_header_t where
  "sdt_header = default_section_header\<lparr>pid := 17, len := 300, table_id := 0x42, section_syntax_indicator := True,
     private_bit := True, table_id_extension := 1074, table_id_extension1 := 1, version_number := 9, last_section_number := 2\<rparr>"

theorem table_header_roundtrip_witness:
  "parse_table_header default_section_header (at_pos (open_section (\<lambda>_. 0) [] 17) [] (table_header_bytes sdt_header @ [1, 2])) =
    Some (sdt_header\<lparr>header_len := 10\<rparr>, at_pos (open_section (\<lambda>_. 0) [] 17) (table_header_bytes sdt_header) [1, 2])"
  using table_header_roundtrip [of sdt_header "open_section (\<lambda>_. 0) [] 17" "[1, 2]"]
  by (simp add: sdt_header_def default_section_header_def open_section_def is_sdt_def is_eit_def is_freesat_eit_def
      table_header_bytes_def)

subsection \<open>Program association sections\<close>

definition pat_bytes :: "(u16 \<times> u16) list \<Rightarrow> bytes" where
  "pat_bytes ps = concat (map (\<lambda>(a, b). be_bytes 2 a @ be_bytes 2 b) ps)"

definition pat_entry :: "u16 \<times> u16 \<Rightarrow> pat_entry_t" where
  "pat_entry p = \<lparr>pat_service_id = fst p, pat_pmt_pid = snd p AND 0x1fff\<rparr>"

lemma length_pat_bytes [simp]: "length (pat_bytes ps) = 4 * length ps"
  by (induction ps) (auto simp: pat_bytes_def)

lemma pat_bytes_Cons: "pat_bytes ((a, b) # ps) = be_bytes 2 a @ be_bytes 2 b @ pat_bytes ps"
  by (simp add: pat_bytes_def)

lemma pat_bytes_surj: "length bs = 4 * n \<Longrightarrow> \<exists>ps. length ps = n \<and> bs = pat_bytes ps"
proof (induction n arbitrary: bs)
  case 0
  then show ?case by (simp add: pat_bytes_def)
next
  case (Suc n)
  then have "length bs = Suc (Suc (Suc (Suc (4 * n))))" by simp
  then obtain b0 b1 b2 b3 bs' where bs: "bs = [b0, b1] @ [b2, b3] @ bs'" "length bs' = 4 * n"
    by (auto simp: length_Suc_conv)
  moreover obtain ps where "length ps = n" "bs' = pat_bytes ps" using Suc.IH bs(2) by blast
  moreover have "be_bytes 2 (be_word [b0, b1] :: u16) = [b0, b1]" "be_bytes 2 (be_word [b2, b3] :: u16) = [b2, b3]"
    by (rule be_bytes_be_word; simp)+
  ultimately show ?case
    by (intro exI [of _ "(be_word [b0, b1], be_word [b2, b3]) # ps"]) (simp add: pat_bytes_Cons del: be_bytes_numeral be_word.simps)
qed

lemma pat_loop_at:
  "pat_loop (length ps) es (at_pos s pre (pat_bytes ps @ rest)) =
    Some (es @ map pat_entry ps, at_pos s (pre @ pat_bytes ps) rest)"
proof (induction ps arbitrary: es pre)
  case (Cons p ps)
  then show ?case
    by (cases p) (simp add: pat_bytes_Cons get_uint16_bytes pat_entry_def del: be_bytes_numeral)
qed (simp add: pat_bytes_def)

lemma parse_pat_section_hdr_at:
  fixes crc :: u32
  assumes "table_id h = 0" "pid h = 0" "unat (len h) = 4 * length ps + 9" "ps \<noteq> []"
  shows "parse_pat_section_hdr pat h (at_pos s pre (pat_bytes ps @ be_bytes 4 crc)) =
    Some (True, pat\<lparr>pat_version_number := ucast (version_number h), pat_ts_id := table_id_extension h,
            pat_entries := pat_entries pat @ map pat_entry ps\<rparr>,
          at_pos s (pre @ pat_bytes ps @ be_bytes 4 crc) [])"
proof -
  have l: "uint (len h) = 4 * int (length ps) + 9" using assms(3) by (simp add: uint_nat)
  have "get_uint32 (at_pos s (pre @ pat_bytes ps) (be_bytes 4 crc)) =
      Some (crc, at_pos s (pre @ pat_bytes ps @ be_bytes 4 crc) [])"
    using get_uint32_bytes [of s "pre @ pat_bytes ps" crc "[]"] by (simp del: be_bytes_numeral)
  then show ?thesis
    unfolding parse_pat_section_hdr_def l
    using assms by (simp add: pat_loop_at Let_def del: be_bytes_numeral)
qed

definition pat_section_bytes :: "u16 \<Rightarrow> u8 \<Rightarrow> u8 \<Rightarrow> u8 \<Rightarrow> (u16 \<times> u16) list \<Rightarrow> u32 \<Rightarrow> bytes" where
  "pat_section_bytes ts_id v sn lsn ps crc =
     0 # be_bytes 2 (length_word (of_nat (4 * length ps + 9)) True False) @
     be_bytes 2 ts_id @ [version_byte v True, sn, lsn] @ pat_bytes ps @ be_bytes 4 crc"

lemma parse_pat_section_bytes:
  fixes sn lsn :: u8 and crc :: u32
  assumes "ps \<noteq> []" "length ps \<le> 1021" "unat v < 2 ^ 5"
  shows "\<exists>s'. parse_pat_section pat (open_section j (pat_section_bytes ts_id v sn lsn ps crc) 0) =
      Some (True, pat\<lparr>pat_version_number := ucast v, pat_ts_id := ts_id,
        pat_entries := pat_entries pat @ map pat_entry ps\<rparr>, s') \<and> available s' = 0 \<and> \<not> section_error s'"
proof -
  define l where "l = (of_nat (4 * length ps + 9) :: u16)"
  define w where "w = length_word l True False"
  define vb where "vb = version_byte v True"
  define s where "s = open_section j [] 0"
  define h where "h = header_with default_section_header 0 0 w ts_id vb sn lsn"
  have l: "unat l = 4 * length ps + 9" using assms(2) unfolding l_def unat_of_nat by simp
  have "w AND 0xfff = l" "drop_bit 15 w \<noteq> 0"
    using length_word_fields [of l True False] l assms(2) by (simp_all add: w_def)
  moreover have "drop_bit 1 (vb AND 0x3f) = v" using version_byte_fields [OF assms(3)] by (simp add: vb_def)
  ultimately have h: "table_id h = 0" "pid h = 0" "unat (len h) = 4 * length ps + 9" "version_number h = v"
    "table_id_extension h = ts_id" using l by (simp_all add: h_def header_with_def)
  then have "\<not> is_sdt h" "\<not> is_eit h" by (simp_all add: is_sdt_def is_eit_def is_freesat_eit_def)
  from parse_table_header_at(1) [of default_section_header s 0 w ts_id vb sn lsn "pat_bytes ps @ be_bytes 4 crc"] this
  have "parse_table_header default_section_header (open_section j (pat_section_bytes ts_id v sn lsn ps crc) 0) =
      Some (h\<lparr>header_len := 8\<rparr>, at_pos s (0 # be_bytes 2 w @ be_bytes 2 ts_id @ [vb, sn, lsn]) (pat_bytes ps @ be_bytes 4 crc))"
    unfolding open_section_at [of j "pat_section_bytes ts_id v sn lsn ps crc"] s_def [symmetric]
    by (simp add: pat_section_bytes_def h_def w_def vb_def l_def s_def open_section_def del: be_bytes_numeral)
  moreover have "\<not> section_error s" by (simp add: s_def open_section_def)
  ultimately show ?thesis
    using parse_pat_section_hdr_at [of "h\<lparr>header_len := 8\<rparr>" ps pat s] assms(1) h
    by (simp add: parse_pat_section_def del: be_bytes_numeral)
qed

text \<open>C13: A program association section of one or more entries is read back completely: the transport stream
  number, the version and, for every entry, the service and the 13 bits of the PMT stream number, in order; the whole
  section is consumed without an error.\<close>
theorem pat_section_parsed:
  fixes sn lsn :: u8 and crc :: u32
  assumes "ps \<noteq> []" "length ps \<le> 1021" "unat v < 2 ^ 5"
  shows "\<exists>s'. parse_pat_section pat (open_section j (pat_section_bytes ts_id v sn lsn ps crc) 0) =
      Some (True, pat\<lparr>pat_version_number := ucast v, pat_ts_id := ts_id,
        pat_entries := pat_entries pat @ map pat_entry ps\<rparr>, s') \<and> available s' = 0 \<and> \<not> section_error s'"
  using assms by (rule parse_pat_section_bytes)

theorem pat_section_parsed_witness:
  "\<exists>s'. parse_pat_section default_pat_services
      (open_section (\<lambda>_. 0) (pat_section_bytes 1074 7 0 0 [(0, 0x10), (0x1234, 0xe100)] 0xdeadbeef) 0) =
    Some (True, \<lparr>pat_ts_id = 1074, pat_version_number = 7, pat_entries =
      [\<lparr>pat_service_id = 0, pat_pmt_pid = 0x10\<rparr>, \<lparr>pat_service_id = 0x1234, pat_pmt_pid = 0x100\<rparr>]\<rparr>, s') \<and>
    available s' = 0 \<and> \<not> section_error s'"
  using pat_section_parsed [of "[(0, 0x10), (0x1234, 0xe100)]" 7 default_pat_services "\<lambda>_. 0" 1074 0 0 "0xdeadbeef"]
  by (simp add: default_pat_services_def pat_entry_def)

end
