(* ===== verification/Section_Robustness.thy ===== *)
theory Section_Robustness
  imports Section_Tables
begin

text \<open>
  Behaviour of the section parsers on sections with arbitrary content: the parser of program association
  sections returns on every payload of the announced length, the one of program map sections and the readers of lists
  inside descriptors do not.
  Reading never fails by itself: it returns a value, possibly a meaningless one, and does not move backwards.
\<close>

definition returns :: "(stored_section_t \<Rightarrow> ('a \<times> stored_section_t) option) \<Rightarrow> bool" where
  "returns f \<longleftrightarrow> (\<forall>s. 0 \<le> bytes_read s \<longrightarrow> (\<exists>v s'. f s = Some (v, s') \<and> bytes_read s \<le> bytes_read s'))"

lemma returnsE:
  assumes "returns f" "0 \<le> bytes_read s"
  obtains v s' where "f s = Some (v, s')" "0 \<le> bytes_read s'" "bytes_read s \<le> bytes_read s'"
  using assms unfolding returns_def by (meson order_trans)

lemma returns_get: "returns (get n)"
  unfolding returns_def get_def get_buffer_def by (auto simp: throw_bad_data_def)

lemma returns_uint: "returns get_uint8" "returns get_uint16" "returns get_uint32"
  unfolding get_uint8_def get_uint16_def get_uint32_def by (rule returns_get)+

lemma parse_table_header_short:
  "\<exists>h s'. parse_table_header d (open_section j (t # be_bytes 2 w @ body) p) = Some (h, s') \<and>
    table_id h = t \<and> pid h = p \<and> len h = w AND 0xfff"
proof -
  define s0 where "s0 = at_pos (open_section j [] p) (t # be_bytes 2 w) body"
  have "0 \<le> bytes_read s0" by (simp add: s0_def)
  with returns_uint(2) obtain ext s1 where 1: "get_uint16 s0 = Some (ext, s1)" "0 \<le> bytes_read s1" by (rule returnsE)
  from returns_uint(1) 1(2) obtain v s2 where 2: "get_uint8 s1 = Some (v, s2)" "0 \<le> bytes_read s2" by (rule returnsE)
  from returns_uint(1) 2(2) obtain sn s3 where 3: "get_uint8 s2 = Some (sn, s3)" "0 \<le> bytes_read s3" by (rule returnsE)
  from returns_uint(1) 3(2) obtain lsn s4 where 4: "get_uint8 s3 = Some (lsn, s4)" "0 \<le> bytes_read s4" by (rule returnsE)
  from returns_uint(2) 4(2) obtain e1 s5 where 5: "get_uint16 s4 = Some (e1, s5)" "0 \<le> bytes_read s5" by (rule returnsE)
  from returns_uint(2) 5(2) obtain e2 s6 where 6: "get_uint16 s5 = Some (e2, s6)" by (rule returnsE)
  have "section_pid (open_section j [] p) = p" by (simp add: open_section_def)
  then show ?thesis
    unfolding parse_table_header_def open_section_at [of j "t # be_bytes 2 w @ body"] parse_section_header_at
    using 1 2 3 4 5 6 by (simp add: s0_def Let_def del: be_bytes_numeral)
qed

text \<open>C34: Whatever a section contains, the parser of program association sections returns when the payload has the
  length that the header announces; it accepts the section exactly when table, stream and length fit, and an accepted section
  has been read to its end without an error.\<close>
theorem parse_pat_section_total:
  fixes w :: u16
  assumes "length body = unat (w AND 0xfff)"
  shows "\<exists>ok pat' s'. parse_pat_section pat (open_section j (t # be_bytes 2 w @ body) p) = Some (ok, pat', s') \<and>
    ok = (t = 0 \<and> p = 0 \<and> 9 < length body \<and> length body mod 4 = 1) \<and>
    (ok \<longrightarrow> available s' = 0 \<and> \<not> section_error s')"
proof (cases "t = 0 \<and> p = 0 \<and> 9 < length body \<and> length body mod 4 = 1")
  case False
  obtain h s' where h: "parse_table_header default_section_header (open_section j (t # be_bytes 2 w @ body) p) = Some (h, s')"
    "table_id h = t" "pid h = p" "len h = w AND 0xfff" using parse_table_header_short by blast
  have l: "uint (len h) = int (length body)" unfolding h(4) assms by (rule uint_nat)
  have "(int (length body) - 9) mod 4 = 0 \<longleftrightarrow> length body mod 4 = 1"
    by presburger
  with False show ?thesis
    unfolding parse_pat_section_def h(1) by (auto simp: parse_pat_section_hdr_def Let_def l h(2,3))
next
  case True
  from True have "9 < length body" "length body mod 4 = 1" by auto
  then have "\<exists>n. length body = 5 + 4 * n + 4 \<and> 0 < n" by presburger
  then obtain n where n: "length body = 5 + 4 * n + 4" "0 < n" by blast
  then obtain e1 e0 v sn lsn rest where body: "body = [e1, e0] @ [v, sn, lsn] @ rest" "length rest = 4 * n + 4"
    by (auto simp: length_Suc_conv eval_nat_numeral)
  obtain ps where ps: "length ps = n" "take (4 * n) rest = pat_bytes ps" using pat_bytes_surj [of "take (4 * n) rest" n] body(2) by auto
  define crc where "crc = (be_word (drop (4 * n) rest) :: u32)"
  have crc: "drop (4 * n) rest = be_bytes 4 crc" unfolding crc_def by (rule be_bytes_be_word [symmetric]) (use body(2) in simp_all)
  have rest: "rest = pat_bytes ps @ be_bytes 4 crc" using append_take_drop_id [of "4 * n" rest] ps(2) crc by simp
  define ext where "ext = (be_word [e1, e0] :: u16)"
  have ext: "[e1, e0] = be_bytes 2 ext" unfolding ext_def by (rule be_bytes_be_word [symmetric]) simp_all
  define s where "s = open_section j [] p"
  define h where "h = header_with default_section_header 0 0 w ext v sn lsn"
  have h: "table_id h = 0" "pid h = 0" "unat (len h) = 4 * length ps + 9"
    using assms n(1) ps(1) by (simp_all add: h_def header_with_def)
  have "open_section j (t # be_bytes 2 w @ body) p =
      at_pos s [] ((0 # be_bytes 2 w @ be_bytes 2 ext @ [v, sn, lsn]) @ pat_bytes ps @ be_bytes 4 crc)"
    using True unfolding body(1) ext rest by (subst open_section_at) (simp add: s_def del: be_bytes_numeral)
  moreover have "section_pid s = 0" "\<not> is_sdt h" "\<not> is_eit h"
    using True h(1,2) by (simp_all add: s_def open_section_def is_sdt_def is_eit_def is_freesat_eit_def)
  ultimately have "parse_table_header default_section_header (open_section j (t # be_bytes 2 w @ body) p) =
      Some (h\<lparr>header_len := 8\<rparr>, at_pos s (0 # be_bytes 2 w @ be_bytes 2 ext @ [v, sn, lsn]) (pat_bytes ps @ be_bytes 4 crc))"
    using parse_table_header_at(1) [of default_section_header s 0 w ext v sn lsn "pat_bytes ps @ be_bytes 4 crc"]
    by (simp only: h_def simp_thms)
  moreover have "ps \<noteq> []" "\<not> section_error s" using n(2) ps(1) by (auto simp: s_def open_section_def)
  ultimately show ?thesis
    using parse_pat_section_hdr_at [of "h\<lparr>header_len := 8\<rparr>" ps pat s] h True
    by (intro exI [of _ True]) (simp add: parse_pat_section_def del: be_bytes_numeral)
qed

theorem parse_pat_section_total_witness:
  "\<exists>ok pat' s'. parse_pat_section default_pat_services (open_section (\<lambda>_. 0) (0 # be_bytes 2 (0xb00d :: u16) @ replicate 13 7) 0) =
      Some (ok, pat', s') \<and> ok \<and> available s' = 0 \<and> \<not> section_error s'"
  using parse_pat_section_total [of "replicate 13 7" "0xb00d" default_pat_services "\<lambda>_. 0" 0 0] by auto

text \<open>
  A reader that has only stuffing left, or a single byte, gives an empty descriptor for ever.
\<close>

definition exhausted :: "int \<Rightarrow> stored_section_t \<Rightarrow> bool" where
  "exhausted e s \<longleftrightarrow> int (length (payload s)) < e \<and> 0 \<le> bytes_read s \<and> 0 \<le> available s \<and>
     (2 \<le> available s \<longrightarrow> (\<forall>b \<in> set (drop (nat (bytes_read s)) (payload s)). b = 0))"

lemma exhausted_at: "exhausted e (at_pos s pre rest) \<longleftrightarrow>
    int (length pre) + int (length rest) < e \<and> (2 \<le> length rest \<longrightarrow> (\<forall>b \<in> set rest. b = 0))"
  by (simp add: exhausted_def)

lemma get_descriptor_exhausted:
  assumes "exhausted e s"
  shows "\<exists>s'. get_descriptor s = Some (\<lparr>desc_tag = 0, desc_len = 0\<rparr>, s') \<and> exhausted e s'"
proof (cases "available s < 2")
  case True
  with assms show ?thesis by (auto simp: get_descriptor_def exhausted_def throw_bad_data_def available_def)
next
  case False
  define n where "n = nat (bytes_read s)"
  have n: "n + 2 \<le> length (payload s)" "bytes_read s = int n" using False assms by (auto simp: n_def exhausted_def available_def)
  define xs where "xs = drop (n + 2) (payload s)"
  have d: "drop n (payload s) = [payload s ! n, payload s ! (n + 1)] @ xs"
    using n(1) by (simp add: xs_def Cons_nth_drop_Suc)
  have z: "\<forall>b \<in> set (drop n (payload s)). b = 0" using False assms n(2) by (auto simp: exhausted_def)
  then have "payload s ! n = 0" "payload s ! (n + 1) = 0" unfolding d by simp_all
  moreover have "\<forall>b \<in> set xs. b = 0" using z unfolding d by simp
  moreover have "s = at_pos s (take n (payload s)) (drop n (payload s))" using n by (simp add: at_pos_def)
  ultimately have "get_descriptor s = Some (\<lparr>desc_tag = 0, desc_len = 0\<rparr>, at_pos s (take n (payload s) @ [0, 0]) xs)"
    using get_descriptor_at [of s "take n (payload s)" 0 0 xs] d by simp
  moreover have "exhausted e (at_pos s (take n (payload s) @ [0, 0]) xs)"
    using assms n \<open>\<forall>b \<in> set xs. b = 0\<close> by (simp add: exhausted_at xs_def) (simp add: exhausted_def)
  ultimately show ?thesis by blast
qed

text \<open>A descriptor length that reaches behind the section makes the loop over the descriptors of a program map
  section run forever when only stuffing is left: every turn reads an empty descriptor and skips nothing. The parser hangs
  on a section of the announced length.\<close>
theorem pmt_descriptors_endless:
  fixes l :: u16
  assumes "uint (l AND 0x0fff) > int (length rest)" "\<forall>b \<in> set rest. b = 0"
  shows "parse_descriptors pmt info (at_pos s pre (be_bytes 2 l @ rest)) = None"
proof -
  define e where "e = uint (l AND 0x0fff) + (int (length pre) + 2)"
  have "while_return (\<lambda>(pmt, info, s). bytes_read s < e) (pmt_descriptor e) (pmt, info, at_pos s (pre @ be_bytes 2 l) rest) = None"
  proof (rule while_return_diverges [where P = "\<lambda>(pmt, info, s). exhausted e s"])
    fix st :: pmt_state and r
    assume st: "case st of (pmt, info, s) \<Rightarrow> exhausted e s" "pmt_descriptor e st = Some r"
    obtain pmt info s where [simp]: "st = (pmt, info, s)" by (cases st)
    from st(1) obtain s' where "get_descriptor s = Some (\<lparr>desc_tag = 0, desc_len = 0\<rparr>, s')" "exhausted e s'"
      using get_descriptor_exhausted [of e s] by auto
    with st(2) show "\<exists>s'. r = Inr s' \<and> (case s' of (pmt, info, s) \<Rightarrow> exhausted e s)"
      by (auto simp: pmt_descriptor_def skip_def exhausted_def throw_bad_data_def available_def)
  next
    show "case (pmt, info, at_pos s (pre @ be_bytes 2 l) rest) of (pmt, info, s) \<Rightarrow> exhausted e s"
      using assms by (simp add: exhausted_at e_def)
  qed (auto simp: exhausted_def available_def)
  then show ?thesis
    by (simp add: parse_descriptors_def get_uint16_bytes e_def Let_def add.commute [of 2] del: be_bytes_numeral)
qed

theorem pmt_descriptors_endless_witness:
  "parse_pmt_section default_pmt_info (open_section (\<lambda>_. 0)
    ((0x02 # be_bytes 2 (0xb00d :: u16) @ be_bytes 2 (1 :: u16) @ [0xc1, 0, 0]) @
     be_bytes 2 (0xe100 :: u16) @ be_bytes 2 (0xf005 :: u16) @ [0, 0, 0, 0]) 256) = None"
proof -
  define s where "s = open_section (\<lambda>_. 0) [] 256"
  define pre :: bytes where "pre = 0x02 # be_bytes 2 (0xb00d :: u16) @ be_bytes 2 (1 :: u16) @ [0xc1, 0, 0]"
  define h where "h = header_with default_section_header 256 0x02 0xb00d 1 0xc1 0 0"
  have eq: "open_section (\<lambda>_. 0) (pre @ be_bytes 2 (0xe100 :: u16) @ be_bytes 2 (0xf005 :: u16) @ [0, 0, 0, 0]) 256 =
      at_pos s [] (pre @ be_bytes 2 (0xe100 :: u16) @ be_bytes 2 (0xf005 :: u16) @ [0, 0, 0, 0])"
    unfolding s_def by (rule open_section_at)
  have "section_pid s = 256" by (simp add: s_def open_section_def)
  moreover have "\<not> is_sdt h" "\<not> is_eit h" by (simp_all add: h_def header_with_def is_sdt_def is_eit_def is_freesat_eit_def)
  ultimately have "parse_table_header default_section_header (at_pos s [] (pre @ be_bytes 2 (0xe100 :: u16) @ be_bytes 2 (0xf005 :: u16) @ [0, 0, 0, 0])) =
      Some (h\<lparr>header_len := 8\<rparr>, at_pos s pre (be_bytes 2 (0xe100 :: u16) @ be_bytes 2 (0xf005 :: u16) @ [0, 0, 0, 0]))"
    using parse_table_header_at(1) [of default_section_header s "0x02" "0xb00d" 1 "0xc1" 0 0
      "be_bytes 2 (0xe100 :: u16) @ be_bytes 2 (0xf005 :: u16) @ [0, 0, 0, 0]", folded pre_def] by (simp only: h_def simp_thms)
  moreover have "table_id h = 0x02" "section_number h = 0" "last_section_number h = 0"
    by (simp_all add: h_def header_with_def)
  moreover have "uint ((0xf005 :: u16) AND 0x0fff) > int (length [0, 0, 0, 0 :: u8])" by simp
  ultimately show ?thesis
    unfolding pre_def [symmetric] eq parse_pmt_section_def parse_pmt_section_hdr_def
    using pmt_descriptors_endless [of "[0, 0, 0, 0]" "0xf005"]
    by (simp add: get_uint16_bytes Let_def del: be_bytes_numeral)
qed

subsection \<open>Lists inside descriptors\<close>

lemma get_moves:
  assumes "0 \<le> bytes_read s" "0 \<le> available s" "0 < n"
  shows "\<exists>(v :: 'a::len word) s'. get n s = Some (v, s') \<and> 0 \<le> bytes_read s' \<and> 0 \<le> available s' \<and>
    available s' = (if int n \<le> available s then available s - int n else available s)"
  using assms unfolding get_def get_buffer_def
  by (cases "int n \<le> available s") (auto simp: throw_bad_data_def available_def)

lemmas get_uint8_moves = get_moves [where n = 1 and 'a = 8, folded get_uint8_def, simplified]
lemmas get_uint32_moves = get_moves [where n = 4 and 'a = 32, folded get_uint32_def, simplified]

text \<open>C35: The lists of an event's content codes and of a network's frequencies are read without looking at the length
  of the section: the loop over the content codes ends exactly when the descriptor fits into the section, and both
  loops run forever, storing elements, on a descriptor that does not.\<close>
theorem list_descriptors_endless:
  assumes "0 \<le> bytes_read s" "0 \<le> available s"
  shows "(get_content rec desc s = None \<longleftrightarrow> available s < desc_len desc) \<and>
    (available s < desc_len desc \<longrightarrow> get_frequency_list desc s = None)"
proof -
  define e where "e = available s - desc_len desc"
  let ?ok = "\<lambda>s :: stored_section_t. 0 \<le> bytes_read s \<and> 0 \<le> available s"
  let ?content = "\<lambda>(rec, s). do {
      (content_code, s) \<leftarrow> get_uint8 s;
      (_, s) \<leftarrow> get_uint8 s;
      Some (rec\<lparr>epg_content_codes := epg_content_codes rec @ [ucast content_code]\<rparr>, s)
    } :: (epg_record_t \<times> stored_section_t) option"
  have step: "\<exists>st'. ?content st = Some st' \<and> ?ok (snd st') \<and> available (snd st') \<le> available (snd st) \<and>
      (0 < available (snd st) \<longrightarrow> available (snd st') < available (snd st))" if "?ok (snd st)" for st
  proof -
    obtain r s0 where st: "st = (r, s0)" by (cases st)
    with that obtain v s1 where s1: "get_uint8 s0 = Some (v, s1)" "?ok s1"
      "available s1 = (if 1 \<le> available s0 then available s0 - 1 else available s0)"
      using get_uint8_moves [of s0] by auto
    then obtain v' s2 where "get_uint8 s1 = Some (v', s2)" "?ok s2"
      "available s2 = (if 1 \<le> available s1 then available s1 - 1 else available s1)"
      using get_uint8_moves [of s1] by auto
    with s1 st show ?thesis by auto
  qed
  have ends: "\<exists>st'. while_loop (\<lambda>(rec, s). available s > e) ?content (rec, s) = Some st' \<and> ?ok (snd st') \<and>
      \<not> (case st' of (rec, s) \<Rightarrow> available s > e)" if "0 \<le> e"
    by (rule while_loop_returns [where P = "\<lambda>st. ?ok (snd st)" and m = "\<lambda>st. nat (available (snd st))"])
      (use assms step that in fastforce)+
  have endless: "while_loop (\<lambda>(rec, s). available s > e) ?content (rec, s) = None" if "e < 0"
    by (rule while_loop_diverges [where P = "\<lambda>st. ?ok (snd st)"]) (use assms step that in fastforce)+
  have endless': "while_loop (\<lambda>(fs, s). available s > e) (\<lambda>(fs, s). do { (f, s) \<leftarrow> get_uint32 s; Some (fs @ [f], s) }) (fs, s') = None"
    if "e < 0" "?ok s'" for fs :: "u32 list" and s'
  proof (rule while_loop_diverges [where P = "\<lambda>st. ?ok (snd st)"])
    fix st st' :: "u32 list \<times> stored_section_t"
    assume "?ok (snd st)" "(case st of (fs, s) \<Rightarrow> do { (f, s) \<leftarrow> get_uint32 s; Some (fs @ [f], s) }) = Some st'"
    then show "?ok (snd st')" using get_uint32_moves [of "snd st"] by (cases st) auto
  qed (use that in auto)
  have "get_frequency_list desc s = None" if "e < 0"
  proof -
    obtain v s1 where "get_uint8 s = Some (v, s1)" "?ok s1" using get_uint8_moves [OF assms] by auto
    with endless' [OF that] show ?thesis by (simp add: get_frequency_list_def e_def [symmetric] Let_def)
  qed
  moreover have "(get_content rec desc s = None) = (e < 0)"
    using ends endless unfolding get_content_def e_def [symmetric] Let_def by (cases "e < 0") auto
  ultimately show ?thesis by (simp add: e_def)
qed

theorem list_descriptors_endless_witness:
  "get_content default_epg_record \<lparr>desc_tag = 0x54, desc_len = 3\<rparr> (open_section (\<lambda>_. 0) [0x10, 0] 18) = None \<and>
   get_content default_epg_record \<lparr>desc_tag = 0x54, desc_len = 2\<rparr> (open_section (\<lambda>_. 0) [0x10, 0] 18) \<noteq> None \<and>
   get_frequency_list \<lparr>desc_tag = 0x62, desc_len = 3\<rparr> (open_section (\<lambda>_. 0) [0x10, 0] 18) = None"
proof -
  have "0 \<le> bytes_read (open_section (\<lambda>_. 0) [0x10, 0] 18)" "available (open_section (\<lambda>_. 0) [0x10, 0] 18) = 2"
    by (simp_all add: open_section_def available_def)
  then show ?thesis
    using list_descriptors_endless [of "open_section (\<lambda>_. 0) [0x10, 0] 18" default_epg_record "\<lparr>desc_tag = 0x54, desc_len = 3\<rparr>"]
      list_descriptors_endless [of "open_section (\<lambda>_. 0) [0x10, 0] 18" default_epg_record "\<lparr>desc_tag = 0x54, desc_len = 2\<rparr>"]
      list_descriptors_endless [of "open_section (\<lambda>_. 0) [0x10, 0] 18" default_epg_record "\<lparr>desc_tag = 0x62, desc_len = 3\<rparr>"]
    by simp
qed

end
