(* ===== verification/Crc32.thy ===== *)
theory Crc32
  imports Prelude
begin

text \<open>
  The checksum of a section (\<open>crc32\<close> in \<open>receiver/streamparser/section.cc\<close>): a byte-wise
  loop over a table of 256 words. It is compared with the bit-wise division by the generator polynomial
  that the standard defines.
\<close>

definition crc_table :: "u32 list" where
  "crc_table = [
     0x00000000, 0x04c11db7, 0x09823b6e, 0x0d4326d9, 0x130476dc, 0x17c56b6b, 0x1a864db2, 0x1e475005,
     0x2608edb8, 0x22c9f00f, 0x2f8ad6d6, 0x2b4bcb61, 0x350c9b64, 0x31cd86d3, 0x3c8ea00a, 0x384fbdbd,
     0x4c11db70, 0x48d0c6c7, 0x4593e01e, 0x4152fda9, 0x5f15adac, 0x5bd4b01b, 0x569796c2, 0x52568b75,
     0x6a1936c8, 0x6ed82b7f, 0x639b0da6, 0x675a1011, 0x791d4014, 0x7ddc5da3, 0x709f7b7a, 0x745e66cd,
     0x9823b6e0, 0x9ce2ab57, 0x91a18d8e, 0x95609039, 0x8b27c03c, 0x8fe6dd8b, 0x82a5fb52, 0x8664e6e5,
     0xbe2b5b58, 0xbaea46ef, 0xb7a96036, 0xb3687d81, 0xad2f2d84, 0xa9ee3033, 0xa4ad16ea, 0xa06c0b5d,
     0xd4326d90, 0xd0f37027, 0xddb056fe, 0xd9714b49, 0xc7361b4c, 0xc3f706fb, 0xceb42022, 0xca753d95,
     0xf23a8028, 0xf6fb9d9f, 0xfbb8bb46, 0xff79a6f1, 0xe13ef6f4, 0xe5ffeb43, 0xe8bccd9a, 0xec7dd02d,
     0x34867077, 0x30476dc0, 0x3d044b19, 0x39c556ae, 0x278206ab, 0x23431b1c, 0x2e003dc5, 0x2ac12072,
     0x128e9dcf, 0x164f8078, 0x1b0ca6a1, 0x1fcdbb16, 0x018aeb13, 0x054bf6a4, 0x0808d07d, 0x0cc9cdca,
     0x7897ab07, 0x7c56b6b0, 0x71159069, 0x75d48dde, 0x6b93dddb, 0x6f52c06c, 0x6211e6b5, 0x66d0fb02,
     0x5e9f46bf, 0x5a5e5b08, 0x571d7dd1, 0x53dc6066, 0x4d9b3063, 0x495a2dd4, 0x44190b0d, 0x40d816ba,
     0xaca5c697, 0xa864db20, 0xa527fdf9, 0xa1e6e04e, 0xbfa1b04b, 0xbb60adfc, 0xb6238b25, 0xb2e29692,
     0x8aad2b2f, 0x8e6c3698, 0x832f1041, 0x87ee0df6, 0x99a95df3, 0x9d684044, 0x902b669d, 0x94ea7b2a,
     0xe0b41de7, 0xe4750050, 0xe9362689, 0xedf73b3e, 0xf3b06b3b, 0xf771768c, 0xfa325055, 0xfef34de2,
     0xc6bcf05f, 0xc27dede8, 0xcf3ecb31, 0xcbffd686, 0xd5b88683, 0xd1799b34, 0xdc3abded, 0xd8fba05a,
     0x690ce0ee, 0x6dcdfd59, 0x608edb80, 0x644fc637, 0x7a089632, 0x7ec98b85, 0x738aad5c, 0x774bb0eb,
     0x4f040d56, 0x4bc510e1, 0x46863638, 0x42472b8f, 0x5c007b8a, 0x58c1663d, 0x558240e4, 0x51435d53,
     0x251d3b9e, 0x21dc2629, 0x2c9f00f0, 0x285e1d47, 0x36194d42, 0x32d850f5, 0x3f9b762c, 0x3b5a6b9b,
     0x0315d626, 0x07d4cb91, 0x0a97ed48, 0x0e56f0ff, 0x1011a0fa, 0x14d0bd4d, 0x19939b94, 0x1d528623,
     0xf12f560e, 0xf5ee4bb9, 0xf8ad6d60, 0xfc6c70d7, 0xe22b20d2, 0xe6ea3d65, 0xeba91bbc, 0xef68060b,
     0xd727bbb6, 0xd3e6a601, 0xdea580d8, 0xda649d6f, 0xc423cd6a, 0xc0e2d0dd, 0xcda1f604, 0xc960ebb3,
     0xbd3e8d7e, 0xb9ff90c9, 0xb4bcb610, 0xb07daba7, 0xae3afba2, 0xaafbe615, 0xa7b8c0cc, 0xa379dd7b,
     0x9b3660c6, 0x9ff77d71, 0x92b45ba8, 0x9675461f, 0x8832161a, 0x8cf30bad, 0x81b02d74, 0x857130c3,
     0x5d8a9099, 0x594b8d2e, 0x5408abf7, 0x50c9b640, 0x4e8ee645, 0x4a4ffbf2, 0x470cdd2b, 0x43cdc09c,
     0x7b827d21, 0x7f436096, 0x7200464f, 0x76c15bf8, 0x68860bfd, 0x6c47164a, 0x61043093, 0x65c52d24,
     0x119b4be9, 0x155a565e, 0x18197087, 0x1cd86d30, 0x029f3d35, 0x065e2082, 0x0b1d065b, 0x0fdc1bec,
     0x3793a651, 0x3352bbe6, 0x3e119d3f, 0x3ad08088, 0x2497d08d, 0x2056cd3a, 0x2d15ebe3, 0x29d4f654,
     0xc5a92679, 0xc1683bce, 0xcc2b1d17, 0xc8ea00a0, 0xd6ad50a5, 0xd26c4d12, 0xdf2f6bcb, 0xdbee767c,
     0xe3a1cbc1, 0xe760d676, 0xea23f0af, 0xeee2ed18, 0xf0a5bd1d, 0xf464a0aa, 0xf9278673, 0xfde69bc4,
     0x89b8fd09, 0x8d79e0be, 0x803ac667, 0x84fbdbd0, 0x9abc8bd5, 0x9e7d9662, 0x933eb0bb, 0x97ffad0c,
     0xafb010b1, 0xab710d06, 0xa6322bdf, 0xa2f33668, 0xbcb4666d, 0xb8757bda, 0xb5365d03, 0xb1f740b4]"

text \<open>The index is a 32-bit number below 256.\<close>

definition crc_step :: "u32 \<Rightarrow> u8 \<Rightarrow> u32" where
  "crc_step crc b = push_bit 8 crc XOR crc_table ! unat (drop_bit 24 crc XOR ucast b)"

definition crc_loop :: "u32 \<Rightarrow> bytes \<Rightarrow> u32" where
  "crc_loop crc data = foldl crc_step crc data"

definition crc32 :: "bytes \<Rightarrow> u32" where
  "crc32 data = (if length data < 4 then 0 else crc_loop 0xFFFFFFFF data)"

subsection \<open>Bit-wise reference\<close>

definition poly_step :: "u32 \<Rightarrow> u32" where
  "poly_step r = (if bit r 31 then (push_bit 1 r) XOR 0x04c11db7 else push_bit 1 r)"

definition crc_bitwise_step :: "u32 \<Rightarrow> u8 \<Rightarrow> u32" where
  "crc_bitwise_step crc b = (poly_step ^^ 8) (crc XOR push_bit 24 (ucast b))"

lemma length_crc_table: "length crc_table = 256"
  by (simp add: crc_table_def)

subsection \<open>The table\<close>

text \<open>The table is closed under exclusive or: each power of two doubles the part in front of it.\<close>

definition double :: "u32 list \<Rightarrow> u32 \<Rightarrow> u32 list" where
  "double t x = t @ map (\<lambda>y. y XOR x) t"

definition generators :: "u32 list" where
  "generators = [0x04c11db7, 0x09823b6e, 0x130476dc, 0x2608edb8, 0x4c11db70, 0x9823b6e0, 0x34867077, 0x690ce0ee]"

lemma crc_table_doubling: "crc_table = foldl double [0] generators"
  by (simp add: crc_table_def generators_def double_def)

lemma poly_step_xor: "poly_step (a XOR b) = poly_step a XOR poly_step b"
  by (rule bit_word_eqI) (auto simp: poly_step_def bit_simps)

lemma poly_steps_xor: "(poly_step ^^ n) (a XOR b) = (poly_step ^^ n) a XOR (poly_step ^^ n) b"
  by (induction n) (simp_all add: poly_step_xor)

definition remainder :: "u32 \<Rightarrow> u32" where
  "remainder i = (poly_step ^^ 8) (push_bit 24 i)"

lemma remainder_xor: "remainder (a XOR b) = remainder a XOR remainder b"
  by (simp add: remainder_def poly_steps_xor push_bit_xor)

lemma remainder_generators:
  "remainder 1 = 0x04c11db7" "remainder 2 = 0x09823b6e" "remainder 4 = 0x130476dc" "remainder 8 = 0x2608edb8"
  "remainder 16 = 0x4c11db70" "remainder 32 = 0x9823b6e0" "remainder 64 = 0x34867077" "remainder 128 = 0x690ce0ee"
  by code_simp+

lemma remainder_0: "remainder 0 = 0"
  by code_simp

definition remainders :: "nat \<Rightarrow> u32 list" where
  "remainders n = map (\<lambda>i. remainder (of_nat i)) [0..<n]"

lemma not_bit_of_nat: "i < 2 ^ k \<Longrightarrow> \<not> bit (of_nat i :: u32) k"
  using bit_small [of "of_nat i :: u32" k k] by (auto simp: unat_of_nat intro: le_less_trans [OF mod_less_eq_dividend])

lemma of_nat_xor_power:
  assumes "i < 2 ^ k" "k < 32"
  shows "(of_nat (2 ^ k + i) :: u32) = of_nat i XOR 2 ^ k"
proof -
  have "(of_nat i :: u32) AND 2 ^ k = 0" using not_bit_of_nat [OF assms(1)] by (simp add: and_exp_eq_0_iff_not_bit)
  then have "of_nat i + 2 ^ k = (of_nat i :: u32) XOR 2 ^ k" by (rule disjunctive_add_eq_xor)
  then show ?thesis by (simp add: add.commute)
qed

lemma double_remainders:
  assumes "k < 32" "remainder (2 ^ k) = x"
  shows "double (remainders (2 ^ k)) x = remainders (2 ^ Suc k)"
proof -
  have upper: "remainder (of_nat (2 ^ k + i)) = remainder (of_nat i) XOR x" if "i < 2 ^ k" for i
    using assms by (simp only: of_nat_xor_power [OF that assms(1)] remainder_xor)
  have "map (\<lambda>i. remainder (of_nat i)) [2 ^ k ..< 2 ^ k + 2 ^ k] =
      map (\<lambda>i. remainder (of_nat (2 ^ k + i))) [0 ..< 2 ^ k]"
    by (intro nth_equalityI) (simp_all del: of_nat_add)
  also have "\<dots> = map (\<lambda>i. remainder (of_nat i) XOR x) [0 ..< 2 ^ k]"
    by (rule map_cong [OF refl]) (simp only: upper atLeastLessThan_iff set_upt)
  finally have "map (\<lambda>i. remainder (of_nat i)) [2 ^ k ..< 2 ^ k + 2 ^ k] =
      map (\<lambda>i. remainder (of_nat i) XOR x) [0 ..< 2 ^ k]" .
  then show ?thesis
    by (simp only: double_def remainders_def mult_2 power_Suc upt_add_eq_append [OF le0] map_append map_map o_def)
qed

lemma crc_table_remainders: "crc_table = remainders 256"
proof -
  have "[0] = remainders (2 ^ 0)" by (simp add: remainders_def remainder_0)
  moreover have "double (remainders (2 ^ 0)) 0x04c11db7 = remainders (2 ^ 1)"
    "double (remainders (2 ^ 1)) 0x09823b6e = remainders (2 ^ 2)"
    "double (remainders (2 ^ 2)) 0x130476dc = remainders (2 ^ 3)"
    "double (remainders (2 ^ 3)) 0x2608edb8 = remainders (2 ^ 4)"
    "double (remainders (2 ^ 4)) 0x4c11db70 = remainders (2 ^ 5)"
    "double (remainders (2 ^ 5)) 0x9823b6e0 = remainders (2 ^ 6)"
    "double (remainders (2 ^ 6)) 0x34867077 = remainders (2 ^ 7)"
    "double (remainders (2 ^ 7)) 0x690ce0ee = remainders (2 ^ 8)"
    using double_remainders [of 0] double_remainders [of 1] double_remainders [of 2] double_remainders [of 3]
      double_remainders [of 4] double_remainders [of 5] double_remainders [of 6] double_remainders [of 7]
      remainder_generators by simp_all
  ultimately have "foldl double [0] generators = remainders (2 ^ 8)"
    by (simp only: generators_def foldl_Cons foldl_Nil)
  then show ?thesis by (simp add: crc_table_doubling)
qed

subsection \<open>Table look-up as polynomial division\<close>

lemma poly_steps_shift:
  assumes "\<And>k. bit r k \<Longrightarrow> k < 32 - n" "n \<le> 32"
  shows "(poly_step ^^ n) r = push_bit n r"
  using assms
proof (induction n)
  case (Suc n)
  have "(poly_step ^^ n) r = push_bit n r" by (rule Suc.IH) (use Suc.prems in force)+
  moreover have "\<not> bit (push_bit n r) 31" using Suc.prems by (force simp: bit_simps)
  moreover have "poly_step (push_bit n r) = push_bit (Suc n) r" if "\<not> bit (push_bit n r) 31"
    using that unfolding poly_step_def by (simp only: if_False push_bit_push_bit plus_1_eq_Suc)
  ultimately show ?case by simp
qed simp

lemma crc_step_bitwise: "crc_step crc b = crc_bitwise_step crc b"
proof -
  define i where "i = (drop_bit 24 crc XOR ucast b :: u32)"
  define low where "low = take_bit 24 crc"
  have "i = take_bit 8 i" by (rule bit_word_eqI) (auto simp: i_def bit_simps dest: bit_imp_le_length)
  then have "unat i < 2 ^ 8" by (metis take_bit_nat_less_exp unsigned_take_bit_eq)
  then have table: "crc_table ! unat i = remainder i" by (simp add: crc_table_remainders remainders_def)
  have split: "crc XOR push_bit 24 (ucast b) = low XOR push_bit 24 i"
    by (rule bit_word_eqI) (auto simp: i_def low_def bit_simps)
  have "(poly_step ^^ 8) low = push_bit 8 low"
    by (rule poly_steps_shift) (auto simp: low_def bit_simps)
  also have "\<dots> = push_bit 8 crc" by (rule bit_word_eqI) (auto simp: low_def bit_simps)
  finally show ?thesis
    by (simp only: crc_step_def crc_bitwise_step_def i_def [symmetric] table split poly_steps_xor remainder_def)
qed

lemma poly_step_inj: "poly_step a = poly_step b \<Longrightarrow> a = b"
proof (rule bit_word_eqI)
  fix n assume eq: "poly_step a = poly_step b" and n: "n < LENGTH(32)"
  have "bit (poly_step a) 0 = bit a 31" "bit (poly_step b) 0 = bit b 31" by (simp_all add: poly_step_def bit_0 even_xor_iff)
  with eq have top: "bit a 31 = bit b 31" by simp
  with eq have shifted: "push_bit 1 a = push_bit 1 b"
    by (auto simp only: poly_step_def split: if_splits) (metis xor_cancel)
  show "bit a n = bit b n"
  proof (cases "n = 31")
    case False
    with n have "n < 31" by simp
    moreover have "bit (push_bit 1 a) (Suc n) = bit (push_bit 1 b) (Suc n)" by (simp only: shifted)
    ultimately show ?thesis by (simp only: bit_push_bit_iff) simp
  qed (simp add: top)
qed

lemma poly_steps_inj: "(poly_step ^^ n) a = (poly_step ^^ n) b \<Longrightarrow> a = b"
  by (induction n) (auto dest: poly_step_inj)

lemma poly_steps_0: "(poly_step ^^ n) 0 = 0"
  by (induction n) (simp_all add: poly_step_def)

lemma poly_steps_byte:
  assumes "k + n \<le> 24"
  shows "(poly_step ^^ n) (push_bit k (ucast (c :: u8))) = push_bit (k + n) (ucast c)"
proof -
  have "(poly_step ^^ n) (push_bit k (ucast c)) = push_bit n (push_bit k (ucast c :: u32))"
    by (rule poly_steps_shift) (use assms in \<open>auto simp: bit_simps dest: bit_imp_le_length\<close>)
  then show ?thesis by (simp add: push_bit_push_bit add.commute)
qed

lemma word_of_bytes:
  "(w :: u32) = push_bit 24 (ucast (ucast (drop_bit 24 w) :: u8)) XOR push_bit 16 (ucast (ucast (drop_bit 16 w) :: u8)) XOR
     push_bit 8 (ucast (ucast (drop_bit 8 w) :: u8)) XOR push_bit 0 (ucast (ucast w :: u8))"
proof (rule bit_word_eqI)
  fix n assume "n < LENGTH(32)"
  then consider "n < 8" | "8 \<le> n" "n < 16" | "16 \<le> n" "n < 24" | "24 \<le> n" "n < 32" by fastforce
  then show "bit w n \<longleftrightarrow> bit (push_bit 24 (ucast (ucast (drop_bit 24 w) :: u8)) XOR
      push_bit 16 (ucast (ucast (drop_bit 16 w) :: u8)) XOR push_bit 8 (ucast (ucast (drop_bit 8 w) :: u8)) XOR
      push_bit 0 (ucast (ucast w :: u8)) :: u32) n"
    by cases (simp_all add: bit_simps less_diff_conv2)
qed

lemma crc_loop_word: "crc_loop crc (be_bytes 4 w) = (poly_step ^^ 32) (crc XOR w)"
proof -
  define b where "b k = (ucast (drop_bit k w) :: u8)" for k
  have bytes: "be_bytes 4 w = [b 24, b 16, b 8, b 0]" by (simp add: b_def)
  have w: "w = push_bit 24 (ucast (b 24)) XOR push_bit 16 (ucast (b 16)) XOR push_bit 8 (ucast (b 8)) XOR push_bit 0 (ucast (b 0))"
    unfolding b_def using word_of_bytes [of w] by simp
  have P32: "poly_step ^^ 32 = (poly_step ^^ 8) \<circ> (poly_step ^^ 8) \<circ> (poly_step ^^ 8) \<circ> (poly_step ^^ 8)"
    by (simp flip: funpow_add)
  show ?thesis unfolding bytes
    by (subst w) (simp add: crc_loop_def crc_step_bitwise crc_bitwise_step_def P32 poly_steps_xor poly_steps_byte
      xor.assoc del: push_bit_0_id)
qed

lemma crc_loop_append: "crc_loop c (xs @ ys) = crc_loop (crc_loop c xs) ys"
  by (simp add: crc_loop_def)

lemma crc_loop_inj: "crc_loop c xs = crc_loop d xs \<Longrightarrow> c = d"
proof (induction xs rule: rev_induct)
  case (snoc x xs)
  then show ?case
    by (auto simp: crc_loop_append crc_step_bitwise crc_bitwise_step_def crc_loop_def dest!: poly_steps_inj)
      (metis xor_cancel)
qed (simp add: crc_loop_def)

lemma crc_loop_word_inj:
  assumes "crc_loop c xs = crc_loop c ys" "length xs = 4" "length ys = 4"
  shows "xs = ys"
proof -
  define v w where "v = (be_word xs :: u32)" and "w = (be_word ys :: u32)"
  have xs: "xs = be_bytes 4 v" and ys: "ys = be_bytes 4 w"
    using assms(2,3) unfolding v_def w_def
    by (simp_all add: be_bytes_be_word del: be_bytes_numeral)
  have "c XOR v = c XOR w"
    using assms(1) unfolding xs ys crc_loop_word by (rule poly_steps_inj)
  then have "v = w" by (metis xor_cancel xor.commute)
  then show ?thesis by (simp add: xs ys)
qed

text \<open>C17: The table-driven checksum is the bit-wise division by the generator polynomial
  0x04c11db7 that starts with all ones, for every section of at least four bytes, and 0 for a shorter one.\<close>
theorem crc32_is_polynomial_division:
  "crc32 data = (if length data < 4 then 0 else foldl crc_bitwise_step 0xFFFFFFFF data)"
  by (simp add: crc32_def crc_loop_def crc_step_bitwise [abs_def])

lemma crc32_append_own: "4 \<le> length data \<Longrightarrow> crc32 (data @ be_bytes 4 (crc32 data)) = 0"
  by (simp add: crc32_def crc_loop_append crc_loop_word poly_steps_0 del: be_bytes_numeral)

text \<open>C32: For a section of at least four bytes, appending its checksum in network byte order gives a section
  whose own checksum is 0, and no other four bytes do.\<close>
theorem crc32_accepts_exactly:
  assumes "length data \<ge> 4" "length trailer = 4"
  shows "crc32 (data @ trailer) = 0 \<longleftrightarrow> trailer = be_bytes 4 (crc32 data)"
proof -
  define c where "c = crc_loop 0xFFFFFFFF data"
  have own: "crc_loop c (be_bytes 4 c) = 0" unfolding crc_loop_word by (simp add: poly_steps_0)
  have "crc_loop c trailer = 0 \<longleftrightarrow> trailer = be_bytes 4 c"
    using own crc_loop_word_inj [of c trailer "be_bytes 4 c"] assms(2) by (auto simp del: be_bytes_numeral)
  moreover have "crc32 data = c" "crc32 (data @ trailer) = crc_loop c trailer"
    using assms by (simp_all add: crc32_def crc_loop_append c_def)
  ultimately show ?thesis by simp
qed

theorem crc32_accepts_exactly_witness:
  "crc32 ([1, 2, 3, 4] @ be_bytes 4 (crc32 [1, 2, 3, 4])) = 0"
  using crc32_accepts_exactly [of "[1, 2, 3, 4]" "be_bytes 4 (crc32 [1, 2, 3, 4])"]
  by (simp del: be_bytes_numeral)

text \<open>C33: Two sections that differ only within four consecutive bytes have different checksums: every burst error
  of that length is detected.\<close>
theorem crc32_detects_bursts:
  assumes "length burst = 4" "length burst' = 4" "burst \<noteq> burst'"
  shows "crc32 (before @ burst @ after) \<noteq> crc32 (before @ burst' @ after)"
proof
  assume "crc32 (before @ burst @ after) = crc32 (before @ burst' @ after)"
  then have "crc_loop (crc_loop (crc_loop 0xFFFFFFFF before) burst) after =
      crc_loop (crc_loop (crc_loop 0xFFFFFFFF before) burst') after"
    using assms by (simp add: crc32_def crc_loop_append)
  then have "crc_loop (crc_loop 0xFFFFFFFF before) burst = crc_loop (crc_loop 0xFFFFFFFF before) burst'"
    by (rule crc_loop_inj)
  then have "burst = burst'" using assms(1,2) by (rule crc_loop_word_inj)
  with assms(3) show False ..
qed

theorem crc32_detects_bursts_witness:
  "crc32 ([0] @ [1, 2, 3, 4] @ [5]) \<noteq> crc32 ([0] @ [1, 2, 3, 5] @ [5])"
  by (rule crc32_detects_bursts) simp_all

end
