(* ===== verification/Stackstring.thy ===== *)
theory Stackstring
  imports Prelude "HOL-Library.Monad_Syntax"
begin

text \<open>
  The growable buffers of the program (\<open>databuffer_\<close> in \<open>stackstring/stackstring.h\<close> and
  \<open>stackstring_impl.h\<close>): a few elements inside the object, an allocated block when they do not suffice,
  or a view on foreign memory that cannot grow. A buffer is modelled by the elements below its size, its
  capacity and the two flags; \<open>None\<close> is an access outside of the capacity, a failed assertion, an
  exception or a signed overflow.
\<close>

record 'a databuffer =
  db_data :: "'a list"
  db_capacity :: int
  db_inline_capacity :: int
  db_is_allocated :: bool
  db_is_view :: bool

text \<open>
  What the operations need to know of the element type: the bytes of an element of a trivial type (0 stands for a class
  type, whose elements are constructed and destroyed one by one), the value of \<open>data_t{}\<close>, and the content of
  memory that was never written.
\<close>

record 'a element_t =
  elem_width :: nat
  elem_default :: 'a
  elem_memory :: "nat \<Rightarrow> 'a"

definition is_trivial :: "'a element_t \<Rightarrow> bool" where
  "is_trivial t = (elem_width t > 0)"

definition byte_elements :: "u8 element_t" where
  "byte_elements = \<lparr>elem_width = 1, elem_default = 0, elem_memory = (\<lambda>_. 0)\<rparr>"

definition db_size :: "'a databuffer \<Rightarrow> int" where
  "db_size b = int (length (db_data b))"

definition new_databuffer :: "int \<Rightarrow> 'a databuffer" where
  "new_databuffer n = \<lparr>db_data = [], db_capacity = n, db_inline_capacity = n, db_is_allocated = False, db_is_view = False\<rparr>"

definition view_of :: "'a list \<Rightarrow> int \<Rightarrow> 'a databuffer" where
  "view_of xs cap = \<lparr>db_data = xs, db_capacity = cap, db_inline_capacity = 0, db_is_allocated = False, db_is_view = True\<rparr>"

text \<open>The smallest power of two that is not below a number, by smearing the highest bit.\<close>

definition smear :: "nat \<Rightarrow> u32 \<Rightarrow> u32" where
  "smear k n = n OR signed_drop_bit k n"

definition next_power_of_two :: "u32 \<Rightarrow> u32" where
  "next_power_of_two n = smear 16 (smear 8 (smear 4 (smear 2 (smear 1 (n - 1))))) + 1"

definition new_capacity :: "int \<Rightarrow> int \<Rightarrow> int option" where
  "new_capacity newsize old_length =
     (let newcap = sint (next_power_of_two (word_of_int newsize));
          newcap = (if newcap - old_length \<le> 32 then newcap * 2 else newcap);
          newcap = (if newcap = 0 then newcap + 1 else newcap)
      in if newcap < 2 ^ 31 \<and> old_length \<le> newcap then Some newcap else None)"

definition reserve :: "int \<Rightarrow> 'a databuffer \<Rightarrow> 'a databuffer option" where
  "reserve newsize b =
     (if newsize \<le> db_capacity b then Some b
      else if db_is_view b then Some b
      else do {
        newcap \<leftarrow> new_capacity newsize (db_size b);
        Some (b\<lparr>db_capacity := newcap, db_is_allocated := True\<rparr>)
      })"

text \<open>Storing elements behind the size, which must fit into the memory of the buffer.\<close>

definition extend :: "'a list \<Rightarrow> 'a databuffer \<Rightarrow> 'a databuffer option" where
  "extend xs b = (if db_size b + int (length xs) \<le> db_capacity b then Some (b\<lparr>db_data := db_data b @ xs\<rparr>) else None)"

text \<open>
  The elements between the old end and an accessed position behind it: a trivial type gets as many zero bytes
  as there are elements, so that only some of its elements are cleared when they are wider than a byte.
\<close>

definition gap_elements :: "'a element_t \<Rightarrow> nat \<Rightarrow> 'a list" where
  "gap_elements t n = map (\<lambda>k. if (k + 1) * elem_width t \<le> n then elem_default t else elem_memory t k) [0..<n]"

lemma length_gap_elements [simp]: "length (gap_elements t n) = n"
  by (simp add: gap_elements_def)

lemma gap_elements_0 [simp]: "gap_elements t 0 = []"
  by (simp add: gap_elements_def)

lemma gap_elements_overwritten [simp]: "(xs @ gap_elements t (Suc 0))[length xs := v] = xs @ [v]"
  by (simp add: gap_elements_def)

text \<open>
  Element access for writing: a negative position counts from the end, a position behind the end grows the
  buffer. The result is the position and the buffer.
\<close>

definition db_at :: "'a element_t \<Rightarrow> int \<Rightarrow> 'a databuffer \<Rightarrow> (nat \<times> 'a databuffer) option" where
  "db_at t pos b =
     (let s = db_size b;
          pos = (if pos < 0 then s + pos else pos)
      in if pos < 0 then None
         else do {
           b \<leftarrow> reserve (pos + 1) b;
           b \<leftarrow> (if pos \<ge> s then extend (gap_elements t (nat (pos - s + 1))) b else Some b);
           Some (nat pos, b)
         })"

definition db_get :: "int \<Rightarrow> 'a databuffer \<Rightarrow> 'a option" where
  "db_get pos b =
     (let pos = (if pos < 0 then db_size b + pos else pos)
      in if pos < 0 then None
         else if pos \<ge> db_capacity b \<or> pos \<ge> db_size b then None
         else Some (db_data b ! nat pos))"

definition db_set :: "'a element_t \<Rightarrow> int \<Rightarrow> 'a \<Rightarrow> 'a databuffer \<Rightarrow> 'a databuffer option" where
  "db_set t pos v b = do {
     (i, b) \<leftarrow> db_at t pos b;
     Some (b\<lparr>db_data := (db_data b)[i := v]\<rparr>)
   }"

definition push_back :: "'a element_t \<Rightarrow> 'a \<Rightarrow> 'a databuffer \<Rightarrow> 'a databuffer option" where
  "push_back t v b = do {
     b \<leftarrow> reserve (db_size b + 1) b;
     db_set t (db_size b) v b
   }"

text \<open>
  Appending the memory of an array, for buffers of bytes, the only ones for which it makes sense according to its comment: \<open>xs\<close>
  are the bytes of the array. The number of bytes and the new size are computed as \<open>int\<close>.
\<close>

definition append_raw :: "bytes \<Rightarrow> u8 databuffer \<Rightarrow> u8 databuffer option" where
  "append_raw xs b =
     (let data_len = int (length xs);
          r = db_size b + data_len
      in if data_len \<ge> 2 ^ 31 \<or> r \<ge> 2 ^ 31 then None
         else do { b \<leftarrow> reserve r b; extend xs b })"

text \<open>\<open>resize_no_init\<close> leaves new elements uninitialised: their values are the argument \<open>fill\<close>.\<close>

definition resize_no_init :: "(nat \<Rightarrow> 'a) \<Rightarrow> int \<Rightarrow> 'a databuffer \<Rightarrow> 'a databuffer option" where
  "resize_no_init fill new_size b =
     (if new_size < 0 then None
      else do {
        b \<leftarrow> reserve new_size b;
        if new_size \<le> db_size b then Some (b\<lparr>db_data := take (nat new_size) (db_data b)\<rparr>)
        else extend (map fill [length (db_data b) ..< nat new_size]) b
      })"

fun resize_loop :: "'a element_t \<Rightarrow> nat \<Rightarrow> int \<Rightarrow> 'a databuffer \<Rightarrow> 'a databuffer option" where
  "resize_loop t 0 i b = Some b"
| "resize_loop t (Suc n) i b = do {
     b \<leftarrow> db_set t i (elem_default t) b;
     resize_loop t n (i + 1) b
   }"

definition resize :: "'a element_t \<Rightarrow> int \<Rightarrow> 'a databuffer \<Rightarrow> 'a databuffer option" where
  "resize t new_size b =
     (let old_size = db_size b
      in if old_size = new_size then Some b
         else if new_size < 0 then None
         else if new_size < old_size then Some (b\<lparr>db_data := take (nat new_size) (db_data b)\<rparr>)
         else do {
           b \<leftarrow> reserve new_size b;
           resize_loop t (nat (new_size - old_size)) old_size b
         })"

definition truncate :: "int \<Rightarrow> 'a databuffer \<Rightarrow> 'a databuffer option" where
  "truncate n b =
     (if n < db_size b then (if n < 0 then None else Some (b\<lparr>db_data := take (nat n) (db_data b)\<rparr>)) else Some b)"

fun shift_down :: "nat \<Rightarrow> nat \<Rightarrow> 'a list \<Rightarrow> 'a list" where
  "shift_down i 0 xs = xs"
| "shift_down i (Suc n) xs = shift_down (Suc i) n (xs[i := xs ! Suc i])"

definition erase :: "int \<Rightarrow> 'a databuffer \<Rightarrow> 'a databuffer option" where
  "erase idx b =
     (if idx < 0 \<or> idx \<ge> db_size b then None
      else truncate (db_size b - 1)
        (b\<lparr>db_data := shift_down (nat idx) (length (db_data b) - nat idx - 1) (db_data b)\<rparr>))"

definition clear :: "bool \<Rightarrow> 'a databuffer \<Rightarrow> 'a databuffer" where
  "clear release b =
     (if release
      then if db_is_view b then b
      else b\<lparr>db_data := [], db_capacity := (if db_is_allocated b then db_inline_capacity b else db_capacity b),
             db_is_allocated := False\<rparr>
      else b\<lparr>db_data := []\<rparr>)"

definition copy_raw :: "'a list \<Rightarrow> 'a databuffer \<Rightarrow> 'a databuffer option" where
  "copy_raw xs b = do {
     b \<leftarrow> reserve (int (length xs)) b;
     if int (length xs) \<le> db_capacity b then Some (b\<lparr>db_data := xs\<rparr>) else None
   }"

fun fold_option :: "('x \<Rightarrow> 's \<Rightarrow> 's option) \<Rightarrow> 'x list \<Rightarrow> 's \<Rightarrow> 's option" where
  "fold_option f [] s = Some s"
| "fold_option f (x # xs) s = do { s \<leftarrow> f x s; fold_option f xs s }"

definition push_all :: "'a element_t \<Rightarrow> 'a list \<Rightarrow> 'a databuffer \<Rightarrow> 'a databuffer option" where
  "push_all t xs b = fold_option (push_back t) xs b"

text \<open>Copying another buffer: trivial element types in one block, others one by one.\<close>

definition copy :: "'a element_t \<Rightarrow> 'a databuffer \<Rightarrow> 'a databuffer \<Rightarrow> 'a databuffer option" where
  "copy t x b = (if is_trivial t then copy_raw (db_data x) b else push_all t (db_data x) (clear False b))"

fun index_from :: "int \<Rightarrow> 'a \<Rightarrow> 'a list \<Rightarrow> int" where
  "index_from i x [] = -1"
| "index_from i x (y # ys) = (if y = x then i else index_from (i + 1) x ys)"

definition index_of :: "'a \<Rightarrow> 'a databuffer \<Rightarrow> int" where
  "index_of x b = index_from 0 x (db_data b)"

definition db_contains :: "'a \<Rightarrow> 'a databuffer \<Rightarrow> bool" where
  "db_contains x b = (index_of x b \<ge> 0)"

text \<open>
  Equality: trivial elements are compared in memory, with the number of elements as the number of bytes;
  \<open>enc\<close> gives the bytes of an element.
\<close>

definition db_equal :: "'a element_t \<Rightarrow> ('a \<Rightarrow> bytes) \<Rightarrow> 'a databuffer \<Rightarrow> 'a databuffer \<Rightarrow> bool" where
  "db_equal t enc a b =
     (if db_size b \<noteq> db_size a then False
      else if is_trivial t
      then take (nat (db_size a)) (concat (map enc (db_data a))) = take (nat (db_size a)) (concat (map enc (db_data b)))
      else db_data a = db_data b)"

text \<open>Comparison of byte buffers; \<open>memcmp\<close> on the common length gives -1, 0 or 1 here.\<close>

definition memcmp_prefix :: "bytes \<Rightarrow> bytes \<Rightarrow> int" where
  "memcmp_prefix a b =
     (let n = min (length a) (length b)
      in if take n a = take n b then 0 else if memcmp_less (take n a) (take n b) then -1 else 1)"

definition cmp :: "u8 databuffer \<Rightarrow> u8 databuffer \<Rightarrow> int" where
  "cmp a b =
     (let ret = memcmp_prefix (db_data a) (db_data b)
      in if ret \<noteq> 0 then ret else of_bool (db_size a < db_size b))"

text \<open>
  Rotation of a vector by \<open>r\<close> positions, cycle by cycle; a cycle has at most as many steps as the vector has
  elements, which is the fuel. The remainder of C++ has the sign of the dividend.
\<close>

fun rotate_cycle :: "nat \<Rightarrow> nat \<Rightarrow> nat \<Rightarrow> nat \<Rightarrow> 'a list \<Rightarrow> 'a list option" where
  "rotate_cycle 0 i r j v = None"
| "rotate_cycle (Suc fuel) i r j v =
     (let nextj = (j + r) mod length v
      in if nextj = i then Some v else rotate_cycle fuel i r nextj (v[j := v ! nextj]))"

fun rotate_cycles :: "nat \<Rightarrow> nat \<Rightarrow> nat \<Rightarrow> 'a list \<Rightarrow> 'a list option" where
  "rotate_cycles 0 i r v = Some v"
| "rotate_cycles (Suc steps) i r v = do {
     v \<leftarrow> rotate_cycle (length v) i r i v;
     rotate_cycles steps (Suc i) r v
   }"

definition rotate_vector :: "int \<Rightarrow> 'a list \<Rightarrow> 'a list option" where
  "rotate_vector r v =
     (let n = int (length v)
      in if r = 0 then Some v
         else if n = 0 \<or> r + n < 0 then None
         else let r = nat ((r + n) mod n) in rotate_cycles (gcd r (length v)) 0 r v)"

subsection \<open>Capacity\<close>

definition covers :: "nat \<Rightarrow> nat \<Rightarrow> u32 \<Rightarrow> bool" where
  "covers t s m \<longleftrightarrow> (\<forall>i. bit m i \<longrightarrow> i \<le> t) \<and> (\<forall>i \<le> t. t < i + s \<longrightarrow> bit m i)"

lemma covers_smear:
  assumes "covers t s m" "k \<le> s" "t < 31"
  shows "covers t (s + k) (smear k m)"
proof -
  have "\<not> bit m 31" using assms(1,3) by (auto simp: covers_def)
  then have bits: "bit (smear k m) i = (bit m i \<or> bit m (i + k))" for i
    using bit_imp_le_length [of m i] bit_imp_le_length [of m "i + k"]
    by (auto simp: smear_def bit_simps add.commute eval_nat_numeral)
  show ?thesis
    unfolding covers_def bits
  proof (intro conjI allI impI)
    fix i assume i: "i \<le> t" "t < i + (s + k)"
    show "bit m i \<or> bit m (i + k)"
    proof (cases "t < i + s")
      case False
      then have "i + k \<le> t" "t < i + k + s" using i assms(2) by simp_all
      then show ?thesis using assms(1) by (simp add: covers_def)
    qed (use assms(1) i in \<open>simp add: covers_def\<close>)
  qed (use assms(1) in \<open>auto simp: covers_def\<close>)
qed

lemma top_bit:
  fixes m :: u32
  assumes "2 ^ t \<le> unat m" "unat m < 2 ^ Suc t"
  shows "covers t 1 m"
proof -
  have "unat m div 2 ^ t = 1" using assms by (intro div_nat_eqI) simp_all
  then have "bit (unat m) t" by (simp add: bit_iff_odd)
  then have "bit m t" by (simp add: bit_unsigned_iff)
  then show ?thesis using bit_small [OF assms(2)] by (auto simp: covers_def less_Suc_eq_le antisym)
qed

lemma covers_all: "covers t 32 m \<Longrightarrow> t < 32 \<Longrightarrow> m = mask (Suc t)"
  by (rule bit_word_eqI) (auto simp: covers_def bit_simps)

lemma next_power_of_two_spec:
  assumes "0 < n" "n \<le> 2 ^ 30"
  shows "\<exists>k \<le> 30. next_power_of_two (of_nat n) = 2 ^ k \<and> n \<le> 2 ^ k \<and> 2 ^ k < 2 * n"
proof -
  define m where "m = (of_nat n - 1 :: u32)"
  have m: "unat m = n - 1"
  proof -
    have "m = of_nat (n - 1)" using assms(1) by (simp add: m_def of_nat_diff)
    then show ?thesis using assms(2) by (simp add: unat_of_nat)
  qed
  show ?thesis
  proof (cases "n = 1")
    case True
    then have "next_power_of_two (of_nat n) = 1" by (simp add: next_power_of_two_def smear_def)
    with True show ?thesis by (intro exI [of _ 0]) simp
  next
    case False
    then have "1 \<le> n - 1" using assms(1) by simp
    from ex_power_ivl1 [OF order_refl this] obtain t where t: "2 ^ t \<le> unat m" "unat m < 2 ^ (t + 1)"
      by (auto simp: m)
    have "(2 :: nat) ^ t < 2 ^ 30" using t(1) m assms by (intro le_less_trans [of "2 ^ t" "n - 1"]) simp_all
    then have "t < 30" by (simp only: power_strict_increasing_iff)
    then have "covers t 32 (smear 16 (smear 8 (smear 4 (smear 2 (smear 1 m)))))"
      using covers_smear [OF covers_smear [OF covers_smear [OF covers_smear [OF covers_smear [OF top_bit [of t m]]]]], of 1 2 4 8 16] t
      by simp
    then have "next_power_of_two (of_nat n) = mask (Suc t) + 1"
      using \<open>t < 30\<close> covers_all by (simp add: next_power_of_two_def m_def)
    also have "\<dots> = 2 ^ Suc t" by (simp only: mask_eq_exp_minus_1 diff_add_cancel)
    finally have "next_power_of_two (of_nat n) = 2 ^ Suc t" .
    moreover have "n \<le> 2 ^ Suc t" using t(2) m by simp
    moreover have "(2 :: nat) ^ Suc t < 2 * n" using t(1) m assms(1) by simp
    ultimately show ?thesis using \<open>t < 30\<close> by (intro exI [of _ "Suc t"]) simp
  qed
qed

subsection \<open>Buffers as lists\<close>

text \<open>A buffer that owns its memory: its elements fit into the capacity.\<close>

definition db_ok :: "'a databuffer \<Rightarrow> bool" where
  "db_ok b \<longleftrightarrow> \<not> db_is_view b \<and> db_size b \<le> db_capacity b \<and> db_capacity b < 2 ^ 31"

abbreviation max_size :: nat where "max_size \<equiv> 2 ^ 29"

lemma db_ok_new: "0 \<le> n \<Longrightarrow> n < 2 ^ 31 \<Longrightarrow> db_ok (new_databuffer n)"
  by (simp add: db_ok_def new_databuffer_def db_size_def)

lemma new_capacity_spec:
  assumes "0 < n" "n \<le> int max_size" "0 \<le> old" "old < n"
  shows "\<exists>c. new_capacity n old = Some c \<and> n \<le> c \<and> c < 2 ^ 31 \<and> c < 4 * n"
proof -
  from assms(1,2) next_power_of_two_spec [of "nat n"] obtain k where k: "next_power_of_two (word_of_int n) = 2 ^ k"
    "nat n \<le> 2 ^ k" "2 ^ k < 2 * nat n" by (auto simp: nat_le_iff)
  have "(2 :: nat) ^ k < 2 ^ 30" using k(3) assms(2) by (simp add: nat_le_iff)
  then have "k < 30" by (simp only: power_strict_increasing_iff)
  moreover have "sint (2 ^ k :: u32) = 2 ^ k" if "k < 30"
  proof -
    have "- (2 ^ 31) \<le> (2 ^ k :: int)" by (rule order_trans [of _ 0]) simp_all
    moreover have "(2 ^ k :: int) < 2 ^ 31" using that power_strict_increasing [of k 31 "2 :: int"] by simp
    ultimately have "signed_take_bit 31 (2 ^ k :: int) = 2 ^ k" by (rule signed_take_bit_int_eq_self)
    moreover have "sint (word_of_int (2 ^ k) :: u32) = signed_take_bit 31 (2 ^ k)" by (simp only: signed_of_int) simp
    ultimately show ?thesis by simp
  qed
  moreover have "n \<le> 2 ^ k" using k(2) by (simp add: nat_le_iff)
  moreover have "int (2 ^ k) < int (2 * nat n)" using k(3) by (simp only: of_nat_less_iff)
  then have "2 ^ k < 2 * n" using assms(1) by simp
  ultimately show ?thesis
    using k(1) assms power_strict_increasing [of k 30 "2 :: int"] by (simp add: new_capacity_def Let_def)
qed

lemma reserve_spec:
  assumes "db_ok b" "n \<le> int max_size"
  shows "\<exists>b'. reserve n b = Some b' \<and> db_ok b' \<and> db_data b' = db_data b \<and> n \<le> db_capacity b' \<and>
    db_capacity b \<le> db_capacity b'"
proof (cases "n \<le> db_capacity b")
  case False
  have "0 \<le> db_size b" by (simp add: db_size_def)
  then obtain c where "new_capacity n (db_size b) = Some c" "n \<le> c" "c < 2 ^ 31"
    using new_capacity_spec [of n "db_size b"] False assms by (auto simp: db_ok_def)
  with False assms show ?thesis by (auto simp: reserve_def db_ok_def db_size_def)
qed (use assms in \<open>auto simp: reserve_def\<close>)


lemma extend_spec: "db_ok b \<Longrightarrow> db_size b + int (length xs) \<le> db_capacity b \<Longrightarrow>
    extend xs b = Some (b\<lparr>db_data := db_data b @ xs\<rparr>) \<and> db_ok (b\<lparr>db_data := db_data b @ xs\<rparr>)"
  by (simp add: extend_def db_ok_def db_size_def)

lemma append_raw_spec:
  assumes "db_ok b" "length (db_data b) + length xs \<le> max_size"
  shows "\<exists>b'. append_raw xs b = Some b' \<and> db_ok b' \<and> db_data b' = db_data b @ xs \<and> db_capacity b \<le> db_capacity b'"
proof -
  from assms obtain b1 where "reserve (db_size b + int (length xs)) b = Some b1" "db_ok b1" "db_data b1 = db_data b"
    "db_size b + int (length xs) \<le> db_capacity b1" "db_capacity b \<le> db_capacity b1"
    using reserve_spec [of b "db_size b + int (length xs)"] by (auto simp: db_size_def)
  moreover have "int max_size < 2 ^ 31" by simp
  then have "\<not> (int (length xs) \<ge> 2 ^ 31 \<or> db_size b + int (length xs) \<ge> 2 ^ 31)" using assms(2) by (auto simp: db_size_def)
  ultimately show ?thesis using extend_spec [of b1 xs] by (auto simp: append_raw_def db_size_def)
qed

text \<open>Writing to an element of a buffer grows it as far as needed.\<close>

lemma db_set_spec:
  fixes b :: "'a databuffer" and t :: "'a element_t"
  assumes "db_ok b" "0 \<le> pos" "pos < int max_size"
  defines "grown \<equiv> db_data b @ gap_elements t (nat (pos + 1) - length (db_data b))"
  shows "\<exists>b'. db_set t pos v b = Some b' \<and> db_ok b' \<and> db_data b' = grown[nat pos := v] \<and> db_capacity b \<le> db_capacity b'"
proof -
  from assms obtain b1 where r: "reserve (pos + 1) b = Some b1" "db_ok b1" "db_data b1 = db_data b" "pos + 1 \<le> db_capacity b1"
    "db_capacity b \<le> db_capacity b1"
    using reserve_spec [of b "pos + 1"] by auto
  show ?thesis
  proof (cases "pos \<ge> db_size b")
    case True
    have n: "nat (pos - db_size b + 1) = nat (pos + 1) - length (db_data b)" by (simp add: db_size_def)
    define b2 where "b2 = b1\<lparr>db_data := grown\<rparr>"
    have "extend (gap_elements t (nat (pos - db_size b + 1))) b1 = Some b2" "db_ok b2"
      using extend_spec [OF r(2), of "gap_elements t (nat (pos - db_size b + 1))"] r(3,4) True assms(2)
      unfolding n by (auto simp: db_size_def grown_def b2_def)
    moreover from this have "db_ok (b2\<lparr>db_data := (db_data b2)[nat pos := v]\<rparr>)" by (simp add: db_ok_def db_size_def)
    ultimately show ?thesis using r assms(2) True by (auto simp: db_set_def db_at_def b2_def)
  next
    case False
    then have "nat (pos + 1) - length (db_data b) = 0" by (simp add: db_size_def nat_le_iff)
    with r assms(2) False show ?thesis by (auto simp: db_set_def db_at_def db_ok_def db_size_def grown_def)
  qed
qed

lemma push_back_spec:
  assumes "db_ok b" "length (db_data b) < max_size"
  shows "\<exists>b'. push_back t v b = Some b' \<and> db_ok b' \<and> db_data b' = db_data b @ [v] \<and> db_capacity b \<le> db_capacity b'"
proof -
  from assms obtain b1 where "reserve (db_size b + 1) b = Some b1" "db_ok b1" "db_data b1 = db_data b"
    "db_capacity b \<le> db_capacity b1"
    using reserve_spec [of b "db_size b + 1"] by (auto simp: db_size_def)
  moreover from this assms db_set_spec [of b1 "db_size b1" t v]
  obtain b2 where "db_set t (db_size b1) v b1 = Some b2" "db_ok b2" "db_data b2 = db_data b @ [v]" "db_capacity b1 \<le> db_capacity b2"
    by (auto simp: db_size_def nat_add_distrib)
  ultimately show ?thesis by (auto simp: push_back_def)
qed

lemma resize_loop_spec:
  "db_ok b \<Longrightarrow> length (db_data b) + n \<le> max_size \<Longrightarrow>
    \<exists>b'. resize_loop t n (db_size b) b = Some b' \<and> db_ok b' \<and> db_data b' = db_data b @ replicate n (elem_default t)"
proof (induction n arbitrary: b)
  case (Suc n)
  then obtain b1 where b1: "db_set t (db_size b) (elem_default t) b = Some b1" "db_ok b1" "db_data b1 = db_data b @ [elem_default t]"
    using db_set_spec [of b "db_size b" t "elem_default t"] by (auto simp: db_size_def nat_add_distrib)
  then have "db_size b1 = db_size b + 1" by (simp add: db_size_def)
  with Suc.IH [of b1] b1 Suc.prems(2) show ?case by auto
qed auto

lemma resize_spec:
  assumes "db_ok b" "n \<le> max_size"
  shows "\<exists>b'. resize t (int n) b = Some b' \<and> db_ok b' \<and>
    db_data b' = take n (db_data b) @ replicate (n - length (db_data b)) (elem_default t)"
proof -
  consider "n = length (db_data b)" | "n < length (db_data b)" | "length (db_data b) < n" by linarith
  then show ?thesis
  proof cases
    case 3
    from assms obtain b1 where b1: "reserve (int n) b = Some b1" "db_ok b1" "db_data b1 = db_data b"
      using reserve_spec [of b "int n"] by auto
    then have "db_size b1 = db_size b" by (simp add: db_size_def)
    moreover have "nat (int n - db_size b) = n - length (db_data b)" by (simp add: db_size_def)
    ultimately show ?thesis
      using resize_loop_spec [of b1 "n - length (db_data b)" t] b1 3 assms(2) by (auto simp: resize_def db_size_def)
  qed (use assms in \<open>auto simp: resize_def db_ok_def db_size_def\<close>)
qed

lemma shift_down_spec:
  assumes "i + n < length xs"
  shows "length (shift_down i n xs) = length xs"
    "j < length xs \<Longrightarrow> shift_down i n xs ! j = (if i \<le> j \<and> j < i + n then xs ! Suc j else xs ! j)"
  using assms by (induction n arbitrary: i xs) (auto simp: nth_list_update)

lemma erase_spec:
  assumes "db_ok b" "0 \<le> i" "i < db_size b"
  shows "\<exists>b'. erase i b = Some b' \<and> db_ok b' \<and> db_data b' = take (nat i) (db_data b) @ drop (nat i + 1) (db_data b)"
proof -
  define n where "n = length (db_data b) - nat i - 1"
  have n: "nat i + n < length (db_data b)" "Suc (nat i + n) = length (db_data b)"
    using assms(2,3) by (auto simp: n_def db_size_def)
  define xs where "xs = shift_down (nat i) n (db_data b)"
  have len: "length xs = length (db_data b)" unfolding xs_def using n(1) by (rule shift_down_spec)
  have "take (nat i + n) xs = take (nat i) (db_data b) @ drop (Suc (nat i)) (db_data b)"
    unfolding xs_def using n by (intro nth_equalityI) (auto simp: shift_down_spec nth_append)
  moreover have "nat (db_size b - 1) = nat i + n" "db_size b - 1 < db_size (b\<lparr>db_data := xs\<rparr>)" "0 \<le> db_size b - 1"
    using n(2) len by (auto simp: db_size_def)
  moreover have "erase i b = truncate (db_size b - 1) (b\<lparr>db_data := xs\<rparr>)"
    using assms(2,3) by (simp add: erase_def xs_def n_def)
  ultimately have "erase i b = Some (b\<lparr>db_data := take (nat i) (db_data b) @ drop (Suc (nat i)) (db_data b)\<rparr>)"
    by (simp add: truncate_def)
  then show ?thesis using assms by (simp add: db_ok_def db_size_def)
qed

text \<open>
  What the rest of the program relies on: below a size bound a buffer is a list that grows at its end and from
  which single elements can be removed.
\<close>

locale sequence_buffer =
  fixes content :: "'b \<Rightarrow> 'a list" and inv :: "'b \<Rightarrow> bool" and bound :: nat
    and push :: "'a \<Rightarrow> 'b \<Rightarrow> 'b option" and remove :: "int \<Rightarrow> 'b \<Rightarrow> 'b option"
  assumes push_content: "inv b \<Longrightarrow> length (content b) < bound \<Longrightarrow>
      \<exists>b'. push x b = Some b' \<and> inv b' \<and> content b' = content b @ [x]"
    and remove_content: "inv b \<Longrightarrow> 0 \<le> i \<Longrightarrow> i < int (length (content b)) \<Longrightarrow>
      \<exists>b'. remove i b = Some b' \<and> inv b' \<and> content b' = take (nat i) (content b) @ drop (nat i + 1) (content b)"
begin

lemma push_many:
  "inv b \<Longrightarrow> length (content b) + length xs \<le> bound \<Longrightarrow>
    \<exists>b'. fold_option push xs b = Some b' \<and> inv b' \<and> content b' = content b @ xs"
proof (induction xs arbitrary: b)
  case (Cons x xs)
  then obtain b1 where b1: "push x b = Some b1" "inv b1" "content b1 = content b @ [x]" using push_content [of b x] by auto
  with Cons.IH [of b1] Cons.prems(2) show ?case by auto
qed auto

lemma pop_pushed:
  assumes "inv b" "length (content b) < bound"
  shows "\<exists>b1 b2. push x b = Some b1 \<and> remove (int (length (content b))) b1 = Some b2 \<and> inv b2 \<and> content b2 = content b"
proof -
  from assms obtain b1 where "push x b = Some b1" "inv b1" "content b1 = content b @ [x]" using push_content [of b x] by auto
  moreover from this obtain b2 where "remove (int (length (content b))) b1 = Some b2" "inv b2"
    "content b2 = content b" using remove_content [of b1 "int (length (content b))"] by auto
  ultimately show ?thesis by blast
qed

end

interpretation db: sequence_buffer db_data db_ok max_size "push_back t" erase for t
proof unfold_locales
  fix b :: "'a databuffer" and x :: 'a
  assume "db_ok b" "length (db_data b) < max_size"
  then show "\<exists>b'. push_back t x b = Some b' \<and> db_ok b' \<and> db_data b' = db_data b @ [x]"
    using push_back_spec [of b t x] by blast
next
  fix b :: "'a databuffer" and i :: int
  assume "db_ok b" "0 \<le> i" "i < int (length (db_data b))"
  then show "\<exists>b'. erase i b = Some b' \<and> db_ok b' \<and> db_data b' = take (nat i) (db_data b) @ drop (nat i + 1) (db_data b)"
    using erase_spec [of b i] by (simp add: db_size_def)
qed

text \<open>A buffer of bytes also takes whole blocks.\<close>

locale block_buffer = sequence_buffer content inv bound push remove
  for content :: "'b \<Rightarrow> 'a list" and inv :: "'b \<Rightarrow> bool" and bound :: nat
    and push :: "'a \<Rightarrow> 'b \<Rightarrow> 'b option" and remove :: "int \<Rightarrow> 'b \<Rightarrow> 'b option" +
  fixes append_all :: "'a list \<Rightarrow> 'b \<Rightarrow> 'b option"
  assumes append_content: "inv b \<Longrightarrow> length (content b) + length xs \<le> bound \<Longrightarrow>
      \<exists>b'. append_all xs b = Some b' \<and> inv b' \<and> content b' = content b @ xs"
begin

lemma append_many:
  "inv b \<Longrightarrow> length (content b) + length (concat xss) \<le> bound \<Longrightarrow>
    \<exists>b'. fold_option append_all xss b = Some b' \<and> inv b' \<and> content b' = content b @ concat xss"
proof (induction xss arbitrary: b)
  case (Cons xs xss)
  then obtain b1 where b1: "append_all xs b = Some b1" "inv b1" "content b1 = content b @ xs"
    using append_content [of b xs] by auto
  with Cons.IH [of b1] Cons.prems(2) show ?case by auto
qed auto

lemma block_pushed:
  assumes "inv b" "length (content b) + length xs \<le> bound"
  shows "\<exists>b1 b2. append_all xs b = Some b1 \<and> fold_option push xs b = Some b2 \<and> content b1 = content b2"
  using append_content [OF assms] push_many [OF assms] by auto

end

interpretation byte_db: block_buffer db_data db_ok max_size "push_back t" erase append_raw for t
proof
  fix b :: "u8 databuffer" and xs :: bytes
  assume "db_ok b" "length (db_data b) + length xs \<le> max_size"
  then show "\<exists>b'. append_raw xs b = Some b' \<and> db_ok b' \<and> db_data b' = db_data b @ xs"
    using append_raw_spec [of b xs] by blast
qed

lemma clear_spec: "db_ok b \<Longrightarrow> (db_is_allocated b \<longrightarrow> 0 \<le> db_inline_capacity b \<and> db_inline_capacity b < 2 ^ 31) \<Longrightarrow>
    db_ok (clear r b) \<and> db_data (clear r b) = []"
  by (auto simp: clear_def db_ok_def db_size_def)

lemma copy_raw_spec:
  assumes "db_ok b" "length xs \<le> max_size"
  shows "\<exists>b'. copy_raw xs b = Some b' \<and> db_ok b' \<and> db_data b' = xs"
proof -
  from assms obtain b1 where "reserve (int (length xs)) b = Some b1" "db_ok b1" "int (length xs) \<le> db_capacity b1"
    using reserve_spec [of b "int (length xs)"] by auto
  then show ?thesis by (auto simp: copy_raw_def db_ok_def db_size_def)
qed

lemma copy_spec:
  assumes "db_ok b" "length (db_data x) \<le> max_size"
  shows "\<exists>b'. copy t x b = Some b' \<and> db_ok b' \<and> db_data b' = db_data x"
proof (cases "is_trivial t")
  case True
  then show ?thesis using copy_raw_spec [OF assms(1), of "db_data x"] assms(2) by (auto simp: copy_def)
next
  case False
  have "db_ok (clear False b)" "db_data (clear False b) = []"
    using assms(1) by (auto simp: clear_def db_ok_def db_size_def)
  with False assms(2) db.push_many [of "clear False b" "db_data x" t] show ?thesis
    by (auto simp: copy_def push_all_def)
qed

subsection \<open>Properties\<close>

text \<open>C12: Below 2^29 elements a buffer that owns its memory behaves as a list: appending one element, removing an
  element, resizing and copying succeed for elements of any type, as does appending a block of memory to a buffer of bytes. They keep the
  invariant that the elements fit into the capacity, and change the elements as the list operations do, whether or not memory has to be
  reallocated.\<close>
theorem databuffer_refines_list:
  fixes b :: "'a databuffer" and c :: "u8 databuffer"
  assumes "db_ok b" "db_ok c"
  shows "(length (db_data b) < max_size \<longrightarrow>
      (\<exists>b'. push_back t v b = Some b' \<and> db_ok b' \<and> db_data b' = db_data b @ [v])) \<and>
    (length (db_data c) + length xs \<le> max_size \<longrightarrow>
      (\<exists>c'. append_raw xs c = Some c' \<and> db_ok c' \<and> db_data c' = db_data c @ xs)) \<and>
    (i < length (db_data b) \<longrightarrow>
      (\<exists>b'. erase (int i) b = Some b' \<and> db_ok b' \<and> db_data b' = take i (db_data b) @ drop (Suc i) (db_data b))) \<and>
    (n \<le> max_size \<longrightarrow> (\<exists>b'. resize t (int n) b = Some b' \<and> db_ok b' \<and>
      db_data b' = take n (db_data b) @ replicate (n - length (db_data b)) (elem_default t))) \<and>
    (length (db_data x) \<le> max_size \<longrightarrow> (\<exists>b'. copy t x b = Some b' \<and> db_ok b' \<and> db_data b' = db_data x))"
  using db.push_content [OF assms(1)] byte_db.append_content [OF assms(2)] db.remove_content [OF assms(1), of "int i"]
    copy_spec [OF assms(1)] resize_spec [OF assms(1)]
  by (auto simp del: power_numeral)

theorem databuffer_refines_list_witness:
  "\<exists>b'. append_raw [1, 2, 3] (new_databuffer 2 :: u8 databuffer) = Some b' \<and> db_ok b' \<and> db_data b' = [1, 2, 3]"
proof -
  have "db_ok (new_databuffer 2 :: u8 databuffer)" by (rule db_ok_new) simp_all
  from databuffer_refines_list [OF this this, of _ _ "[1, 2, 3]"] show ?thesis by (auto simp: new_databuffer_def)
qed

text \<open>Growing is bounded: when a buffer has to be reallocated for \<open>n\<close> elements, the new capacity is at least
  \<open>n\<close> and below \<open>4n\<close>, and the bit smearing finds the smallest power of two that is not below \<open>n\<close>.\<close>
theorem capacity_growth:
  assumes "0 < n" "n \<le> 2 ^ 29"
  shows "(\<exists>k. next_power_of_two (of_nat n) = 2 ^ k \<and> n \<le> 2 ^ k \<and> 2 ^ k < 2 * n) \<and>
    (\<forall>old < n. \<exists>c. new_capacity (int n) (int old) = Some c \<and> int n \<le> c \<and> c < 4 * int n)"
proof -
  have "n \<le> 2 ^ 30" using assms(2) by simp
  then show ?thesis
    using next_power_of_two_spec [of n] new_capacity_spec [of "int n" "int _"] assms by force
qed

theorem capacity_growth_witness:
  "(\<exists>k. next_power_of_two 1000 = 2 ^ k \<and> (1000 :: nat) \<le> 2 ^ k \<and> 2 ^ k < (2000 :: nat)) \<and>
    (\<exists>c. new_capacity 1000 999 = Some c \<and> 1000 \<le> c \<and> c < 4000)"
proof -
  from capacity_growth [of 1000] have "(\<exists>k. next_power_of_two 1000 = 2 ^ k \<and> (1000 :: nat) \<le> 2 ^ k \<and> 2 ^ k < (2000 :: nat))"
    "\<forall>old < 1000. \<exists>c. new_capacity 1000 (int old) = Some c \<and> 1000 \<le> c \<and> c < 4000" by simp_all
  moreover from this(2) have "\<exists>c. new_capacity 1000 (int 999) = Some c \<and> 1000 \<le> c \<and> c < 4000" by (rule allE [of _ 999]) simp
  ultimately show ?thesis by simp
qed

definition word_elements :: "u16 element_t" where
  "word_elements = \<lparr>elem_width = 2, elem_default = 0, elem_memory = (\<lambda>_. 0xbeef)\<rparr>"

text \<open>Four helpers do not do what they are named for: comparing a buffer with a longer one that it is a prefix
  of reports it as the greater one; equality of buffers of 16-bit numbers looks at half of their bytes; writing behind the
  end of such a buffer leaves half of the elements in between uninitialised; and rotating a vector drops its first
  element and doubles another.\<close>
lemma buffer_helper_defects:
  "cmp (view_of [1] 1) (view_of [1, 2] 2) = 1 \<and> cmp (view_of [1, 2] 2) (view_of [1] 1) = 0 \<and>
   db_equal word_elements (\<lambda>x. rev (be_bytes 2 x)) (view_of [1, 2] 2) (view_of [1, 3] 2) \<and>
   map_option db_data (db_set word_elements 3 7 (new_databuffer 8)) = Some [0, 0, 0xbeef, 7] \<and>
   rotate_vector 1 [1, 2, 3 :: nat] = Some [2, 3, 3]"
proof -
  have "cmp (view_of [1] 1) (view_of [1, 2] 2) = 1" "cmp (view_of [1, 2] 2) (view_of [1] 1) = 0" by code_simp+
  moreover have "db_equal word_elements (\<lambda>x. rev (be_bytes 2 x)) (view_of [1, 2] 2) (view_of [1, 3] 2)"
    by (simp add: db_equal_def is_trivial_def word_elements_def view_of_def db_size_def)
  moreover have "map_option db_data (db_set word_elements 3 7 (new_databuffer 8)) = Some [0, 0, 0xbeef, 7]"
    by (simp add: db_set_def db_at_def reserve_def extend_def gap_elements_def word_elements_def new_databuffer_def db_size_def
        upt_rec numeral_eq_Suc)
  moreover have "rotate_vector 1 [1, 2, 3 :: nat] = Some [2, 3, 3]" by code_simp
  ultimately show ?thesis by blast
qed

end
