(* ===== verification/Pmt_Languages.thy ===== *)
theory Pmt_Languages
  imports Section_Tables
begin

text \<open>
  Questions about a parsed program map (\<open>pmt_info_t\<close> in \<open>receiver/streamparser/section.cc\<close>): the languages
  of its streams, the streams that fit the preferences of the user, and its conditional access streams. A pointer to a
  stream or to a subtitle descriptor is the stream or the descriptor itself, the null pointer is \<open>None\<close>.
\<close>

record language_code_t =
  lc_position :: "8 word"
  lc_lang :: "u8 \<times> u8 \<times> u8"

definition default_language_code :: language_code_t where
  "default_language_code = \<lparr>lc_position = -1, lc_lang = (0, 0, 0)\<rparr>"

definition language_code :: "int \<Rightarrow> u8 \<times> u8 \<times> u8 \<Rightarrow> language_code_t" where
  "language_code position l = \<lparr>lc_position = word_of_int position, lc_lang = l\<rparr>"

definition is_same_language :: "language_code_t \<Rightarrow> language_code_t \<Rightarrow> bool" where
  "is_same_language a b \<longleftrightarrow> a\<lparr>lc_position := 0\<rparr> = b\<lparr>lc_position := 0\<rparr>"

text \<open>A language with the number of times it has been seen before.\<close>

definition add_language :: "u8 \<times> u8 \<times> u8 \<Rightarrow> language_code_t list \<Rightarrow> language_code_t list" where
  "add_language l ret =
     (let y = language_code 0 l;
          count = int (length (filter (\<lambda>x. is_same_language x y) ret))
      in ret @ [y\<lparr>lc_position := word_of_int count\<rparr>])"

fun audio_languages_loop :: "pid_info_t list \<Rightarrow> language_code_t list \<Rightarrow> language_code_t list" where
  "audio_languages_loop [] ret = ret"
| "audio_languages_loop (d # ds) ret =
     (let l = audio_lang_code (audio_lang d)
      in audio_languages_loop ds (if fst l \<noteq> 0 then add_language l ret else ret))"

definition audio_languages :: "pmt_info_t \<Rightarrow> language_code_t list" where
  "audio_languages pmt = audio_languages_loop (pid_descriptors pmt) []"

definition subtitle_languages :: "pmt_info_t \<Rightarrow> language_code_t list" where
  "subtitle_languages pmt =
     fold (\<lambda>d ret. fold (\<lambda>s ret. add_language (sub_lang_code s) ret) (subtitle_descriptors d) ret) (pid_descriptors pmt) []"

fun find_audio_loop :: "language_code_t \<Rightarrow> int \<Rightarrow> pid_info_t list \<Rightarrow> (pid_info_t \<times> language_code_t) option" where
  "find_audio_loop pref order [] = None"
| "find_audio_loop pref order (d # ds) =
     (if \<not> is_audio d then find_audio_loop pref order ds
      else let lc = language_code order (audio_lang_code (audio_lang d))
           in if is_same_language lc pref
              then if order = sint (lc_position pref) then Some (d, lc) else find_audio_loop pref (order + 1) ds
              else find_audio_loop pref order ds)"

definition find_audio_pref_in_pmt :: "pmt_info_t \<Rightarrow> language_code_t \<Rightarrow> pid_info_t option \<times> language_code_t" where
  "find_audio_pref_in_pmt pmt pref =
     (case find_audio_loop pref 0 (pid_descriptors pmt) of
        Some (d, lc) \<Rightarrow> (Some d, lc)
      | None \<Rightarrow> (None, default_language_code))"

fun first_audio_loop :: "pid_info_t list \<Rightarrow> pid_info_t option \<times> language_code_t" where
  "first_audio_loop [] = (None, default_language_code)"
| "first_audio_loop (d # ds) =
     (if \<not> is_audio d then first_audio_loop ds else (Some d, language_code 0 (audio_lang_code (audio_lang d))))"

definition first_audio :: "pmt_info_t \<Rightarrow> pid_info_t option \<times> language_code_t" where
  "first_audio pmt = first_audio_loop (pid_descriptors pmt)"

fun best_audio_language :: "pmt_info_t \<Rightarrow> language_code_t list \<Rightarrow> pid_info_t option \<times> language_code_t" where
  "best_audio_language pmt [] = first_audio pmt"
| "best_audio_language pmt (p # ps) =
     (case find_audio_pref_in_pmt pmt p of
        (Some d, lc) \<Rightarrow> (Some d, lc)
      | (None, _) \<Rightarrow> best_audio_language pmt ps)"

type_synonym subtitle_choice = "(pid_info_t \<times> subtitle_info_t) option \<times> language_code_t"

fun find_subtitle_in_stream ::
  "language_code_t \<Rightarrow> int \<Rightarrow> pid_info_t \<Rightarrow> subtitle_info_t list \<Rightarrow> (pid_info_t \<times> subtitle_info_t \<times> language_code_t) + int" where
  "find_subtitle_in_stream pref order d [] = Inr order"
| "find_subtitle_in_stream pref order d (s # ss) =
     (let lc = language_code order (sub_lang_code s)
      in if is_same_language lc pref
         then if order = sint (lc_position pref) then Inl (d, s, lc) else find_subtitle_in_stream pref (order + 1) d ss
         else find_subtitle_in_stream pref order d ss)"

fun find_subtitle_loop :: "language_code_t \<Rightarrow> int \<Rightarrow> pid_info_t list \<Rightarrow> subtitle_choice" where
  "find_subtitle_loop pref order [] = (None, default_language_code)"
| "find_subtitle_loop pref order (d # ds) =
     (if subtitle_descriptors d = [] then find_subtitle_loop pref order ds
      else case find_subtitle_in_stream pref order d (subtitle_descriptors d) of
             Inl (d, s, lc) \<Rightarrow> (Some (d, s), lc)
           | Inr order \<Rightarrow> find_subtitle_loop pref order ds)"

definition find_subtitle_pref_in_pmt :: "pmt_info_t \<Rightarrow> language_code_t \<Rightarrow> subtitle_choice" where
  "find_subtitle_pref_in_pmt pmt pref = find_subtitle_loop pref 0 (pid_descriptors pmt)"

fun first_subtitle_loop :: "pid_info_t list \<Rightarrow> subtitle_choice" where
  "first_subtitle_loop [] = (None, default_language_code)"
| "first_subtitle_loop (d # ds) =
     (case subtitle_descriptors d of
        [] \<Rightarrow> first_subtitle_loop ds
      | s # _ \<Rightarrow> (Some (d, s), language_code 0 (sub_lang_code s)))"

definition first_subtitle :: "pmt_info_t \<Rightarrow> subtitle_choice" where
  "first_subtitle pmt = first_subtitle_loop (pid_descriptors pmt)"

fun best_subtitle_language :: "pmt_info_t \<Rightarrow> language_code_t list \<Rightarrow> subtitle_choice" where
  "best_subtitle_language pmt [] = first_subtitle pmt"
| "best_subtitle_language pmt (p # ps) =
     (case find_subtitle_pref_in_pmt pmt p of
        (Some c, lc) \<Rightarrow> (Some c, lc)
      | (None, _) \<Rightarrow> best_subtitle_language pmt ps)"

definition is_ecm_pid :: "u16 \<Rightarrow> pmt_info_t \<Rightarrow> bool" where
  "is_ecm_pid p pmt \<longleftrightarrow> (\<exists>ca \<in> set (ca_descriptors pmt). ca_pid ca = p)"

text \<open>
  Whether the conditional access of two program maps differs. The iterator that the descriptors are compared with
  starts at the first descriptor of the same program map and is never moved.
\<close>

definition pmt_ca_changed :: "pmt_info_t \<Rightarrow> pmt_info_t \<Rightarrow> bool" where
  "pmt_ca_changed a b \<longleftrightarrow>
     length (ca_descriptors a) \<noteq> length (ca_descriptors b) \<or>
     (\<exists>d \<in> set (ca_descriptors a). d \<noteq> hd (ca_descriptors a))"

text \<open>Parsing a stored program map section, whatever the parser reports.\<close>

definition parse_pmt_section_data :: "(nat \<Rightarrow> nat) \<Rightarrow> bytes \<Rightarrow> u16 \<Rightarrow> pmt_info_t option" where
  "parse_pmt_section_data j data p = do {
     (_, pmt, _) \<leftarrow> parse_pmt_section default_pmt_info (open_section j data p);
     Some (pmt\<lparr>pmt_pid := p\<rparr>)
   }"

subsection \<open>Preferences\<close>

definition audio_matches :: "u8 \<times> u8 \<times> u8 \<Rightarrow> pid_info_t list \<Rightarrow> pid_info_t list" where
  "audio_matches l ds = filter (\<lambda>d. is_audio d \<and> audio_lang_code (audio_lang d) = l) ds"

lemma is_same_language_iff [simp]: "is_same_language a b \<longleftrightarrow> lc_lang a = lc_lang b"
  by (cases a; cases b) (simp add: is_same_language_def)

text \<open>A position in the list of matches, counted from \<open>order\<close>.\<close>

definition nth_match :: "int \<Rightarrow> 'a list \<Rightarrow> 'a option" where
  "nth_match k ms = (if 0 \<le> k \<and> k < int (length ms) then Some (ms ! nat k) else None)"

lemma nth_match_Nil [simp]: "nth_match k [] = None"
  by (simp add: nth_match_def)

lemma nth_match_Cons: "nth_match k (m # ms) = (if k = 0 then Some m else nth_match (k - 1) ms)"
proof (cases "0 < k")
  case True
  then have "nat k = Suc (nat (k - 1))" by simp
  with True show ?thesis by (auto simp: nth_match_def)
qed (auto simp: nth_match_def)

lemma language_code_of [simp]: "language_code (sint (lc_position pref)) (lc_lang pref) = pref"
  by (cases pref) (simp add: language_code_def)

lemma lang_of_code [simp]: "lc_lang (language_code k l) = l"
  by (simp add: language_code_def)

lemma find_audio_loop_spec:
  "find_audio_loop pref order ds =
    map_option (\<lambda>d. (d, pref)) (nth_match (sint (lc_position pref) - order) (audio_matches (lc_lang pref) ds))"
proof (induction ds arbitrary: order)
  case (Cons d ds)
  consider "is_audio d" "audio_lang_code (audio_lang d) = lc_lang pref" "order = sint (lc_position pref)"
    | "is_audio d" "audio_lang_code (audio_lang d) = lc_lang pref" "order \<noteq> sint (lc_position pref)"
    | "\<not> (is_audio d \<and> audio_lang_code (audio_lang d) = lc_lang pref)" by blast
  then show ?case
  proof cases
    case 2
    then show ?thesis using Cons by (simp add: audio_matches_def nth_match_Cons Let_def diff_diff_eq)
  qed (use Cons in \<open>auto simp: audio_matches_def nth_match_Cons Let_def\<close>)
qed (simp add: audio_matches_def)

lemma first_audio_loop_spec:
  "first_audio_loop ds =
    (case filter is_audio ds of
       [] \<Rightarrow> (None, default_language_code)
     | d # _ \<Rightarrow> (Some d, language_code 0 (audio_lang_code (audio_lang d))))"
  by (induction ds) auto

text \<open>The subtitle descriptors of all streams, in order.\<close>

definition subtitle_matches :: "u8 \<times> u8 \<times> u8 \<Rightarrow> pid_info_t list \<Rightarrow> (pid_info_t \<times> subtitle_info_t) list" where
  "subtitle_matches l ds =
     filter (\<lambda>(d, s). sub_lang_code s = l) (concat (map (\<lambda>d. map (Pair d) (subtitle_descriptors d)) ds))"

lemma find_subtitle_in_stream_spec:
  "find_subtitle_in_stream pref order d ss =
    (let ms = filter (\<lambda>s. sub_lang_code s = lc_lang pref) ss
     in case nth_match (sint (lc_position pref) - order) ms of
          Some s \<Rightarrow> Inl (d, s, pref) | None \<Rightarrow> Inr (order + int (length ms)))"
proof (induction ss arbitrary: order)
  case (Cons s ss)
  consider "sub_lang_code s = lc_lang pref" "order = sint (lc_position pref)"
    | "sub_lang_code s = lc_lang pref" "order \<noteq> sint (lc_position pref)" | "sub_lang_code s \<noteq> lc_lang pref" by blast
  then show ?case
  proof cases
    case 2
    then show ?thesis using Cons by (simp add: nth_match_Cons Let_def diff_diff_eq split: option.splits)
  qed (use Cons in \<open>auto simp: nth_match_Cons Let_def split: option.splits\<close>)
qed (simp add: Let_def)

lemma nth_match_append:
  "nth_match k (xs @ ys) = (case nth_match k xs of Some x \<Rightarrow> Some x | None \<Rightarrow> nth_match (k - int (length xs)) ys)"
  by (auto simp: nth_match_def nth_append nat_diff_distrib)

lemma nth_match_map: "nth_match k (map f xs) = map_option f (nth_match k xs)"
  by (auto simp: nth_match_def)

lemma find_subtitle_loop_spec:
  "find_subtitle_loop pref order ds =
    (case nth_match (sint (lc_position pref) - order) (subtitle_matches (lc_lang pref) ds) of
       Some c \<Rightarrow> (Some c, pref) | None \<Rightarrow> (None, default_language_code))"
proof (induction ds arbitrary: order)
  case (Cons d ds)
  have "subtitle_matches (lc_lang pref) (d # ds) =
      map (Pair d) (filter (\<lambda>s. sub_lang_code s = lc_lang pref) (subtitle_descriptors d)) @ subtitle_matches (lc_lang pref) ds"
    by (simp add: subtitle_matches_def filter_map o_def)
  with Cons show ?case
    by (auto simp: find_subtitle_in_stream_spec nth_match_append nth_match_map Let_def diff_diff_eq split: option.splits)
qed (simp add: subtitle_matches_def)

lemma first_subtitle_loop_spec:
  "first_subtitle_loop ds =
    (case concat (map (\<lambda>d. map (Pair d) (subtitle_descriptors d)) ds) of
       [] \<Rightarrow> (None, default_language_code) | (d, s) # _ \<Rightarrow> (Some (d, s), language_code 0 (sub_lang_code s)))"
proof (induction ds)
  case (Cons d ds)
  then show ?case by (cases "subtitle_descriptors d") simp_all
qed simp

subsection \<open>Properties\<close>

text \<open>
  The choice that the preferences describe: the first preference that names an existing stream, where position
  \<open>k\<close> means the stream number \<open>k\<close> of that language, otherwise the first stream.
\<close>

fun preferred :: "(language_code_t \<Rightarrow> 'a option) \<Rightarrow> 'a option \<times> language_code_t \<Rightarrow> language_code_t list \<Rightarrow> 'a option \<times> language_code_t" where
  "preferred f d [] = d"
| "preferred f d (p # ps) = (case f p of Some x \<Rightarrow> (Some x, p) | None \<Rightarrow> preferred f d ps)"

text \<open>C18: The audio stream and the subtitles chosen for a list of language preferences are those of the first
  preference that exists in the program map, where position k of a preference means the k-th stream (or subtitle
  descriptor) of that language in program map order, and otherwise the first audio stream or subtitle.\<close>
theorem language_choice:
  "best_audio_language pmt prefs =
     preferred (\<lambda>p. nth_match (sint (lc_position p)) (audio_matches (lc_lang p) (pid_descriptors pmt)))
       (case filter is_audio (pid_descriptors pmt) of
          [] \<Rightarrow> (None, default_language_code)
        | d # _ \<Rightarrow> (Some d, language_code 0 (audio_lang_code (audio_lang d)))) prefs \<and>
   best_subtitle_language pmt prefs =
     preferred (\<lambda>p. nth_match (sint (lc_position p)) (subtitle_matches (lc_lang p) (pid_descriptors pmt)))
       (case concat (map (\<lambda>d. map (Pair d) (subtitle_descriptors d)) (pid_descriptors pmt)) of
          [] \<Rightarrow> (None, default_language_code)
        | (d, s) # _ \<Rightarrow> (Some (d, s), language_code 0 (sub_lang_code s))) prefs"
proof
  show "best_audio_language pmt prefs =
     preferred (\<lambda>p. nth_match (sint (lc_position p)) (audio_matches (lc_lang p) (pid_descriptors pmt)))
       (case filter is_audio (pid_descriptors pmt) of
          [] \<Rightarrow> (None, default_language_code)
        | d # _ \<Rightarrow> (Some d, language_code 0 (audio_lang_code (audio_lang d)))) prefs"
    by (induction prefs)
      (auto simp: first_audio_def first_audio_loop_spec find_audio_pref_in_pmt_def find_audio_loop_spec split: option.splits)
  show "best_subtitle_language pmt prefs =
     preferred (\<lambda>p. nth_match (sint (lc_position p)) (subtitle_matches (lc_lang p) (pid_descriptors pmt)))
       (case concat (map (\<lambda>d. map (Pair d) (subtitle_descriptors d)) (pid_descriptors pmt)) of
          [] \<Rightarrow> (None, default_language_code)
        | (d, s) # _ \<Rightarrow> (Some (d, s), language_code 0 (sub_lang_code s))) prefs"
    by (induction prefs)
      (auto simp: first_subtitle_def first_subtitle_loop_spec find_subtitle_pref_in_pmt_def find_subtitle_loop_spec split: option.splits)
qed

definition with_ca :: "ca_info_t list \<Rightarrow> pmt_info_t" where
  "with_ca cas = default_pmt_info\<lparr>ca_descriptors := cas\<rparr>"

text \<open>The test for changed conditional access never looks at the descriptors of the second program map: it misses
  a change of a descriptor, and reports one between two equal program maps.\<close>
theorem ca_change_not_detected:
  "\<not> pmt_ca_changed (with_ca [\<lparr>ca_stream_pid = 1, ca_system_id = 2, ca_pid = 3\<rparr>])
        (with_ca [\<lparr>ca_stream_pid = 1, ca_system_id = 2, ca_pid = 4\<rparr>]) \<and>
   pmt_ca_changed (with_ca [\<lparr>ca_stream_pid = 1, ca_system_id = 2, ca_pid = 3\<rparr>, \<lparr>ca_stream_pid = 1, ca_system_id = 5, ca_pid = 6\<rparr>])
        (with_ca [\<lparr>ca_stream_pid = 1, ca_system_id = 2, ca_pid = 3\<rparr>, \<lparr>ca_stream_pid = 1, ca_system_id = 5, ca_pid = 6\<rparr>])"
  by (simp add: pmt_ca_changed_def with_ca_def)

end
