(* ===== verification/Ts_Packet.thy ===== *)
theory Ts_Packet
  imports Data_Range
begin

text \<open>
  The header and adaptation field of a transport stream packet (\<open>ts_packet_t\<close> in
  \<open>receiver/streamparser/streamparser.h\<close>, \<open>packetstream.cc\<close>) and the cutting of a buffer
  into packets (\<open>ts_stream_t\<close> in \<open>packetstream.h\<close>). The continuity counter, the pid and the
  flags are read from the header words; \<open>None\<close> is a failed assertion.
\<close>

record ts_packet_t =
  pkt_pcr :: pcr_t
  pkt_opcr :: pcr_t
  header :: u16
  pkt_flags :: u8
  adaptation_field_flags :: u8
  range :: data_range_t
  adaptation_length :: u8
  pkt_valid :: bool

definition default_ts_packet :: ts_packet_t where
  "default_ts_packet = \<lparr>pkt_pcr = pcr_of_pts pts_invalid, pkt_opcr = pcr_of_pts pts_invalid, header = 0, pkt_flags = 0,
     adaptation_field_flags = 0, range = default_data_range, adaptation_length = 0, pkt_valid = True\<rparr>"

definition get_pid :: "ts_packet_t \<Rightarrow> u16" where
  "get_pid p = header p AND 0x1fff"

definition get_transport_error :: "ts_packet_t \<Rightarrow> bool" where
  "get_transport_error p \<longleftrightarrow> header p AND 0x8000 \<noteq> 0"

definition is_encrypted :: "ts_packet_t \<Rightarrow> bool" where
  "is_encrypted p \<longleftrightarrow> pkt_flags p AND 0xc0 \<noteq> 0"

definition get_payload_unit_start :: "ts_packet_t \<Rightarrow> bool" where
  "get_payload_unit_start p \<longleftrightarrow> header p AND 0x4000 \<noteq> 0"

definition has_payload :: "ts_packet_t \<Rightarrow> bool" where
  "has_payload p \<longleftrightarrow> pkt_flags p AND 0x10 \<noteq> 0"

definition get_continuity_counter :: "ts_packet_t \<Rightarrow> u8" where
  "get_continuity_counter p = pkt_flags p AND 0x0f"

definition has_adaptation :: "ts_packet_t \<Rightarrow> bool" where
  "has_adaptation p \<longleftrightarrow> pkt_flags p AND 0x20 \<noteq> 0"

definition get_is_discontinuity :: "ts_packet_t \<Rightarrow> bool" where
  "get_is_discontinuity p \<longleftrightarrow> adaptation_field_flags p AND 0x80 \<noteq> 0"

definition get_random_access_indicator :: "ts_packet_t \<Rightarrow> bool" where
  "get_random_access_indicator p \<longleftrightarrow> adaptation_field_flags p AND 0x40 \<noteq> 0"

definition elementary_stream_priority_indicator :: "ts_packet_t \<Rightarrow> bool" where
  "elementary_stream_priority_indicator p \<longleftrightarrow> adaptation_field_flags p AND 0x20 \<noteq> 0"

definition has_pcr :: "ts_packet_t \<Rightarrow> bool" where
  "has_pcr p \<longleftrightarrow> adaptation_field_flags p AND 0x10 \<noteq> 0"

definition has_opcr :: "ts_packet_t \<Rightarrow> bool" where
  "has_opcr p \<longleftrightarrow> adaptation_field_flags p AND 0x08 \<noteq> 0"

definition has_splicing_point :: "ts_packet_t \<Rightarrow> bool" where
  "has_splicing_point p \<longleftrightarrow> adaptation_field_flags p AND 0x04 \<noteq> 0"

definition has_private_data :: "ts_packet_t \<Rightarrow> bool" where
  "has_private_data p \<longleftrightarrow> adaptation_field_flags p AND 0x02 \<noteq> 0"

definition has_adaptation_field_extension :: "ts_packet_t \<Rightarrow> bool" where
  "has_adaptation_field_extension p \<longleftrightarrow> adaptation_field_flags p AND 0x01 \<noteq> 0"

definition get_pcr :: "data_range_t \<Rightarrow> (pcr_t \<times> data_range_t) option" where
  "get_pcr r = do {
     (v1, r) \<leftarrow> (dr_get 4 r :: (u32 \<times> data_range_t) option);
     (v2, r) \<leftarrow> (dr_get 1 r :: (u8 \<times> data_range_t) option);
     (v3, r) \<leftarrow> (dr_get 1 r :: (u8 \<times> data_range_t) option);
     let time = push_bit 1 (ucast v1) OR ucast (drop_bit 7 v2);
     let ext = push_bit 8 (ucast (v2 AND 1)) OR ucast v3;
     Some (pcr_of_ticks time ext, r)
   }"

definition parse_adaptation_flags :: "ts_packet_t \<Rightarrow> data_range_t \<Rightarrow> (ts_packet_t \<times> data_range_t) option" where
  "parse_adaptation_flags p r = do {
     (f, r) \<leftarrow> dr_get 1 r;
     let p = p\<lparr>adaptation_field_flags := f\<rparr>;
     (p, r) \<leftarrow> (if has_pcr p then do { (c, r) \<leftarrow> get_pcr r; Some (p\<lparr>pkt_pcr := c\<rparr>, r) } else Some (p, r));
     if has_opcr p then do { (c, r) \<leftarrow> get_pcr r; Some (p\<lparr>pkt_opcr := c\<rparr>, r) } else Some (p, r)
   }"

definition parse_adaptation :: "ts_packet_t \<Rightarrow> data_range_t \<Rightarrow> (ts_packet_t \<times> data_range_t) option" where
  "parse_adaptation p r =
     (if has_adaptation p
      then do {
        (l, r) \<leftarrow> dr_get 1 r;
        let p = p\<lparr>adaptation_length := l\<rparr>;
        (p, r) \<leftarrow> (if l > 0 then parse_adaptation_flags p r else Some (p, r));
        (_, r) \<leftarrow> set_cursor (uint l + 5) r;
        let r = r\<lparr>dr_tst := word_of_int (dr_available r)\<rparr>;
        if dr_available r \<ge> 0 then Some (p, r) else None
      }
      else Some (p, r))"

definition new_ts_packet :: "data_range_t \<Rightarrow> (ts_packet_t \<times> data_range_t) option" where
  "new_ts_packet r = do {
     (sync, r) \<leftarrow> dr_get 1 r;
     let p = default_ts_packet;
     if (sync :: u8) \<noteq> 0x47 then Some (p\<lparr>pkt_valid := False\<rparr>, r)
     else do {
       (h, r) \<leftarrow> dr_get 2 r;
       (f, r) \<leftarrow> dr_get 1 r;
       let p = p\<lparr>header := h, pkt_flags := f\<rparr>;
       if get_transport_error p then Some (p\<lparr>pkt_valid := False\<rparr>, r)
       else if get_pid p = 0x1fff then Some (p, r)
       else do {
         (p, r) \<leftarrow> parse_adaptation p r;
         let r = r\<lparr>dr_tst := word_of_int (dr_available r)\<rparr>;
         Some (p\<lparr>range := r\<rparr>, r)
       }
     }
   }"

subsection \<open>Cutting a buffer into packets\<close>

definition need_data :: "data_range_t \<Rightarrow> bool" where
  "need_data r \<longleftrightarrow> dr_available r < 188"

text \<open>
  \<open>read_packet\<close> skips packets without a range; the null pointer at the end of the buffer is
  \<open>(None, r)\<close>.
\<close>

function read_packet :: "data_range_t \<Rightarrow> (ts_packet_t option \<times> data_range_t) option" where
  "read_packet r =
     (if need_data r then (if dr_available r = 0 then Some (None, r) else None)
      else case sub_range (processed r) 188 r of
             None \<Rightarrow> None
           | Some packet_range \<Rightarrow>
               if dr_available packet_range > 188 then None
               else case dr_skip 188 r of
                      None \<Rightarrow> None
                    | Some (_, r') \<Rightarrow>
                        case new_ts_packet packet_range of
                          None \<Rightarrow> None
                        | Some (p, _) \<Rightarrow>
                            if dr_available (range p) = uint (dr_tst (range p))
                            then (if is_valid (range p) then Some (Some p, r') else read_packet r')
                            else None)"
  by pat_completeness auto
termination
  by (relation "measure (\<lambda>r. nat (dr_available r))") 
    (auto simp: need_data_def dr_skip_def dr_available_def is_valid_def Let_def split: if_splits)

definition set_buffer :: "bytes \<Rightarrow> bool \<times> data_range_t \<Rightarrow> (bool \<times> data_range_t) option" where
  "set_buffer buf st =
     (case st of (eof, r) \<Rightarrow>
      if length buf = 0 then Some (True, r)
      else if \<not> need_data r then None
      else if dr_available r \<noteq> 0 then None
      else do {
        r' \<leftarrow> new_data_range buf 0 (int (length buf));
        Some (eof, r'\<lparr>dr_start_bytepos := dr_start_bytepos r + dr_length r\<rparr>)
      })"


declare read_packet.simps [simp del]

subsection \<open>Reading inside a range\<close>

text \<open>
  A range over a whole buffer with the cursor behind \<open>pre\<close>. A read that ends before the last byte
  delivers the bytes there; a read that ends with it delivers zero.
\<close>

definition over :: "data_range_t \<Rightarrow> bytes \<Rightarrow> bytes \<Rightarrow> data_range_t" where
  "over r pre rest = r\<lparr>dr_buffer := Some (pre @ rest), dr_start := 0, dr_curpos := int (length pre),
     dr_end := int (length pre + length rest), dr_is_writer := False\<rparr>"

lemma over_available [simp]: "dr_available (over r pre rest) = int (length rest)"
  by (simp add: over_def dr_available_def is_valid_def)

lemma over_tst [simp]: "dr_tst (over r pre rest) = dr_tst r" "(over r pre rest)\<lparr>dr_tst := t\<rparr> = over (r\<lparr>dr_tst := t\<rparr>) pre rest"
  by (simp_all add: over_def)

lemma dr_get_over:
  "n = length x \<Longrightarrow> rest \<noteq> [] \<Longrightarrow> dr_get n (over r pre (x @ rest)) = Some (be_word x, over r (pre @ x) rest)"
  by (simp add: dr_get_def bytes_at_def over_def dr_available_def is_valid_def)

lemma dr_get_at_end: "n = length x \<Longrightarrow> dr_get n (over r pre x) = Some (0, over r pre x)"
  by (simp add: dr_get_def over_def)

lemma dr_get_u8_over [simp]: "rest \<noteq> [] \<Longrightarrow> dr_get (Suc 0) (over r pre (a # rest)) = Some (a, over r (pre @ [a]) rest)"
  using dr_get_over [of 1 "[a]" rest r pre, where 'a = 8] by simp

lemma dr_get_u16_over:
  "rest \<noteq> [] \<Longrightarrow> dr_get 2 (over r pre (a # b # rest)) = Some (be_word [a, b] :: u16, over r (pre @ [a, b]) rest)"
  using dr_get_over [of 2 "[a, b]" rest r pre, where 'a = 16] by simp

lemma set_cursor_over:
  assumes "pre @ rest = pre' @ rest'" "n = int (length pre')" "rest' \<noteq> []"
  shows "set_cursor n (over r pre rest) = Some (True, over r pre' rest')"
proof -
  have "length pre + length rest = length pre' + length rest'"
    using assms(1) by (metis length_append)
  then show ?thesis using assms by (simp add: set_cursor_def over_def dr_available_def is_valid_def)
qed

lemma set_cursor_over_end:
  "n \<ge> int (length pre + length rest) \<Longrightarrow> set_cursor n (over r pre rest) = Some (False, over r pre rest)"
  by (simp add: set_cursor_def over_def)

subsection \<open>Packets\<close>

definition pcr_bytes :: "u64 \<Rightarrow> u16 \<Rightarrow> bytes" where
  "pcr_bytes base ext = be_bytes 4 (ucast (drop_bit 1 base) :: u32) @
     [push_bit 7 (ucast base) OR 0x7e OR (ucast (drop_bit 8 ext) AND 1), ucast ext]"

text \<open>The 42 bits of a PCR field are read back: the 33-bit base and the 9-bit extension.\<close>
theorem pcr_roundtrip:
  assumes "unat base < 2 ^ 33" "unat ext < 2 ^ 9" "rest \<noteq> []"
  shows "get_pcr (over r pre (pcr_bytes base ext @ rest)) =
    Some (pcr_of_ticks base (ucast ext), over r (pre @ pcr_bytes base ext) rest)"
proof -
  define v1 where "v1 = (ucast (drop_bit 1 base) :: u32)"
  define v2 where "v2 = (push_bit 7 (ucast base) OR 0x7e OR (ucast (drop_bit 8 ext) AND 1) :: u8)"
  define v3 where "v3 = (ucast ext :: u8)"
  have b33: "bit base n \<Longrightarrow> n < 33" and b9: "bit ext n \<Longrightarrow> n < 9" for n
    using bit_small assms(1,2) by blast+
  have time: "push_bit 1 (ucast v1) OR ucast (drop_bit 7 v2) = base"
    unfolding v1_def v2_def
    by (rule bit_word_eqI, subst bit_or_iff, subst bit_push_bit_iff) (auto simp: bit_simps dest: b33)
  have ext: "push_bit 8 (ucast (v2 AND 1)) OR ucast v3 = (ucast ext :: u32)"
    unfolding v2_def v3_def by (rule bit_word_eqI) (auto simp: bit_simps dest: b9)
  have "get_pcr (over r pre (be_bytes 4 v1 @ v2 # v3 # rest)) =
    Some (pcr_of_ticks base (ucast ext), over r (pre @ be_bytes 4 v1 @ [v2, v3]) rest)"
    using assms(3) time ext unfolding get_pcr_def
    by (subst dr_get_over) (simp_all add: be_word_be_bytes del: be_bytes_numeral)
  then show ?thesis unfolding pcr_bytes_def v1_def v2_def v3_def by simp
qed


theorem pcr_roundtrip_witness:
  "get_pcr (over default_data_range [] (pcr_bytes 0x123456789 0x12b @ [0])) =
    Some (pcr_of_ticks 0x123456789 0x12b, over default_data_range (pcr_bytes 0x123456789 0x12b) [0])"
  using pcr_roundtrip [of "0x123456789" "0x12b" "[0]" default_data_range "[]"] by simp

text \<open>
  A packet without errors: the four header bytes, and behind them either the payload or an adaptation
  field and the payload.
\<close>

lemma new_ts_packet_header:
  assumes "h AND 0x8000 = 0" "h AND 0x1fff \<noteq> 0x1fff" "rest \<noteq> []"
  shows "new_ts_packet (over r [] (0x47 # be_bytes 2 h @ f # rest)) =
    do { (p, r) \<leftarrow> parse_adaptation (default_ts_packet\<lparr>header := h, pkt_flags := f\<rparr>)
           (over r (0x47 # be_bytes 2 h @ [f]) rest);
         let r = r\<lparr>dr_tst := word_of_int (dr_available r)\<rparr>;
         Some (p\<lparr>range := r\<rparr>, r) }"
proof -
  have "dr_get 2 (over r [0x47] (be_bytes 2 h @ f # rest)) = Some (h, over r ([0x47] @ be_bytes 2 h) (f # rest))"
    using dr_get_over [of 2 "be_bytes 2 h" "f # rest" r "[0x47]", where 'a = 16]
    by (simp add: be_word_be_bytes del: be_bytes_numeral)
  then show ?thesis
    using assms by (simp add: new_ts_packet_def get_transport_error_def get_pid_def del: be_bytes_numeral)
qed

lemma dr_get_over_some:
  assumes "n < length rest"
  shows "\<exists>v. dr_get n (over r pre rest) = Some (v, over r (pre @ take n rest) (drop n rest))"
  using dr_get_over [of n "take n rest" "drop n rest" r pre] assms by auto

lemma get_pcr_over_some:
  assumes "6 < length rest"
  shows "\<exists>c. get_pcr (over r pre rest) = Some (c, over r (pre @ take 6 rest) (drop 6 rest))"
proof -
  obtain v1 :: u32 where 1: "dr_get 4 (over r pre rest) = Some (v1, over r (pre @ take 4 rest) (drop 4 rest))"
    using dr_get_over_some [of 4 rest r pre] assms by auto
  obtain v2 :: u8 where 2: "dr_get (Suc 0) (over r (pre @ take 4 rest) (drop 4 rest)) =
      Some (v2, over r (pre @ take 5 rest) (drop 5 rest))"
    using dr_get_over_some [of 1 "drop 4 rest" r "pre @ take 4 rest"] assms by (auto simp: less_diff_conv simp flip: take_add)
  obtain v3 :: u8 where 3: "dr_get (Suc 0) (over r (pre @ take 5 rest) (drop 5 rest)) =
      Some (v3, over r (pre @ take 6 rest) (drop 6 rest))"
    using dr_get_over_some [of 1 "drop 5 rest" r "pre @ take 5 rest"] assms by (auto simp: less_diff_conv simp flip: take_add)
  show ?thesis using 1 2 3 by (simp add: get_pcr_def)
qed

text \<open>The optional clock references leave the cursor somewhere in the packet.\<close>

definition somewhere :: "data_range_t \<Rightarrow> bytes \<Rightarrow> nat \<Rightarrow> data_range_t \<Rightarrow> bool" where
  "somewhere r whole k r' \<longleftrightarrow> (\<exists>pre rest. r' = over r pre rest \<and> pre @ rest = whole \<and> k \<le> length rest)"

lemma somewhere_pcr:
  assumes "somewhere r whole (k + 6) r'" "0 < k"
  shows "\<exists>c r''. get_pcr r' = Some (c, r'') \<and> somewhere r whole k r''"
proof -
  obtain pre rest where r': "r' = over r pre rest" "pre @ rest = whole" "k + 6 \<le> length rest"
    using assms(1) by (auto simp: somewhere_def)
  then obtain c where c: "get_pcr r' = Some (c, over r (pre @ take 6 rest) (drop 6 rest))"
    using get_pcr_over_some [of rest r pre] assms(2) by auto
  have "somewhere r whole k (over r (pre @ take 6 rest) (drop 6 rest))" unfolding somewhere_def
    by (rule exI [of _ "pre @ take 6 rest"], rule exI [of _ "drop 6 rest"]) (use r' in auto)
  with c show ?thesis by blast
qed

lemma somewhere_weaken: "somewhere r whole k r' \<Longrightarrow> k' \<le> k \<Longrightarrow> somewhere r whole k' r'"
  by (force simp: somewhere_def)

lemma parse_adaptation_flags_over:
  assumes "somewhere r whole 14 r'"
  shows "\<exists>p' r''. parse_adaptation_flags p r' = Some (p', r'') \<and> somewhere r whole 0 r'' \<and>
    header p' = header p \<and> pkt_flags p' = pkt_flags p \<and> pkt_valid p' = pkt_valid p"
proof -
  obtain pre a rest where r': "r' = over r pre (a # rest)" "pre @ a # rest = whole" "13 \<le> length rest"
    using assms by (auto simp: somewhere_def Suc_le_length_iff numeral_eq_Suc)
  let ?r1 = "over r (pre @ [a]) rest" and ?p1 = "p\<lparr>adaptation_field_flags := a\<rparr>"
  have "rest \<noteq> []" using r'(3) by auto
  then have f: "dr_get (Suc 0) r' = Some (a, ?r1)" unfolding r'(1) by simp
  have s1: "somewhere r whole (7 + 6) ?r1" using r' by (force simp: somewhere_def)
  obtain p2 r2 where 2: "(if has_pcr ?p1 then do { (c, r) \<leftarrow> get_pcr ?r1; Some (?p1\<lparr>pkt_pcr := c\<rparr>, r) } else Some (?p1, ?r1)) = Some (p2, r2)"
    "somewhere r whole (1 + 6) r2" "header p2 = header p" "pkt_flags p2 = pkt_flags p" "pkt_valid p2 = pkt_valid p"
    using somewhere_pcr [OF s1] somewhere_weaken [OF s1, of 7] by (cases "has_pcr ?p1") auto
  obtain p3 r3 where 3: "(if has_opcr p2 then do { (c, r) \<leftarrow> get_pcr r2; Some (p2\<lparr>pkt_opcr := c\<rparr>, r) } else Some (p2, r2)) = Some (p3, r3)"
    "somewhere r whole 0 r3" "header p3 = header p" "pkt_flags p3 = pkt_flags p" "pkt_valid p3 = pkt_valid p"
    using somewhere_pcr [OF 2(2)] somewhere_weaken [of r whole 1 _ 0] somewhere_weaken [OF 2(2), of 0] 2(3-5)
    by (cases "has_opcr p2") force+
  show ?thesis using f 2 3 by (simp add: parse_adaptation_flags_def)
qed

lemma parse_adaptation_over:
  assumes ad: "has_adaptation p" and af: "length af < 256" "payload \<noteq> []" "13 < length af + length payload"
    and pre: "length pre = 4"
  shows "\<exists>p'. parse_adaptation p (over r pre (of_nat (length af) # af @ payload)) =
      Some (p', over (r\<lparr>dr_tst := of_nat (length payload)\<rparr>) (pre @ of_nat (length af) # af) payload) \<and>
    header p' = header p \<and> pkt_flags p' = pkt_flags p \<and> pkt_valid p' = pkt_valid p"
proof -
  let ?l = "of_nat (length af) :: u8" and ?whole = "pre @ of_nat (length af) # af @ payload"
  let ?r1 = "over r (pre @ [?l]) (af @ payload)" and ?p1 = "p\<lparr>adaptation_length := ?l\<rparr>"
  have l: "uint ?l = int (length af)" using af(1) by (simp add: unsigned_of_nat take_bit_nat_eq_self uint_nat)
  have cur: "set_cursor (uint ?l + 5) r' = Some (True, over r (pre @ ?l # af) payload)"
    if sw: "somewhere r ?whole 0 r'" for r'
  proof -
    obtain pre' rest' where "r' = over r pre' rest'" "pre' @ rest' = (pre @ ?l # af) @ payload"
      using sw by (auto simp: somewhere_def)
    then show ?thesis using l pre af(2) by (simp add: set_cursor_over)
  qed
  have "somewhere r ?whole 14 ?r1" using af(3) by (force simp: somewhere_def)
  from parse_adaptation_flags_over [OF this, of ?p1] somewhere_weaken [OF this, of 0] obtain p' r' where
    "(if ?l > 0 then parse_adaptation_flags ?p1 ?r1 else Some (?p1, ?r1)) = Some (p', r')" "somewhere r ?whole 0 r'"
    "header p' = header p" "pkt_flags p' = pkt_flags p" "pkt_valid p' = pkt_valid p"
    by (cases "?l > 0") auto
  moreover have "dr_get (Suc 0) (over r pre (?l # af @ payload)) = Some (?l, ?r1)" using af(2) by simp
  ultimately show ?thesis using cur [of r'] ad by (simp add: parse_adaptation_def)
qed

text \<open>C24: The constructor of a packet takes the header apart as the standard lays it out and leaves the cursor at
  the first payload byte: behind the header, or behind an adaptation field that is followed by payload.\<close>
theorem ts_packet_payload:
  assumes "h AND 0x8000 = 0" "h AND 0x1fff \<noteq> 0x1fff" "payload \<noteq> []"
    and "f AND 0x20 = 0 \<and> a = [] \<or> f AND 0x20 \<noteq> 0 \<and> a = of_nat (length af) # af \<and> length af < 256 \<and>
      13 < length af + length payload"
  shows "\<exists>p. new_ts_packet (over r [] (0x47 # be_bytes 2 h @ f # a @ payload)) = Some (p, range p) \<and>
      header p = h \<and> pkt_flags p = f \<and> pkt_valid p \<and>
      range p = over (r\<lparr>dr_tst := of_nat (length payload)\<rparr>) (0x47 # be_bytes 2 h @ f # a) payload"
proof -
  let ?p = "default_ts_packet\<lparr>header := h, pkt_flags := f\<rparr>" and ?pre = "0x47 # be_bytes 2 h @ [f]"
  have ne: "a @ payload \<noteq> []" using assms(3) by simp
  note step = new_ts_packet_header [OF assms(1,2) ne, of r f]
  from assms(4) consider "f AND 0x20 = 0" "a = []"
    | "f AND 0x20 \<noteq> 0" "a = of_nat (length af) # af" "length af < 256" "13 < length af + length payload" by blast
  then show ?thesis
  proof cases
    case 1
    then show ?thesis using step
      by (simp add: parse_adaptation_def has_adaptation_def default_ts_packet_def Let_def del: be_bytes_numeral)
  next
    case 2
    have ad: "has_adaptation ?p" using 2 by (simp add: has_adaptation_def)
    have len: "length ?pre = 4" by simp
    from parse_adaptation_over [OF ad 2(3) assms(3) 2(4) len, of r] 2(2) step show ?thesis
      by (auto simp: default_ts_packet_def Let_def simp del: be_bytes_numeral)
  qed
qed

theorem ts_packet_payload_witness:
  "\<exists>p. new_ts_packet (over default_data_range [] (0x47 # be_bytes 2 (0x4100 :: u16) @ 0x31 # [7, 0x10, 1, 2, 3, 4, 5, 6] @
      replicate 176 0xaa)) = Some (p, range p) \<and> get_pid p = 0x100 \<and> get_continuity_counter p = 1 \<and>
    dr_available (range p) = 176"
proof -
  have "(0x31 :: u8) AND 0x20 \<noteq> 0 \<and> [7, 0x10, 1, 2, 3, 4, 5, 6] =
      of_nat (length [0x10, 1, 2, 3, 4, 5, 6 :: u8]) # [0x10, 1, 2, 3, 4, 5, 6 :: u8] \<and>
      length [0x10, 1, 2, 3, 4, 5, 6 :: u8] < 256 \<and>
      13 < length [0x10, 1, 2, 3, 4, 5, 6 :: u8] + length (replicate 176 (0xaa :: u8))" by simp
  from ts_packet_payload [OF _ _ _ disjI2, of "0x4100" _ "0x31", OF _ _ _ this, of default_data_range]
  show ?thesis by (auto simp: get_pid_def get_continuity_counter_def simp del: be_bytes_numeral)
qed

text \<open>An adaptation field that fills the packet is not skipped: the cursor is set only inside the packet, so
  after a field of 183 bytes without clock references the 182 bytes behind its flags count as payload.\<close>
theorem adaptation_only_packet:
  fixes h :: u16
  assumes "length af = 182" "f AND 0x10 = 0" "f AND 0x08 = 0" "h AND 0x8000 = 0" "h AND 0x1fff \<noteq> 0x1fff" "g AND 0x20 \<noteq> 0"
  shows "\<exists>p r'. new_ts_packet (over r [] (0x47 # be_bytes 2 h @ g # 183 # f # af)) = Some (p, r') \<and>
    dr_available (range p) = 182"
proof -
  have ne: "af \<noteq> []" using assms(1) by auto
  show ?thesis
    using new_ts_packet_header [OF assms(4,5), of "183 # f # af" r g] assms ne
    by (auto simp: parse_adaptation_def parse_adaptation_flags_def has_adaptation_def has_pcr_def has_opcr_def
        set_cursor_over_end Let_def simp del: be_bytes_numeral)
qed

theorem adaptation_only_packet_witness:
  "\<exists>p r'. new_ts_packet (over default_data_range [] (0x47 # be_bytes 2 (0x100 :: u16) @ 0x20 # 183 # 0 # replicate 182 0xff)) =
    Some (p, r') \<and> dr_available (range p) = 182"
  using adaptation_only_packet [of "replicate 182 0xff" 0 "0x100" "0x20" default_data_range] by simp

text \<open>A value that ends with its range reads as zero and leaves the cursor, although the assertion in front of
  the read admits it.\<close>
lemma read_to_the_end_fails:
  "dr_get (length x) (over r pre x) = Some (0, over r pre x)"
  by (rule dr_get_at_end) simp

end
