(* ===== verification/Streamwriter.thy ===== *)
theory Streamwriter
  imports Crc32 Stackstring Pmt_Languages Ts_Packet
begin

text \<open>
  Writing sections and packing them into a transport stream (\<open>receiver/streamparser/streamwriter.cc\<close>,
  \<open>streamwriter.h\<close>), used to give a player a program with the preferred streams only. A writer holds a
  range over its buffer; the pointers it keeps are offsets into that buffer. \<open>None\<close> is a failed assertion or an
  access outside of a buffer.
\<close>

subsection \<open>Sections\<close>

record section_writer_t =
  sw_pid :: u16
  sw_data_size :: int
  p_section_start :: int
  p_length :: int
  p_es_info_length :: int
  sw_section :: data_range_t

text \<open>A new writer over uninitialised memory \<open>buf\<close>, whose length is the capacity of the buffer.\<close>

definition new_section_writer :: "bytes \<Rightarrow> section_writer_t option" where
  "new_section_writer buf = do {
     r \<leftarrow> new_data_range buf 0 (int (length buf));
     Some \<lparr>sw_pid = 0x1fff, sw_data_size = 0, p_section_start = 0, p_length = 0, p_es_info_length = 0, sw_section = r\<rparr>
   }"

definition on_section :: "(data_range_t \<Rightarrow> data_range_t option) \<Rightarrow> section_writer_t \<Rightarrow> section_writer_t option" where
  "on_section f w = do { r \<leftarrow> f (sw_section w); Some (w\<lparr>sw_section := r\<rparr>) }"

definition put8 :: "u8 \<Rightarrow> section_writer_t \<Rightarrow> section_writer_t option" where
  "put8 v = on_section (dr_put 1 v)"

definition put16 :: "u16 \<Rightarrow> section_writer_t \<Rightarrow> section_writer_t option" where
  "put16 v = on_section (dr_put 2 v)"

definition put32 :: "u32 \<Rightarrow> section_writer_t \<Rightarrow> section_writer_t option" where
  "put32 v = on_section (dr_put 4 v)"

definition put_bytes :: "bytes \<Rightarrow> section_writer_t \<Rightarrow> section_writer_t option" where
  "put_bytes bs = on_section (\<lambda>r. do { (_, r) \<leftarrow> put_buffer bs r; Some r })"

definition end_section :: "section_writer_t \<Rightarrow> section_writer_t option" where
  "end_section w = do {
     let r = sw_section w;
     let l = (word_of_int (dr_curpos r - p_length w - 2 + 4) :: u16);
     r \<leftarrow> write_at (p_length w) [ucast (drop_bit 8 l) OR 0x80 OR 0x30] r;
     r \<leftarrow> write_at (p_length w + 1) [ucast (l AND 0xff)] r;
     bs \<leftarrow> bytes_at (p_section_start w) (processed r - p_section_start w) r;
     r \<leftarrow> dr_put 4 (crc32 bs) r;
     buf \<leftarrow> dr_buffer r;
     let w = w\<lparr>sw_data_size := processed r\<rparr>;
     r \<leftarrow> new_data_range buf 0 (processed r);
     Some (w\<lparr>sw_section := r\<rparr>)
   }"

definition pat_start_section :: "u16 \<Rightarrow> u16 \<Rightarrow> section_writer_t \<Rightarrow> section_writer_t option" where
  "pat_start_section service_id p w = do {
     let w = w\<lparr>sw_section := (sw_section w)\<lparr>dr_is_writer := True\<rparr>\<rparr>;
     let w = w\<lparr>p_section_start := dr_curpos (sw_section w)\<rparr>;
     w \<leftarrow> put8 0x00 w;
     let w = w\<lparr>p_length := dr_curpos (sw_section w)\<rparr>;
     w \<leftarrow> put16 0 w;
     w \<leftarrow> put16 1 w;
     w \<leftarrow> put8 (push_bit 6 0x03 OR push_bit 1 1 OR 1) w;
     w \<leftarrow> put8 0 w;
     w \<leftarrow> put8 0 w;
     w \<leftarrow> put16 service_id w;
     put16 (p OR 0xe000) w
   }"

definition pmt_start_section :: "pmt_info_t \<Rightarrow> section_writer_t \<Rightarrow> section_writer_t option" where
  "pmt_start_section pmt w = do {
     let w = w\<lparr>sw_section := (sw_section w)\<lparr>dr_is_writer := True\<rparr>\<rparr>;
     let w = w\<lparr>sw_pid := pmt_pid pmt, p_section_start := dr_curpos (sw_section w)\<rparr>;
     w \<leftarrow> put8 0x02 w;
     let w = w\<lparr>p_length := dr_curpos (sw_section w)\<rparr>;
     w \<leftarrow> put16 0 w;
     w \<leftarrow> put16 (pmt_service_id pmt) w;
     w \<leftarrow> put8 (ucast (push_bit 6 0x03 OR push_bit 1 (ucast (pmt_version_number pmt)) OR 1 :: u32)) w;
     w \<leftarrow> put8 0 w;
     w \<leftarrow> put8 0 w;
     w \<leftarrow> put16 (pcr_pid pmt OR 0xe000) w;
     put16 (push_bit 12 0xf) w
   }"

definition start_es :: "u8 \<Rightarrow> u16 \<Rightarrow> section_writer_t \<Rightarrow> section_writer_t option" where
  "start_es st p w = do {
     w \<leftarrow> put8 st w;
     w \<leftarrow> put16 (p OR 0xe000) w;
     let w = w\<lparr>p_es_info_length := dr_curpos (sw_section w)\<rparr>;
     put16 0xf000 w
   }"

definition end_es :: "section_writer_t \<Rightarrow> section_writer_t option" where
  "end_es w =
     (let es_info_length = (word_of_int (dr_curpos (sw_section w) - p_es_info_length w - 2) :: u16)
      in if es_info_length = 0 then Some w
         else do {
           w \<leftarrow> on_section (write_at (p_es_info_length w) [ucast (drop_bit 8 (es_info_length OR 0xf000))]) w;
           on_section (write_at (p_es_info_length w + 1) [ucast ((es_info_length OR 0xf000) AND 0xff)]) w
         })"

text \<open>
  The length of a descriptor is an \<open>int\<close>, for which there is no byte order conversion: four bytes, least
  significant first.
\<close>

definition add_desc :: "descriptor_t \<Rightarrow> bytes \<Rightarrow> section_writer_t \<Rightarrow> section_writer_t option" where
  "add_desc desc data w = do {
     w \<leftarrow> put8 (desc_tag desc) w;
     w \<leftarrow> put32 (be_word (rev (be_bytes 4 (word_of_int (desc_len desc) :: u32)))) w;
     put_bytes (take (nat (desc_len desc)) data) w
   }"

definition lang_bytes :: "u8 \<times> u8 \<times> u8 \<Rightarrow> bytes" where
  "lang_bytes l = (case l of (a, b, c) \<Rightarrow> [a, b, c])"

definition add_audio_desc :: "audio_language_info_t \<Rightarrow> section_writer_t \<Rightarrow> section_writer_t option" where
  "add_audio_desc ai w = do {
     w \<leftarrow> put8 0x0A w;
     w \<leftarrow> put8 4 w;
     w \<leftarrow> put_bytes (lang_bytes (audio_lang_code ai)) w;
     w \<leftarrow> put8 (audio_type ai) w;
     if ac3 ai then put_bytes (ac3_descriptor_data ai) w else Some w
   }"

definition add_subtitle_desc :: "subtitle_info_t \<Rightarrow> section_writer_t \<Rightarrow> section_writer_t option" where
  "add_subtitle_desc si w = do {
     w \<leftarrow> put8 0x59 w;
     w \<leftarrow> put8 4 w;
     w \<leftarrow> put_bytes (lang_bytes (sub_lang_code si)) w;
     w \<leftarrow> put8 (subtitle_type si) w;
     w \<leftarrow> put16 (composition_page_id si) w;
     put16 (ancillary_page_id si) w
   }"

definition make_video :: "pmt_info_t \<Rightarrow> section_writer_t \<Rightarrow> section_writer_t option" where
  "make_video pmt w =
     (case filter (\<lambda>d. is_video (stream_type d)) (pid_descriptors pmt) of
        [] \<Rightarrow> Some w
      | d # _ \<Rightarrow> do { w \<leftarrow> start_es (stream_type d) (stream_pid d) w; end_es w })"

definition make_audio :: "pid_info_t option \<Rightarrow> section_writer_t \<Rightarrow> section_writer_t option" where
  "make_audio d w =
     (case d of
        None \<Rightarrow> Some w
      | Some d \<Rightarrow> do {
          w \<leftarrow> start_es (stream_type d) (stream_pid d) w;
          w \<leftarrow> add_audio_desc (audio_lang d) w;
          end_es w
        })"

definition make_subtitle :: "(pid_info_t \<times> subtitle_info_t) option \<Rightarrow> section_writer_t \<Rightarrow> section_writer_t option" where
  "make_subtitle c w =
     (case c of
        None \<Rightarrow> Some w
      | Some (d, s) \<Rightarrow> do {
          w \<leftarrow> start_es (stream_type d) (stream_pid d) w;
          w \<leftarrow> add_subtitle_desc s w;
          end_es w
        })"

definition pmt_make :: "pmt_info_t \<Rightarrow> language_code_t list \<Rightarrow> language_code_t list \<Rightarrow> section_writer_t \<Rightarrow>
    ((language_code_t \<times> language_code_t) \<times> section_writer_t) option" where
  "pmt_make pmt audio_prefs subtitle_prefs w = do {
     w \<leftarrow> pmt_start_section pmt w;
     w \<leftarrow> make_video pmt w;
     let (ad, alang) = best_audio_language pmt audio_prefs;
     w \<leftarrow> make_audio ad w;
     let (sd, slang) = best_subtitle_language pmt subtitle_prefs;
     w \<leftarrow> make_subtitle sd w;
     w \<leftarrow> end_section w;
     Some ((if ad = None then default_language_code else alang,
            if sd = None then default_language_code else slang), w)
   }"

subsection \<open>Packets\<close>

record ts_writer_t =
  tw_section :: data_range_t
  tw_output_byte_no :: int
  tw_pid :: u16

abbreviation ts_size :: int where "ts_size \<equiv> 188"

text \<open>The four header bytes of the packet at byte number \<open>no\<close> of the output.\<close>

definition ts_header :: "u16 \<Rightarrow> int \<Rightarrow> bytes" where
  "ts_header p no =
     (let continuity_counter = (word_of_int (no div ts_size) :: u8);
          pusi = (if no = 0 then 0x40 else 0 :: u8)
      in [0x47, pusi OR ucast (drop_bit 8 (p AND 0x1fff)), ucast (p AND 0x1fff), 0x10 OR continuity_counter mod 16])"

text \<open>
  One turn of the loop of \<open>ts_writer_t::output\<close>; \<open>Inl\<close> leaves the loop. The buffer grows by bytes that are
  then overwritten from the section or with stuffing.
\<close>

definition ts_output_step :: "ts_writer_t \<times> u8 databuffer \<Rightarrow> ((ts_writer_t \<times> u8 databuffer) + (ts_writer_t \<times> u8 databuffer)) option" where
  "ts_output_step st =
     (case st of (w, out) \<Rightarrow> do {
        let no = tw_output_byte_no w;
        let i = no mod ts_size;
        out \<leftarrow> reserve (db_size out + ts_size) out;
        (no, out) \<leftarrow> (if i < 4
          then do { out \<leftarrow> append_raw (drop (nat i) (ts_header (tw_pid w) no)) out; Some (no + (4 - i), out) }
          else Some (no, out));
        (no, out) \<leftarrow> (if no = 4 then do { out \<leftarrow> push_back byte_elements 0 out; Some (no + 1, out) } else Some (no, out));
        let w = w\<lparr>tw_output_byte_no := no\<rparr>;
        let s = min (dr_available (tw_section w)) (db_capacity out - db_size out);
        let s = (if s > 0 then min (ts_size - no mod ts_size) s else s);
        if s = 0 \<and> dr_available (tw_section w) > 0 \<and> db_capacity out - db_size out > 0 then Some (Inr (w, out))
        else do {
          (w, out) \<leftarrow> (if s > 0
            then do {
              (bs, r) \<leftarrow> dr_get_buffer s (tw_section w);
              out \<leftarrow> append_raw bs out;
              Some (w\<lparr>tw_section := r, tw_output_byte_no := no + s\<rparr>, out)
            }
            else Some (w, out));
          if dr_available (tw_section w) = 0
          then do {
            let s = ts_size - tw_output_byte_no w mod ts_size;
            out \<leftarrow> append_raw (replicate (nat s) 0xff) out;
            Some (Inl (w\<lparr>tw_output_byte_no := tw_output_byte_no w + s\<rparr>, out))
          }
          else Some (Inr (w, out))
        }
      })"

definition ts_output :: "ts_writer_t \<Rightarrow> u8 databuffer \<Rightarrow> (ts_writer_t \<times> u8 databuffer) option" where
  "ts_output w out = do {
     r \<leftarrow> while_return (\<lambda>(w, out). dr_available (tw_section w) > 0) ts_output_step (w, out);
     Some (case r of Inl st \<Rightarrow> st | Inr st \<Rightarrow> st)
   }"

definition new_ts_writer :: "data_range_t \<Rightarrow> u16 \<Rightarrow> ts_writer_t" where
  "new_ts_writer r p = \<lparr>tw_section = r, tw_output_byte_no = 0, tw_pid = p\<rparr>"

definition save :: "section_writer_t \<Rightarrow> u16 \<Rightarrow> u8 databuffer \<Rightarrow> (section_writer_t \<times> u8 databuffer) option" where
  "save w p out = do {
     (t, out) \<leftarrow> ts_output (new_ts_writer (sw_section w) p) out;
     Some (w\<lparr>sw_section := tw_section t\<rparr>, out)
   }"

text \<open>\<open>pmt_info_t::make_preferred_pmt_ts\<close>: a program association and a program map with the preferred streams.\<close>

definition make_preferred_pmt_ts :: "bytes \<Rightarrow> bytes \<Rightarrow> pmt_info_t \<Rightarrow> language_code_t list \<Rightarrow> language_code_t list \<Rightarrow>
    u8 databuffer \<Rightarrow> ((language_code_t \<times> language_code_t) \<times> u8 databuffer) option" where
  "make_preferred_pmt_ts buf1 buf2 pmt audio_prefs subtitle_prefs out = do {
     pat_writer \<leftarrow> new_section_writer buf1;
     pmt_writer \<leftarrow> new_section_writer buf2;
     pat_writer \<leftarrow> pat_start_section (pmt_service_id pmt) (pmt_pid pmt) pat_writer;
     pat_writer \<leftarrow> end_section pat_writer;
     (langs, pmt_writer) \<leftarrow> pmt_make pmt audio_prefs subtitle_prefs pmt_writer;
     (_, out) \<leftarrow> ts_output (new_ts_writer (sw_section pat_writer) 0) out;
     (_, out) \<leftarrow> ts_output (new_ts_writer (sw_section pmt_writer) (pmt_pid pmt)) out;
     Some (langs, out)
   }"

subsection \<open>Writers at a position\<close>

text \<open>The writer \<open>writing w d rest\<close> has written \<open>d\<close> and has the memory \<open>rest\<close> before it.\<close>

definition writing_range :: "bytes \<Rightarrow> bytes \<Rightarrow> data_range_t" where
  "writing_range d rest = default_data_range\<lparr>dr_buffer := Some (d @ rest), dr_curpos := int (length d),
     dr_end := int (length d + length rest), dr_is_writer := True\<rparr>"

definition writing :: "section_writer_t \<Rightarrow> bytes \<Rightarrow> bytes \<Rightarrow> section_writer_t" where
  "writing w d rest = w\<lparr>sw_section := writing_range d rest\<rparr>"

named_theorems writer_simps

lemma dr_put_writing:
  "n \<le> length rest \<Longrightarrow> dr_put n v (writing_range d rest) = Some (writing_range (d @ be_bytes n v) (drop n rest))"
  by (simp add: dr_put_def writing_range_def write_at_def dr_available_def is_valid_def default_data_range_def Let_def)

lemma put_writing [writer_simps]:
  "1 \<le> length rest \<Longrightarrow> put8 v (writing w d rest) = Some (writing w (d @ [v]) (drop 1 rest))"
  "2 \<le> length rest \<Longrightarrow> put16 v' (writing w d rest) = Some (writing w (d @ be_bytes 2 v') (drop 2 rest))"
  "4 \<le> length rest \<Longrightarrow> put32 v'' (writing w d rest) = Some (writing w (d @ be_bytes 4 v'') (drop 4 rest))"
  using dr_put_writing [of 1 rest v d] dr_put_writing [of 2 rest v' d] dr_put_writing [of 4 rest v'' d]
  by (simp_all add: put8_def put16_def put32_def on_section_def writing_def)

lemma put_bytes_writing [writer_simps]:
  "length bs \<le> length rest \<Longrightarrow> put_bytes bs (writing w d rest) = Some (writing w (d @ bs) (drop (length bs) rest))"
  by (auto simp: put_bytes_def on_section_def writing_def put_buffer_def writing_range_def write_at_def dr_available_def
      is_valid_def default_data_range_def Let_def)

lemma write_at_writing:
  "i = int (length a) \<Longrightarrow> length x = length bs \<Longrightarrow>
    write_at i bs (writing_range (a @ x @ b) rest) = Some (writing_range (a @ bs @ b) rest)"
  by (simp add: write_at_def writing_range_def)

lemma writing_section [simp]: "sw_section (writing w d rest) = writing_range d rest" "dr_curpos (writing_range d rest) = int (length d)"
  "processed (writing_range d rest) = int (length d)" "p_length (writing w d rest) = p_length w"
  "p_section_start (writing w d rest) = p_section_start w" "p_es_info_length (writing w d rest) = p_es_info_length w"
  by (simp_all add: writing_def writing_range_def processed_def is_valid_def default_data_range_def)

lemma writing_update [simp]: "(writing w d rest)\<lparr>p_length := i\<rparr> = writing (w\<lparr>p_length := i\<rparr>) d rest"
  "(writing w d rest)\<lparr>p_section_start := i\<rparr> = writing (w\<lparr>p_section_start := i\<rparr>) d rest"
  "(writing w d rest)\<lparr>p_es_info_length := i\<rparr> = writing (w\<lparr>p_es_info_length := i\<rparr>) d rest"
  "(writing w d rest)\<lparr>sw_pid := p\<rparr> = writing (w\<lparr>sw_pid := p\<rparr>) d rest"
  by (simp_all add: writing_def)

lemma start_writing:
  assumes "buf \<noteq> []"
  shows "\<exists>w. new_section_writer buf = Some w \<and> w\<lparr>sw_section := (sw_section w)\<lparr>dr_is_writer := True\<rparr>\<rparr> = writing w [] buf"
  using assms by (simp add: new_section_writer_def new_data_range_def writing_def writing_range_def default_data_range_def)

text \<open>
  Closing a section that starts with a table number and room for the length: the length is filled in, the checksum
  appended, and the writer turned into a reader of the finished section.
\<close>

definition finished :: "bytes \<Rightarrow> bytes \<Rightarrow> data_range_t" where
  "finished d rest = default_data_range\<lparr>dr_buffer := Some (d @ rest), dr_end := int (length d)\<rparr>"

lemma end_section_writing:
  fixes t :: u8 and body :: bytes
  defines "l \<equiv> (of_nat (length body + 4) :: u16)"
  defines "d \<equiv> [t, ucast (drop_bit 8 l) OR 0xb0, ucast l] @ body"
  assumes "p_length w = 1" "p_section_start w = 0" "4 \<le> length rest"
  shows "\<exists>w'. end_section (writing w ([t, x, y] @ body) rest) = Some w' \<and>
    sw_section w' = finished (d @ be_bytes 4 (crc32 d)) (drop 4 rest)"
proof -
  have l: "word_of_int (int (length ([t, x, y] @ body)) - p_length w - 2 + 4) = l"
    using assms(3) by (simp add: l_def algebra_simps)
  have w1: "write_at (p_length w) [ucast (drop_bit 8 l) OR 0x80 OR 0x30] (writing_range (t # x # y # body) rest) =
      Some (writing_range (t # (ucast (drop_bit 8 l) OR 0xb0) # y # body) rest)"
    using write_at_writing [of 1 "[t]" "[x]" "[ucast (drop_bit 8 l) OR 0xb0]" "y # body" rest] assms(3) by (simp add: or.assoc)
  have w2: "write_at (p_length w + 1) [ucast (l AND 0xff)] (writing_range (t # (ucast (drop_bit 8 l) OR 0xb0) # y # body) rest) =
      Some (writing_range d rest)"
    using write_at_writing [of 2 "[t, ucast (drop_bit 8 l) OR 0xb0]" "[y]" "[ucast l]" body rest] assms(3)
    by (simp add: d_def byte_simps)
  have bs: "bytes_at 0 (int (length d)) (writing_range d rest) = Some d"
    by (simp add: bytes_at_def writing_range_def)
  have buf: "dr_buffer (writing_range d' rest') = Some (d' @ rest')" for d' rest' by (simp add: writing_range_def)
  define e where "e = d @ be_bytes 4 (crc32 d)"
  have "0 < int (length e)" by (simp add: e_def)
  then have "new_data_range (e @ drop 4 rest) 0 (int (length e)) = Some (finished e (drop 4 rest))"
    by (simp add: new_data_range_def finished_def default_data_range_def)
  with dr_put_writing [OF assms(5), of "crc32 d" d, folded e_def] bs show ?thesis
    unfolding end_section_def e_def [symmetric] using l w1 w2 assms(4) by (simp add: buf Let_def)
qed

subsection \<open>Program association\<close>

lemma be_bytes_2_small: "be_bytes 2 (0 :: u16) = [0, 0]" "be_bytes 2 (1 :: u16) = [0, 1]"
  by code_simp+

lemma pat_start_section_writing:
  assumes "12 \<le> length buf" "new_section_writer buf = Some w"
  shows "pat_start_section sid p w = Some (writing (w\<lparr>p_section_start := 0, p_length := 1\<rparr>) ([0, 0, 0] @ [0, 1, 0xc3, 0, 0] @ be_bytes 2 sid @ be_bytes 2 (p OR 0xe000)) (drop 12 buf))"
proof -
  from assms(1) have "buf \<noteq> []" by auto
  with start_writing [of buf] assms(2) have w: "w\<lparr>sw_section := (sw_section w)\<lparr>dr_is_writer := True\<rparr>\<rparr> = writing w [] buf" by auto
  show ?thesis
    unfolding pat_start_section_def w Let_def
    using assms(1) by (simp add: writer_simps drop_drop be_bytes_2_small del: be_bytes_numeral)
qed

definition written_pat :: "u16 \<Rightarrow> u16 \<Rightarrow> bytes" where
  "written_pat sid p =
     (let d = 0 # 0xb0 # 13 # [0, 1, 0xc3, 0, 0] @ be_bytes 2 sid @ be_bytes 2 (p OR 0xe000) in d @ be_bytes 4 (crc32 d))"

lemma written_pat_bytes:
  "\<exists>crc. written_pat sid p = pat_section_bytes 1 1 0 0 [(sid, p OR 0xe000)] crc"
proof -
  have "be_bytes 2 (length_word 13 True False) = [0xb0, 13]" "version_byte 1 True = 0xc3" by code_simp+
  then show ?thesis
    unfolding written_pat_def pat_section_bytes_def pat_bytes_def Let_def
    by (auto simp: be_bytes_2_small simp del: be_bytes_numeral)
qed

lemma write_pat:
  assumes "16 \<le> length buf"
  shows "\<exists>w w1 w2. new_section_writer buf = Some w \<and> pat_start_section sid p w = Some w1 \<and> end_section w1 = Some w2 \<and>
    sw_section w2 = finished (written_pat sid p) (drop 16 buf)"
proof -
  from assms have "buf \<noteq> []" by auto
  with start_writing obtain w where w: "new_section_writer buf = Some w" by blast
  define w1 where "w1 = w\<lparr>p_section_start := 0, p_length := 1\<rparr>"
  have w1: "p_length w1 = 1" "p_section_start w1 = 0" by (simp_all add: w1_def)
  have p: "pat_start_section sid p w = Some (writing w1 ([0, 0, 0] @ [0, 1, 0xc3, 0, 0] @ be_bytes 2 sid @ be_bytes 2 (p OR 0xe000)) (drop 12 buf))"
    using pat_start_section_writing [of buf w sid p] w assms by (simp add: w1_def)
  have "(ucast (drop_bit 8 (13 :: u16)) OR 0xb0 :: u8) = 0xb0" "(ucast (13 :: u16) :: u8) = 13" by code_simp+
  with end_section_writing [of w1 "drop 12 buf" 0 0 0 "[0, 1, 0xc3, 0, 0] @ be_bytes 2 sid @ be_bytes 2 (p OR 0xe000)"] w w1 p assms
  show ?thesis by (auto simp: written_pat_def Let_def drop_drop simp del: be_bytes_numeral)
qed


subsection \<open>The packets of a section\<close>

text \<open>The reader \<open>reading pre ys tail\<close> has consumed \<open>pre\<close> and has \<open>ys\<close> before it; the buffer goes on with \<open>tail\<close>.\<close>

definition reading :: "bytes \<Rightarrow> bytes \<Rightarrow> bytes \<Rightarrow> data_range_t" where
  "reading pre ys tail = default_data_range\<lparr>dr_buffer := Some (pre @ ys @ tail), dr_curpos := int (length pre),
     dr_end := int (length pre + length ys)\<rparr>"

lemma finished_reading: "finished d rest = reading [] d rest"
  by (simp add: finished_def reading_def default_data_range_def)

lemma reading_available [simp]: "dr_available (reading pre ys tail) = int (length ys)"
  by (simp add: reading_def dr_available_def is_valid_def)

lemma dr_get_buffer_reading:
  assumes "n \<le> length ys" "0 < n"
  shows "dr_get_buffer (int n) (reading pre ys tail) = Some (take n ys, reading (pre @ take n ys) (drop n ys) tail)"
  using assms by (simp add: dr_get_buffer_def reading_def dr_available_def is_valid_def default_data_range_def bytes_at_def
      Let_def min_def)

text \<open>
  Reference: the packets of a section, from packet \<open>k\<close> on. A packet starts with the synchronisation byte, the stream number
  with the flag for the start of a unit in the first packet only, and a byte that announces a payload and counts packets modulo 16.
  The first packet has a pointer field. A section that ends with its last packet is followed by 188 bytes of stuffing, which are no packet.
\<close>

definition room :: "nat \<Rightarrow> nat" where
  "room k = (if k = 0 then 183 else 184)"

definition packet_head :: "u16 \<Rightarrow> nat \<Rightarrow> bytes" where
  "packet_head p k =
     [0x47] @ be_bytes 2 ((if k = 0 then 0x4000 else 0) OR (p AND 0x1fff)) @ [0x10 + of_nat (k mod 16)] @ (if k = 0 then [0] else [])"

lemma length_packet_head [simp]: "length (packet_head p k) = 188 - room k"
  by (simp add: packet_head_def room_def)

lemma counter_byte: "0x10 OR (word_of_int (int k) :: u8) mod 16 = 0x10 + of_nat (k mod 16)"
proof -
  have "(0x10 :: u8) OR of_nat n = 0x10 + of_nat n" if "n < 16" for n
    using that by (auto simp: less_Suc_eq numeral_eq_Suc) 
  moreover have "(of_nat k :: u8) mod 16 = of_nat (k mod 16)"
  proof (rule word_unat_eq_iff [THEN iffD2])
    show "unat ((of_nat k :: u8) mod 16) = unat (of_nat (k mod 16) :: u8)"
      by (simp add: unat_mod_distrib unsigned_of_nat take_bit_eq_mod mod_mod_cancel)
  qed
  ultimately show ?thesis by simp
qed

lemma ts_header_head: "ts_header p (188 * int k) @ (if k = 0 then [0] else []) = packet_head p k"
proof -
  have "(be_bytes 2 ((if k = 0 then 0x4000 else 0) OR (p AND 0x1fff)) :: bytes) =
      [(if k = 0 then 0x40 else 0) OR ucast (drop_bit 8 (p AND 0x1fff)), ucast (p AND 0x1fff)]"
  proof -
    have "(ucast (drop_bit 8 (0x4000 :: u16)) :: u8) = 0x40" "(ucast (0x4000 :: u16) :: u8) = 0" by code_simp+
    moreover have "be_bytes 2 w = [ucast (drop_bit 8 w), ucast w]" for w :: u16 by simp
    ultimately show ?thesis by (cases "k = 0") (simp_all only: unsigned_or_eq drop_bit_or if_True if_False or.left_neutral simp_thms)
  qed
  then show ?thesis unfolding packet_head_def ts_header_def Let_def counter_byte [symmetric] by simp
qed

function packetize :: "u16 \<Rightarrow> nat \<Rightarrow> bytes \<Rightarrow> bytes" where
  "packetize p k ys =
     (if length ys < room k then packet_head p k @ ys @ replicate (room k - length ys) 0xff
      else if length ys = room k then packet_head p k @ ys @ replicate 188 0xff
      else packet_head p k @ take (room k) ys @ packetize p (Suc k) (drop (room k) ys))"
  by pat_completeness auto
termination
  by (relation "measure (\<lambda>(p, k, ys). length ys)") (auto simp: room_def)

declare packetize.simps [simp del]

function ts_packets :: "u16 \<Rightarrow> nat \<Rightarrow> bytes \<Rightarrow> bytes list" where
  "ts_packets p k ys =
     (if length ys \<le> room k then [packet_head p k @ ys @ replicate (room k - length ys) 0xff]
      else (packet_head p k @ take (room k) ys) # ts_packets p (Suc k) (drop (room k) ys))"
  by pat_completeness auto
termination
  by (relation "measure (\<lambda>(p, k, ys). length ys)") (auto simp: room_def)

declare ts_packets.simps [simp del]

lemma length_ts_packets: "list_all (\<lambda>x. length x = 188) (ts_packets p k ys)"
proof (induction p k ys rule: ts_packets.induct)
  case (1 p k ys)
  then show ?case by (subst ts_packets.simps) (simp add: room_def)
qed

lemma packetize_packets:
  "ys \<noteq> [] \<Longrightarrow> packetize p k ys = concat (ts_packets p k ys) @ (if (length ys + (if k = 0 then 1 else 0)) mod 184 = 0 then replicate 188 0xff else [])"
proof (induction p k ys rule: packetize.induct)
  case (1 p k ys)
  define c where "c = (if k = 0 then 1 else 0 :: nat)"
  have room: "room k + c = 184" "0 < room k" by (simp_all add: room_def c_def)
  consider "length ys < room k" | "length ys = room k" | "length ys > room k" by linarith
  then show ?case
  proof cases
    case 1
    then have "(length ys + c) mod 184 \<noteq> 0" using room \<open>ys \<noteq> []\<close> by simp
    with 1 show ?thesis by (simp add: packetize.simps [of p k ys] ts_packets.simps [of p k ys] c_def [symmetric])
  next
    case 2
    with room show ?thesis by (simp add: packetize.simps [of p k ys] ts_packets.simps [of p k ys] c_def [symmetric])
  next
    case 3
    then have "length ys + c = length (drop (room k) ys) + 184" using room by simp
    then have "(length ys + c) mod 184 = (length (drop (room k) ys) + 184) mod 184" by (simp only:)
    also have "\<dots> = length (drop (room k) ys) mod 184" by simp
    finally show ?thesis using 3 "1.IH" by (simp add: packetize.simps [of p k ys] ts_packets.simps [of p k ys] c_def [symmetric])
  qed
qed

definition at_packet :: "u16 \<Rightarrow> nat \<Rightarrow> data_range_t \<Rightarrow> ts_writer_t" where
  "at_packet p k r = \<lparr>tw_section = r, tw_output_byte_no = 188 * int k, tw_pid = p\<rparr>"

lemma ts_output_step_packet:
  fixes out :: "u8 databuffer" and ys :: bytes and k :: nat
  assumes "db_ok out" "length (db_data out) + 376 \<le> max_size" "ys \<noteq> []"
  defines "m \<equiv> room k"
  shows "\<exists>out'. db_ok out' \<and>
    (if length ys \<le> m
     then \<exists>w'. ts_output_step (at_packet p k (reading pre ys tail), out) = Some (Inl (w', out')) \<and>
       db_data out' = db_data out @ packetize p k ys \<and> tw_section w' = reading (pre @ ys) [] tail
     else ts_output_step (at_packet p k (reading pre ys tail), out) = Some (Inr (at_packet p (Suc k) (reading (pre @ take m ys) (drop m ys) tail), out')) \<and>
       db_data out' = db_data out @ packet_head p k @ take m ys)"
proof -
  define n where "n = min (length ys) m"
  have n: "0 < n" "n \<le> length ys" "n \<le> m" using assms(3) by (auto simp: n_def m_def room_def)
  obtain o1 where o1: "reserve (db_size out + 188) out = Some o1" "db_ok o1" "db_data o1 = db_data out"
    "db_size out + 188 \<le> db_capacity o1"
    using reserve_spec [OF assms(1), of "db_size out + 188"] assms(2) by (auto simp: db_size_def)
  have lh: "length (ts_header p (188 * int k)) = 4" by (simp add: ts_header_def Let_def)
  obtain o2 where o2: "append_raw (ts_header p (188 * int k)) o1 = Some o2" "db_ok o2"
    "db_data o2 = db_data out @ ts_header p (188 * int k)" "db_capacity o1 \<le> db_capacity o2"
    using append_raw_spec [OF o1(2), of "ts_header p (188 * int k)"] o1(3) assms(2) lh by auto
  define no where "no = 188 * int k + (188 - int m)"
  obtain o3 where o3: "(if 188 * int k + 4 = 4 then do { out \<leftarrow> push_back byte_elements 0 o2; Some (188 * int k + 4 + 1, out) }
      else Some (188 * int k + 4, o2)) = Some (no, o3)" "db_ok o3" "db_data o3 = db_data out @ packet_head p k"
    "db_capacity o2 \<le> db_capacity o3"
  proof (cases "k = 0")
    case True
    obtain o3 where "push_back byte_elements 0 o2 = Some o3" "db_ok o3" "db_data o3 = db_data o2 @ [0]" "db_capacity o2 \<le> db_capacity o3"
      using push_back_spec [OF o2(2), of byte_elements 0] o2(3) assms(2) lh by auto
    with True o2(3) that ts_header_head [of p k] show ?thesis by (simp add: no_def m_def room_def)
  next
    case False
    with o2 that ts_header_head [of p k] show ?thesis by (simp add: no_def m_def room_def)
  qed
  have no: "no mod 188 = 188 - int m" "188 - no mod 188 = int m" by (auto simp: no_def m_def room_def)
  have room: "int m \<le> db_capacity o3 - db_size o3"
    using o3(3,4) o2(4) o1(4) by (auto simp: db_size_def m_def room_def)
  have cap: "db_size o3 < db_capacity o3" using room n by simp
  have s: "min (188 - no mod 188) (min (int (length ys)) (db_capacity o3 - db_size o3)) = int n"
    using room no(2) by (simp add: n_def)
  obtain o4 where o4: "append_raw (take n ys) o3 = Some o4" "db_ok o4" "db_data o4 = db_data out @ packet_head p k @ take n ys"
    using append_raw_spec [OF o3(2), of "take n ys"] o3(3) assms(2) n by (auto simp: m_def room_def split: if_splits)
  define r where "r = reading (pre @ take n ys) (drop n ys) tail"
  have get: "dr_get_buffer (int n) (reading pre ys tail) = Some (take n ys, r)"
    unfolding r_def using n by (intro dr_get_buffer_reading)
  have step: "ts_output_step (at_packet p k (reading pre ys tail), out) =
      (if length ys = n
       then do {
         out \<leftarrow> append_raw (replicate (nat (188 - (no + int n) mod 188)) 0xff) o4;
         Some (Inl (\<lparr>tw_section = r, tw_output_byte_no = no + int n + (188 - (no + int n) mod 188), tw_pid = p\<rparr>, out))
       }
       else Some (Inr (\<lparr>tw_section = r, tw_output_byte_no = no + int n, tw_pid = p\<rparr>, o4)))"
    using n(1,2) assms(3) unfolding ts_output_step_def at_packet_def
    by (simp add: o1(1) o2(1) o3(1) [simplified] o4(1) cap s get Let_def) (simp add: r_def)
  show ?thesis
  proof (cases "length ys \<le> m")
    case True
    then have n': "n = length ys" by (simp add: n_def)
    define f where "f = nat (188 - (no + int n) mod 188)"
    have "(no + int n) mod 188 = (188 - int m + int n) mod 188" 
      unfolding no_def add.assoc by (rule mod_mult_self4)
    also have "\<dots> = (if n = m then 0 else 188 - int m + int n)" using n by (auto simp: m_def room_def mod_pos_pos_trivial split: if_splits)
    finally have f: "f = (if n = m then 188 else m - n)" using n by (auto simp: f_def)
    obtain o5 where "append_raw (replicate f 0xff) o4 = Some o5" "db_ok o5" "db_data o5 = db_data o4 @ replicate f 0xff"
      using append_raw_spec [OF o4(2), of "replicate f 0xff"] o4(3) assms(2) f n by (auto simp: m_def room_def split: if_splits)
    with True step o4(3) n' f show ?thesis
      unfolding packetize.simps [of p k ys] f_def [symmetric] by (auto simp: r_def m_def)
  next
    case False
    then have "n = m" "length ys \<noteq> n" by (auto simp: n_def)
    moreover from this have "no + int n = 188 * int (Suc k)" by (auto simp: no_def m_def room_def)
    ultimately show ?thesis using False step o4 by (auto simp: r_def at_packet_def)
  qed
qed


lemma ts_output_packets:
  fixes out :: "u8 databuffer"
  assumes "db_ok out" "length (db_data out) + 2 * length ys + 376 \<le> max_size" "ys \<noteq> []"
  shows "\<exists>w' out'. ts_output (at_packet p k (reading pre ys tail)) out = Some (w', out') \<and> db_ok out' \<and>
    db_data out' = db_data out @ packetize p k ys \<and> tw_section w' = reading (pre @ ys) [] tail"
  using assms
proof (induction p k ys arbitrary: pre out rule: packetize.induct)
  case (1 p k ys)
  have go: "dr_available (tw_section (at_packet p k (reading pre ys tail))) > 0" using 1(4) by (simp add: at_packet_def)
  have "length (db_data out) + 376 \<le> max_size" using 1(3) by simp
  note step = ts_output_step_packet [OF 1(2) this 1(4), of k p pre tail]
  show ?case
  proof (cases "length ys \<le> room k")
    case True
    with step obtain out' w' where "db_ok out'" "ts_output_step (at_packet p k (reading pre ys tail), out) = Some (Inl (w', out'))"
      "db_data out' = db_data out @ packetize p k ys" "tw_section w' = reading (pre @ ys) [] tail" by auto
    with go show ?thesis by (simp add: ts_output_def while_return_step)
  next
    case False
    define xs zs where "xs = take (room k) ys" and "zs = drop (room k) ys"
    from step False obtain out' where out': "db_ok out'" "ts_output_step (at_packet p k (reading pre ys tail), out) =
        Some (Inr (at_packet p (Suc k) (reading (pre @ xs) zs tail), out'))"
      "db_data out' = db_data out @ packet_head p k @ xs" unfolding xs_def zs_def by auto
    have "length (db_data out') + 2 * length zs + 376 \<le> max_size" "zs \<noteq> []"
      using 1(3) out'(3) False by (auto simp: xs_def zs_def room_def split: if_splits)
    from 1(1) [OF _ _ out'(1), folded zs_def, OF _ _ this, of "pre @ xs"] False
    obtain w'' out'' where "ts_output (at_packet p (Suc k) (reading (pre @ xs) zs tail)) out' = Some (w'', out'')" "db_ok out''"
      "db_data out'' = db_data out' @ packetize p (Suc k) zs" "tw_section w'' = reading (pre @ xs @ zs) [] tail" by auto
    moreover have "ts_output (at_packet p k (reading pre ys tail)) out = ts_output (at_packet p (Suc k) (reading (pre @ xs) zs tail)) out'"
      using go by (simp add: ts_output_def while_return_step out'(2))
    moreover have "xs @ zs = ys" by (simp add: xs_def zs_def)
    ultimately show ?thesis using False out'(3) by (simp add: packetize.simps [of p k ys] xs_def zs_def)
  qed
qed

subsection \<open>Properties\<close>

lemma written_pat_read:
  "crc32 (written_pat sid p) = 0 \<and>
   (\<exists>s'. parse_pat_section default_pat_services (open_section j (written_pat sid p) 0) =
      Some (True, \<lparr>pat_ts_id = 1, pat_version_number = 1,
        pat_entries = [\<lparr>pat_service_id = sid, pat_pmt_pid = p AND 0x1fff\<rparr>]\<rparr>, s') \<and>
      available s' = 0 \<and> \<not> section_error s')"
proof
  obtain crc where crc: "written_pat sid p = pat_section_bytes 1 1 0 0 [(sid, p OR 0xe000)] crc" using written_pat_bytes by blast
  have "(p OR 0xe000) AND 0x1fff = p AND 0x1fff" by (simp add: bit.conj_disj_distrib2)
  with parse_pat_section_bytes [of "[(sid, p OR 0xe000)]" 1 default_pat_services j 1 0 0 crc]
  show "\<exists>s'. parse_pat_section default_pat_services (open_section j (written_pat sid p) 0) =
      Some (True, \<lparr>pat_ts_id = 1, pat_version_number = 1,
        pat_entries = [\<lparr>pat_service_id = sid, pat_pmt_pid = p AND 0x1fff\<rparr>]\<rparr>, s') \<and>
      available s' = 0 \<and> \<not> section_error s'"
    by (auto simp: crc default_pat_services_def pat_entry_def)
  show "crc32 (written_pat sid p) = 0"
    unfolding written_pat_def Let_def by (rule crc32_append_own) simp
qed

text \<open>A written program association section is complete: its checksum is 0, and reading it gives back the one
  service with the 13 bits of its PMT stream number, without an error.\<close>
theorem pat_written_and_read:
  assumes "16 \<le> length buf"
  shows "\<exists>w w1 w2 sec s'. new_section_writer buf = Some w \<and> pat_start_section sid p w = Some w1 \<and>
    end_section w1 = Some w2 \<and> sw_section w2 = finished sec (drop 16 buf) \<and> crc32 sec = 0 \<and>
    parse_pat_section default_pat_services (open_section j sec 0) =
      Some (True, \<lparr>pat_ts_id = 1, pat_version_number = 1,
        pat_entries = [\<lparr>pat_service_id = sid, pat_pmt_pid = p AND 0x1fff\<rparr>]\<rparr>, s') \<and>
    available s' = 0 \<and> \<not> section_error s'"
  using write_pat [OF assms, of sid p] written_pat_read [of sid p j] by blast

theorem pat_written_and_read_witness:
  "\<exists>w w1 w2 sec s'. new_section_writer (replicate 1024 0) = Some w \<and> pat_start_section 0x1234 0x100 w = Some w1 \<and>
    end_section w1 = Some w2 \<and> sw_section w2 = finished sec (drop 16 (replicate 1024 0)) \<and> crc32 sec = 0 \<and>
    parse_pat_section default_pat_services (open_section (\<lambda>_. 0) sec 0) =
      Some (True, \<lparr>pat_ts_id = 1, pat_version_number = 1,
        pat_entries = [\<lparr>pat_service_id = 0x1234, pat_pmt_pid = 0x100 AND 0x1fff\<rparr>]\<rparr>, s') \<and>
    available s' = 0 \<and> \<not> section_error s'"
  by (rule pat_written_and_read) simp

text \<open>C16: Packing a section into transport stream packets ends, consumes the section and appends its packets to the output: each has 188
  bytes, the synchronisation byte, the stream number, the flag for the start of a unit in the first packet only, a counter that goes up by one from
  packet to packet, a pointer field in the first one, 183 or 184 bytes of the section, and stuffing behind its end. When the section ends
  exactly with its last packet, 188 bytes of stuffing follow that are no packet.\<close>
theorem ts_output_correct:
  assumes "db_ok out" "length (db_data out) + 2 * length sec + 376 \<le> 2 ^ 29" "sec \<noteq> []"
  shows "\<exists>w' out'. ts_output (new_ts_writer (finished sec tail) p) out = Some (w', out') \<and> db_ok out' \<and>
    db_data out' = db_data out @ concat (ts_packets p 0 sec) @ (if (length sec + 1) mod 184 = 0 then replicate 188 0xff else []) \<and>
    list_all (\<lambda>x. length x = 188) (ts_packets p 0 sec) \<and> dr_available (tw_section w') = 0"
proof -
  have "at_packet p 0 (reading [] sec tail) = new_ts_writer (finished sec tail) p"
    by (simp add: at_packet_def new_ts_writer_def finished_reading)
  with ts_output_packets [OF assms, of p 0 "[]" tail] packetize_packets [OF assms(3), of p 0] length_ts_packets [of p 0 sec]
  show ?thesis by auto
qed

theorem ts_output_correct_witness:
  "(\<exists>w' out'. ts_output (new_ts_writer (finished (replicate 500 7) [0]) 0x100) (new_databuffer 10) = Some (w', out') \<and>
    db_ok out' \<and> db_data out' = concat (ts_packets 0x100 0 (replicate 500 7)) \<and> dr_available (tw_section w') = 0) \<and>
   (\<exists>w' out'. ts_output (new_ts_writer (finished (replicate 183 7) [0]) 0x100) (new_databuffer 10) = Some (w', out') \<and>
    db_data out' = [0x47, 0x41, 0, 0x10, 0] @ replicate 183 7 @ replicate 188 0xff)"
proof -
  have ok: "db_ok (new_databuffer 10 :: u8 databuffer)" by (rule db_ok_new) simp_all
  have "ts_packets 0x100 0 (replicate 183 7) = [[0x47, 0x41, 0, 0x10, 0] @ replicate 183 7]"
    by (simp add: ts_packets.simps [of "0x100" 0 "replicate 183 7"] room_def packet_head_def)
  with ts_output_correct [OF ok, of "replicate 500 7" "[0]" "0x100"] ts_output_correct [OF ok, of "replicate 183 7" "[0]" "0x100"]
  show ?thesis by (auto simp: new_databuffer_def)
qed

end
