(* ===== verification/Pmt_Roundtrip.thy ===== *)
theory Pmt_Roundtrip
  imports Streamwriter
begin

text \<open>
  Program map sections: the parser on an encoded section, and the composition of the writer that keeps the preferred
  streams with the parser.
\<close>

subsection \<open>Encoded streams\<close>

text \<open>
  Descriptors of the program or of a stream: a language with the type of audio, the identification of AC-3 audio by one of two tags,
  subtitles in several languages, conditional access with its private data, the move of a service, and descriptors that the
  parser steps over.
\<close>

datatype es_descriptor =
  Language "u8 \<times> u8 \<times> u8" u8
| Ac3 bool bytes
| Subtitles "subtitle_info_t list"
| Conditional_Access u16 u16 bytes
| Service_Move u16 u16 u16
| Stream_Identifier u8
| Other u8 bytes

definition subtitle_bytes :: "subtitle_info_t \<Rightarrow> bytes" where
  "subtitle_bytes sub = (case sub_lang_code sub of (a, b, c) \<Rightarrow>
     [a, b, c, subtitle_type sub] @ be_bytes 2 (composition_page_id sub) @ be_bytes 2 (ancillary_page_id sub))"

fun descriptor_tag :: "es_descriptor \<Rightarrow> u8" where
  "descriptor_tag (Language l t) = 0x0A"
| "descriptor_tag (Ac3 enhanced data) = (if enhanced then 0x7A else 0x6A)"
| "descriptor_tag (Subtitles subs) = 0x59"
| "descriptor_tag (Conditional_Access sid cp data) = 0x09"
| "descriptor_tag (Service_Move nid tid sid) = 0x60"
| "descriptor_tag (Stream_Identifier c) = 0x52"
| "descriptor_tag (Other tag data) = tag"

fun descriptor_data :: "es_descriptor \<Rightarrow> bytes" where
  "descriptor_data (Language (a, b, c) t) = [a, b, c, t]"
| "descriptor_data (Ac3 enhanced data) = data"
| "descriptor_data (Subtitles subs) = concat (map subtitle_bytes subs)"
| "descriptor_data (Conditional_Access sid cp data) = be_bytes 2 sid @ be_bytes 2 (cp OR 0xe000) @ data"
| "descriptor_data (Service_Move nid tid sid) = be_bytes 2 nid @ be_bytes 2 tid @ be_bytes 2 sid"
| "descriptor_data (Stream_Identifier c) = [c]"
| "descriptor_data (Other tag data) = data"

definition descriptor_bytes :: "es_descriptor \<Rightarrow> bytes" where
  "descriptor_bytes d = [descriptor_tag d, of_nat (length (descriptor_data d))] @ descriptor_data d"

definition interpreted_tags :: "u8 set" where
  "interpreted_tags = {0x09, 0x60, 0x0C, 0x52, 0x6A, 0x7A, 0x5F, 0x59, 0x0A, 0x7F}"

definition descriptor_fits :: "es_descriptor \<Rightarrow> bool" where
  "descriptor_fits d \<longleftrightarrow> length (descriptor_data d) < 256 \<and> (case d of Other tag data \<Rightarrow> tag \<notin> interpreted_tags | _ \<Rightarrow> True)"

definition info_bytes :: "bytes \<Rightarrow> bytes" where
  "info_bytes ds = be_bytes 2 (of_nat (length ds) OR 0xf000 :: u16) @ ds"

text \<open>A stream with its type, its number and its descriptors.\<close>

type_synonym stream = "u8 \<times> u16 \<times> es_descriptor list"

fun es_bytes :: "stream \<Rightarrow> bytes" where
  "es_bytes (st, p, ds) = st # be_bytes 2 (p OR 0xe000) @ info_bytes (concat (map descriptor_bytes ds))"

text \<open>What a descriptor adds to what is known of a stream, and to the program map.\<close>

fun describe :: "pid_info_t \<Rightarrow> es_descriptor \<Rightarrow> pid_info_t" where
  "describe info (Language l t) = info\<lparr>audio_lang := (audio_lang info)\<lparr>audio_lang_code := l, audio_type := t\<rparr>\<rparr>"
| "describe info (Ac3 enhanced data) = info\<lparr>audio_lang := (audio_lang info)\<lparr>ac3 := True,
     ac3_descriptor_data := ac3_descriptor_data (audio_lang info) @ descriptor_bytes (Ac3 enhanced data)\<rparr>\<rparr>"
| "describe info (Subtitles subs) = info\<lparr>subtitle_descriptors := subtitle_descriptors info @ subs\<rparr>"
| "describe info d = info"

definition stream_info :: "stream \<Rightarrow> pid_info_t" where
  "stream_info x = (case x of (st, p, ds) \<Rightarrow> foldl describe (new_pid_info (p AND 0x1fff) st) ds)"

fun conditional_access :: "u16 \<Rightarrow> es_descriptor \<Rightarrow> ca_info_t list" where
  "conditional_access p (Conditional_Access sid cp data) = [\<lparr>ca_stream_pid = p, ca_system_id = sid, ca_pid = cp AND 0x1fff\<rparr>]"
| "conditional_access p d = []"

fun service_move :: "u16 \<Rightarrow> es_descriptor \<Rightarrow> service_move_info_t list" where
  "service_move p (Service_Move nid tid sid) =
     [\<lparr>sm_stream_pid = p, new_original_network_id = nid, new_transport_stream_id = tid, new_service_id = sid\<rparr>]"
| "service_move p d = []"

fun capmt_bytes :: "es_descriptor \<Rightarrow> bytes" where
  "capmt_bytes (Conditional_Access sid cp data) =
     [0x09, of_nat (length (descriptor_data (Conditional_Access sid cp data))), ucast (drop_bit 8 sid), ucast (sid AND 0xff),
      ucast (drop_bit 8 (cp AND 0x1fff)) OR 0xe0, ucast ((cp AND 0x1fff) AND 0xff)] @ data"
| "capmt_bytes d = []"

definition add_descriptor :: "u16 \<Rightarrow> pmt_info_t \<Rightarrow> es_descriptor \<Rightarrow> pmt_info_t" where
  "add_descriptor p pmt d =
     pmt\<lparr>ca_descriptors := ca_descriptors pmt @ conditional_access p d, capmt_data := capmt_data pmt @ capmt_bytes d,
        service_move_descriptors := service_move_descriptors pmt @ service_move p d\<rparr>"

definition add_stream :: "pmt_info_t \<Rightarrow> stream \<Rightarrow> pmt_info_t" where
  "add_stream pmt x =
     (case x of (st, p, ds) \<Rightarrow>
      let pmt = foldl (add_descriptor (p AND 0x1fff)) (pmt\<lparr>capmt_data := capmt_data pmt @ [0, 3, st] @ be_bytes 2 (p OR 0xe000)\<rparr>) ds
      in pmt\<lparr>video_pid := (if is_video st then p AND 0x1fff else video_pid pmt),
             estimated_media_mode := next_media_mode (estimated_media_mode pmt) (stream_info x) st,
             pid_descriptors := pid_descriptors pmt @ [stream_info x]\<rparr>)"

fun stream_fits :: "stream \<Rightarrow> bool" where
  "stream_fits (st, p, ds) \<longleftrightarrow> list_all descriptor_fits ds \<and> length (concat (map descriptor_bytes ds)) < 2 ^ 12"

definition pmt_section_bytes :: "u16 \<Rightarrow> u8 \<Rightarrow> u16 \<Rightarrow> es_descriptor list \<Rightarrow> stream list \<Rightarrow> u32 \<Rightarrow> bytes" where
  "pmt_section_bytes sid v pcr program streams crc =
     (let body = be_bytes 2 (pcr OR 0xe000) @ info_bytes (concat (map descriptor_bytes program)) @ concat (map es_bytes streams)
      in 2 # be_bytes 2 (length_word (of_nat (length body + 9)) True False) @ be_bytes 2 sid @
         [version_byte v True, 0, 0] @ body @ be_bytes 4 crc)"

subsection \<open>Reading\<close>

lemma pid_bits: "((p :: u16) OR 0xe000) AND 0x1fff = p AND 0x1fff"
  by (simp add: bit.conj_disj_distrib2)

lemma describe_pid [simp]: "stream_pid (describe info d) = stream_pid info"
  by (cases d) simp_all

lemma describe_t2mi [simp]: "t2mi_stream_id (describe info d) = t2mi_stream_id info"
  by (cases d) simp_all

lemma foldl_describe [simp]:
  "stream_pid (foldl describe info ds) = stream_pid info" "t2mi_stream_id (foldl describe info ds) = t2mi_stream_id info"
  by (induction ds arbitrary: info) simp_all

lemma descriptor_length:
  assumes "descriptor_fits d"
  shows "uint (of_nat (length (descriptor_data d)) :: u8) = int (length (descriptor_data d))"
    "word_of_int (int (length (descriptor_data d))) = (of_nat (length (descriptor_data d)) :: u8)"
  using assms by (simp_all add: descriptor_fits_def uint_nat unsigned_of_nat take_bit_eq_mod)

lemma get_subtitle_info_at:
  "get_subtitle_info (at_pos s pre (subtitle_bytes sub @ rest)) = Some (sub, at_pos s (pre @ subtitle_bytes sub) rest)"
proof -
  obtain a b c where "sub_lang_code sub = (a, b, c)" by (cases "sub_lang_code sub")
  then show ?thesis
    by (simp add: get_subtitle_info_def get_lang_code_def subtitle_bytes_def get_uint8_at get_uint16_bytes del: be_bytes_numeral)
qed

lemma length_subtitle_bytes [simp]: "length (subtitle_bytes sub) = 8"
  by (simp add: subtitle_bytes_def split: prod.split)

lemma subtitles_at:
  fixes info :: pid_info_t
  assumes "e = int (length pre) + int (length (concat (map subtitle_bytes subs)))"
  shows "while_loop (\<lambda>(info, s). bytes_read s < e)
      (\<lambda>(info, s). do {
         (sub, s) \<leftarrow> get_subtitle_info s;
         Some (info\<lparr>subtitle_descriptors := subtitle_descriptors info @ [sub]\<rparr>, s)
       }) (info, at_pos s pre (concat (map subtitle_bytes subs) @ rest)) =
    Some (info\<lparr>subtitle_descriptors := subtitle_descriptors info @ subs\<rparr>, at_pos s (pre @ concat (map subtitle_bytes subs)) rest)"
  using assms
proof (induction subs arbitrary: info pre)
  case Nil
  then show ?case by (simp add: while_loop_exit)
next
  case (Cons sub subs)
  define f where "f = (\<lambda>(info :: pid_info_t, s). do {
         (sub, s) \<leftarrow> get_subtitle_info s;
         Some (info\<lparr>subtitle_descriptors := subtitle_descriptors info @ [sub]\<rparr>, s)
       })"
  have "while_loop (\<lambda>(info, s). bytes_read s < e) f (info\<lparr>subtitle_descriptors := subtitle_descriptors info @ [sub]\<rparr>,
      at_pos s (pre @ subtitle_bytes sub) (concat (map subtitle_bytes subs) @ rest)) =
    Some (info\<lparr>subtitle_descriptors := subtitle_descriptors info @ sub # subs\<rparr>, at_pos s (pre @ subtitle_bytes sub @ concat (map subtitle_bytes subs)) rest)"
    using Cons.IH [of "pre @ subtitle_bytes sub" "info\<lparr>subtitle_descriptors := subtitle_descriptors info @ [sub]\<rparr>"] Cons.prems
    by (simp add: f_def)
  moreover have "case (info, at_pos s pre (subtitle_bytes sub @ concat (map subtitle_bytes subs) @ rest)) of (info, s) \<Rightarrow> bytes_read s < e"
    using Cons.prems by simp
  note while_loop_step [of "\<lambda>(info, s). bytes_read s < e", OF this, of f]
  moreover have "f (info, at_pos s pre (subtitle_bytes sub @ concat (map subtitle_bytes subs) @ rest)) =
      Some (info\<lparr>subtitle_descriptors := subtitle_descriptors info @ [sub]\<rparr>, at_pos s (pre @ subtitle_bytes sub) (concat (map subtitle_bytes subs) @ rest))"
    by (simp add: f_def get_subtitle_info_at)
  ultimately show ?case by (simp add: f_def [symmetric])
qed

lemma pmt_descriptor_at:
  assumes "descriptor_fits d" "int (length pre + length (descriptor_bytes d)) \<le> e"
  shows "pmt_descriptor e (pmt, info, at_pos s pre (descriptor_bytes d @ rest)) =
    Some (Inr (add_descriptor (stream_pid info) pmt d, describe info d, at_pos s (pre @ descriptor_bytes d) rest))"
proof -
  define t n data where "t = descriptor_tag d" and "n = (of_nat (length (descriptor_data d)) :: u8)" and "data = descriptor_data d"
  define pre' where "pre' = pre @ [t, n]"
  have n: "uint n = int (length data)" "word_of_int (uint n) = n" using descriptor_length [OF assms(1)] by (simp_all add: n_def data_def)
  have start: "get_descriptor (at_pos s pre (descriptor_bytes d @ rest)) = Some (\<lparr>desc_tag = t, desc_len = uint n\<rparr>, at_pos s pre' (data @ rest))"
    by (simp add: descriptor_bytes_def t_def n_def data_def pre'_def section_simps)
  have fin: "pre @ descriptor_bytes d = pre' @ data" by (simp add: descriptor_bytes_def t_def n_def data_def pre'_def)
  have skip: "skip (uint n) (at_pos s pre' (data @ rest)) = (1, at_pos s (pre' @ data) rest)" by (rule skip_at) (rule n(1))
  note [simp] = start n(2) add_descriptor_def
  show ?thesis
  proof (cases d)
    case (Language l ty)
    then show ?thesis
      unfolding pmt_descriptor_def prod.case start fin by (cases l)
        (simp add: t_def data_def get_audio_language_info_def get_lang_code_def section_simps)
  next
    case (Ac3 enhanced x)
    have "current_pointer 0 (at_pos s pre' (data @ rest)) = (Some (int (length pre')), at_pos s pre' (data @ rest))"
      using current_pointer_at [of 0 "[]" s pre' "data @ rest"] by simp
    with Ac3 show ?thesis
      unfolding pmt_descriptor_def prod.case start fin 
      by (auto simp: t_def data_def n(1) ac3_descriptor_def skip_at descriptor_bytes_def n_def [symmetric] Let_def)
  next
    case (Subtitles subs)
    then show ?thesis
      unfolding pmt_descriptor_def prod.case start fin
      by (simp add: t_def subtitling_descriptor_def n(1) subtitles_at data_def Let_def)
  next
    case (Conditional_Access sid cp x)
    have "get_buffer (int (length x)) (at_pos s (pre' @ be_bytes 2 sid @ be_bytes 2 (cp OR 0xe000)) (x @ rest)) =
        Some (Some x, at_pos s (pre' @ be_bytes 2 sid @ be_bytes 2 (cp OR 0xe000) @ x) rest)"
      using get_buffer_at [of "int (length x)" x s "pre' @ be_bytes 2 sid @ be_bytes 2 (cp OR 0xe000)" rest] by (simp del: be_bytes_numeral)
    moreover have "uint n = 4 + int (length x)" using n(1) Conditional_Access by (simp add: data_def)
    moreover from this have "4 + of_nat (length x) = n" using n(2) by simp
    ultimately have "get_ca pmt \<lparr>desc_tag = 0x09, desc_len = uint n\<rparr> (stream_pid info) (at_pos s pre' (be_bytes 2 sid @ be_bytes 2 (cp OR 0xe000) @ x @ rest)) =
        Some (\<lparr>ca_stream_pid = stream_pid info, ca_system_id = sid, ca_pid = cp AND 0x1fff\<rparr>,
          pmt\<lparr>capmt_data := capmt_data pmt @ [0x09, n, ucast (drop_bit 8 sid), ucast (sid AND 0xff),
            ucast (drop_bit 8 (cp AND 0x1fff)) OR 0xe0, ucast ((cp AND 0x1fff) AND 0xff)] @ x\<rparr>,
          at_pos s (pre' @ be_bytes 2 sid @ be_bytes 2 (cp OR 0xe000) @ x) rest)"
      unfolding get_ca_def Let_def get_uint16_bytes Option.bind_lunit prod.case pid_bits
      by (simp add: get_uint16_bytes pid_bits del: be_bytes_numeral)
    with Conditional_Access show ?thesis
      unfolding pmt_descriptor_def prod.case start fin
      by (simp add: t_def data_def n_def del: be_bytes_numeral)
  next
    case (Service_Move nid tid sid)
    then show ?thesis
      unfolding pmt_descriptor_def prod.case start fin
      by (simp add: t_def data_def get_service_move_info_def get_uint16_bytes del: be_bytes_numeral)
  next
    case (Stream_Identifier c)
    then show ?thesis unfolding pmt_descriptor_def prod.case start fin using n by (simp add: t_def data_def section_simps)
  next
    case (Other tag x)
    then show ?thesis
      using assms(1) skip unfolding pmt_descriptor_def prod.case start fin by (simp add: t_def descriptor_fits_def interpreted_tags_def Let_def)
  qed
qed

lemma pmt_descriptors_at:
  assumes "list_all descriptor_fits ds" "e = int (length pre) + int (length (concat (map descriptor_bytes ds)))"
  shows "while_return (\<lambda>(pmt, info, s). bytes_read s < e) (pmt_descriptor e)
      (pmt, info, at_pos s pre (concat (map descriptor_bytes ds) @ rest)) =
    Some (Inr (foldl (add_descriptor (stream_pid info)) pmt ds, foldl describe info ds, at_pos s (pre @ concat (map descriptor_bytes ds)) rest))"
  using assms
proof (induction ds arbitrary: pmt info pre)
  case (Cons d ds)
  define r where "r = concat (map descriptor_bytes ds) @ rest"
  have "pmt_descriptor e (pmt, info, at_pos s pre (descriptor_bytes d @ r)) =
      Some (Inr (add_descriptor (stream_pid info) pmt d, describe info d, at_pos s (pre @ descriptor_bytes d) r))"
    using Cons.prems by (intro pmt_descriptor_at) simp_all
  moreover have "0 < length (descriptor_bytes d)" by (simp add: descriptor_bytes_def)
  then have "case (pmt, info, at_pos s pre (descriptor_bytes d @ r)) of (pmt, info, s) \<Rightarrow> bytes_read s < e"
    using Cons.prems(2) by (simp add: add_pos_nonneg)
  note while_return_step [of "\<lambda>(pmt, info, s). bytes_read s < e", OF this, of "pmt_descriptor e"]
  moreover have "while_return (\<lambda>(pmt, info, s). bytes_read s < e) (pmt_descriptor e)
      (add_descriptor (stream_pid info) pmt d, describe info d, at_pos s (pre @ descriptor_bytes d) r) =
    Some (Inr (foldl (add_descriptor (stream_pid info)) pmt (d # ds), foldl describe info (d # ds),
      at_pos s (pre @ concat (map descriptor_bytes (d # ds))) rest))"
    unfolding r_def using Cons.IH [of "pre @ descriptor_bytes d" "add_descriptor (stream_pid info) pmt d" "describe info d"] Cons.prems by simp
  ultimately show ?case by (simp add: r_def)
qed simp

lemma info_length:
  assumes "n < 2 ^ 12"
  shows "uint ((of_nat n OR 0xf000 :: u16) AND 0x0fff) = int n"
proof -
  have "(of_nat n OR 0xf000 :: u16) AND 0x0fff = of_nat n AND mask 12"
    by (simp add: bit.conj_disj_distrib2 mask_eq_decr_exp)
  also have "uint \<dots> = int n mod 2 ^ 12"
    by (simp only: take_bit_eq_mask [symmetric] unsigned_take_bit_eq) (simp add: uint_nat unsigned_of_nat take_bit_eq_mod zmod_int mod_mod_cancel)
  finally show ?thesis using assms by simp
qed

lemma parse_descriptors_at:
  assumes "list_all descriptor_fits ds" "length (concat (map descriptor_bytes ds)) < 2 ^ 12"
  shows "parse_descriptors pmt info (at_pos s pre (info_bytes (concat (map descriptor_bytes ds)) @ rest)) =
    Some (foldl (add_descriptor (stream_pid info)) pmt ds, foldl describe info ds, at_pos s (pre @ info_bytes (concat (map descriptor_bytes ds))) rest)"
proof -
  define bs where "bs = concat (map descriptor_bytes ds)"
  define pre' where "pre' = pre @ be_bytes 2 (of_nat (length bs) OR 0xf000 :: u16)"
  define e where "e = int (length pre') + int (length bs)"
  have "get_uint16 (at_pos s pre (info_bytes bs @ rest)) = Some (of_nat (length bs) OR 0xf000, at_pos s pre' (bs @ rest))"
    unfolding info_bytes_def pre'_def append_assoc by (rule get_uint16_bytes)
  moreover have "uint ((of_nat (length bs) OR 0xf000 :: u16) AND 0x0fff) = int (length bs)" by (rule info_length) (use assms(2) bs_def in simp)
  moreover note pmt_descriptors_at [OF assms(1), of e pre' pmt info s rest, folded bs_def]
  moreover have "pre @ info_bytes bs = pre' @ bs" by (simp add: info_bytes_def pre'_def)
  ultimately show ?thesis
    unfolding bs_def [symmetric] parse_descriptors_def by (simp add: e_def add.commute Let_def)
qed

lemma pmt_stream_at:
  assumes "stream_fits x"
  shows "pmt_stream (pmt, at_pos s pre (es_bytes x @ rest)) = Some (add_stream pmt x, at_pos s (pre @ es_bytes x) rest)"
proof -
  obtain st p ds where x: "x = (st, p, ds)" by (cases x)
  have "stream_pid (new_pid_info (p AND 0x1fff) st) = p AND 0x1fff" by (simp add: new_pid_info_def)
  with assms show ?thesis
    unfolding x pmt_stream_def add_stream_def stream_info_def
    by (simp add: get_uint8_at get_uint16_bytes pid_bits parse_descriptors_at Let_def del: be_bytes_numeral)
qed

lemma pmt_streams_at:
  "length crc = 4 \<Longrightarrow> list_all stream_fits xs \<Longrightarrow>
    while_loop (\<lambda>(pmt, s). available s > 4) pmt_stream (pmt, at_pos s pre (concat (map es_bytes xs) @ crc)) =
    Some (foldl add_stream pmt xs, at_pos s (pre @ concat (map es_bytes xs)) crc)"
proof (induction xs arbitrary: pmt pre)
  case (Cons x xs)
  have "0 < length (es_bytes x)" by (cases x) simp
  then have "case (pmt, at_pos s pre (es_bytes x @ concat (map es_bytes xs) @ crc)) of (pmt, s) \<Rightarrow> available s > 4"
    using Cons.prems by (simp add: add_pos_nonneg)
  note step = while_loop_step [of "\<lambda>(pmt, s). available s > 4", OF this, of pmt_stream]
  show ?case using Cons step by (simp add: pmt_stream_at del: es_bytes.simps)
qed simp

text \<open>The fields that adding descriptors and streams leaves or extends.\<close>

lemma foldl_add_descriptor_fields:
  "num_sky_summary_pids (foldl (add_descriptor p) pmt ds) = num_sky_summary_pids pmt"
  "pmt_service_id (foldl (add_descriptor p) pmt ds) = pmt_service_id pmt"
  "pcr_pid (foldl (add_descriptor p) pmt ds) = pcr_pid pmt" "pmt_pid (foldl (add_descriptor p) pmt ds) = pmt_pid pmt"
  "pmt_version_number (foldl (add_descriptor p) pmt ds) = pmt_version_number pmt"
  "pid_descriptors (foldl (add_descriptor p) pmt ds) = pid_descriptors pmt"
  "ca_descriptors (foldl (add_descriptor p) pmt ds) = ca_descriptors pmt @ concat (map (conditional_access p) ds)"
  "service_move_descriptors (foldl (add_descriptor p) pmt ds) = service_move_descriptors pmt @ concat (map (service_move p) ds)"
  by (induction ds arbitrary: pmt) (auto simp: add_descriptor_def)

definition stream_access :: "stream \<Rightarrow> ca_info_t list" where
  "stream_access x = (case x of (st, p, ds) \<Rightarrow> concat (map (conditional_access (p AND 0x1fff)) ds))"

definition stream_moves :: "stream \<Rightarrow> service_move_info_t list" where
  "stream_moves x = (case x of (st, p, ds) \<Rightarrow> concat (map (service_move (p AND 0x1fff)) ds))"

lemma foldl_add_stream_fields:
  "num_sky_summary_pids (foldl add_stream pmt xs) = num_sky_summary_pids pmt"
  "pmt_service_id (foldl add_stream pmt xs) = pmt_service_id pmt"
  "pcr_pid (foldl add_stream pmt xs) = pcr_pid pmt" "pmt_pid (foldl add_stream pmt xs) = pmt_pid pmt"
  "pmt_version_number (foldl add_stream pmt xs) = pmt_version_number pmt"
  "pid_descriptors (foldl add_stream pmt xs) = pid_descriptors pmt @ map stream_info xs"
  "ca_descriptors (foldl add_stream pmt xs) = ca_descriptors pmt @ concat (map stream_access xs)"
  "service_move_descriptors (foldl add_stream pmt xs) = service_move_descriptors pmt @ concat (map stream_moves xs)"
  by (induction xs arbitrary: pmt)
    (auto simp: add_stream_def stream_access_def stream_moves_def foldl_add_descriptor_fields Let_def split: prod.split)

text \<open>The program map that reading an encoded section into \<open>pmt\<close> gives.\<close>

definition pmt_read :: "pmt_info_t \<Rightarrow> u16 \<Rightarrow> u16 \<Rightarrow> u8 \<Rightarrow> u16 \<Rightarrow> es_descriptor list \<Rightarrow> stream list \<Rightarrow> pmt_info_t" where
  "pmt_read pmt p sid v pcr program streams = foldl add_stream
     ((foldl (add_descriptor null_pid) (pmt\<lparr>pmt_version_number := ucast v, pmt_current_next := True, pmt_service_id := sid, pcr_pid := pcr AND 0x1fff,
        pmt_pid := p\<rparr>) program)\<lparr>estimated_media_mode := MEDIA_UNKNOWN\<rparr>) streams"

lemma parse_pmt_section_hdr_at:
  fixes crc :: u32
  assumes "table_id h = 2" "pid h = p" "section_number h = 0" "last_section_number h = 0" "current_next h"
    and "num_sky_summary_pids pmt = 0" "list_all descriptor_fits ds" "length (concat (map descriptor_bytes ds)) < 2 ^ 12" "list_all stream_fits xs"
  shows "parse_pmt_section_hdr pmt h (at_pos s pre (be_bytes 2 (pcr OR 0xe000) @ info_bytes (concat (map descriptor_bytes ds)) @
      concat (map es_bytes xs) @ be_bytes 4 crc)) =
    Some (True, pmt_read pmt p (table_id_extension h) (version_number h) pcr ds xs,
      at_pos s (pre @ be_bytes 2 (pcr OR 0xe000) @ info_bytes (concat (map descriptor_bytes ds)) @ concat (map es_bytes xs) @ be_bytes 4 crc) [])"
proof -
  have crc: "get_uint32 (at_pos s pre' (be_bytes 4 crc)) = Some (crc, at_pos s (pre' @ be_bytes 4 crc) [])" for pre'
    using get_uint32_bytes [of s pre' crc "[]"] by (simp del: be_bytes_numeral)
  have "t2mi_stream_id (new_pid_info null_pid 0) < 0" "stream_pid (new_pid_info null_pid 0) = null_pid" by (simp_all add: new_pid_info_def)
  then show ?thesis
    unfolding parse_pmt_section_hdr_def pmt_read_def
    using assms by (simp add: get_uint16_bytes pid_bits parse_descriptors_at pmt_streams_at crc foldl_add_stream_fields
        foldl_add_descriptor_fields Let_def del: be_bytes_numeral)
qed

lemma parse_pmt_section_bytes:
  fixes crc :: u32 and v :: u8
  assumes "list_all descriptor_fits ds" "list_all stream_fits xs"
    and "length (concat (map descriptor_bytes ds)) + length (concat (map es_bytes xs)) + 13 < 2 ^ 12"
    and "unat v < 2 ^ 5" "num_sky_summary_pids pmt = 0" "p \<notin> {3003, 3004, 3842, 3843}"
  shows "\<exists>s'. parse_pmt_section pmt (open_section j (pmt_section_bytes sid v pcr ds xs crc) p) =
      Some (True, pmt_read pmt p sid v pcr ds xs, s') \<and> available s' = 0 \<and> \<not> section_error s'"
proof -
  define body where "body = be_bytes 2 (pcr OR 0xe000) @ info_bytes (concat (map descriptor_bytes ds)) @ concat (map es_bytes xs)"
  define l where "l = (of_nat (length body + 9) :: u16)"
  define w where "w = length_word l True False"
  define vb where "vb = version_byte v True"
  define s where "s = open_section j [] p"
  define h where "h = header_with default_section_header p 2 w sid vb 0 0"
  have "length body + 9 < 2 ^ 12" using assms(3) by (simp add: body_def info_bytes_def)
  then have l: "unat l < 2 ^ 12" unfolding l_def unat_of_nat by simp
  have "drop_bit 1 (vb AND 0x3f) = v" "vb AND 0x1 \<noteq> 0" using version_byte_fields [OF assms(4), of True] by (simp_all add: vb_def)
  then have h: "table_id h = 2" "pid h = p" "version_number h = v" "table_id_extension h = sid" "section_number h = 0"
    "last_section_number h = 0" "current_next h" by (simp_all add: h_def header_with_def)
  then have "\<not> is_sdt h" "\<not> is_eit h" using assms(6) by (simp_all add: is_sdt_def is_eit_def is_freesat_eit_def)
  from parse_table_header_at(1) [of default_section_header s 2 w sid vb 0 0 "body @ be_bytes 4 crc"] this
  have "parse_table_header default_section_header (open_section j (pmt_section_bytes sid v pcr ds xs crc) p) =
      Some (h\<lparr>header_len := 8\<rparr>, at_pos s (2 # be_bytes 2 w @ be_bytes 2 sid @ [vb, 0, 0]) (body @ be_bytes 4 crc))"
    unfolding open_section_at [of j "pmt_section_bytes sid v pcr ds xs crc"] s_def [symmetric]
    by (simp add: pmt_section_bytes_def h_def w_def vb_def l_def s_def body_def open_section_def Let_def del: be_bytes_numeral)
  moreover have "\<not> section_error s" by (simp add: s_def open_section_def)
  moreover have "length (concat (map descriptor_bytes ds)) < 2 ^ 12" using assms(3) by simp
  ultimately show ?thesis
    using parse_pmt_section_hdr_at [of "h\<lparr>header_len := 8\<rparr>" p pmt ds xs s _ pcr crc] h assms(1,2,5)
    by (simp add: parse_pmt_section_def body_def del: be_bytes_numeral)
qed

subsection \<open>Writing\<close>

lemma start_es_writing:
  assumes "5 \<le> length rest"
  shows "start_es st p (writing w d rest) = Some (writing (w\<lparr>p_es_info_length := int (length d) + 3\<rparr>)
    (d @ [st] @ be_bytes 2 (p OR 0xe000) @ [0xf0, 0]) (drop 5 rest))"
proof -
  have "be_bytes 2 (0xf000 :: u16) = [0xf0, 0]" by code_simp
  with assms show ?thesis by (simp add: start_es_def writer_simps drop_drop Let_def del: be_bytes_numeral)
qed

lemma on_section_writing:
  "i = int (length a) \<Longrightarrow> length x = length bs \<Longrightarrow>
    on_section (write_at i bs) (writing w (a @ x @ b) rest) = Some (writing w (a @ bs @ b) rest)"
  by (simp add: on_section_def write_at_writing) (simp add: writing_def)

lemma end_es_writing:
  assumes "p_es_info_length w = int (length d)" "length ds < 2 ^ 12"
  shows "end_es (writing w (d @ [0xf0, 0] @ ds) rest) = Some (writing w (d @ info_bytes ds) rest)"
proof -
  define n where "n = (of_nat (length ds) :: u16)"
  have n: "word_of_int (int (length (d @ [0xf0, 0] @ ds)) - p_es_info_length w - 2) = n" using assms(1) by (simp add: n_def)
  define hi lo where "hi = (ucast (drop_bit 8 (n OR 0xf000)) :: u8)" and "lo = (ucast ((n OR 0xf000) AND 0xff) :: u8)"
  have info: "info_bytes ds = [hi, lo] @ ds" by (simp add: info_bytes_def n_def hi_def lo_def byte_simps)
  show ?thesis
  proof (cases "n = 0")
    case True
    moreover have "unat n = length ds" using assms(2) unfolding n_def unat_of_nat by simp
    ultimately have "ds = []" by simp
    moreover have "be_bytes 2 (0xf000 :: u16) = [0xf0, 0]" by code_simp
    ultimately show ?thesis using n True by (simp add: end_es_def info_bytes_def Let_def del: be_bytes_numeral)
  next
    case False
    have "on_section (write_at (p_es_info_length w) [hi]) (writing w (d @ [0xf0, 0] @ ds) rest) = Some (writing w (d @ [hi, 0] @ ds) rest)"
      using on_section_writing [of "p_es_info_length w" d "[0xf0]" "[hi]" w "[0] @ ds" rest] assms(1) by simp
    moreover have "on_section (write_at (p_es_info_length w + 1) [lo]) (writing w (d @ [hi, 0] @ ds) rest) = Some (writing w (d @ [hi, lo] @ ds) rest)"
      using on_section_writing [of "p_es_info_length w + 1" "d @ [hi]" "[0]" "[lo]" w ds rest] assms(1) by simp
    ultimately show ?thesis using n False unfolding info by (simp add: end_es_def Let_def hi_def lo_def)
  qed
qed

text \<open>The streams that the writer puts into the section: the first video stream and the chosen audio stream.\<close>

definition video_streams :: "pmt_info_t \<Rightarrow> stream list" where
  "video_streams pmt = (case filter (\<lambda>d. is_video (stream_type d)) (pid_descriptors pmt) of
     [] \<Rightarrow> [] | d # _ \<Rightarrow> [(stream_type d, stream_pid d, [])])"

definition audio_stream :: "pid_info_t \<Rightarrow> stream" where
  "audio_stream d = (stream_type d, stream_pid d, [Language (audio_lang_code (audio_lang d)) (audio_type (audio_lang d))])"

definition audio_streams :: "pid_info_t option \<Rightarrow> stream list" where
  "audio_streams d = (case d of None \<Rightarrow> [] | Some d \<Rightarrow> [audio_stream d])"

text \<open>Writing some streams leaves the positions of the section and of its length.\<close>

definition writes :: "(section_writer_t \<Rightarrow> section_writer_t option) \<Rightarrow> stream list \<Rightarrow> bool" where
  "writes f xs \<longleftrightarrow> (\<forall>w d rest. length (concat (map es_bytes xs)) \<le> length rest \<longrightarrow>
     (\<exists>w'. f (writing w d rest) = Some (writing w' (d @ concat (map es_bytes xs)) (drop (length (concat (map es_bytes xs))) rest)) \<and>
       p_length w' = p_length w \<and> p_section_start w' = p_section_start w))"

lemma writesE:
  assumes "writes f xs" "bs = concat (map es_bytes xs)" "length bs \<le> length rest"
  obtains w' where "f (writing w d rest) = Some (writing w' (d @ bs) (drop (length bs) rest))"
    "p_length w' = p_length w" "p_section_start w' = p_section_start w"
  using assms unfolding writes_def by blast

lemma make_video_writes: "writes (make_video pmt) (video_streams pmt)"
proof (cases "filter (\<lambda>d. is_video (stream_type d)) (pid_descriptors pmt)")
  case (Cons d ds)
  have "\<exists>w'. make_video pmt (writing w e rest) = Some (writing w' (e @ es_bytes (stream_type d, stream_pid d, [])) (drop 5 rest)) \<and>
      p_length w' = p_length w \<and> p_section_start w' = p_section_start w" if "5 \<le> length rest" for w e rest
    using Cons start_es_writing [OF that, of "stream_type d" "stream_pid d" w e]
      end_es_writing [of "w\<lparr>p_es_info_length := int (length e) + 3\<rparr>" "e @ [stream_type d] @ be_bytes 2 (stream_pid d OR 0xe000)" "[]" "drop 5 rest"]
    by (auto simp: make_video_def simp del: be_bytes_numeral)
  moreover have "length (es_bytes (stream_type d, stream_pid d, [])) = 5" by (simp add: info_bytes_def)
  ultimately show ?thesis by (simp add: writes_def video_streams_def Cons del: es_bytes.simps)
qed (auto simp: writes_def video_streams_def make_video_def)

lemma add_audio_desc_writing:
  assumes "\<not> ac3 ai" "6 \<le> length rest" "audio_lang_code ai = (a, b, c)"
  shows "add_audio_desc ai (writing w d rest) =
    Some (writing w (d @ descriptor_bytes (Language (a, b, c) (audio_type ai))) (drop 6 rest))"
  using assms by (simp add: add_audio_desc_def writer_simps drop_drop lang_bytes_def descriptor_bytes_def eval_nat_numeral)

lemma make_audio_writes:
  assumes "\<And>d. ad = Some d \<Longrightarrow> \<not> ac3 (audio_lang d)"
  shows "writes (make_audio ad) (audio_streams ad)"
proof (cases ad)
  case (Some d)
  obtain a b c where l: "audio_lang_code (audio_lang d) = (a, b, c)" by (cases "audio_lang_code (audio_lang d)")
  define ds where "ds = descriptor_bytes (Language (a, b, c) (audio_type (audio_lang d)))"
  have lds: "length ds = 6" by (simp add: ds_def descriptor_bytes_def)
  have "\<exists>w'. make_audio ad (writing w e rest) = Some (writing w' (e @ es_bytes (audio_stream d)) (drop 11 rest)) \<and>
      p_length w' = p_length w \<and> p_section_start w' = p_section_start w" if "11 \<le> length rest" for w e rest
  proof -
    define w1 where "w1 = w\<lparr>p_es_info_length := int (length e) + 3\<rparr>"
    define e1 where "e1 = e @ [stream_type d] @ be_bytes 2 (stream_pid d OR 0xe000)"
    have "start_es (stream_type d) (stream_pid d) (writing w e rest) = Some (writing w1 (e1 @ [0xf0, 0]) (drop 5 rest))"
      using start_es_writing [of rest "stream_type d" "stream_pid d" w e] that by (simp add: w1_def e1_def del: be_bytes_numeral)
    moreover have "add_audio_desc (audio_lang d) (writing w1 (e1 @ [0xf0, 0]) (drop 5 rest)) = Some (writing w1 (e1 @ [0xf0, 0] @ ds) (drop 11 rest))"
      using add_audio_desc_writing [OF assms [OF Some] _ l, of "drop 5 rest" w1 "e1 @ [0xf0, 0]"] that
      by (simp add: ds_def drop_drop)
    moreover have "end_es (writing w1 (e1 @ [0xf0, 0] @ ds) (drop 11 rest)) = Some (writing w1 (e1 @ info_bytes ds) (drop 11 rest))"
      by (rule end_es_writing) (simp_all add: w1_def e1_def lds)
    ultimately show ?thesis
      by (auto simp: make_audio_def Some audio_stream_def l ds_def e1_def w1_def simp del: be_bytes_numeral)
  qed
  moreover have "length (es_bytes (audio_stream d)) = 11" using lds by (simp add: info_bytes_def audio_stream_def l ds_def)
  ultimately show ?thesis by (simp add: writes_def audio_streams_def Some del: es_bytes.simps)
qed (auto simp: writes_def audio_streams_def make_audio_def)

lemma pmt_start_section_writing:
  assumes "12 \<le> length buf" "new_section_writer buf = Some w"
  shows "pmt_start_section pmt w = Some (writing (w\<lparr>sw_pid := pmt_pid pmt, p_section_start := 0, p_length := 1\<rparr>)
    ([2, 0, 0] @ be_bytes 2 (pmt_service_id pmt) @ [version_byte (ucast (pmt_version_number pmt)) True, 0, 0] @
      be_bytes 2 (pcr_pid pmt OR 0xe000) @ info_bytes []) (drop 12 buf))"
proof -
  from assms(1) have "buf \<noteq> []" by auto
  with start_writing [of buf] assms(2) have w: "w\<lparr>sw_section := (sw_section w)\<lparr>dr_is_writer := True\<rparr>\<rparr> = writing w [] buf" by auto
  have v: "(ucast (push_bit 6 0x03 OR push_bit 1 (ucast (pmt_version_number pmt)) OR 1 :: u32) :: u8) =
      version_byte (ucast (pmt_version_number pmt)) True"
  proof -
    have "(0x03 :: u32) = mask 2" by code_simp
    then show ?thesis
      unfolding version_byte_def
      by (intro bit_word_eqI, simp only: bit_or_iff bit_unsigned_iff bit_push_bit_iff bit_mask_iff bit_1_iff of_bool_eq)
        (auto simp: bit_simps)
  qed
  show ?thesis
    unfolding pmt_start_section_def w Let_def v
    using assms(1) by (simp add: writer_simps drop_drop be_bytes_2_small info_bytes_def del: be_bytes_numeral)
qed

lemma length_word_bytes:
  "be_bytes 2 (length_word l True False) = [ucast (drop_bit 8 l) OR 0xb0, ucast l]"
proof -
  define c where "c = (push_bit 15 (of_bool True) OR push_bit 14 (of_bool False) OR push_bit 12 (mask 2) :: u16)"
  have c: "c = 0xb000" unfolding c_def by code_simp
  have c8: "drop_bit 8 c = 0xb0" "(ucast c :: u8) = 0" "(ucast (0xb0 :: u16) :: u8) = 0xb0" unfolding c by code_simp+
  have w: "length_word l True False = l OR c" by (simp add: length_word_def c_def or.assoc)
  have u: "(ucast (x OR y) :: u8) = ucast x OR ucast y" for x y :: u16 by (rule bit_word_eqI) (auto simp: bit_simps)
  have "(ucast (drop_bit 8 (length_word l True False)) :: u8) = ucast (drop_bit 8 l) OR 0xb0"
    by (simp only: w drop_bit_or u c8)
  moreover have "(ucast (length_word l True False) :: u8) = ucast l" by (simp only: w u c8 or.right_neutral)
  ultimately show ?thesis by simp
qed

lemma language_length [simp]: "length (descriptor_bytes (Language l t)) = 6" "descriptor_fits (Language l t)"
  by (cases l; simp add: descriptor_bytes_def descriptor_fits_def)+

lemma write_pmt:
  fixes pmt :: pmt_info_t
  assumes "32 \<le> length buf" "best_audio_language pmt prefs = (ad, al)" "\<And>d. ad = Some d \<Longrightarrow> \<not> ac3 (audio_lang d)"
    and "best_subtitle_language pmt subtitle_prefs = (None, sl)"
  defines "xs \<equiv> video_streams pmt @ audio_streams ad"
  shows "\<exists>w w' langs sec rest crc. new_section_writer buf = Some w \<and> pmt_make pmt prefs subtitle_prefs w = Some (langs, w') \<and>
    sw_section w' = finished sec rest \<and> crc32 sec = 0 \<and> length sec \<le> 32 \<and> sec \<noteq> [] \<and>
    sec = pmt_section_bytes (pmt_service_id pmt) (ucast (pmt_version_number pmt)) (pcr_pid pmt) [] xs crc"
proof -
  define n where "n = length (concat (map es_bytes xs))"
  have n: "n \<le> 16" "length (concat (map es_bytes (video_streams pmt))) \<le> 5"
    by (auto simp: n_def xs_def video_streams_def audio_streams_def audio_stream_def info_bytes_def split: list.splits option.splits)
  from assms(1) have "buf \<noteq> []" by auto
  with start_writing obtain w where w: "new_section_writer buf = Some w" by blast
  define body where "body = be_bytes 2 (pmt_service_id pmt) @ [version_byte (ucast (pmt_version_number pmt)) True, 0, 0] @
      be_bytes 2 (pcr_pid pmt OR 0xe000) @ info_bytes []"
  have lb: "length body = 9" by (simp add: body_def info_bytes_def)
  obtain w1 where w1: "pmt_start_section pmt w = Some (writing w1 ([2, 0, 0] @ body) (drop 12 buf))"
      "p_length w1 = 1" "p_section_start w1 = 0"
    using pmt_start_section_writing [of buf w pmt] assms(1) w by (simp add: body_def del: be_bytes_numeral)
  define vs as where "vs = concat (map es_bytes (video_streams pmt))" and "as = concat (map es_bytes (audio_streams ad))"
  have l: "length vs + length as = n" by (simp add: n_def vs_def as_def xs_def)
  from make_video_writes [of pmt] vs_def obtain w2 where w2: "make_video pmt (writing w1 ([2, 0, 0] @ body) (drop 12 buf)) =
      Some (writing w2 (([2, 0, 0] @ body) @ vs) (drop (length vs) (drop 12 buf)))" "p_length w2 = 1" "p_section_start w2 = 0"
    by (rule writesE [where rest = "drop 12 buf" and w = w1 and d = "[2, 0, 0] @ body"]) (use n assms(1) w1 vs_def in auto)
  from make_audio_writes [OF assms(3)] as_def obtain w3 where w3: "make_audio ad (writing w2 (([2, 0, 0] @ body) @ vs) (drop (length vs) (drop 12 buf))) =
      Some (writing w3 ((([2, 0, 0] @ body) @ vs) @ as) (drop (length as) (drop (length vs) (drop 12 buf))))" "p_length w3 = 1" "p_section_start w3 = 0"
    by (rule writesE [where rest = "drop (length vs) (drop 12 buf)" and w = w2 and d = "([2, 0, 0] @ body) @ vs"]) (use n l assms(1) w2 in auto)
  define rest where "rest = drop (length as) (drop (length vs) (drop 12 buf))"
  have rest: "4 \<le> length rest" using n l assms(1) by (simp add: rest_def)
  define body' where "body' = body @ vs @ as"
  define d where "d = 2 # be_bytes 2 (length_word (of_nat (length body' + 4)) True False) @ body'"
  have d: "d = [2, ucast (drop_bit 8 (of_nat (length body' + 4) :: u16)) OR 0xb0, ucast (of_nat (length body' + 4) :: u16)] @ body'"
    by (simp only: d_def length_word_bytes append.simps)
  from end_section_writing [OF w3(2,3) rest, of 2 0 0 body'] obtain w4 where
    w4: "end_section (writing w3 ([2, 0, 0] @ body') rest) = Some w4" "sw_section w4 = finished (d @ be_bytes 4 (crc32 d)) (drop 4 rest)"
    unfolding d by blast
  have "pmt_make pmt prefs subtitle_prefs w = Some ((if ad = None then default_language_code else al, default_language_code), w4)"
    unfolding pmt_make_def using w1(1) w2(1) w3(1) w4(1) assms(2,4)
    by (simp add: body'_def rest_def make_subtitle_def)
  moreover have "crc32 (d @ be_bytes 4 (crc32 d)) = 0" by (rule crc32_append_own) (use lb in \<open>simp add: d_def body'_def\<close>)
  moreover have "d @ be_bytes 4 (crc32 d) \<noteq> []" by (simp add: d_def)
  moreover have "length (d @ be_bytes 4 (crc32 d)) \<le> 32" using lb n l by (simp add: d_def body'_def)
  moreover have "d @ be_bytes 4 (crc32 d) =
      pmt_section_bytes (pmt_service_id pmt) (ucast (pmt_version_number pmt)) (pcr_pid pmt) [] xs (crc32 d)"
    by (simp add: d_def pmt_section_bytes_def body'_def body_def xs_def vs_def as_def Let_def info_bytes_def del: be_bytes_numeral)
  ultimately show ?thesis using w w4(2) by blast
qed

lemma write_and_read_pmt:
  fixes pmt :: pmt_info_t
  assumes "32 \<le> length buf" "best_audio_language pmt prefs = (ad, al)" "ad = None \<or> \<not> ac3 (audio_lang (the ad))"
    and "best_subtitle_language pmt subtitle_prefs = (None, sl)"
    and "unat (pmt_version_number pmt) < 2 ^ 5" "pmt_pid pmt \<notin> {3003, 3004, 3842, 3843}"
  shows "\<exists>w w' langs sec rest pmt' s'. new_section_writer buf = Some w \<and>
    pmt_make pmt prefs subtitle_prefs w = Some (langs, w') \<and> sw_section w' = finished sec rest \<and> crc32 sec = 0 \<and> length sec \<le> 32 \<and> sec \<noteq> [] \<and>
    parse_pmt_section default_pmt_info (open_section j sec (pmt_pid pmt)) = Some (True, pmt', s') \<and>
    available s' = 0 \<and> \<not> section_error s' \<and>
    pmt_service_id pmt' = pmt_service_id pmt \<and> pmt_version_number pmt' = pmt_version_number pmt \<and>
    pcr_pid pmt' = pcr_pid pmt AND 0x1fff \<and>
    pid_descriptors pmt' = map stream_info (video_streams pmt @ audio_streams ad)"
proof -
  define xs v where "xs = video_streams pmt @ audio_streams ad" and "v = (ucast (pmt_version_number pmt) :: u8)"
  have ac3: "\<not> ac3 (audio_lang d)" if "ad = Some d" for d using assms(3) that by simp
  obtain w w' langs sec rest crc where w: "new_section_writer buf = Some w" "pmt_make pmt prefs subtitle_prefs w = Some (langs, w')"
    "sw_section w' = finished sec rest" "crc32 sec = 0" "length sec \<le> 32" "sec \<noteq> []" "sec = pmt_section_bytes (pmt_service_id pmt) v (pcr_pid pmt) [] xs crc"
    using write_pmt [OF assms(1,2) ac3 assms(4)] unfolding xs_def v_def by blast
  have "length (concat (map es_bytes xs)) + 13 < 2 ^ 12" "list_all stream_fits xs"
    by (auto simp: xs_def video_streams_def audio_streams_def audio_stream_def info_bytes_def split: list.splits option.splits)
  moreover have v: "unat v = unat (pmt_version_number pmt)" using assms(5) by (simp add: v_def unsigned_ucast_eq take_bit_eq_mod)
  moreover have "ucast v = pmt_version_number pmt" using arg_cong [OF v, of "of_nat :: nat \<Rightarrow> u16"] by simp
  ultimately show ?thesis
    using parse_pmt_section_bytes [of "[]" xs v default_pmt_info "pmt_pid pmt" j "pmt_service_id pmt" "pcr_pid pmt" crc] w assms(5,6)
    by (auto simp: default_pmt_info_def pmt_read_def foldl_add_stream_fields xs_def)
qed

subsection \<open>Properties\<close>

text \<open>C14: A program map section is read back: service, version, clock reference stream and, in order, every stream with its type, the 13 bits
  of its number, and the language, the AC-3 descriptors and the subtitles that its descriptors announce; the conditional access systems
  and service moves of the program and of the streams are collected in order. The section is consumed without an error. The
  descriptors may come in any number and order, for the program and for each stream, and descriptors of unknown kinds are stepped over; not
  covered are those for multiplexing buffers, private data and extensions. The stream numbers of the Freesat event tables are excluded:
  a section on them is taken for an event section.\<close>
theorem pmt_section_parsed:
  fixes crc :: u32 and v :: u8
  assumes "list_all descriptor_fits ds" "list_all stream_fits xs"
    and "length (concat (map descriptor_bytes ds)) + length (concat (map es_bytes xs)) + 13 < 2 ^ 12"
    and "unat v < 2 ^ 5" "p \<notin> {3003, 3004, 3842, 3843}"
  shows "\<exists>pmt s'. parse_pmt_section default_pmt_info (open_section j (pmt_section_bytes sid v pcr ds xs crc) p) =
      Some (True, pmt, s') \<and> available s' = 0 \<and> \<not> section_error s' \<and>
    pmt_service_id pmt = sid \<and> pmt_version_number pmt = ucast v \<and> pcr_pid pmt = pcr AND 0x1fff \<and> pmt_pid pmt = p \<and>
    pid_descriptors pmt = map stream_info xs \<and>
    ca_descriptors pmt = concat (map (conditional_access null_pid) ds) @ concat (map stream_access xs) \<and>
    service_move_descriptors pmt = concat (map (service_move null_pid) ds) @ concat (map stream_moves xs)"
  using parse_pmt_section_bytes [OF assms(1-4) _ assms(5), of default_pmt_info j sid pcr crc]
  by (auto simp: default_pmt_info_def pmt_read_def foldl_add_stream_fields foldl_add_descriptor_fields)

theorem pmt_section_parsed_witness:
  "\<exists>pmt s'. parse_pmt_section default_pmt_info (open_section (\<lambda>_. 0)
      (pmt_section_bytes 0x1234 7 0x200 [Conditional_Access 0x1811 0x300 [1, 2]]
        [(0x1B, 0x200, [Stream_Identifier 1]), (6, 0x201, [Language (101, 110, 103) 0, Ac3 False [0x40]])] 0xdeadbeef) 0x100) =
      Some (True, pmt, s') \<and> available s' = 0 \<and> \<not> section_error s' \<and>
    pmt_service_id pmt = 0x1234 \<and> pcr_pid pmt = 0x200 \<and>
    map stream_pid (pid_descriptors pmt) = [0x200, 0x201] \<and>
    map (\<lambda>d. (audio_lang_code (audio_lang d), ac3_descriptor_data (audio_lang d))) (tl (pid_descriptors pmt)) = [((101, 110, 103), [0x6A, 1, 0x40])] \<and>
    ca_descriptors pmt = [\<lparr>ca_stream_pid = null_pid, ca_system_id = 0x1811, ca_pid = 0x300\<rparr>]"
proof -
  define ds xs where "ds = [Conditional_Access 0x1811 0x300 [1, 2]]" and
    "xs = [(0x1B :: u8, 0x200 :: u16, [Stream_Identifier 1]), (6, 0x201, [Language (101, 110, 103) 0, Ac3 False [0x40]])]"
  have "list_all descriptor_fits ds" "list_all stream_fits xs"
    "length (concat (map descriptor_bytes ds)) + length (concat (map es_bytes xs)) + 13 < 2 ^ 12" "unat (7 :: u8) < 2 ^ 5"
    "0x100 \<notin> {3003, 3004, 3842, 3843 :: u16}"
    by (simp_all add: ds_def xs_def descriptor_fits_def descriptor_bytes_def info_bytes_def)
  from pmt_section_parsed [OF this, of "\<lambda>_. 0" "0x1234" "0x200" "0xdeadbeef"] show ?thesis
    unfolding ds_def [symmetric] xs_def [symmetric]
    by (auto simp: ds_def xs_def stream_info_def stream_access_def new_pid_info_def default_audio_language_info_def descriptor_bytes_def)
qed

definition example_pmt :: pmt_info_t where
  "example_pmt = default_pmt_info\<lparr>pmt_service_id := 0x1234, pmt_pid := 0x100, pcr_pid := 0x200, pmt_version_number := 3,
     pid_descriptors := map stream_info [(0x1B, 0x200, []), (3, 0x201, [Language (101, 110, 103) 0])]\<rparr>"

end
