(* ===== verification/Events.thy ===== *)
theory Events
  imports Streamtime Ts_Packet "HOL-Library.Monad_Syntax"
begin

text \<open>
  The play clock (\<open>event_handler_t\<close> in \<open>receiver/streamparser/events.h\<close> and \<open>events.cc\<close>): play time in
  milliseconds from the programme clock references of the stream, kept monotone over jumps of the clock. Milliseconds
  are 64-bit numbers whose sums stay far below their bounds, modelled as integers. The wall clock is the argument
  \<open>now\<close>; \<open>None\<close> is a failed assertion. The index database is the list of the markers put into it.
\<close>

datatype marker_type = illegal | i_frame | p_frame | b_frame | pes_other | pat | pmt

record index_marker =
  mk_time :: int
  mk_packetno_start :: u32
  mk_packetno_end :: u32

record event_handler_t =
  last_pcr :: pcr_t
  ref_pcr :: pcr_t
  ref_offset :: int
  last_pcr_play_time :: int
  start_time :: int
  last_pat_start_bytepos :: u64
  last_pmt_start_bytepos :: u64
  last_pat_end_bytepos :: u64
  last_pmt_end_bytepos :: u64
  ref_pcr_inited :: bool
  ref_pcr_update_enabled :: bool
  idxdb :: "index_marker list option"

definition invalid_pcr :: pcr_t where
  "invalid_pcr = \<lparr>pcr_time = 1, extension = 0\<rparr>"

definition new_event_handler :: "index_marker list option \<Rightarrow> int \<Rightarrow> event_handler_t" where
  "new_event_handler db now = \<lparr>last_pcr = invalid_pcr, ref_pcr = invalid_pcr, ref_offset = 0, last_pcr_play_time = 0,
     start_time = now, last_pat_start_bytepos = 0, last_pmt_start_bytepos = 0, last_pat_end_bytepos = 0,
     last_pmt_end_bytepos = 0, ref_pcr_inited = False, ref_pcr_update_enabled = True, idxdb = db\<rparr>"

definition ms :: "pcr_t \<Rightarrow> int" where
  "ms p = sint (pcr_milliseconds p)"

definition pcr_play_time_raw :: "event_handler_t \<Rightarrow> int" where
  "pcr_play_time_raw h = ms (pcr_minus (last_pcr h) (ref_pcr h)) + ref_offset h"

definition pcr_play_time :: "event_handler_t \<Rightarrow> (int \<times> event_handler_t) option" where
  "pcr_play_time h =
     (let t = ms (pcr_minus (last_pcr h) (ref_pcr h)) + ref_offset h
      in if t \<ge> last_pcr_play_time h then Some (t, h\<lparr>last_pcr_play_time := t\<rparr>) else None)"

definition check_pcr_play_time :: "event_handler_t \<Rightarrow> event_handler_t option" where
  "check_pcr_play_time h =
     (let t = ms (pcr_minus (last_pcr h) (ref_pcr h)) + ref_offset h
      in if t \<ge> last_pcr_play_time h then Some h else None)"

definition pcr_discontinuity :: "int \<Rightarrow> pcr_t \<Rightarrow> event_handler_t \<Rightarrow> event_handler_t option" where
  "pcr_discontinuity now p h =
     (if ref_pcr_update_enabled h
      then do {
        let t = (now - start_time h) * 1000;
        (t_old, h) \<leftarrow> pcr_play_time h;
        let h = h\<lparr>last_pcr := p\<rparr>;
        let t_new = pcr_play_time_raw h;
        let correction_lower_limit = t_old + 5 - t_new;
        let correction = max (t - t_new) correction_lower_limit;
        let correction = (if correction < 1000 then max correction_lower_limit 0 else correction);
        let h = h\<lparr>ref_offset := ref_offset h + correction\<rparr>;
        let delta = ms (pcr_minus (last_pcr h) (ref_pcr h));
        let h = h\<lparr>ref_offset := ref_offset h + delta, ref_pcr := last_pcr h\<rparr>;
        (t_test, h) \<leftarrow> pcr_play_time h;
        if t_test > t_old then check_pcr_play_time h else None
      }
      else Some h)"

definition pcr_update :: "int \<Rightarrow> pcr_t \<Rightarrow> bool \<Rightarrow> event_handler_t \<Rightarrow> event_handler_t option" where
  "pcr_update now p discontinuity_pending h =
     (if discontinuity_pending then pcr_discontinuity now p h
      else do {
        h \<leftarrow> (if ref_pcr_update_enabled h
              then if \<not> ref_pcr_inited h then Some (h\<lparr>ref_pcr := p, ref_pcr_inited := True\<rparr>)
                   else let delta = pcr_minus p (last_pcr h)
                        in if \<not> pcr_less_eq delta max_pcr_interval \<or> pcr_less p (last_pcr h)
                           then pcr_discontinuity now p h else Some h
              else Some h);
        let h = (if pcr_is_valid (last_pcr h) \<and> pcr_less p (last_pcr h) then h else h\<lparr>last_pcr := p\<rparr>);
        check_pcr_play_time h
      })"

text \<open>
  The new clock period after a time stamp. The reference for comparison is an invalid time stamp, as in the code.
\<close>

definition check_pes_discontinuity :: "pts_dts_t \<Rightarrow> pts_dts_t \<Rightarrow> pts_dts_t \<Rightarrow> pts_dts_t option" where
  "check_pes_discontinuity clock_period old_dts new_dts = do {
     timedelta \<leftarrow> pts_minus new_dts old_dts;
     let zero = pts_invalid;
     Some (if \<not> pts_equal timedelta clock_period \<and> \<not> pts_equal clock_period zero then clock_period
           else if \<not> pts_is_valid clock_period \<or> pts_less timedelta clock_period \<or> pts_equal clock_period zero
           then timedelta else clock_period)
   }"

definition index_event :: "marker_type \<Rightarrow> int \<Rightarrow> u64 \<Rightarrow> u64 \<Rightarrow> event_handler_t \<Rightarrow> event_handler_t" where
  "index_event unit_type play_time_ms first_byte last_byte h =
     (case idxdb h of
        None \<Rightarrow> h
      | Some db \<Rightarrow>
          let first_packetno = first_byte div 188;
              last_packetno = last_byte div 188
          in if ref_pcr_inited h \<and> (unit_type = i_frame \<or> unit_type = pes_other)
             then let start = min (last_pat_start_bytepos h) (last_pmt_start_bytepos h) div 188;
                      end1 = max (last_pat_end_bytepos h) (last_pmt_end_bytepos h) div 188;
                      start = min start first_packetno;
                      end1 = max end1 last_packetno
                  in h\<lparr>idxdb := Some (filter (\<lambda>m. mk_time m \<noteq> play_time_ms) db @
                        [\<lparr>mk_time = play_time_ms, mk_packetno_start = ucast start, mk_packetno_end = ucast end1\<rparr>])\<rparr>
             else h)"

definition get_packet_range :: "data_range_t \<Rightarrow> (int \<times> int) option" where
  "get_packet_range r =
     (let first_packet = sint (word_of_int (dr_start_bytepos r sdiv 188) :: u32);
          end_packet = sint (word_of_int (end_bytepos r sdiv 188) :: u32)
      in if first_packet * 188 = dr_start_bytepos r \<and> end_packet * 188 = end_bytepos r
         then Some (first_packet, end_packet - first_packet) else None)"

subsection \<open>Ticks\<close>

text \<open>The signed number of 90 kHz ticks in a difference of clock references.\<close>

definition ticks :: "pcr_t \<Rightarrow> int" where
  "ticks p = sint (pcr_time p) div 2 ^ 31"

definition proper :: "pcr_t \<Rightarrow> bool" where
  "proper p \<longleftrightarrow> aligned (pcr_time p) \<and> uint (extension p) < 300"

lemma sint_aligned: "aligned t \<Longrightarrow> sint t = 2 ^ 31 * (sint t div 2 ^ 31)"
proof -
  assume "aligned t"
  then have "push_bit 31 (signed_drop_bit 31 t) = t" by (rule push_signed_drop)
  moreover have "sint (signed_drop_bit 31 t) = sint t div 2 ^ 31" by (simp add: sint_signed_drop_bit_eq drop_bit_eq_div)
  moreover have "- (2 ^ 63) \<le> sint t" "sint t < 2 ^ 63" using sint_ge [of t] sint_lt [of t] by simp_all
  then have "- (2 ^ 32) \<le> sint t div 2 ^ 31" "sint t div 2 ^ 31 < 2 ^ 32" by simp_all
  ultimately show ?thesis using sint_push [of "signed_drop_bit 31 t"] by (simp add: mult.commute)
qed

lemma ticks_range: "- (2 ^ 32) \<le> ticks p" "ticks p < 2 ^ 32"
proof -
  have "- (2 ^ 63) \<le> sint (pcr_time p)" "sint (pcr_time p) < 2 ^ 63" using sint_ge [of "pcr_time p"] sint_lt [of "pcr_time p"] by simp_all
  then show "- (2 ^ 32) \<le> ticks p" "ticks p < 2 ^ 32" by (simp_all add: ticks_def)
qed

lemma ms_ticks: "ms p = ticks p sdiv 90"
proof -
  have "sint (signed_drop_bit 31 (pcr_time p)) = ticks p" by (simp add: ticks_def sint_signed_drop_bit_eq drop_bit_eq_div)
  moreover have "- (2 ^ 63) \<le> ticks p sdiv 90 \<and> ticks p sdiv 90 < 2 ^ 63"
    using ticks_range [of p] by (auto simp: signed_divide_int_def sgn_if abs_if)
  ultimately show ?thesis unfolding ms_def pcr_milliseconds_def by (simp add: sint_word_of_int)
qed

lemma sdiv_mono: "a \<le> b \<Longrightarrow> (a :: int) sdiv 90 \<le> b sdiv 90"
proof (cases "0 \<le> a \<or> b \<le> 0")
  case False
  then have "0 \<le> - a div 90" "0 \<le> b div 90" by (simp_all add: pos_imp_zdiv_nonneg_iff)
  with False show ?thesis by (simp add: signed_divide_int_def sgn_if abs_if)
qed (auto simp: signed_divide_int_def sgn_if abs_if zdiv_mono1)

lemma pcr_minus_proper:
  assumes "proper a" "proper b"
  shows "pcr_minus a b = \<lparr>pcr_time = pcr_time a - pcr_time b - (if extension a < extension b then one_tick else 0),
      extension = word_of_int ((uint (extension a) - uint (extension b)) mod 300)\<rparr>"
proof (cases "extension a < extension b")
  case True
  then have lt: "uint (extension a) < uint (extension b)" by (simp add: word_less_def)
  define d where "d = uint (extension a) - uint (extension b)"
  have "0 \<le> uint (extension a)" "uint (extension b) < 300" using assms(2) by (simp_all add: proper_def)
  with lt have d: "d < 0" "0 \<le> d + 300" "d + 300 < 300" unfolding d_def by linarith+
  then have "normalize_up d t = (d + 300, t - one_tick)" for t by (simp add: normalize_up.simps [of d] normalize_up.simps [of "d + 300"])
  moreover have "d mod 300 = d + 300" using d mod_pos_pos_trivial [of "d + 300" 300] by simp
  ultimately show ?thesis using True d by (simp add: pcr_minus_def d_def [symmetric] Let_def)
next
  case False
  then have le: "uint (extension b) \<le> uint (extension a)" by (simp add: word_less_def)
  moreover have "0 \<le> uint (extension b)" "uint (extension a) < 300" using assms(1) by (simp_all add: proper_def)
  ultimately have small: "0 \<le> uint (extension a) - uint (extension b)" "uint (extension a) - uint (extension b) < 300" by linarith+
  then have "(uint (extension a) - uint (extension b)) mod 300 = uint (extension a) - uint (extension b)"
    by (rule mod_pos_pos_trivial)
  with small False show ?thesis by (simp add: pcr_minus_def Let_def)
qed

lemma proper_minus: "proper a \<Longrightarrow> proper b \<Longrightarrow> proper (pcr_minus a b)"
  by (auto simp: pcr_minus_proper proper_def uint_word_of_int intro!: aligned_diff tick_count_one)

lemma sint_add_range:
  "- (2 ^ 63) \<le> sint a + sint b \<Longrightarrow> sint a + sint b < 2 ^ 63 \<Longrightarrow> sint (a + b :: u64) = sint a + sint b"
  using sint_word_of_int [of "sint a + sint b"] by simp

lemma sint_one_tick: "sint one_tick = 2 ^ 31" "sint (0 :: u64) = 0"
  by (simp_all add: one_tick_def)

text \<open>Differences add up, with a carry of at most one tick, as long as the sum does not wrap around.\<close>

lemma ticks_add:
  assumes "proper a" "proper b" "proper c" "0 \<le> ticks (pcr_minus a b)"
    and "ticks (pcr_minus a b) + ticks (pcr_minus b c) + 1 < 2 ^ 32"
  shows "ticks (pcr_minus a b) + ticks (pcr_minus b c) \<le> ticks (pcr_minus a c)"
    "ticks (pcr_minus a c) \<le> ticks (pcr_minus a b) + ticks (pcr_minus b c) + 1"
proof -
  define x y where "x = pcr_time (pcr_minus a b)" and "y = pcr_time (pcr_minus b c)"
  define carry where "carry = (if (extension a < extension b \<or> extension b < extension c) \<and> \<not> extension a < extension c \<or>
    extension a < extension b \<and> extension b < extension c then one_tick else 0)"
  have z: "pcr_time (pcr_minus a c) = x + (y + carry)"
    using assms(1-3) by (auto simp: x_def y_def carry_def pcr_minus_proper)
  have x: "sint x = 2 ^ 31 * ticks (pcr_minus a b)" and y: "sint y = 2 ^ 31 * ticks (pcr_minus b c)"
    using sint_aligned [of x] sint_aligned [of y] proper_minus [OF assms(1,2)] proper_minus [OF assms(2,3)]
    by (simp_all add: x_def y_def ticks_def proper_def)
  have c: "sint carry = 2 ^ 31 \<or> sint carry = 0" by (auto simp: carry_def sint_one_tick)
  have "- (2 ^ 32) \<le> ticks (pcr_minus b c)" by (rule ticks_range)
  then have yc: "sint (y + carry) = sint y + sint carry" using assms(4,5) c by (intro sint_add_range) (auto simp: y)
  moreover have "sint (x + (y + carry)) = sint x + sint (y + carry)"
    using assms(4,5) c \<open>- (2 ^ 32) \<le> ticks (pcr_minus b c)\<close> by (intro sint_add_range) (auto simp: x y yc)
  ultimately have "sint (pcr_time (pcr_minus a c)) = 2 ^ 31 * (ticks (pcr_minus a b) + ticks (pcr_minus b c)) + sint carry"
    by (simp add: z x y algebra_simps)
  then show "ticks (pcr_minus a b) + ticks (pcr_minus b c) \<le> ticks (pcr_minus a c)"
    "ticks (pcr_minus a c) \<le> ticks (pcr_minus a b) + ticks (pcr_minus b c) + 1"
    using c by (auto simp: ticks_def)
qed

subsection \<open>The play clock\<close>

definition elapsed :: "event_handler_t \<Rightarrow> int" where
  "elapsed h = ticks (pcr_minus (last_pcr h) (ref_pcr h))"

text \<open>
  The play time never lies below the last one that was handed out; before the first clock reference the clock stands still.
\<close>

definition clock_inv :: "event_handler_t \<Rightarrow> bool" where
  "clock_inv h \<longleftrightarrow> last_pcr_play_time h \<le> pcr_play_time_raw h \<and>
     (if ref_pcr_inited h then proper (last_pcr h) \<and> proper (ref_pcr h)
      else last_pcr h = ref_pcr h \<and> \<not> pcr_is_valid (last_pcr h))"

lemma play_time_elapsed: "pcr_play_time_raw h = elapsed h sdiv 90 + ref_offset h"
  by (simp add: pcr_play_time_raw_def elapsed_def ms_ticks)

lemma pcr_minus_self: "ticks (pcr_minus p p) = 0"
  by (simp add: pcr_minus_def ticks_def)

lemma pcr_play_time_ok: "clock_inv h \<Longrightarrow> pcr_play_time h = Some (pcr_play_time_raw h, h\<lparr>last_pcr_play_time := pcr_play_time_raw h\<rparr>)"
  by (simp add: clock_inv_def pcr_play_time_def pcr_play_time_raw_def Let_def)

lemma pcr_discontinuity_spec:
  assumes "last_pcr_play_time h \<le> pcr_play_time_raw h" "ref_pcr_update_enabled h"
  shows "\<exists>h'. pcr_discontinuity now p h = Some h' \<and> last_pcr h' = p \<and> ref_pcr h' = p \<and>
    pcr_play_time_raw h + 5 \<le> pcr_play_time_raw h' \<and> last_pcr_play_time h' = pcr_play_time_raw h' \<and>
    ref_pcr_inited h' = ref_pcr_inited h \<and> ref_pcr_update_enabled h'"
proof -
  have "ms (pcr_minus p p) = 0" by (simp add: ms_ticks pcr_minus_self)
  with assms show ?thesis
    by (auto simp: pcr_discontinuity_def pcr_play_time_def pcr_play_time_raw_def check_pcr_play_time_def Let_def)
qed

lemma pcr_not_less_ticks:
  assumes "proper p" "proper q" "\<not> pcr_less p q" "pcr_less_eq (pcr_minus p q) max_pcr_interval"
  shows "0 \<le> ticks (pcr_minus p q)" "ticks (pcr_minus p q) \<le> 18000"
proof -
  define x where "x = pcr_time (pcr_minus p q)"
  have x: "x = pcr_time p - pcr_time q - (if extension p < extension q then one_tick else 0)"
    using assms(1,2) by (simp add: x_def pcr_minus_proper)
  have nonneg: "0 \<le> sint x"
  proof (cases "pcr_time p = pcr_time q")
    case False
    define d where "d = pcr_time p - pcr_time q"
    have "aligned d" using assms(1,2) by (simp add: d_def proper_def aligned_diff)
    then obtain k where "sint d = 2 ^ 31 * k" using sint_aligned by blast
    moreover have "sint d \<noteq> 0" using False signed_word_eqI [of d 0] by (auto simp: d_def)
    moreover have "0 \<le> sint d" using assms(3) False by (simp add: pcr_less_def d_def)
    ultimately have "2 ^ 31 \<le> sint d" by auto
    moreover have "sint (- one_tick) = - (2 ^ 31)" by (simp add: one_tick_def)
    moreover have "sint d < 2 ^ 63" using sint_lt [of d] by simp
    ultimately show ?thesis using sint_add_range [of d "- one_tick"] by (auto simp: x d_def [symmetric])
  qed (use assms(3) in \<open>simp add: x pcr_less_def\<close>)
  then show "0 \<le> ticks (pcr_minus p q)" by (simp add: ticks_def x_def pos_imp_zdiv_nonneg_iff)
  define m where "m = pcr_time max_pcr_interval"
  have m: "sint m = 18000 * 2 ^ 31" "sint (- m) = - (18000 * 2 ^ 31)" by (simp_all add: m_def max_pcr_interval_def pcr_of_ticks_def)
  have "sint x < 2 ^ 63" using sint_lt [of x] by simp
  then have "sint (x - m) = sint x - sint m" using sint_add_range [of x "- m"] nonneg m by simp
  then have "sint x \<le> sint m" using assms(4) by (auto simp: pcr_less_eq_def x_def [symmetric] m_def [symmetric] split: if_splits)
  then show "ticks (pcr_minus p q) \<le> 18000" by (simp add: ticks_def x_def [symmetric] m)
qed

lemma pcr_not_less_self: "\<not> pcr_less p p"
  by (simp add: pcr_less_def)

lemma pcr_update_spec:
  assumes "clock_inv h" "ref_pcr_update_enabled h" "proper p" "disc \<longrightarrow> ref_pcr_inited h" "elapsed h + 18001 < 2 ^ 32"
  shows "\<exists>h'. pcr_update now p disc h = Some h' \<and> clock_inv h' \<and> ref_pcr_inited h' \<and> ref_pcr_update_enabled h' \<and>
    last_pcr h' = p \<and> pcr_play_time_raw h \<le> pcr_play_time_raw h'"
proof -
  have inv: "last_pcr_play_time h \<le> pcr_play_time_raw h" using assms(1) by (simp add: clock_inv_def)
  obtain h1 where disc: "pcr_discontinuity now p h = Some h1" "last_pcr h1 = p" "ref_pcr h1 = p"
    "pcr_play_time_raw h + 5 \<le> pcr_play_time_raw h1" "last_pcr_play_time h1 = pcr_play_time_raw h1"
    "ref_pcr_inited h1 = ref_pcr_inited h" "ref_pcr_update_enabled h1"
    using pcr_discontinuity_spec [OF inv assms(2)] by blast
  have ok1: "check_pcr_play_time (h1\<lparr>last_pcr := p\<rparr>) = Some h1"
    using disc(2,5) by (cases h1) (simp add: check_pcr_play_time_def pcr_play_time_raw_def)
  consider "\<not> ref_pcr_inited h" | "ref_pcr_inited h" "disc \<or> \<not> pcr_less_eq (pcr_minus p (last_pcr h)) max_pcr_interval \<or> pcr_less p (last_pcr h)"
    | "ref_pcr_inited h" "\<not> disc" "pcr_less_eq (pcr_minus p (last_pcr h)) max_pcr_interval" "\<not> pcr_less p (last_pcr h)" by blast
  then show ?thesis
  proof cases
    case 1
    then have "last_pcr h = ref_pcr h" "\<not> pcr_is_valid (last_pcr h)" "\<not> disc" using assms(1,4) by (auto simp: clock_inv_def)
    moreover have "ms (pcr_minus q q) = 0" for q by (simp add: ms_ticks pcr_minus_self)
    ultimately show ?thesis
      using 1 assms(2,3) inv by (simp add: pcr_update_def check_pcr_play_time_def clock_inv_def pcr_play_time_raw_def Let_def)
  next
    case 2
    then have "pcr_update now p disc h = Some h1"
      using disc ok1 assms(2) by (auto simp: pcr_update_def Let_def pcr_not_less_self)
    with 2 disc assms(3) show ?thesis by (simp add: clock_inv_def)
  next
    case 3
    define h' where "h' = h\<lparr>last_pcr := p\<rparr>"
    have pr: "proper (last_pcr h)" "proper (ref_pcr h)" using 3(1) assms(1) by (simp_all add: clock_inv_def)
    note d = pcr_not_less_ticks [OF assms(3) pr(1) 3(4,3)]
    have "elapsed h \<le> elapsed h'"
      using ticks_add(1) [OF assms(3) pr d(1)] d assms(5) by (simp add: elapsed_def h'_def)
    then have le: "pcr_play_time_raw h \<le> pcr_play_time_raw h'"
      using sdiv_mono [of "elapsed h" "elapsed h'"] by (simp add: play_time_elapsed h'_def)
    moreover have "pcr_update now p disc h = Some h'"
      using 3 assms(2) inv le by (simp add: pcr_update_def check_pcr_play_time_def pcr_play_time_raw_def h'_def Let_def)
    ultimately show ?thesis using 3(1) assms(1-3) pr by (intro exI [of _ h']) (auto simp: clock_inv_def h'_def)
  qed
qed

subsection \<open>Properties\<close>

text \<open>C19: The play clock is monotone: as long as less than 13 hours and 15 minutes of stream time (2^32 ticks of
  90 kHz, less the longest accepted step) have passed since its reference, every clock reference of the stream,
  continuous or not, is accepted without a failed assertion, keeps the invariant of the clock and does not move the play time
  backwards.\<close>
theorem play_clock_monotone:
  assumes "clock_inv h" "ref_pcr_update_enabled h" "proper p" "disc \<longrightarrow> ref_pcr_inited h" "elapsed h + 18001 < 2 ^ 32"
  shows "\<exists>h'. pcr_update now p disc h = Some h' \<and> clock_inv h' \<and> last_pcr h' = p \<and>
    pcr_play_time_raw h \<le> pcr_play_time_raw h' \<and>
    pcr_play_time h' = Some (pcr_play_time_raw h', h'\<lparr>last_pcr_play_time := pcr_play_time_raw h'\<rparr>)"
  using pcr_update_spec [OF assms] pcr_play_time_ok by blast

theorem play_clock_monotone_witness:
  "\<exists>h'. pcr_update 5 (pcr_of_ticks 90000 17) False (new_event_handler None 0) = Some h' \<and> clock_inv h' \<and>
    last_pcr h' = pcr_of_ticks 90000 17 \<and> pcr_play_time_raw (new_event_handler None 0) \<le> pcr_play_time_raw h' \<and>
    pcr_play_time h' = Some (pcr_play_time_raw h', h'\<lparr>last_pcr_play_time := pcr_play_time_raw h'\<rparr>)"
proof (rule play_clock_monotone)
  show "clock_inv (new_event_handler None 0)" "elapsed (new_event_handler None 0) + 18001 < 2 ^ 32"
    by (simp_all add: clock_inv_def new_event_handler_def invalid_pcr_def pcr_is_valid_def play_time_elapsed elapsed_def pcr_minus_self)
  have "aligned (push_bit 31 90000)" by (rule aligned_push)
  then show "proper (pcr_of_ticks 90000 17)" by (simp add: proper_def pcr_of_ticks_def)
qed (simp_all add: new_event_handler_def)

definition after_half_period :: event_handler_t where
  "after_half_period = (new_event_handler None 0)\<lparr>ref_pcr := pcr_of_ticks 0 0, last_pcr := pcr_of_ticks (2 ^ 32 - 1) 0,
     ref_pcr_inited := True, last_pcr_play_time := (2 ^ 32 - 1) div 90\<rparr>"

text \<open>The difference to the reference changes its sign after half of the period of the clock, not after the 26
  hours of the whole period: a stream without a jump that has played for 13 hours and 15 minutes fails the assertion on the play time
  with its next clock reference.\<close>
theorem play_clock_aborts:
  "clock_inv after_half_period \<and> pcr_update 0 (pcr_of_ticks (2 ^ 32 + 3600) 0) False after_half_period = None"
proof
  have "aligned (push_bit 31 0)" "aligned (push_bit 31 (2 ^ 32 - 1))" by (rule aligned_push)+
  then show "clock_inv after_half_period"
    by (simp add: clock_inv_def after_half_period_def new_event_handler_def proper_def pcr_of_ticks_def play_time_elapsed elapsed_def
        pcr_minus_def ticks_def signed_divide_int_def)
  show "pcr_update 0 (pcr_of_ticks (2 ^ 32 + 3600) 0) False after_half_period = None"
    by code_simp
qed

end
