(* ===== verification/Substream.thy ===== *)
theory Substream
  imports Events Section_Reader
begin

text \<open>
  The reader of one stream of packets (\<open>ts_substream_t\<close> in \<open>receiver/streamparser/substream.h\<close>,
  \<open>packetstream.cc\<close> and \<open>substream_impl.h\<close>). The parser of a stream is a coroutine that is resumed
  when the next packet of its stream arrives; the packets to come are the function \<open>arriving\<close>, of which the
  first \<open>arrived\<close> have been used, with the wall clock at their arrival. The virtual method
  \<open>unit_completed_cb\<close> is an argument \<open>cb\<close>. Exceptions are off (\<open>throw_on_error\<close> is never set): an error sets a
  flag. \<open>None\<close> is a failed assertion, an undefined shift or a loop that waits forever.
\<close>

record ts_substream_t =
  ss_error :: bool
  ss_encrypted :: bool
  cc_error_counter :: int
  continuity_errors :: int
  wait_for_unit_start :: bool
  continuity_counter :: u8
  pointer_field :: u8
  pointer_pos :: int
  num_encrypted_packets :: int
  is_psi :: bool
  current_unit_type :: marker_type
  current_unit_start_bytepos :: u64
  current_unit_end_bytepos :: u64
  current_ts_packet :: ts_packet_t
  ss_bytes_read :: int
  event_handler :: event_handler_t
  last_play_time :: int
  parent_num_encrypted_packets :: u32
  psi_sections :: "(u16 \<times> bytes) list"
  arriving :: "nat \<Rightarrow> ts_packet_t"
  wall_clock :: "nat \<Rightarrow> int"
  arrived :: nat

definition new_substream :: "bool \<Rightarrow> marker_type \<Rightarrow> event_handler_t \<Rightarrow> (nat \<Rightarrow> ts_packet_t) \<Rightarrow> (nat \<Rightarrow> int) \<Rightarrow> ts_substream_t" where
  "new_substream psi t h ps clock = \<lparr>ss_error = False, ss_encrypted = False, cc_error_counter = 0, continuity_errors = 0,
     wait_for_unit_start = True, continuity_counter = 0xff, pointer_field = 0, pointer_pos = -1, num_encrypted_packets = 0,
     is_psi = psi, current_unit_type = t, current_unit_start_bytepos = 0, current_unit_end_bytepos = 0,
     current_ts_packet = default_ts_packet, ss_bytes_read = 0, event_handler = h, last_play_time = 0, parent_num_encrypted_packets = 0,
     psi_sections = [], arriving = ps, wall_clock = clock, arrived = 0\<rparr>"

type_synonym 'z unit_cb = "'z ts_substream_t_scheme \<Rightarrow> 'z ts_substream_t_scheme"

definition ss_throw_bad_data :: "'z ts_substream_t_scheme \<Rightarrow> 'z ts_substream_t_scheme" where
  "ss_throw_bad_data s = s\<lparr>ss_error := True\<rparr>"

definition throw_encrypted_data :: "'z ts_substream_t_scheme \<Rightarrow> 'z ts_substream_t_scheme" where
  "throw_encrypted_data s = s\<lparr>ss_encrypted := True\<rparr>"

text \<open>The check of the continuity counter of the packet that has just become the current one.\<close>

definition check_continuity :: "ts_packet_t \<Rightarrow> 'z ts_substream_t_scheme \<Rightarrow> bool \<times> 'z ts_substream_t_scheme" where
  "check_continuity p s =
     (if continuity_counter s = 0xff then (False, s)
      else let expected_cc = (if has_payload p then (continuity_counter s + 1) AND 0x0f else continuity_counter s)
           in if expected_cc = get_continuity_counter p then (False, s)
              else let is_duplicate = (has_payload p \<and> get_continuity_counter p = continuity_counter s)
                   in if \<not> get_is_discontinuity p \<and> \<not> is_duplicate
                      then (is_duplicate, ss_throw_bad_data (s\<lparr>wait_for_unit_start := True, continuity_errors := continuity_errors s + 1\<rparr>))
                      else (is_duplicate, s\<lparr>cc_error_counter := cc_error_counter s + 1\<rparr>))"

definition read_pointer_field :: "'z ts_substream_t_scheme \<Rightarrow> 'z ts_substream_t_scheme option" where
  "read_pointer_field s =
     (let p = current_ts_packet s in
      if is_psi s \<and> get_payload_unit_start p
      then do {
        (f, r) \<leftarrow> dr_get 1 (range p);
        let s = s\<lparr>current_ts_packet := p\<lparr>range := r\<rparr>, pointer_field := f\<rparr>;
        Some (if uint f < dr_available r then s\<lparr>pointer_pos := processed r + uint f\<rparr>
              else ss_throw_bad_data (s\<lparr>pointer_pos := -1, pointer_field := 0\<rparr>))
      }
      else Some (s\<lparr>pointer_field := 0\<rparr>))"

definition process_packet_header :: "'z unit_cb \<Rightarrow> ts_packet_t \<Rightarrow> 'z ts_substream_t_scheme \<Rightarrow> (bool \<times> 'z ts_substream_t_scheme) option" where
  "process_packet_header cb p s = do {
     let s = (if \<not> pkt_valid p then ss_throw_bad_data s else s);
     let s = (if get_payload_unit_start p
              then if ss_encrypted s
                   then s\<lparr>parent_num_encrypted_packets := parent_num_encrypted_packets s + 1,
                          num_encrypted_packets := num_encrypted_packets s + 1\<rparr>
                   else cb s
              else s);
     let s = s\<lparr>current_unit_end_bytepos := word_of_int (dr_start_bytepos (range (current_ts_packet s)))\<rparr>;
     let s = s\<lparr>current_ts_packet := p\<rparr>;
     let (is_duplicate, s) = check_continuity p s;
     let s = (if get_payload_unit_start p then s\<lparr>wait_for_unit_start := False\<rparr> else s);
     let s = s\<lparr>continuity_counter := get_continuity_counter p\<rparr>;
     s \<leftarrow> (if has_pcr p
           then do {
             h \<leftarrow> pcr_update (wall_clock s (arrived s)) (pkt_pcr p) (get_is_discontinuity p) (event_handler s);
             Some (s\<lparr>event_handler := h\<rparr>)
           }
           else Some s);
     let s = (if is_encrypted p then throw_encrypted_data s else s);
     s \<leftarrow> read_pointer_field s;
     Some (is_duplicate, s)
   }"

text \<open>
  All parsers share one packet object, which the next packet overwrites: the pointer to the current packet sees the
  new packet as soon as it has been read.
\<close>

definition get_packet_for_this_parser :: "'z ts_substream_t_scheme \<Rightarrow> ts_packet_t \<times> 'z ts_substream_t_scheme" where
  "get_packet_for_this_parser s =
     (let p = arriving s (arrived s) in (p, s\<lparr>arrived := arrived s + 1, current_ts_packet := p\<rparr>))"

text \<open>Waiting for a packet: duplicates are skipped, and all packets up to the start of a unit when one is awaited.\<close>

definition next_packet_step :: "'z unit_cb \<Rightarrow> 'z ts_substream_t_scheme \<Rightarrow> ('z ts_substream_t_scheme + 'z ts_substream_t_scheme) option" where
  "next_packet_step cb s = do {
     let (p, s) = get_packet_for_this_parser s;
     let s = (if \<not> pkt_valid p then ss_throw_bad_data s else s);
     (is_duplicate, s) \<leftarrow> process_packet_header cb p s;
     Some (if is_duplicate then Inr s else if \<not> wait_for_unit_start s then Inl s else Inr s)
   }"

definition get_next_packet :: "'z unit_cb \<Rightarrow> 'z ts_substream_t_scheme \<Rightarrow> 'z ts_substream_t_scheme option" where
  "get_next_packet cb s = do {
     r \<leftarrow> while_return (\<lambda>_. True) (next_packet_step cb) s;
     Some (case r of Inl s \<Rightarrow> s | Inr s \<Rightarrow> s)
   }"

definition get_buffer_step :: "'z unit_cb \<Rightarrow> int \<times> bytes \<times> 'z ts_substream_t_scheme \<Rightarrow>
    ((bytes \<times> 'z ts_substream_t_scheme) + (int \<times> bytes \<times> 'z ts_substream_t_scheme)) option" where
  "get_buffer_step cb st =
     (case st of (toread, acc, s) \<Rightarrow> do {
        let p = current_ts_packet s;
        let l = min toread (dr_available (range p));
        if dr_available (range p) < 0 then None
        else do {
          (bs, r) \<leftarrow> dr_get_buffer l (range p);
          if dr_available r < 0 then None
          else do {
            let s = s\<lparr>current_ts_packet := p\<lparr>range := r\<rparr>, ss_bytes_read := ss_bytes_read s + l\<rparr>;
            let toread = toread - l;
            if toread = 0 then Some (Inl (acc @ bs, s))
            else do { s \<leftarrow> get_next_packet cb s; Some (Inr (toread, acc @ bs, s)) }
          }
        }
      })"

definition ss_get_buffer :: "'z unit_cb \<Rightarrow> int \<Rightarrow> 'z ts_substream_t_scheme \<Rightarrow> (bytes \<times> 'z ts_substream_t_scheme) option" where
  "ss_get_buffer cb bytes s = do {
     r \<leftarrow> while_return (\<lambda>_. True) (get_buffer_step cb) (bytes, [], s);
     case r of Inl v \<Rightarrow> Some v | Inr _ \<Rightarrow> None
   }"

definition ss_get :: "'z unit_cb \<Rightarrow> nat \<Rightarrow> 'z ts_substream_t_scheme \<Rightarrow> ('a::len word \<times> 'z ts_substream_t_scheme) option" where
  "ss_get cb n s = do { (bs, s) \<leftarrow> ss_get_buffer cb (int n) s; Some (be_word bs, s) }"

definition skip_step :: "'z unit_cb \<Rightarrow> int \<times> 'z ts_substream_t_scheme \<Rightarrow> ('z ts_substream_t_scheme + (int \<times> 'z ts_substream_t_scheme)) option" where
  "skip_step cb st =
     (case st of (toskip, s) \<Rightarrow> do {
        let p = current_ts_packet s;
        let l = min toskip (dr_available (range p));
        if dr_available (range p) < 0 then None
        else do {
          (ret, r) \<leftarrow> dr_skip l (range p);
          let s = (if ret < 0 then ss_throw_bad_data s else s);
          if dr_available r < 0 then None
          else do {
            let s = s\<lparr>current_ts_packet := p\<lparr>range := r\<rparr>, ss_bytes_read := ss_bytes_read s + l\<rparr>;
            let toskip = toskip - l;
            if toskip = 0 then Some (Inl s)
            else do { s \<leftarrow> get_next_packet cb s; Some (Inr (toskip, s)) }
          }
        }
      })"

definition ss_skip :: "'z unit_cb \<Rightarrow> int \<Rightarrow> 'z ts_substream_t_scheme \<Rightarrow> 'z ts_substream_t_scheme option" where
  "ss_skip cb toskip s = do {
     r \<leftarrow> while_return (\<lambda>_. True) (skip_step cb) (toskip, s);
     case r of Inl s \<Rightarrow> Some s | Inr _ \<Rightarrow> None
   }"

definition skip_to_unit_start :: "'z unit_cb \<Rightarrow> 'z ts_substream_t_scheme \<Rightarrow> 'z ts_substream_t_scheme option" where
  "skip_to_unit_start cb s =
     (if get_payload_unit_start (current_ts_packet s) then Some (s\<lparr>wait_for_unit_start := False\<rparr>)
      else do {
        let s = s\<lparr>wait_for_unit_start := True\<rparr>;
        s \<leftarrow> while_loop (\<lambda>s. \<not> get_payload_unit_start (current_ts_packet s)) (get_next_packet cb) s;
        Some (s\<lparr>wait_for_unit_start := False, ss_bytes_read := 0\<rparr>)
      })"

definition skip_to_pointer :: "'z ts_substream_t_scheme \<Rightarrow> 'z ts_substream_t_scheme option" where
  "skip_to_pointer s =
     (if pointer_field s \<noteq> 0
      then do {
        let s = (if pointer_pos s < 0 then ss_throw_bad_data s else s);
        (_, r) \<leftarrow> set_cursor (pointer_pos s) (range (current_ts_packet s));
        if dr_available r < 0 then None
        else Some (s\<lparr>current_ts_packet := (current_ts_packet s)\<lparr>range := r\<rparr>, pointer_field := 0, pointer_pos := -1\<rparr>)
      }
      else Some s)"

subsection \<open>The loop of a parser\<close>

text \<open>
  \<open>parse\<close> in \<open>substream_impl.h\<close> never returns. Its phases are those of the loop: looking for the start of a unit, taking unit
  after unit, and recovering from an error or an encrypted packet. \<open>ppu\<close> is the virtual method \<open>parse_payload_unit\<close>.
\<close>

datatype parse_phase = Sync | Units | Recover

definition has_problem :: "'z ts_substream_t_scheme \<Rightarrow> bool" where
  "has_problem s \<longleftrightarrow> ss_error s \<or> ss_encrypted s"

definition parse_start :: "'z unit_cb \<Rightarrow> ts_packet_t \<Rightarrow> 'z ts_substream_t_scheme \<Rightarrow> (parse_phase \<times> 'z ts_substream_t_scheme) option" where
  "parse_start cb p s = do {
     (_, s) \<leftarrow> process_packet_header cb p (s\<lparr>current_ts_packet := p\<rparr>);
     Some (Sync, s)
   }"

definition sync_step :: "'z unit_cb \<Rightarrow> 'z ts_substream_t_scheme \<Rightarrow> (parse_phase \<times> 'z ts_substream_t_scheme) option" where
  "sync_step cb s = do {
     s \<leftarrow> skip_to_unit_start cb s;
     if has_problem s then Some (Recover, s)
     else do {
       s \<leftarrow> (if is_psi s then skip_to_pointer s else Some s);
       Some (Units, s)
     }
   }"

definition unit_step :: "('z ts_substream_t_scheme \<Rightarrow> 'z ts_substream_t_scheme option) \<Rightarrow> 'z unit_cb \<Rightarrow>
    'z ts_substream_t_scheme \<Rightarrow> (parse_phase \<times> 'z ts_substream_t_scheme) option" where
  "unit_step ppu cb s =
     (if has_problem s then Some (Recover, s)
      else do {
        s \<leftarrow> ppu (s\<lparr>ss_bytes_read := 0\<rparr>);
        s \<leftarrow> (if is_psi s then Some s
              else do {
                s \<leftarrow> get_next_packet cb (s\<lparr>wait_for_unit_start := True\<rparr>);
                skip_to_unit_start cb s
              });
        Some (Units, s)
      })"

definition recover_step :: "'z unit_cb \<Rightarrow> 'z ts_substream_t_scheme \<Rightarrow> (parse_phase \<times> 'z ts_substream_t_scheme) option" where
  "recover_step cb s =
     (if has_problem s
      then do {
        s \<leftarrow> get_next_packet cb (s\<lparr>ss_error := False, wait_for_unit_start := True\<rparr>);
        Some (Recover, s\<lparr>ss_encrypted := False\<rparr>)
      }
      else Some (Sync, s))"

definition parse_step :: "('z ts_substream_t_scheme \<Rightarrow> 'z ts_substream_t_scheme option) \<Rightarrow> 'z unit_cb \<Rightarrow>
    parse_phase \<times> 'z ts_substream_t_scheme \<Rightarrow> (parse_phase \<times> 'z ts_substream_t_scheme) option" where
  "parse_step ppu cb st =
     (case st of
        (Sync, s) \<Rightarrow> sync_step cb s
      | (Units, s) \<Rightarrow> unit_step ppu cb s
      | (Recover, s) \<Rightarrow> recover_step cb s)"

fun parse_steps :: "('z ts_substream_t_scheme \<Rightarrow> 'z ts_substream_t_scheme option) \<Rightarrow> 'z unit_cb \<Rightarrow> nat \<Rightarrow>
    parse_phase \<times> 'z ts_substream_t_scheme \<Rightarrow> (parse_phase \<times> 'z ts_substream_t_scheme) option" where
  "parse_steps ppu cb 0 st = Some st"
| "parse_steps ppu cb (Suc n) st = do { st \<leftarrow> parse_step ppu cb st; parse_steps ppu cb n st }"

text \<open>The parser from its first packet on.\<close>

definition parse :: "('z ts_substream_t_scheme \<Rightarrow> 'z ts_substream_t_scheme option) \<Rightarrow> 'z unit_cb \<Rightarrow> nat \<Rightarrow>
    'z ts_substream_t_scheme \<Rightarrow> (parse_phase \<times> 'z ts_substream_t_scheme) option" where
  "parse ppu cb n s = do {
     let (p, s) = get_packet_for_this_parser s;
     st \<leftarrow> parse_start cb p s;
     parse_steps ppu cb n st
   }"

subsection \<open>Bits and codes\<close>

definition get_pts_or_dts :: "'z unit_cb \<Rightarrow> 'z ts_substream_t_scheme \<Rightarrow> (pts_dts_t \<times> 'z ts_substream_t_scheme) option" where
  "get_pts_or_dts cb s = do {
     (b, s) \<leftarrow> ss_get cb 1 s;
     (v2, s) \<leftarrow> ss_get cb 4 s;
     let v = (push_bit 32 (ucast (b :: u8)) OR ucast (v2 :: u32) :: u64);
     let timestamp = (drop_bit 3 v AND push_bit 30 0x7) OR (drop_bit 2 v AND push_bit 15 0x7fff) OR (drop_bit 1 v AND 0x7fff);
     Some (pts_of_ticks timestamp, s)
   }"

text \<open>The bit at a position of the byte, and the next byte when the position has passed its end.\<close>

definition next_bit :: "'z unit_cb \<Rightarrow> u8 \<times> int \<times> 'z ts_substream_t_scheme \<Rightarrow> (bool \<times> u8 \<times> int \<times> 'z ts_substream_t_scheme) option" where
  "next_bit cb st =
     (case st of (byte, startbit, s) \<Rightarrow> do {
        (byte, startbit, s) \<leftarrow> (if startbit < 0 then do { (byte, s) \<leftarrow> ss_get cb 1 s; Some (byte, 7, s) } else Some (byte, startbit, s));
        Some (bit byte (nat startbit), byte, startbit - 1, s)
      })"

fun get_bits_loop :: "'z unit_cb \<Rightarrow> nat \<Rightarrow> u32 \<Rightarrow> u8 \<times> int \<times> 'z ts_substream_t_scheme \<Rightarrow> (u32 \<times> u8 \<times> int \<times> 'z ts_substream_t_scheme) option" where
  "get_bits_loop cb 0 res st = Some (res, st)"
| "get_bits_loop cb (Suc num_bits) res st = do {
     (b, st) \<leftarrow> next_bit cb st;
     get_bits_loop cb num_bits (res OR push_bit num_bits (of_bool b)) st
   }"

definition get_bits :: "'z unit_cb \<Rightarrow> int \<Rightarrow> u8 \<times> int \<times> 'z ts_substream_t_scheme \<Rightarrow> (u32 \<times> u8 \<times> int \<times> 'z ts_substream_t_scheme) option" where
  "get_bits cb num_bits st = (if num_bits \<le> 32 then get_bits_loop cb (nat num_bits) 0 st else None)"

definition get_Golomb_UE :: "'z unit_cb \<Rightarrow> u8 \<times> int \<times> 'z ts_substream_t_scheme \<Rightarrow> (u32 \<times> u8 \<times> int \<times> 'z ts_substream_t_scheme) option" where
  "get_Golomb_UE cb st = do {
     r \<leftarrow> while_return (\<lambda>_. True)
       (\<lambda>(leading_zero_bits, st). do {
          (b, byte, startbit, s) \<leftarrow> next_bit cb st;
          let s = (if leading_zero_bits > 32 then ss_throw_bad_data s else s);
          Some (if b then Inl (leading_zero_bits + 1, byte, startbit, s) else Inr (leading_zero_bits + 1, byte, startbit, s))
        }) (-1 :: int, st);
     case r of
       Inr _ \<Rightarrow> None
     | Inl (leading_zero_bits, st) \<Rightarrow>
         if leading_zero_bits > 30 then None
         else do {
           (v, st) \<leftarrow> get_bits cb leading_zero_bits st;
           Some (push_bit (nat leading_zero_bits) 1 - 1 + v, st)
         }
   }"

definition get_Golomb_SE :: "'z unit_cb \<Rightarrow> u8 \<times> int \<times> 'z ts_substream_t_scheme \<Rightarrow> (u32 \<times> u8 \<times> int \<times> 'z ts_substream_t_scheme) option" where
  "get_Golomb_SE cb st = do {
     (v, st) \<leftarrow> get_Golomb_UE cb st;
     if v = 0 then Some (0, st)
     else do {
       let pos = v AND 1;
       let v = drop_bit 1 (v + 1);
       Some (if pos \<noteq> 0 then v else - v, st)
     }
   }"

definition get_start_code :: "'z unit_cb \<Rightarrow> 'z ts_substream_t_scheme \<Rightarrow> (u8 \<times> 'z ts_substream_t_scheme) option" where
  "get_start_code cb s =
     (if \<not> get_payload_unit_start (current_ts_packet s) then None
      else do {
        (code, s) \<leftarrow> ss_get cb 4 s;
        if \<not> pkt_valid (current_ts_packet s) then None
        else Some (ucast (code AND 0xff :: u32),
                   if is_encrypted (current_ts_packet s) then s
                   else if code AND 0xffffff00 \<noteq> 0x00000100 then ss_throw_bad_data s else s)
      })"

definition next_start_code :: "'z unit_cb \<Rightarrow> 'z ts_substream_t_scheme \<Rightarrow> (u8 \<times> 'z ts_substream_t_scheme) option" where
  "next_start_code cb s = do {
     (code, s) \<leftarrow> ss_get cb 4 s;
     r \<leftarrow> while_return (\<lambda>_. True)
       (\<lambda>(code, s).
          if code AND 0xffffff00 = 0x00000100 then Some (Inl (ucast (code AND 0xff), s))
          else do {
            (code, s) \<leftarrow>
              (if code AND 0x00ffffff = 0x00000001
               then do { (t :: u8, s) \<leftarrow> ss_get cb 1 s; Some (push_bit 8 code OR ucast t, s) }
               else if code AND 0xffff = 0
               then do { (t :: u16, s) \<leftarrow> ss_get cb 2 s; Some (push_bit 16 code OR ucast t, s) }
               else if code AND 0xff = 0
               then do {
                 (t :: u16, s) \<leftarrow> ss_get cb 2 s;
                 let code = push_bit 16 code OR ucast t;
                 (t1 :: u8, s) \<leftarrow> ss_get cb 1 s;
                 Some (push_bit 8 code OR ucast t1, s)
               }
               else ss_get cb 4 s);
            Some (if ss_error s then Inl (0xff, s) else Inr (code, s))
          }) (code :: u32, s);
     case r of Inl v \<Rightarrow> Some v | Inr _ \<Rightarrow> None
   }"

definition get_nalu_start_code :: "'z unit_cb \<Rightarrow> 'z ts_substream_t_scheme \<Rightarrow> (u8 \<times> 'z ts_substream_t_scheme) option" where
  "get_nalu_start_code cb s = do {
     (code, s) \<leftarrow> ss_get cb 4 s;
     if code = (1 :: u32)
     then do {
       (code, s) \<leftarrow> ss_get cb 1 s;
       Some (code, if code AND 0x80 \<noteq> 0 then ss_throw_bad_data s else s)
     }
     else Some (ucast (code AND 0xff), if code AND 0xffffff00 \<noteq> 0x00000100 then ss_throw_bad_data s else s)
   }"

subsection \<open>Packets in sequence\<close>

text \<open>
  A packet with the payload \<open>bs\<close> that is intact and can follow a packet with continuity counter \<open>cc\<close>; a reader that has seen no
  packet so far has the counter \<open>0xff\<close>.
\<close>

definition intact :: "u16 \<Rightarrow> u8 \<Rightarrow> ts_packet_t \<Rightarrow> bytes \<Rightarrow> bool" where
  "intact pd cc p bs \<longleftrightarrow> pkt_valid p \<and> \<not> is_encrypted p \<and> has_payload p \<and> \<not> has_pcr p \<and> get_pid p = pd \<and>
     (cc = 0xff \<or> get_continuity_counter p = (cc + 1) AND 0x0f) \<and> (\<exists>r pre. range p = over r pre bs)"

definition continues :: "u16 \<Rightarrow> u8 \<Rightarrow> ts_packet_t \<Rightarrow> bytes \<Rightarrow> bool" where
  "continues pd cc p bs \<longleftrightarrow> intact pd cc p bs \<and> \<not> get_payload_unit_start p"

definition starts :: "u16 \<Rightarrow> u8 \<Rightarrow> ts_packet_t \<Rightarrow> bytes \<Rightarrow> bool" where
  "starts pd cc p bs \<longleftrightarrow> intact pd cc p bs \<and> get_payload_unit_start p"

text \<open>The reader is inside of a packet with \<open>rest\<close> before it.\<close>

definition inside :: "u16 \<Rightarrow> bytes \<Rightarrow> 'z ts_substream_t_scheme \<Rightarrow> bool" where
  "inside pd rest s \<longleftrightarrow> \<not> wait_for_unit_start s \<and> \<not> ss_encrypted s \<and> continuity_counter s = get_continuity_counter (current_ts_packet s) \<and>
     get_pid (current_ts_packet s) = pd \<and> pkt_valid (current_ts_packet s) \<and> (\<exists>r pre. range (current_ts_packet s) = over r pre rest)"

text \<open>The packets to come continue with the payloads \<open>ps\<close>.\<close>

fun coming :: "u16 \<Rightarrow> u8 \<Rightarrow> (nat \<Rightarrow> ts_packet_t) \<Rightarrow> nat \<Rightarrow> bytes list \<Rightarrow> bool" where
  "coming pd cc f n [] \<longleftrightarrow> True"
| "coming pd cc f n (bs # ps) \<longleftrightarrow> continues pd cc (f n) bs \<and> coming pd (get_continuity_counter (f n)) f (Suc n) ps"

text \<open>What reading does not touch.\<close>

definition unread_part :: "'z ts_substream_t_scheme \<Rightarrow> 'z ts_substream_t_scheme" where
  "unread_part s = s\<lparr>current_ts_packet := default_ts_packet, ss_bytes_read := 0, arrived := 0, continuity_counter := 0,
     current_unit_end_bytepos := 0, pointer_field := 0\<rparr>"

lemma cc_small: "get_continuity_counter p \<noteq> 0xff"
proof
  assume *: "get_continuity_counter p = 0xff"
  have "\<not> bit (get_continuity_counter p) 7" unfolding get_continuity_counter_def by (simp add: bit_simps)
  with * show False by simp
qed

lemma check_continuity_intact:
  "intact pd cc p bs \<Longrightarrow> continuity_counter s = cc \<Longrightarrow> check_continuity p s = (False, s)"
  by (auto simp: check_continuity_def intact_def Let_def)

lemma get_next_packet_continues:
  assumes "continues pd (continuity_counter s) (arriving s (arrived s)) bs" "\<not> wait_for_unit_start s"
  shows "get_next_packet cb s = Some (s\<lparr>arrived := arrived s + 1, current_ts_packet := arriving s (arrived s),
    current_unit_end_bytepos := word_of_int (dr_start_bytepos (range (arriving s (arrived s)))),
    continuity_counter := get_continuity_counter (arriving s (arrived s)), pointer_field := 0\<rparr>)"
proof -
  have "next_packet_step cb s = Some (Inl (s\<lparr>arrived := arrived s + 1, current_ts_packet := arriving s (arrived s),
    current_unit_end_bytepos := word_of_int (dr_start_bytepos (range (arriving s (arrived s)))),
    continuity_counter := get_continuity_counter (arriving s (arrived s)), pointer_field := 0\<rparr>))"
    using assms
    by (simp add: check_continuity_intact [of pd "continuity_counter s" "arriving s (arrived s)" bs] next_packet_step_def get_packet_for_this_parser_def process_packet_header_def continues_def
        read_pointer_field_def intact_def Let_def)
  then show ?thesis by (simp add: get_next_packet_def while_return_step)
qed

text \<open>The reader \<open>s'\<close> has taken \<open>n\<close> bytes more than \<open>s\<close> and \<open>ps\<close> are the payloads to come behind \<open>rest\<close>.\<close>

definition pending :: "u16 \<Rightarrow> bytes \<Rightarrow> bytes list \<Rightarrow> 'z ts_substream_t_scheme \<Rightarrow> bool" where
  "pending pd rest ps s \<longleftrightarrow> inside pd rest s \<and> coming pd (continuity_counter s) (arriving s) (arrived s) ps"

text \<open>The counter of the reader is that of the last packet that arrived.\<close>

definition in_step :: "'z ts_substream_t_scheme \<Rightarrow> bool" where
  "in_step s \<longleftrightarrow> continuity_counter s = get_continuity_counter (arriving s (arrived s - 1))"

text \<open>The end of the unit so far is the position of the last packet that arrived.\<close>

definition at_end :: "'z ts_substream_t_scheme \<Rightarrow> bool" where
  "at_end s \<longleftrightarrow> current_unit_end_bytepos s = word_of_int (dr_start_bytepos (range (arriving s (arrived s - 1))))"

definition advanced :: "nat \<Rightarrow> 'z ts_substream_t_scheme \<Rightarrow> 'z ts_substream_t_scheme \<Rightarrow> bool" where
  "advanced n s s' \<longleftrightarrow> unread_part s' = unread_part s \<and> ss_bytes_read s' = ss_bytes_read s + int n \<and>
     (pointer_field s' = 0 \<or> pointer_field s' = pointer_field s) \<and> (in_step s \<longrightarrow> in_step s') \<and> (at_end s \<longrightarrow> at_end s')"

lemma advanced_trans: "advanced m s s' \<Longrightarrow> advanced n s' s'' \<Longrightarrow> advanced (m + n) s s''"
  by (auto simp: advanced_def)

lemma advancedD:
  assumes "advanced n s s'"
  shows "ss_error s' = ss_error s" "ss_encrypted s' = ss_encrypted s" "is_psi s' = is_psi s" "arriving s' = arriving s"
    "wait_for_unit_start s' = wait_for_unit_start s" "event_handler s' = event_handler s" "psi_sections s' = psi_sections s"
    "cc_error_counter s' = cc_error_counter s" "ss_bytes_read s' = ss_bytes_read s + int n"
proof -
  have "unread_part s' = unread_part s" "ss_bytes_read s' = ss_bytes_read s + int n" using assms by (simp_all add: advanced_def)
  then show "ss_error s' = ss_error s" "ss_encrypted s' = ss_encrypted s" "is_psi s' = is_psi s" "arriving s' = arriving s"
    "wait_for_unit_start s' = wait_for_unit_start s" "event_handler s' = event_handler s" "psi_sections s' = psi_sections s"
    "cc_error_counter s' = cc_error_counter s" "ss_bytes_read s' = ss_bytes_read s + int n"
    by (cases s; cases s'; simp add: unread_part_def)+
qed

lemma dr_get_buffer_over:
  "dr_get_buffer (int (length x)) (over r pre (x @ rest)) = Some (x, over r (pre @ x) rest)"
  by (cases "x = []") (simp_all add: dr_get_buffer_def over_def dr_available_def is_valid_def bytes_at_def Let_def algebra_simps)

lemma get_buffer_step_last:
  assumes "pending pd (x @ rest) ps s"
  shows "\<exists>s'. get_buffer_step cb (int (length x), acc, s) = Some (Inl (acc @ x, s')) \<and> pending pd rest ps s' \<and>
    advanced (length x) s s' \<and> arrived s' = arrived s \<and> continuity_counter s' = continuity_counter s"
proof -
  obtain r pre where r: "range (current_ts_packet s) = over r pre (x @ rest)" using assms by (auto simp: pending_def inside_def)
  show ?thesis
    using assms dr_get_buffer_over [of x r pre rest]
    by (auto simp: get_buffer_step_def r pending_def inside_def advanced_def in_step_def at_end_def unread_part_def Let_def
        get_continuity_counter_def get_pid_def)
qed

lemma get_buffer_step_more:
  assumes "pending pd rest (bs # ps) s" "length rest < n"
  shows "\<exists>s'. get_buffer_step cb (int n, acc, s) = Some (Inr (int (n - length rest), acc @ rest, s')) \<and> pending pd bs ps s' \<and>
    advanced (length rest) s s' \<and> arrived s' = arrived s + 1"
proof -
  obtain r pre where r: "range (current_ts_packet s) = over r pre rest" using assms(1) by (auto simp: pending_def inside_def)
  define s1 where "s1 = s\<lparr>current_ts_packet := (current_ts_packet s)\<lparr>range := over r (pre @ rest) []\<rparr>,
    ss_bytes_read := ss_bytes_read s + int (length rest)\<rparr>"
  have c: "continues pd (continuity_counter s1) (arriving s1 (arrived s1)) bs" "\<not> wait_for_unit_start s1"
    using assms(1) by (auto simp: s1_def pending_def inside_def)
  have "get_buffer_step cb (int n, acc, s) = do { s \<leftarrow> get_next_packet cb s1; Some (Inr (int (n - length rest), acc @ rest, s)) }"
    using assms(2) dr_get_buffer_over [of rest r pre "[]"] by (simp add: get_buffer_step_def r s1_def Let_def of_nat_diff)
  then show ?thesis
    using assms(1) unfolding get_next_packet_continues [OF c]
    by (auto simp: s1_def pending_def inside_def continues_def intact_def advanced_def in_step_def at_end_def unread_part_def)
qed

text \<open>Reading takes exactly the next bytes of the stream, across the borders of packets.\<close>

lemma get_buffer_loop:
  assumes "pending pd rest ps s" "rest @ concat ps = x @ y"
  shows "\<exists>s' rest' ps'. while_return (\<lambda>_. True) (get_buffer_step cb) (int (length x), acc, s) = Some (Inl (acc @ x, s')) \<and>
    pending pd rest' ps' s' \<and> rest' @ concat ps' = y \<and> advanced (length x) s s' \<and> arrived s' + length ps' = arrived s + length ps"
  using assms
proof (induction ps arbitrary: rest s x acc)
  case Nil
  then obtain s' where "get_buffer_step cb (int (length x), acc, s) = Some (Inl (acc @ x, s'))" "pending pd y [] s'"
    "advanced (length x) s s'" "arrived s' = arrived s"
    using get_buffer_step_last [of pd x y "[]" s cb acc] by auto
  then show ?case by (intro exI [of _ s'] exI [of _ y] exI [of _ "[]"]) (simp add: while_return_step)
next
  case (Cons bs ps)
  show ?case
  proof (cases "length x \<le> length rest")
    case True
    then obtain y' where y': "rest = x @ y'" "y' @ concat (bs # ps) = y"
      using Cons.prems(2) by (auto simp: append_eq_append_conv2)
    then obtain s' where "get_buffer_step cb (int (length x), acc, s) = Some (Inl (acc @ x, s'))" "pending pd y' (bs # ps) s'"
      "advanced (length x) s s'" "arrived s' = arrived s"
      using get_buffer_step_last [of pd x y' "bs # ps" s cb acc] Cons.prems(1) by auto
    with y' show ?thesis by (intro exI [of _ s'] exI [of _ y'] exI [of _ "bs # ps"]) (simp add: while_return_step)
  next
    case False
    then obtain x' where x': "x = rest @ x'" "bs @ concat ps = x' @ y"
      using Cons.prems(2) by (auto simp: append_eq_append_conv2)
    have "length rest < length x" using False by simp
    then obtain s1 where s1: "get_buffer_step cb (int (length x), acc, s) = Some (Inr (int (length x'), acc @ rest, s1))"
      "pending pd bs ps s1" "advanced (length rest) s s1" "arrived s1 = arrived s + 1"
      using get_buffer_step_more [OF Cons.prems(1), of "length x" cb acc] x'(1) by auto
    from Cons.IH [OF s1(2) x'(2), of "acc @ rest"] obtain s' rest' ps' where
      "while_return (\<lambda>_. True) (get_buffer_step cb) (int (length x'), acc @ rest, s1) = Some (Inl ((acc @ rest) @ x', s'))"
      "pending pd rest' ps' s'" "rest' @ concat ps' = y" "advanced (length x') s1 s'" "arrived s' + length ps' = arrived s1 + length ps" by blast
    with s1 x' show ?thesis using advanced_trans [OF s1(3)]
      by (intro exI [of _ s'] exI [of _ rest'] exI [of _ ps']) (simp add: while_return_step)
  qed
qed

text \<open>The bytes that the reader has before it up to packet number \<open>k\<close>.\<close>

definition upcoming :: "u16 \<Rightarrow> bytes \<Rightarrow> nat \<Rightarrow> 'z ts_substream_t_scheme \<Rightarrow> bool" where
  "upcoming pd bs k s \<longleftrightarrow> (\<exists>rest ps. pending pd rest ps s \<and> rest @ concat ps = bs \<and> arrived s + length ps = k)"

lemma ss_get_buffer_upcoming:
  assumes "upcoming pd (x @ y) k s" "n = int (length x)"
  shows "\<exists>s'. ss_get_buffer cb n s = Some (x, s') \<and> upcoming pd y k s' \<and> advanced (length x) s s'"
proof -
  obtain rest ps where *: "pending pd rest ps s" "rest @ concat ps = x @ y" "arrived s + length ps = k"
    using assms(1) by (auto simp: upcoming_def)
  from get_buffer_loop [OF *(1,2), of cb "[]"] *(3) obtain s' rest' ps' where
    "while_return (\<lambda>_. True) (get_buffer_step cb) (int (length x), [], s) = Some (Inl (x, s'))"
    "pending pd rest' ps' s'" "rest' @ concat ps' = y" "advanced (length x) s s'" "arrived s' + length ps' = k" by auto
  then show ?thesis using assms(2) by (auto simp: ss_get_buffer_def upcoming_def)
qed

lemma ss_get_upcoming:
  assumes "upcoming pd (x @ y) k s" "n = length x"
  shows "\<exists>s'. ss_get cb n s = Some (be_word x :: 'a::len word, s') \<and> upcoming pd y k s' \<and> advanced n s s'"
  using ss_get_buffer_upcoming [OF assms(1), of "int n" cb] assms(2) by (auto simp: ss_get_def)

text \<open>Reading and skipping inside of one packet.\<close>

lemma ss_get_inside:
  assumes "inside pd (x @ rest) s" "n = length x"
  shows "\<exists>s'. ss_get cb n s = Some (be_word x :: 'a::len word, s') \<and> inside pd rest s' \<and> advanced n s s' \<and> arrived s' = arrived s \<and>
    continuity_counter s' = continuity_counter s"
proof -
  have "pending pd (x @ rest) [] s" using assms(1) by (simp add: pending_def)
  from get_buffer_step_last [OF this, of cb "[]"] obtain s' where
    "get_buffer_step cb (int (length x), [], s) = Some (Inl (x, s'))" "pending pd rest [] s'" "advanced (length x) s s'"
    "arrived s' = arrived s" "continuity_counter s' = continuity_counter s" by auto
  then show ?thesis using assms(2) by (auto simp: ss_get_def ss_get_buffer_def while_return_step pending_def)
qed

lemma ss_skip_inside:
  assumes "inside pd rest s"
  shows "\<exists>s'. ss_skip cb (dr_available (range (current_ts_packet s))) s = Some s' \<and> inside pd [] s' \<and> advanced (length rest) s s' \<and>
    arrived s' = arrived s \<and> continuity_counter s' = continuity_counter s"
proof -
  obtain r pre where r: "range (current_ts_packet s) = over r pre rest" using assms by (auto simp: inside_def)
  have "dr_skip (int (length rest)) (over r pre rest) = Some (int (length rest), over r (pre @ rest) [])"
    by (simp add: dr_skip_def over_def dr_available_def is_valid_def Let_def)
  then show ?thesis using assms
    by (auto simp: ss_skip_def while_return_step skip_step_def r inside_def advanced_def in_step_def at_end_def unread_part_def
        get_continuity_counter_def get_pid_def Let_def)
qed

lemma dr_skip_over: "dr_skip (int (length x)) (over r pre (x @ rest)) = Some (int (length x), over r (pre @ x) rest)"
  by (simp add: dr_skip_def over_def dr_available_def is_valid_def Let_def algebra_simps)

lemma skip_step_last:
  assumes "pending pd (x @ rest) ps s"
  shows "\<exists>s'. skip_step cb (int (length x), s) = Some (Inl s') \<and> pending pd rest ps s' \<and> advanced (length x) s s' \<and> arrived s' = arrived s"
proof -
  obtain r pre where r: "range (current_ts_packet s) = over r pre (x @ rest)" using assms by (auto simp: pending_def inside_def)
  show ?thesis
    using assms dr_skip_over [of x r pre rest]
    by (auto simp: skip_step_def r pending_def inside_def advanced_def in_step_def at_end_def unread_part_def Let_def
        get_continuity_counter_def get_pid_def)
qed

lemma skip_step_more:
  assumes "pending pd rest (bs # ps) s" "length rest < n"
  shows "\<exists>s'. skip_step cb (int n, s) = Some (Inr (int (n - length rest), s')) \<and> pending pd bs ps s' \<and>
    advanced (length rest) s s' \<and> arrived s' = arrived s + 1"
proof -
  obtain r pre where r: "range (current_ts_packet s) = over r pre rest" using assms(1) by (auto simp: pending_def inside_def)
  define s1 where "s1 = s\<lparr>current_ts_packet := (current_ts_packet s)\<lparr>range := over r (pre @ rest) []\<rparr>,
    ss_bytes_read := ss_bytes_read s + int (length rest)\<rparr>"
  have c: "continues pd (continuity_counter s1) (arriving s1 (arrived s1)) bs" "\<not> wait_for_unit_start s1"
    using assms(1) by (auto simp: s1_def pending_def inside_def)
  have "skip_step cb (int n, s) = do { s \<leftarrow> get_next_packet cb s1; Some (Inr (int (n - length rest), s)) }"
    using assms(2) dr_skip_over [of rest r pre "[]"] by (simp add: skip_step_def r s1_def Let_def of_nat_diff)
  then show ?thesis
    using assms(1) unfolding get_next_packet_continues [OF c]
    by (auto simp: s1_def pending_def inside_def continues_def intact_def advanced_def in_step_def at_end_def unread_part_def)
qed

lemma skip_loop:
  assumes "pending pd rest ps s" "rest @ concat ps = x @ y"
  shows "\<exists>s' rest' ps'. while_return (\<lambda>_. True) (skip_step cb) (int (length x), s) = Some (Inl s') \<and>
    pending pd rest' ps' s' \<and> rest' @ concat ps' = y \<and> advanced (length x) s s' \<and> arrived s' + length ps' = arrived s + length ps"
  using assms
proof (induction ps arbitrary: rest s x)
  case Nil
  then obtain s' where "skip_step cb (int (length x), s) = Some (Inl s')" "pending pd y [] s'" "advanced (length x) s s'" "arrived s' = arrived s"
    using skip_step_last [of pd x y "[]" s cb] by auto
  then show ?case by (intro exI [of _ s'] exI [of _ y] exI [of _ "[]"]) (simp add: while_return_step)
next
  case (Cons bs ps)
  show ?case
  proof (cases "length x \<le> length rest")
    case True
    then obtain y' where y': "rest = x @ y'" "y' @ concat (bs # ps) = y"
      using Cons.prems(2) by (auto simp: append_eq_append_conv2)
    then obtain s' where "skip_step cb (int (length x), s) = Some (Inl s')" "pending pd y' (bs # ps) s'" "advanced (length x) s s'" "arrived s' = arrived s"
      using skip_step_last [of pd x y' "bs # ps" s cb] Cons.prems(1) by auto
    with y' show ?thesis by (intro exI [of _ s'] exI [of _ y'] exI [of _ "bs # ps"]) (simp add: while_return_step)
  next
    case False
    then obtain x' where x': "x = rest @ x'" "bs @ concat ps = x' @ y"
      using Cons.prems(2) by (auto simp: append_eq_append_conv2)
    have "length rest < length x" using False by simp
    then obtain s1 where s1: "skip_step cb (int (length x), s) = Some (Inr (int (length x'), s1))"
      "pending pd bs ps s1" "advanced (length rest) s s1" "arrived s1 = arrived s + 1"
      using skip_step_more [OF Cons.prems(1), of "length x" cb] x'(1) by auto
    from Cons.IH [OF s1(2) x'(2)] obtain s' rest' ps' where
      "while_return (\<lambda>_. True) (skip_step cb) (int (length x'), s1) = Some (Inl s')"
      "pending pd rest' ps' s'" "rest' @ concat ps' = y" "advanced (length x') s1 s'" "arrived s' + length ps' = arrived s1 + length ps" by blast
    with s1 x' show ?thesis using advanced_trans [OF s1(3)]
      by (intro exI [of _ s'] exI [of _ rest'] exI [of _ ps']) (simp add: while_return_step)
  qed
qed

lemma ss_skip_upcoming:
  assumes "upcoming pd (x @ y) k s" "n = int (length x)"
  shows "\<exists>s'. ss_skip cb n s = Some s' \<and> upcoming pd y k s' \<and> advanced (length x) s s'"
proof -
  obtain rest ps where *: "pending pd rest ps s" "rest @ concat ps = x @ y" "arrived s + length ps = k"
    using assms(1) by (auto simp: upcoming_def)
  from skip_loop [OF *(1,2), of cb] *(3) show ?thesis using assms(2) by (auto simp: ss_skip_def upcoming_def) blast
qed

subsection \<open>Bits in sequence\<close>

definition byte_bits :: "u8 \<Rightarrow> bool list" where
  "byte_bits b = map (bit b) (rev [0..<8])"

text \<open>The bits before a reader that has taken a byte and is at one of its bits.\<close>

definition bit_stream :: "u16 \<Rightarrow> bool list \<Rightarrow> nat \<Rightarrow> u8 \<times> int \<times> 'z ts_substream_t_scheme \<Rightarrow> bool" where
  "bit_stream pd bs k st \<longleftrightarrow> (case st of (byte, startbit, s) \<Rightarrow> -1 \<le> startbit \<and>
     (\<exists>bytes. upcoming pd bytes k s \<and> bs = map (bit byte) (rev [0..<nat (startbit + 1)]) @ concat (map byte_bits bytes)))"

definition same_stream :: "u8 \<times> int \<times> 'z ts_substream_t_scheme \<Rightarrow> u8 \<times> int \<times> 'z ts_substream_t_scheme \<Rightarrow> bool" where
  "same_stream st st' \<longleftrightarrow> unread_part (snd (snd st')) = unread_part (snd (snd st))"

lemma same_stream_trans: "same_stream a b \<Longrightarrow> same_stream b c \<Longrightarrow> same_stream a c"
  by (simp add: same_stream_def)

lemma same_stream_refl [simp]: "same_stream a a"
  by (simp add: same_stream_def)

lemma next_bit_stream:
  assumes "bit_stream pd (b # bs) k st"
  shows "\<exists>st'. next_bit cb st = Some (b, st') \<and> bit_stream pd bs k st' \<and> same_stream st st'"
proof -
  obtain byte startbit s bytes where st: "st = (byte, startbit, s)" "-1 \<le> startbit" "upcoming pd bytes k s"
    "b # bs = map (bit byte) (rev [0..<nat (startbit + 1)]) @ concat (map byte_bits bytes)"
    using assms by (auto simp: bit_stream_def)
  show ?thesis
  proof (cases "startbit = -1")
    case True
    then obtain c cs where c: "bytes = c # cs" using st(4) by (cases bytes) auto
    then obtain s' where s': "ss_get cb 1 s = Some (c, s')" "upcoming pd cs k s'" "advanced 1 s s'"
      using ss_get_upcoming [of pd "[c]" cs k s 1 cb, where 'a = 8] st(3) by auto
    have "b = bit c 7" "bs = map (bit c) (rev [0..<7]) @ concat (map byte_bits cs)"
      using st(4) True upt_Suc_append [of 0 7] by (simp_all add: c byte_bits_def)
    then show ?thesis using True st(1) s'
      by (intro exI [of _ "(c, 6, s')"]) (auto simp: next_bit_def bit_stream_def same_stream_def advanced_def)
  next
    case False
    then have "nat (startbit + 1) = Suc (nat startbit)" using st(2) by simp
    then show ?thesis using False st
      by (intro exI [of _ "(byte, startbit - 1, s)"]) (auto simp: next_bit_def bit_stream_def same_stream_def)
  qed
qed

definition bits_msb :: "nat \<Rightarrow> u32 \<Rightarrow> bool list" where
  "bits_msb n w = map (bit w) (rev [0..<n])"

lemma get_bits_loop_stream:
  assumes "bit_stream pd (bits_msb n w @ bs) k st"
  shows "\<exists>st'. get_bits_loop cb n res st = Some (res OR take_bit n w, st') \<and> bit_stream pd bs k st' \<and> same_stream st st'"
  using assms
proof (induction n arbitrary: res st)
  case 0
  then show ?case by (simp add: bits_msb_def)
next
  case (Suc n)
  then have "bit_stream pd (bit w n # bits_msb n w @ bs) k st" by (simp add: bits_msb_def)
  from next_bit_stream [OF this, of cb] obtain st1 where st1: "next_bit cb st = Some (bit w n, st1)"
    "bit_stream pd (bits_msb n w @ bs) k st1" "same_stream st st1" by blast
  have eq: "(res OR push_bit n (of_bool (bit w n))) OR take_bit n w = res OR take_bit (Suc n) w"
    by (rule bit_word_eqI) (auto simp: bit_simps less_Suc_eq)
  from Suc.IH [OF st1(2), of "res OR push_bit n (of_bool (bit w n))", unfolded eq] obtain st' where st':
    "get_bits_loop cb n (res OR push_bit n (of_bool (bit w n))) st1 = Some (res OR take_bit (Suc n) w, st')"
    "bit_stream pd bs k st'" "same_stream st1 st'" by blast
  have "get_bits_loop cb (Suc n) res st = Some (res OR take_bit (Suc n) w, st')"
    by (simp only: get_bits_loop.simps st1(1) st'(1) bind.bind_lunit prod.case)
  with st1 st' show ?case by (blast intro: same_stream_trans)
qed

fun log2 :: "nat \<Rightarrow> nat" where
  "log2 n = (if n \<le> 1 then 0 else Suc (log2 (n div 2)))"

declare log2.simps [simp del]

lemma log2_bounds: "0 < n \<Longrightarrow> 2 ^ log2 n \<le> n \<and> n < 2 ^ Suc (log2 n)"
proof (induction n rule: log2.induct)
  case (1 n)
  show ?case
  proof (cases "n \<le> 1")
    case False
    with 1 have "2 ^ log2 (n div 2) \<le> n div 2" "n div 2 < 2 ^ Suc (log2 (n div 2))" by auto
    with False show ?thesis by (subst (1 2) log2.simps) auto
  qed (use 1 in \<open>simp add: log2.simps\<close>)
qed

text \<open>The Exp-Golomb code of a number, and of a signed one.\<close>

definition golomb_ue :: "nat \<Rightarrow> bool list" where
  "golomb_ue v = (let k = log2 (v + 1) in replicate k False @ True # bits_msb k (of_nat (v + 1)))"

definition golomb_se :: "int \<Rightarrow> bool list" where
  "golomb_se v = golomb_ue (if v > 0 then nat (2 * v - 1) else nat (- 2 * v))"

lemma leading_zeros_stream:
  assumes "bit_stream pd (replicate n False @ True # bs) k st" "int n + m \<le> 32"
  shows "\<exists>st'. while_return (\<lambda>_. True)
       (\<lambda>(leading_zero_bits, st). do {
          (b, byte, startbit, s) \<leftarrow> next_bit cb st;
          let s = (if leading_zero_bits > 32 then ss_throw_bad_data s else s);
          Some (if b then Inl (leading_zero_bits + 1, byte, startbit, s) else Inr (leading_zero_bits + 1, byte, startbit, s))
        }) (m, st) = Some (Inl (m + int n + 1, st')) \<and> bit_stream pd bs k st' \<and> same_stream st st'"
  using assms
proof (induction n arbitrary: m st)
  case 0
  then obtain st' where "next_bit cb st = Some (True, st')" "bit_stream pd bs k st'" "same_stream st st'"
    using next_bit_stream [of pd True bs k st cb] by auto
  then show ?case using 0 by (cases st') (simp add: while_return_step)
next
  case (Suc n)
  then obtain st1 where st1: "next_bit cb st = Some (False, st1)" "bit_stream pd (replicate n False @ True # bs) k st1" "same_stream st st1"
    using next_bit_stream [of pd False "replicate n False @ True # bs" k st cb] by auto
  from Suc.IH [OF st1(2), of "m + 1"] Suc.prems(2) st1 show ?case
    by (cases st1) (auto simp: while_return_step algebra_simps intro: same_stream_trans)
qed

lemma get_Golomb_UE_stream:
  assumes "bit_stream pd (golomb_ue v @ bs) k st" "v + 1 < 2 ^ 31"
  shows "\<exists>st'. get_Golomb_UE cb st = Some (of_nat v, st') \<and> bit_stream pd bs k st' \<and> same_stream st st'"
proof -
  define n where "n = log2 (v + 1)"
  have n: "2 ^ n \<le> v + 1" "v + 1 < 2 ^ Suc n" using log2_bounds [of "v + 1"] by (simp_all add: n_def)
  have "(2 :: nat) ^ n < 2 ^ 31" using n(1) assms(2) by linarith
  then have n31: "n < 31" using power_less_imp_less_exp [of "2 :: nat" n 31] by simp
  have b: "bit_stream pd (replicate n False @ True # bits_msb n (of_nat (v + 1)) @ bs) k st"
    using assms(1) by (simp add: golomb_ue_def n_def Let_def)
  from leading_zeros_stream [OF b, of "-1" cb] n31 obtain st1 where st1:
    "while_return (\<lambda>_. True)
       (\<lambda>(leading_zero_bits, st). do {
          (b, byte, startbit, s) \<leftarrow> next_bit cb st;
          let s = (if leading_zero_bits > 32 then ss_throw_bad_data s else s);
          Some (if b then Inl (leading_zero_bits + 1, byte, startbit, s) else Inr (leading_zero_bits + 1, byte, startbit, s))
        }) (-1, st) = Some (Inl (int n, st1))" "bit_stream pd (bits_msb n (of_nat (v + 1)) @ bs) k st1" "same_stream st st1" by auto
  from get_bits_loop_stream [OF st1(2), of cb 0] obtain st' where st':
    "get_bits_loop cb n 0 st1 = Some (take_bit n (of_nat (v + 1)), st')" "bit_stream pd bs k st'" "same_stream st1 st'" by auto
  have "(v + 1) mod 2 ^ n = v + 1 - 2 ^ n" using n by (simp add: mod_nat_eqI)
  moreover have "(of_nat ((v + 1) mod 2 ^ n) :: u32) = take_bit n (of_nat (v + 1))"
    unfolding take_bit_eq_mod [symmetric] by (rule bit_word_eqI) (simp only: bit_take_bit_iff bit_of_nat_iff, auto simp: bit_simps)
  ultimately have "take_bit n (of_nat (v + 1)) = (of_nat (v + 1) - 2 ^ n :: u32)"
    using n(1) by (simp add: of_nat_diff)
  then have "push_bit n 1 - 1 + take_bit n (of_nat (v + 1)) = (of_nat v :: u32)"
    by (simp add: push_bit_eq_mult)
  with st1 st' n31 show ?thesis
    by (auto simp: get_Golomb_UE_def get_bits_def intro: same_stream_trans)
qed

lemma get_Golomb_SE_stream:
  assumes "bit_stream pd (golomb_se v @ bs) k st" "\<bar>v\<bar> < 2 ^ 30"
  shows "\<exists>st'. get_Golomb_SE cb st = Some (of_int v, st') \<and> bit_stream pd bs k st' \<and> same_stream st st'"
proof -
  define u where "u = (if v > 0 then nat (2 * v - 1) else nat (- 2 * v))"
  have u: "u + 1 < 2 ^ 31" using assms(2) by (auto simp: u_def)
  from get_Golomb_UE_stream [of pd u bs k st cb] assms(1) u obtain st' where st':
    "get_Golomb_UE cb st = Some (of_nat u, st')" "bit_stream pd bs k st'" "same_stream st st'"
    by (auto simp: golomb_se_def u_def)
  have un: "unat (of_nat m :: u32) = m" if "m < 2 ^ 32" for m
    using that by (simp add: unsigned_of_nat take_bit_nat_eq_self)
  have odd: "(of_nat u AND 1 :: u32) = of_bool (odd u)"
    by (rule bit_word_eqI) (auto simp: bit_simps bit_0)
  have half: "drop_bit 1 (of_nat u + 1 :: u32) = of_nat ((u + 1) div 2)"
  proof -
    have "unat (of_nat (u + 1) :: u32) = u + 1" "unat (of_nat ((u + 1) div 2) :: u32) = (u + 1) div 2"
      using u by (intro un; simp)+
    then have "unat (drop_bit 1 (of_nat (u + 1) :: u32)) = unat (of_nat ((u + 1) div 2) :: u32)"
      by (simp only: unat_div_distrib drop_bit_eq_div power_one_right) (simp add: unat_div_distrib)
    then show ?thesis by (simp add: word_unat_eq_iff add.commute)
  qed
  have zero: "(of_nat u :: u32) = 0 \<longleftrightarrow> u = 0" using un [of u] u by auto
  have "get_Golomb_SE cb st = Some (if u = 0 then 0 else if odd u then of_nat ((u + 1) div 2) else - of_nat ((u + 1) div 2), st')"
    using st'(1) half unfolding get_Golomb_SE_def by (auto simp: odd zero)
  also have "\<dots> = Some (of_int v, st')"
  proof (cases "v > 0")
    case True
    then obtain m where "v = int (m + 1)" by (metis zero_less_imp_eq_int Suc_eq_plus1 gr0_implies_Suc)
    then have "u = 2 * m + 1" by (simp add: u_def nat_add_distrib nat_mult_distrib)
    with \<open>v = int (m + 1)\<close> show ?thesis by simp
  next
    case False
    then obtain m where "v = - int m" by (metis nonneg_int_cases neg_equal_iff_equal not_less minus_minus neg_0_le_iff_le)
    then have "u = 2 * m" by (simp add: u_def)
    with \<open>v = - int m\<close> show ?thesis by simp
  qed
  finally show ?thesis using st'(2,3) by blast
qed

text \<open>The field of a time stamp: four bits of prefix, then 3, 15 and 15 bits of the stamp, each followed by a marker bit.\<close>

definition pts_bytes :: "u8 \<Rightarrow> u64 \<Rightarrow> bytes" where
  "pts_bytes prefix t = (push_bit 4 prefix OR push_bit 1 (ucast (drop_bit 30 t) AND mask 3) OR 1) #
     be_bytes 4 (push_bit 17 (ucast (drop_bit 15 t)) OR push_bit 16 1 OR push_bit 1 (ucast t AND mask 15) OR 1 :: u32)"

lemma get_pts_or_dts_upcoming:
  assumes "upcoming pd (pts_bytes prefix t @ y) k s" "unat t < 2 ^ 33"
  shows "\<exists>s'. get_pts_or_dts cb s = Some (pts_of_ticks t, s') \<and> upcoming pd y k s' \<and> advanced 5 s s'"
proof -
  define b where "b = (push_bit 4 prefix OR push_bit 1 (ucast (drop_bit 30 t) AND mask 3) OR 1 :: u8)"
  define w where "w = (push_bit 17 (ucast (drop_bit 15 t)) OR push_bit 16 1 OR push_bit 1 (ucast t AND mask 15) OR 1 :: u32)"
  have u: "upcoming pd ([b] @ be_bytes 4 w @ y) k s" using assms(1) unfolding pts_bytes_def b_def w_def by simp
  from ss_get_upcoming [OF u, of 1 cb, where 'a = 8] obtain s1 where s1:
    "ss_get cb 1 s = Some (b, s1)" "upcoming pd (be_bytes 4 w @ y) k s1" "advanced 1 s s1" by auto
  from ss_get_upcoming [OF s1(2), of 4 cb, where 'a = 32] obtain s2 where s2:
    "ss_get cb 4 s1 = Some (w, s2)" "upcoming pd y k s2" "advanced 4 s1 s2" by (auto simp: be_word_be_bytes simp del: be_bytes_numeral)
  have b33: "bit t n \<Longrightarrow> n < 33" for n using bit_small assms(2) by blast
  define v where "v = (push_bit 32 (ucast b) OR ucast w :: u64)"
  have m: "(0x7 :: u64) = mask 3" "(0x7fff :: u64) = mask 15" by (simp_all add: mask_eq_exp_minus_1)
  have vb: "bit v (32 + j) \<longleftrightarrow> bit b j" if "j < 8" for j
    using that by (auto simp: v_def bit_simps dest: bit_imp_le_length)
  have vw: "bit v j \<longleftrightarrow> bit w j" if "j < 32" for j using that by (simp add: v_def bit_simps)
  have hi: "bit v (3 + (30 + j)) \<longleftrightarrow> bit t (30 + j)" if "j < 3" for j
    using vb [of "Suc j"] that unfolding b_def bit_or_iff bit_and_iff bit_push_bit_iff bit_unsigned_iff bit_drop_bit_eq bit_mask_iff comp_def
    by (auto simp: bit_1_iff)
  have mid: "bit v (2 + (15 + j)) \<longleftrightarrow> bit t (15 + j)" if "j < 15" for j
    using vw [of "17 + j"] that unfolding w_def bit_or_iff bit_and_iff bit_push_bit_iff bit_unsigned_iff bit_drop_bit_eq bit_mask_iff comp_def
    by (auto simp: bit_1_iff)
  have lo: "bit v (Suc j) \<longleftrightarrow> bit t j" if "j < 15" for j
    using vw [of "Suc j"] that unfolding w_def bit_or_iff bit_and_iff bit_push_bit_iff bit_unsigned_iff bit_drop_bit_eq bit_mask_iff comp_def
    by (auto simp: bit_1_iff)
  have "drop_bit 3 v AND push_bit 30 0x7 = t AND push_bit 30 (mask 3)"
    unfolding m by (rule bit_word_eqI, rename_tac n, case_tac "30 \<le> n")
      (auto simp: bit_drop_bit_eq bit_and_iff bit_push_bit_iff bit_mask_iff le_iff_add hi [simplified])
  moreover have "drop_bit 2 v AND push_bit 15 0x7fff = t AND push_bit 15 (mask 15)"
    unfolding m by (rule bit_word_eqI, rename_tac n, case_tac "15 \<le> n")
      (auto simp: bit_drop_bit_eq bit_and_iff bit_push_bit_iff bit_mask_iff le_iff_add mid [simplified])
  moreover have "drop_bit 1 v AND 0x7fff = t AND mask 15"
    unfolding m by (rule bit_word_eqI) (auto simp: bit_drop_bit_eq bit_and_iff bit_mask_iff lo)
  moreover have "(t AND push_bit 30 (mask 3)) OR (t AND push_bit 15 (mask 15)) OR (t AND mask 15) = t"
    by (rule bit_word_eqI) (auto simp: bit_simps dest: b33)
  ultimately have "(drop_bit 3 v AND push_bit 30 0x7) OR (drop_bit 2 v AND push_bit 15 0x7fff) OR (drop_bit 1 v AND 0x7fff) = t"
    by (simp only:)
  then have "get_pts_or_dts cb s = Some (pts_of_ticks t, s2)"
    using s1(1) s2(1) by (simp add: get_pts_or_dts_def v_def Let_def)
  moreover have "advanced 5 s s2" using advanced_trans [OF s1(3) s2(3)] by simp
  ultimately show ?thesis using s2(2) by blast
qed

subsection \<open>Starts of units\<close>

text \<open>
  A parser is a client of the reader through the method that is called when a unit is complete: it may note the
  position of the unit and what the event handler keeps of units, but not touch the clock or the reader.
\<close>

definition reader_part :: "'z ts_substream_t_scheme \<Rightarrow> 'z ts_substream_t_scheme" where
  "reader_part s = (unread_part s)\<lparr>pointer_pos := 0, wait_for_unit_start := False, current_unit_start_bytepos := 0,
     event_handler := new_event_handler None 0, num_encrypted_packets := 0, parent_num_encrypted_packets := 0\<rparr>"

definition clock_part :: "event_handler_t \<Rightarrow> event_handler_t" where
  "clock_part h = h\<lparr>last_pat_start_bytepos := 0, last_pmt_start_bytepos := 0, last_pat_end_bytepos := 0,
     last_pmt_end_bytepos := 0, idxdb := None\<rparr>"

text \<open>A packet without a clock reference and with more than one byte of payload, and one whose counter is out of sequence.\<close>

definition plain :: "ts_packet_t \<Rightarrow> bool" where
  "plain p \<longleftrightarrow> \<not> has_pcr p \<and> (\<exists>r pre b bs. bs \<noteq> [] \<and> range p = over r pre (b # bs))"

definition out_of_sequence :: "u8 \<Rightarrow> ts_packet_t \<Rightarrow> bool" where
  "out_of_sequence cc p \<longleftrightarrow> has_payload p \<and> \<not> get_is_discontinuity p \<and> get_continuity_counter p \<noteq> cc \<and>
     get_continuity_counter p \<noteq> (cc + 1) AND 0x0f \<and> cc \<noteq> 0xff"

lemma read_pointer_field_plain:
  assumes "plain (current_ts_packet s)"
  shows "\<exists>s'. read_pointer_field s = Some s' \<and> arriving s' = arriving s \<and> arrived s' = arrived s \<and>
    continuity_counter s' = continuity_counter s \<and> (ss_error s \<longrightarrow> ss_error s') \<and>
    header (current_ts_packet s') = header (current_ts_packet s) \<and> wait_for_unit_start s' = wait_for_unit_start s"
proof -
  obtain r pre b bs where "bs \<noteq> []" "range (current_ts_packet s) = over r pre (b # bs)" using assms by (auto simp: plain_def)
  then show ?thesis by (simp add: read_pointer_field_def ss_throw_bad_data_def Let_def)
qed

lemma check_continuity_fields:
  "arriving (snd (check_continuity p s)) = arriving s" "arrived (snd (check_continuity p s)) = arrived s"
  "current_ts_packet (snd (check_continuity p s)) = current_ts_packet s"
  "ss_error s \<Longrightarrow> ss_error (snd (check_continuity p s))" "wait_for_unit_start s \<Longrightarrow> wait_for_unit_start (snd (check_continuity p s))"
  "fst (check_continuity p s) \<Longrightarrow> get_continuity_counter p = continuity_counter s"
  by (auto simp: check_continuity_def ss_throw_bad_data_def Let_def split: if_splits)

lemma check_continuity_out_of_sequence:
  "out_of_sequence (continuity_counter s) p \<Longrightarrow> \<exists>s'. check_continuity p s = (False, s') \<and> ss_error s' \<and> wait_for_unit_start s'"
  by (auto simp: check_continuity_def out_of_sequence_def ss_throw_bad_data_def Let_def)

text \<open>The reader at the packet that starts the next unit, before the operation for complete units.\<close>

definition unit_end :: "nat \<Rightarrow> 'z ts_substream_t_scheme \<Rightarrow> 'z ts_substream_t_scheme" where
  "unit_end k s = s\<lparr>arrived := k + 1, current_ts_packet := arriving s k, wait_for_unit_start := True,
     current_unit_end_bytepos := word_of_int (dr_start_bytepos (range (arriving s (k - 1)))),
     continuity_counter := get_continuity_counter (arriving s (k - 1))\<rparr>"

locale unit_client =
  fixes cb :: "'z unit_cb"
  assumes cb_keeps: "\<exists>h b. cb s = s\<lparr>event_handler := h, current_unit_start_bytepos := b\<rparr>"
    and cb_clock: "clock_part (event_handler (cb s)) = clock_part (event_handler s)"
begin

lemma cb_fields [simp]:
  "ss_error (cb s) = ss_error s" "ss_encrypted (cb s) = ss_encrypted s" "arriving (cb s) = arriving s" "arrived (cb s) = arrived s"
  "current_ts_packet (cb s) = current_ts_packet s" "continuity_counter (cb s) = continuity_counter s" "is_psi (cb s) = is_psi s"
  "wait_for_unit_start (cb s) = wait_for_unit_start s" "wall_clock (cb s) = wall_clock s" "ss_bytes_read (cb s) = ss_bytes_read s"
  using cb_keeps [of s] by auto

lemma cb_reader_part: "reader_part (cb s) = reader_part s"
  using cb_keeps [of s] by (auto simp: reader_part_def unread_part_def)

text \<open>A unit begins in the packet.\<close>

lemma process_packet_header_starts:
  assumes "starts pd (continuity_counter s) p (0 # bs)" "bs \<noteq> []" "is_psi s" "\<not> ss_encrypted s"
  shows "\<exists>s'. process_packet_header cb p s = Some (False, s') \<and> inside pd bs s' \<and> get_payload_unit_start (current_ts_packet s') \<and>
    pointer_field s' = 0 \<and> arrived s' = arrived s \<and> reader_part s' = reader_part s \<and>
    clock_part (event_handler s') = clock_part (event_handler s) \<and> ss_bytes_read s' = ss_bytes_read s \<and>
    continuity_counter s' = get_continuity_counter p"
proof -
  obtain r pre where r: "range p = over r pre (0 # bs)" using assms(1) by (auto simp: starts_def intact_def)
  have i: "intact pd (continuity_counter s) p (0 # bs)" "get_payload_unit_start p" using assms(1) by (simp_all add: starts_def)
  have f: "pkt_valid p" "\<not> is_encrypted p" "\<not> has_pcr p" "get_pid p = pd" using i(1) by (simp_all add: intact_def)
  define s2 where "s2 = (cb s)\<lparr>current_unit_end_bytepos := word_of_int (dr_start_bytepos (range (current_ts_packet s))), current_ts_packet := p\<rparr>"
  have cc: "check_continuity p s2 = (False, s2)"
    by (rule check_continuity_intact [OF i(1)]) (simp add: s2_def)
  have step: "process_packet_header cb p s =
      do { s \<leftarrow> read_pointer_field (s2\<lparr>wait_for_unit_start := False, continuity_counter := get_continuity_counter p\<rparr>); Some (False, s) }"
    using f i(2) cc assms(4) by (simp add: process_packet_header_def s2_def Let_def)
  define s' where "s' = s2\<lparr>wait_for_unit_start := False, continuity_counter := get_continuity_counter p,
    current_ts_packet := p\<lparr>range := over r (pre @ [0]) bs\<rparr>, pointer_field := 0,
    pointer_pos := processed (over r (pre @ [0]) bs)\<rparr>"
  have "read_pointer_field (s2\<lparr>wait_for_unit_start := False, continuity_counter := get_continuity_counter p\<rparr>) = Some s'"
    using assms(2,3) i(2) by (simp add: read_pointer_field_def s2_def r s'_def Let_def)
  with step have "process_packet_header cb p s = Some (False, s')" by simp
  moreover have "inside pd bs s'" "get_payload_unit_start (current_ts_packet s')"
    using f assms(4) i(2) by (auto simp: inside_def s'_def s2_def get_continuity_counter_def get_pid_def get_payload_unit_start_def)
  moreover have "reader_part s' = reader_part s"
    using cb_reader_part [of s] by (simp add: s'_def s2_def reader_part_def unread_part_def)
  moreover have "clock_part (event_handler s') = clock_part (event_handler s)" using cb_clock [of s] by (simp add: s'_def s2_def)
  ultimately show ?thesis by (auto simp: s'_def s2_def)
qed

lemma get_next_packet_starts:
  assumes "starts pd (continuity_counter s) (arriving s (arrived s)) (0 # bs)" "bs \<noteq> []" "is_psi s" "\<not> ss_encrypted s"
  shows "\<exists>s'. get_next_packet cb s = Some s' \<and> inside pd bs s' \<and> pointer_field s' = 0 \<and> arrived s' = arrived s + 1 \<and>
    reader_part s' = reader_part s \<and> clock_part (event_handler s') = clock_part (event_handler s) \<and> ss_bytes_read s' = ss_bytes_read s \<and>
    continuity_counter s' = get_continuity_counter (arriving s (arrived s))"
proof -
  let ?p = "arriving s (arrived s)"
  define s0 where "s0 = s\<lparr>arrived := arrived s + 1, current_ts_packet := ?p\<rparr>"
  have "starts pd (continuity_counter s0) ?p (0 # bs)" "is_psi s0" "\<not> ss_encrypted s0" using assms by (simp_all add: s0_def)
  from process_packet_header_starts [OF this(1) assms(2) this(2,3)] obtain s' where s': "process_packet_header cb ?p s0 = Some (False, s')"
    "inside pd bs s'" "pointer_field s' = 0" "arrived s' = arrived s0" "reader_part s' = reader_part s0"
    "clock_part (event_handler s') = clock_part (event_handler s0)" "ss_bytes_read s' = ss_bytes_read s0"
    "continuity_counter s' = get_continuity_counter ?p" by blast
  have "pkt_valid ?p" "\<not> wait_for_unit_start s'" using assms(1) s'(2) by (simp_all add: starts_def intact_def inside_def)
  then have "next_packet_step cb s = Some (Inl s')"
    using s'(1) by (simp add: next_packet_step_def get_packet_for_this_parser_def s0_def Let_def)
  then show ?thesis using s'(2-8)
    by (auto simp: get_next_packet_def while_return_step s0_def reader_part_def unread_part_def)
qed

text \<open>The rest of a unit is passed over when the next one is awaited; then it is complete.\<close>

lemma next_packet_step_unit:
  assumes "starts pd (continuity_counter s) p bs" "p = arriving s (arrived s)" "\<not> is_psi s" "\<not> ss_encrypted s"
  shows "next_packet_step cb s = Some (Inl ((cb (s\<lparr>arrived := arrived s + 1, current_ts_packet := p\<rparr>))
    \<lparr>current_unit_end_bytepos := word_of_int (dr_start_bytepos (range p)), wait_for_unit_start := False,
     continuity_counter := get_continuity_counter p, pointer_field := 0\<rparr>))"
proof -
  let ?s = "s\<lparr>arrived := arrived s + 1, current_ts_packet := p\<rparr>"
  have i: "intact pd (continuity_counter s) p bs" "get_payload_unit_start p" using assms(1) by (simp_all add: starts_def)
  have f: "pkt_valid p" "\<not> is_encrypted p" "\<not> has_pcr p" using i(1) by (simp_all add: intact_def)
  define t where "t = (cb ?s)\<lparr>current_unit_end_bytepos := word_of_int (dr_start_bytepos (range p)), current_ts_packet := p\<rparr>"
  have t: "current_ts_packet t = p" "\<not> is_psi t" "continuity_counter t = continuity_counter s" using assms(3) by (simp_all add: t_def)
  have cc: "check_continuity p t = (False, t)" by (rule check_continuity_intact [OF i(1)]) (rule t(3))
  have "process_packet_header cb p ?s =
      do { s \<leftarrow> read_pointer_field (t\<lparr>wait_for_unit_start := False, continuity_counter := get_continuity_counter p\<rparr>); Some (False, s) }"
    using f i(2) cc assms(4) by (simp add: process_packet_header_def t_def Let_def)
  then have "process_packet_header cb p ?s =
      Some (False, t\<lparr>wait_for_unit_start := False, continuity_counter := get_continuity_counter p, pointer_field := 0\<rparr>)"
    using t(2) by (simp add: read_pointer_field_def Let_def)
  then have "next_packet_step cb s =
      Some (Inl (t\<lparr>wait_for_unit_start := False, continuity_counter := get_continuity_counter p, pointer_field := 0\<rparr>))"
    using f(1) by (simp add: next_packet_step_def get_packet_for_this_parser_def assms(2) [symmetric] Let_def)
  moreover have "t = (cb ?s)\<lparr>current_unit_end_bytepos := word_of_int (dr_start_bytepos (range p))\<rparr>"
  proof -
    have "u\<lparr>current_unit_end_bytepos := w, current_ts_packet := current_ts_packet u\<rparr> = u\<lparr>current_unit_end_bytepos := w\<rparr>"
      for u :: "'z ts_substream_t_scheme" and w by (cases u) simp
    from this [of "cb ?s"] show ?thesis unfolding t_def by simp
  qed
  ultimately show ?thesis by simp
qed

lemma next_packet_step_passes:
  assumes "continues pd (continuity_counter s) (arriving s (arrived s)) bs" "wait_for_unit_start s"
  shows "next_packet_step cb s = Some (Inr (s\<lparr>arrived := arrived s + 1, current_ts_packet := arriving s (arrived s),
    current_unit_end_bytepos := word_of_int (dr_start_bytepos (range (arriving s (arrived s)))),
    continuity_counter := get_continuity_counter (arriving s (arrived s)), pointer_field := 0\<rparr>))"
  using assms
  by (simp add: check_continuity_intact [of pd "continuity_counter s" "arriving s (arrived s)" bs] next_packet_step_def
      get_packet_for_this_parser_def process_packet_header_def continues_def read_pointer_field_def intact_def Let_def)

lemma get_next_packet_awaits:
  assumes "coming pd (continuity_counter s) (arriving s) (arrived s) ps" "k = arrived s + length ps"
    "starts pd (get_continuity_counter (arriving s (k - 1))) (arriving s k) bs" "wait_for_unit_start s" "\<not> is_psi s" "\<not> ss_encrypted s"
    "in_step s" "at_end s" "pointer_field s = 0"
  shows "get_next_packet cb s = Some ((cb (unit_end k s))
    \<lparr>current_unit_end_bytepos := word_of_int (dr_start_bytepos (range (arriving s k))), wait_for_unit_start := False,
     continuity_counter := get_continuity_counter (arriving s k), pointer_field := 0\<rparr>)"
  using assms
proof (induction ps arbitrary: s)
  case Nil
  then have "starts pd (continuity_counter s) (arriving s (arrived s)) bs" by (simp add: in_step_def)
  moreover have "s\<lparr>arrived := arrived s + 1, current_ts_packet := arriving s (arrived s)\<rparr> = unit_end k s"
    using Nil by (cases s) (simp add: unit_end_def in_step_def at_end_def)
  ultimately show ?case using next_packet_step_unit [OF _ refl, of pd s bs] Nil by (simp add: get_next_packet_def while_return_step)
next
  case (Cons b ps)
  define s1 where "s1 = s\<lparr>arrived := arrived s + 1, current_ts_packet := arriving s (arrived s),
    current_unit_end_bytepos := word_of_int (dr_start_bytepos (range (arriving s (arrived s)))),
    continuity_counter := get_continuity_counter (arriving s (arrived s)), pointer_field := 0\<rparr>"
  have "next_packet_step cb s = Some (Inr s1)"
    using next_packet_step_passes [of pd s b] Cons.prems(1,4) by (simp add: s1_def)
  then have "get_next_packet cb s = get_next_packet cb s1" by (simp add: get_next_packet_def while_return_step)
  also have "\<dots> = Some ((cb (unit_end k s1))
    \<lparr>current_unit_end_bytepos := word_of_int (dr_start_bytepos (range (arriving s1 k))), wait_for_unit_start := False,
     continuity_counter := get_continuity_counter (arriving s1 k), pointer_field := 0\<rparr>)"
    by (rule Cons.IH) (use Cons.prems in \<open>simp_all add: s1_def in_step_def at_end_def\<close>)
  also have "unit_end k s1 = unit_end k s" using Cons.prems(9) by (cases s) (simp add: unit_end_def s1_def)
  finally show ?case by (simp add: s1_def)
qed

text \<open>
  While the start of a unit is awaited, packets are passed over; none of them clears the error.
\<close>

lemma next_packet_step_plain:
  assumes "plain p" "p = arriving s (arrived s)"
    "wait_for_unit_start s \<and> ss_error s \<or> out_of_sequence (continuity_counter s) p"
    "get_payload_unit_start p \<longrightarrow> get_continuity_counter p \<noteq> continuity_counter s"
  shows "\<exists>s'. next_packet_step cb s = Some (if get_payload_unit_start p then Inl s' else Inr s') \<and> arriving s' = arriving s \<and>
    arrived s' = arrived s + 1 \<and> continuity_counter s' = get_continuity_counter p \<and> ss_error s' \<and> header (current_ts_packet s') = header p \<and>
    wait_for_unit_start s' = (\<not> get_payload_unit_start p)"
proof -
  define s0 where "s0 = (let s = s\<lparr>arrived := arrived s + 1, current_ts_packet := p\<rparr> in if \<not> pkt_valid p then ss_throw_bad_data s else s)"
  define s1 where "s1 = (if \<not> pkt_valid p then ss_throw_bad_data s0 else s0)"
  define s2 where "s2 = (if get_payload_unit_start p
              then if ss_encrypted s1
                   then s1\<lparr>parent_num_encrypted_packets := parent_num_encrypted_packets s1 + 1,
                          num_encrypted_packets := num_encrypted_packets s1 + 1\<rparr>
                   else cb s1
              else s1)"
  define s3 where "s3 = s2\<lparr>current_unit_end_bytepos := word_of_int (dr_start_bytepos (range (current_ts_packet s2))), current_ts_packet := p\<rparr>"
  obtain dup s4 where s4: "check_continuity p s3 = (dup, s4)" by fastforce
  define s5 where "s5 = (if get_payload_unit_start p then s4\<lparr>wait_for_unit_start := False\<rparr> else s4)\<lparr>continuity_counter := get_continuity_counter p\<rparr>"
  define s6 where "s6 = (if is_encrypted p then throw_encrypted_data s5 else s5)"
  have eq3: "continuity_counter s3 = continuity_counter s" "arriving s3 = arriving s" "arrived s3 = arrived s + 1"
    "wait_for_unit_start s3 = wait_for_unit_start s" "ss_error s \<longrightarrow> ss_error s3" "current_ts_packet s3 = p"
    by (simp_all add: s3_def s2_def s1_def s0_def ss_throw_bad_data_def Let_def)
  have s4f: "ss_error s4 \<and> wait_for_unit_start s4" "arriving s4 = arriving s" "arrived s4 = arrived s + 1" "current_ts_packet s4 = p"
    "dup \<Longrightarrow> get_continuity_counter p = continuity_counter s"
    using assms(3) eq3 check_continuity_fields [where p = p and s = s3] check_continuity_out_of_sequence [of s3 p] by (auto simp: s4)
  have p6: "current_ts_packet s6 = p" using s4f(4) by (simp add: s6_def s5_def throw_encrypted_data_def)
  from read_pointer_field_plain [of s6] assms(1) obtain s' where s': "read_pointer_field s6 = Some s'" "arriving s' = arriving s6"
    "arrived s' = arrived s6" "continuity_counter s' = continuity_counter s6" "ss_error s6 \<longrightarrow> ss_error s'"
    "header (current_ts_packet s') = header (current_ts_packet s6)" "wait_for_unit_start s' = wait_for_unit_start s6" by (auto simp: p6)
  have "process_packet_header cb p s0 = Some (dup, s')"
    using s'(1) s4 assms(1)
    by (simp add: process_packet_header_def s1_def [symmetric] s2_def [symmetric] s3_def [symmetric] plain_def Let_def)
      (auto simp: s3_def [symmetric] s5_def s6_def)
  then have "next_packet_step cb s = Some (if dup then Inr s' else if \<not> wait_for_unit_start s' then Inl s' else Inr s')"
    using assms(2) by (simp add: next_packet_step_def get_packet_for_this_parser_def s0_def Let_def)
  moreover have "wait_for_unit_start s' = (\<not> get_payload_unit_start p)" "ss_error s'" "arriving s' = arriving s" "arrived s' = arrived s + 1"
    "continuity_counter s' = get_continuity_counter p" "header (current_ts_packet s') = header p"
    using s' s4f p6 by (auto simp: s6_def s5_def throw_encrypted_data_def)
  ultimately show ?thesis using s4f(5) assms(4) by auto
qed

lemma resync:
  assumes "out_of_sequence (continuity_counter s) (arriving s (arrived s))"
    and "\<forall>i \<le> n. plain (arriving s (arrived s + i))" "\<forall>i < n. \<not> get_payload_unit_start (arriving s (arrived s + i))"
    and "get_payload_unit_start (arriving s (arrived s + n))"
    and "n > 0 \<longrightarrow> get_continuity_counter (arriving s (arrived s + n)) \<noteq> get_continuity_counter (arriving s (arrived s + n - 1))"
  shows "\<exists>s'. get_next_packet cb s = Some s' \<and> ss_error s' \<and> \<not> wait_for_unit_start s' \<and> arrived s' = arrived s + n + 1 \<and>
    header (current_ts_packet s') = header (arriving s (arrived s + n))"
proof -
  have loop: "\<exists>s'. while_return (\<lambda>_. True) (next_packet_step cb) s = Some (Inl s') \<and> ss_error s' \<and> \<not> wait_for_unit_start s' \<and>
      arrived s' = arrived s + n + 1 \<and> header (current_ts_packet s') = header (arriving s (arrived s + n))"
    if "wait_for_unit_start s \<and> ss_error s \<or> out_of_sequence (continuity_counter s) (arriving s (arrived s))"
      "\<forall>i \<le> n. plain (arriving s (arrived s + i))" "\<forall>i < n. \<not> get_payload_unit_start (arriving s (arrived s + i))"
      "get_payload_unit_start (arriving s (arrived s + n))"
      "get_continuity_counter (arriving s (arrived s + n)) \<noteq> (if n = 0 then continuity_counter s else get_continuity_counter (arriving s (arrived s + n - 1)))"
    for s :: "'z ts_substream_t_scheme" and n
    using that
  proof (induction n arbitrary: s)
    case 0
    then show ?case using next_packet_step_plain [of "arriving s (arrived s)" s] by (auto simp: while_return_step)
  next
    case (Suc n)
    from Suc.prems have "plain (arriving s (arrived s))" "\<not> get_payload_unit_start (arriving s (arrived s))"
      by (metis add_0_right zero_le, metis add_0_right zero_less_Suc)
    with Suc.prems(1) next_packet_step_plain [of "arriving s (arrived s)" s] obtain s1 where s1: "next_packet_step cb s = Some (Inr s1)"
      "arriving s1 = arriving s" "arrived s1 = arrived s + 1" "continuity_counter s1 = get_continuity_counter (arriving s (arrived s))"
      "ss_error s1" "wait_for_unit_start s1" by auto
    have "\<exists>s'. while_return (\<lambda>_. True) (next_packet_step cb) s1 = Some (Inl s') \<and> ss_error s' \<and> \<not> wait_for_unit_start s' \<and>
      arrived s' = arrived s1 + n + 1 \<and> header (current_ts_packet s') = header (arriving s1 (arrived s1 + n))"
    proof (rule Suc.IH)
      show "\<forall>i \<le> n. plain (arriving s1 (arrived s1 + i))" using Suc.prems(2) s1(2,3) by (auto dest: spec [of _ "Suc _"])
      show "\<forall>i < n. \<not> get_payload_unit_start (arriving s1 (arrived s1 + i))" using Suc.prems(3) s1(2,3) by (auto dest: spec [of _ "Suc _"])
    qed (use Suc.prems(4,5) s1 in \<open>auto split: if_splits\<close>)
    then show ?case using s1 by (auto simp: while_return_step)
  qed
  have "get_continuity_counter (arriving s (arrived s + n)) \<noteq> (if n = 0 then continuity_counter s else get_continuity_counter (arriving s (arrived s + n - 1)))"
    using assms(1,5) by (simp add: out_of_sequence_def)
  from loop [OF disjI2 [OF assms(1)] assms(2-4) this] show ?thesis by (auto simp: get_next_packet_def)
qed

end

subsection \<open>Properties\<close>

text \<open>C21: Reading takes exactly the next bytes of the stream, over as many packets as they span, and changes nothing but the
  position: the packets that follow in sequence are taken as one stream of bytes.\<close>
theorem substream_reads:
  assumes "pending pd rest ps s" "rest @ concat ps = x @ y"
  shows "\<exists>s' rest' ps'. ss_get_buffer cb (int (length x)) s = Some (x, s') \<and> pending pd rest' ps' s' \<and> rest' @ concat ps' = y \<and>
    advanced (length x) s s'"
proof -
  have "upcoming pd (x @ y) (arrived s + length ps) s" using assms by (auto simp: upcoming_def)
  from ss_get_buffer_upcoming [OF this refl, of cb] show ?thesis by (auto simp: upcoming_def)
qed

definition example_reader :: "bytes \<Rightarrow> ts_substream_t" where
  "example_reader bs = (new_substream False illegal (new_event_handler None 0)
     (\<lambda>n. default_ts_packet\<lparr>pkt_flags := 0x10 OR (of_nat n + 1) AND 0x0f, range := over default_data_range [] [of_nat n]\<rparr>) (\<lambda>_. 0))
     \<lparr>wait_for_unit_start := False, continuity_counter := 0, current_ts_packet := default_ts_packet\<lparr>range := over default_data_range [] bs\<rparr>\<rparr>"

lemma example_reader_pending: "pending 0 bs [] (example_reader bs)"
  by (auto simp: pending_def inside_def example_reader_def new_substream_def default_ts_packet_def get_continuity_counter_def get_pid_def)

theorem substream_reads_witness:
  "\<exists>s' rest' ps'. ss_get_buffer id 4 (example_reader [1, 2, 3]) = Some ([1, 2, 3, 0], s') \<and> pending 0 rest' ps' s' \<and>
    rest' @ concat ps' = [1] \<and> advanced 4 (example_reader [1, 2, 3]) s'"
proof -
  have "pending 0 [1, 2, 3] [[0], [1]] (example_reader [1, 2, 3])"
    using example_reader_pending [of "[1, 2, 3]"]
    by (auto simp: pending_def example_reader_def new_substream_def continues_def intact_def default_ts_packet_def is_encrypted_def
        has_payload_def has_pcr_def get_pid_def get_continuity_counter_def get_payload_unit_start_def)
  from substream_reads [OF this, of "[1, 2, 3, 0]" "[1]" id] show ?thesis by (simp add: eval_nat_numeral)
qed

text \<open>The 33 bits of a presentation or decoding time stamp are read back from the three parts of its field.\<close>
theorem time_stamp_field_read:
  assumes "upcoming pd (pts_bytes prefix t @ y) k s" "unat t < 2 ^ 33"
  shows "\<exists>s'. get_pts_or_dts cb s = Some (pts_of_ticks t, s') \<and> upcoming pd y k s' \<and> advanced 5 s s'"
  using assms by (rule get_pts_or_dts_upcoming)

theorem time_stamp_field_read_witness:
  "\<exists>s'. get_pts_or_dts id (example_reader (pts_bytes 2 0x1abcd1234)) = Some (pts_of_ticks 0x1abcd1234, s') \<and>
    upcoming 0 [] 0 s' \<and> advanced 5 (example_reader (pts_bytes 2 0x1abcd1234)) s'"
proof (rule time_stamp_field_read)
  show "upcoming 0 (pts_bytes 2 0x1abcd1234 @ []) 0 (example_reader (pts_bytes 2 0x1abcd1234))"
    using example_reader_pending [of "pts_bytes 2 0x1abcd1234"]
    by (auto simp: upcoming_def example_reader_def new_substream_def simp del: be_bytes_numeral)
qed simp

text \<open>C20: Numbers in Exp-Golomb codes are read back, the unsigned ones up to 2^31-2 and the signed ones below 2^30, wherever
  in the bytes of the stream they start, and reading stops at the bit behind the code.\<close>
theorem golomb_codes_read:
  assumes "bit_stream pd (golomb_ue v @ golomb_se w @ bs) k st" "v + 1 < 2 ^ 31" "\<bar>w\<bar> < 2 ^ 30"
  shows "\<exists>st1 st2. get_Golomb_UE cb st = Some (of_nat v, st1) \<and> get_Golomb_SE cb st1 = Some (of_int w, st2) \<and>
    bit_stream pd bs k st2 \<and> same_stream st st2"
proof -
  obtain st1 where st1: "get_Golomb_UE cb st = Some (of_nat v, st1)" "bit_stream pd (golomb_se w @ bs) k st1" "same_stream st st1"
    using get_Golomb_UE_stream [OF assms(1,2)] by blast
  obtain st2 where "get_Golomb_SE cb st1 = Some (of_int w, st2)" "bit_stream pd bs k st2" "same_stream st1 st2"
    using get_Golomb_SE_stream [OF st1(2) assms(3)] by blast
  with st1 show ?thesis by (blast intro: same_stream_trans)
qed

theorem golomb_codes_read_witness:
  "\<exists>st1 st2. get_Golomb_UE id (0x22, 6, example_reader [0]) = Some (of_nat 1, st1) \<and>
    get_Golomb_SE id st1 = Some (of_int 2, st2) \<and> bit_stream 0 (replicate 7 False) 0 st2 \<and> same_stream (0x22, 6, example_reader [0]) st2"
proof (rule golomb_codes_read)
  have "upcoming 0 [0] 0 (example_reader [0])"
    using example_reader_pending [of "[0]"] by (auto simp: upcoming_def example_reader_def new_substream_def)
  moreover have "golomb_ue 1 @ golomb_se 2 @ replicate 7 False =
    map (bit (0x22 :: u8)) (rev [0..<nat (6 + 1)]) @ concat (map byte_bits [0])" by code_simp
  ultimately show "bit_stream 0 (golomb_ue 1 @ golomb_se 2 @ replicate 7 False) 0 (0x22, 6, example_reader [0])"
    unfolding bit_stream_def by auto
qed simp_all

end
