(* ===== verification/Psi.thy ===== *)
theory Psi
  imports Substream Section_Tables Si_State Crc32
begin

text \<open>
  The parsers of tables (\<open>receiver/streamparser/psi.h\<close> and \<open>psi.cc\<close>): sections are put together from the packets of a
  stream, checked and given to the functions that the receiver has registered. A derived class is an extension of the record of
  its base class. The registered functions are arguments that answer with a request to reset or abort; what they are
  called with is appended to \<open>delivered\<close>, and to \<open>psi_sections\<close> for \<open>psi_cb\<close> of the stream. \<open>None\<close> is a failed assertion, an access
  behind a buffer or a loop that does not end. Clock readings, uninitialised memory and the text conversions are arguments.
\<close>

datatype reset_type_t = NO_RESET | RESET | ABORT

record subtable_info_t =
  st_pid :: u16
  st_is_actual :: bool
  st_table_id :: u8
  st_version_number :: int
  num_sections_present :: u8
  st_completed :: bool
  st_timedout :: bool

record section_parser_t = ts_substream_t +
  parsed_header :: section_header_t
  section_complete :: bool
  sp_payload :: bytes
  sp_pid :: int

text \<open>The payload buffer of a section parser is fixed; larger sections are written behind its end.\<close>

definition payload_capacity :: nat where
  "payload_capacity = 4096"

definition sp_append :: "bytes \<Rightarrow> 'z section_parser_t_scheme \<Rightarrow> 'z section_parser_t_scheme" where
  "sp_append bs s = s\<lparr>sp_payload := sp_payload s @ bs\<rparr>"

definition sp_unit_completed_cb :: "'z section_parser_t_scheme \<Rightarrow> 'z section_parser_t_scheme" where
  "sp_unit_completed_cb s =
     (let h = event_handler s;
          h = (if current_unit_type s = pat
               then h\<lparr>last_pat_start_bytepos := current_unit_start_bytepos s, last_pat_end_bytepos := current_unit_end_bytepos s\<rparr>
               else if current_unit_type s = pmt
               then h\<lparr>last_pmt_start_bytepos := current_unit_start_bytepos s, last_pmt_end_bytepos := current_unit_end_bytepos s\<rparr>
               else h)
      in s\<lparr>event_handler := h,
           current_unit_start_bytepos := word_of_int (dr_start_bytepos (range (current_ts_packet s)))\<rparr>)"

text \<open>The table number, behind stuffing when the packet has some.\<close>

definition get_table_id :: "'z section_parser_t_scheme \<Rightarrow> (u8 \<times> 'z section_parser_t_scheme) option" where
  "get_table_id s = do {
     (tid, s) \<leftarrow> ss_get sp_unit_completed_cb 1 s;
     if tid = 0xff
     then do {
       s \<leftarrow> (if pointer_field s \<noteq> 0 then skip_to_pointer s
             else ss_skip sp_unit_completed_cb (dr_available (range (current_ts_packet s))) s);
       ss_get sp_unit_completed_cb 1 s
     }
     else Some (tid, s)
   }"

definition get_section_length :: "section_header_t \<Rightarrow> 'z section_parser_t_scheme \<Rightarrow>
    (section_header_t \<times> 'z section_parser_t_scheme) option" where
  "get_section_length ret s = do {
     (l, s) \<leftarrow> ss_get sp_unit_completed_cb 2 s;
     let s = sp_append (be_bytes 2 (l :: u16)) s;
     if ss_bytes_read s \<noteq> int (length (sp_payload s)) then None
     else Some (ret\<lparr>len := l AND 0xfff, section_syntax_indicator := (drop_bit 15 l \<noteq> 0),
                    private_bit := (drop_bit 14 l AND 1 \<noteq> 0)\<rparr>, s)
   }"

definition sp_parse_section_header :: "section_header_t \<Rightarrow> 'z section_parser_t_scheme \<Rightarrow>
    (section_header_t \<times> 'z section_parser_t_scheme) option" where
  "sp_parse_section_header ret s = do {
     let s = s\<lparr>sp_payload := []\<rparr>;
     if ss_bytes_read s \<noteq> 0 then None
     else if ss_error s then Some (ret, s)
     else do {
       let ret = ret\<lparr>pid := word_of_int (sp_pid s)\<rparr>;
       if uint (get_pid (current_ts_packet s)) \<noteq> sp_pid s then None
       else if pointer_field s > 0 \<and> table_id ret = 0xff
       then do { s \<leftarrow> skip_to_pointer s; Some (ret, ss_throw_bad_data (s\<lparr>ss_bytes_read := 0\<rparr>)) }
       else do {
         s \<leftarrow> (if pointer_field s > 0 then do { s \<leftarrow> skip_to_pointer s; Some (s\<lparr>ss_bytes_read := 0\<rparr>) } else Some s);
         (tid, s) \<leftarrow> get_table_id s;
         let ret = ret\<lparr>table_id := tid\<rparr>;
         if tid = 0xff then Some (ret, ss_throw_bad_data s)
         else if wait_for_unit_start s then None
         else get_section_length ret (sp_append [tid] (s\<lparr>ss_bytes_read := 1\<rparr>))
       }
     }
   }"

definition table_extension :: "section_header_t \<Rightarrow> 'z section_parser_t_scheme \<Rightarrow> (section_header_t \<times> 'z section_parser_t_scheme) option" where
  "table_extension ret s =
     (if is_sdt ret
      then do {
        (e1, s) \<leftarrow> ss_get sp_unit_completed_cb 2 s;
        Some (ret\<lparr>table_id_extension1 := e1\<rparr>, sp_append (be_bytes 2 e1) s)
      }
      else if is_eit ret
      then do {
        (e1, s) \<leftarrow> ss_get sp_unit_completed_cb 2 s;
        let s = sp_append (be_bytes 2 e1) s;
        (e2, s) \<leftarrow> ss_get sp_unit_completed_cb 2 s;
        Some (ret\<lparr>table_id_extension1 := e1, table_id_extension2 := e2\<rparr>, sp_append (be_bytes 2 e2) s)
      }
      else Some (ret, s))"

definition get_table_fields :: "section_header_t \<Rightarrow> 'z section_parser_t_scheme \<Rightarrow> (section_header_t \<times> 'z section_parser_t_scheme) option" where
  "get_table_fields ret s = do {
     (ext, s) \<leftarrow> ss_get sp_unit_completed_cb 2 s;
     let s = sp_append (be_bytes 2 ext) s;
     (v, s) \<leftarrow> ss_get sp_unit_completed_cb 1 s;
     let s = sp_append [v] s;
     (sn, s) \<leftarrow> ss_get sp_unit_completed_cb 1 s;
     let s = sp_append [sn] s;
     (lsn, s) \<leftarrow> ss_get sp_unit_completed_cb 1 s;
     let s = sp_append [lsn] s;
     let ret = ret\<lparr>table_id_extension := ext, current_next := (v AND 0x1 \<noteq> 0), version_number := drop_bit 1 (v AND 0x3f),
                   section_number := sn, last_section_number := lsn\<rparr>;
     if ss_error s then Some (ret, s)
     else if ss_bytes_read s \<noteq> int (length (sp_payload s)) then None
     else do {
       (ret, s) \<leftarrow> table_extension ret s;
       Some (ret\<lparr>header_len := word_of_int (ss_bytes_read s)\<rparr>, s)
     }
   }"

definition sp_parse_table_header :: "section_header_t \<Rightarrow> 'z section_parser_t_scheme \<Rightarrow>
    (section_header_t \<times> 'z section_parser_t_scheme) option" where
  "sp_parse_table_header ret s = do {
     (ret, s) \<leftarrow> sp_parse_section_header ret s;
     if ss_error s then Some (ret, s)
     else if ss_bytes_read s \<noteq> int (length (sp_payload s)) then None
     else if uint (len ret) > 4096 - 3 then Some (ret, ss_throw_bad_data s)
     else get_table_fields ret s
   }"

definition segment_fields :: "section_header_t \<Rightarrow> bytes \<Rightarrow> section_header_t option" where
  "segment_fields hdr bs =
     (if is_eit hdr
      then if uint (len hdr) > 13
           then Some (hdr\<lparr>segment_last_section_number := uint (bs ! 12), last_table_id := bs ! 13\<rparr>)
           else None
      else Some (hdr\<lparr>last_table_id := table_id hdr, segment_last_section_number := -1\<rparr>))"

definition read_section_body :: "bool \<Rightarrow> section_header_t \<Rightarrow> 'z section_parser_t_scheme \<Rightarrow> 'z section_parser_t_scheme option" where
  "read_section_body parse_only_section_header hdr s = do {
     let toread = uint (len hdr) - (ss_bytes_read s - 3);
     if toread \<le> 0 \<or> toread \<ge> 4096 then Some (s\<lparr>ss_error := True\<rparr>)
     else do {
       let is_stuffing = (table_id hdr = 0x72);
       if length (sp_payload s) + nat toread > payload_capacity then None
       else do {
         (bs, s) \<leftarrow> ss_get_buffer sp_unit_completed_cb toread s;
         let s = sp_append bs s;
         if \<not> is_stuffing \<and> \<not> parse_only_section_header \<and> section_syntax_indicator hdr \<and> crc32 (sp_payload s) \<noteq> 0
         then Some (ss_throw_bad_data s)
         else do {
           hdr \<leftarrow> (if is_stuffing then Some hdr else segment_fields hdr (sp_payload s));
           Some (s\<lparr>parsed_header := hdr, section_complete := True\<rparr>)
         }
       }
     }
   }"

definition read_section :: "bool \<Rightarrow> 'z section_parser_t_scheme \<Rightarrow> 'z section_parser_t_scheme option" where
  "read_section parse_only_section_header s = do {
     let s = s\<lparr>section_complete := False\<rparr>;
     let hdr = default_section_header;
     (hdr, s) \<leftarrow> (if parse_only_section_header then sp_parse_section_header hdr s else sp_parse_table_header hdr s);
     if ss_error s then Some (s\<lparr>parsed_header := default_section_header\<rparr>)
     else read_section_body parse_only_section_header (hdr\<lparr>pid := get_pid (current_ts_packet s)\<rparr>) s
   }"

text \<open>The parser that hands over sections as they are.\<close>

definition sp_parse_payload_unit :: "'z section_parser_t_scheme \<Rightarrow> 'z section_parser_t_scheme option" where
  "sp_parse_payload_unit s = do {
     s \<leftarrow> read_section True s;
     Some (if \<not> ss_error s then s\<lparr>psi_sections := psi_sections s @ [(word_of_int (sp_pid s), sp_payload s)]\<rparr> else s)
   }"

definition parse_payload_unit_init :: "'z section_parser_t_scheme \<Rightarrow> 'z section_parser_t_scheme option" where
  "parse_payload_unit_init s = do {
     (new_play_time, h) \<leftarrow> pcr_play_time (event_handler s);
     let s = s\<lparr>event_handler := h\<rparr>;
     if \<not> (new_play_time \<ge> last_play_time s) then None
     else read_section False (s\<lparr>last_play_time := new_play_time\<rparr>)
   }"

text \<open>
  Giving up control to switch to another file: the packet that resumes the parser is in place of the current one, its header is
  not looked at.
\<close>

definition return_early :: "'z ts_substream_t_scheme \<Rightarrow> 'z ts_substream_t_scheme" where
  "return_early s = snd (get_packet_for_this_parser s)"

record 'i table_parser_t = section_parser_t +
  parser_status :: parser_status_t
  delivered :: "('i \<times> subtable_info_t) list"

record psi_env =
  env_now :: "nat \<Rightarrow> int"
  env_junk :: "nat \<Rightarrow> nat"
  env_text :: text_env

definition stored_section :: "psi_env \<Rightarrow> ('i, 'z) table_parser_t_scheme \<Rightarrow> stored_section_t" where
  "stored_section env s =
     (let hdr = parsed_header s in snd (skip (uint (header_len hdr)) (open_section (env_junk env) (sp_payload s) (pid hdr))))"

definition check_hdr :: "psi_env \<Rightarrow> ('i, 'z) table_parser_t_scheme \<Rightarrow>
    ((bool \<times> bool \<times> section_type_t) \<times> ('i, 'z) table_parser_t_scheme) option" where
  "check_hdr env s = do {
     (r, ps) \<leftarrow> check (env_now env) (parsed_header s) (cc_error_counter s) (parser_status s);
     Some (r, s\<lparr>parser_status := ps\<rparr>)
   }"

definition must_process :: "section_type_t \<Rightarrow> bool" where
  "must_process t \<longleftrightarrow> t = NEW \<or> t = LAST"

definition done_now :: "section_type_t \<Rightarrow> bool" where
  "done_now t \<longleftrightarrow> t = LAST \<or> t = COMPLETE"

definition new_subtable_info :: "int \<Rightarrow> bool \<Rightarrow> section_header_t \<Rightarrow> bool \<Rightarrow> bool \<Rightarrow> subtable_info_t" where
  "new_subtable_info p is_actual hdr complete timed_out =
     \<lparr>st_pid = word_of_int p, st_is_actual = is_actual, st_table_id = table_id hdr, st_version_number = uint (version_number hdr),
      num_sections_present = last_section_number hdr + 1, st_completed = complete, st_timedout = timed_out\<rparr>"

definition deliver :: "psi_env \<Rightarrow> ('i \<Rightarrow> subtable_info_t \<Rightarrow> reset_type_t) \<Rightarrow> 'i \<Rightarrow> subtable_info_t \<Rightarrow>
    ('i, 'z) table_parser_t_scheme \<Rightarrow> ('i, 'z) table_parser_t_scheme option" where
  "deliver env section_cb i info s =
     (let s = s\<lparr>delivered := delivered s @ [(i, info)]\<rparr>
      in case section_cb i info of
           ABORT \<Rightarrow> Some (return_early s)
         | RESET \<Rightarrow> do { ps \<leftarrow> parser_reset (env_now env) (parsed_header s) (parser_status s); Some (s\<lparr>parser_status := ps\<rparr>) }
         | NO_RESET \<Rightarrow> Some s)"

definition pat_parse_payload_unit :: "psi_env \<Rightarrow> (pat_services_t \<Rightarrow> subtable_info_t \<Rightarrow> reset_type_t) \<Rightarrow>
    (pat_services_t, 'z) table_parser_t_scheme \<Rightarrow> (pat_services_t, 'z) table_parser_t_scheme option" where
  "pat_parse_payload_unit env section_cb s = do {
     s \<leftarrow> parse_payload_unit_init s;
     let hdr = parsed_header s;
     if ss_error s then Some s
     else if table_id hdr \<noteq> 0x0 \<or> \<not> section_syntax_indicator hdr then Some (s\<lparr>ss_error := True\<rparr>)
     else do {
       ((timedout, _, t), s) \<leftarrow> check_hdr env s;
       (success, services) \<leftarrow> (if must_process t \<or> timedout
         then do {
           (success, services, _) \<leftarrow> parse_pat_section_hdr default_pat_services hdr (stored_section env s);
           if success \<and> pat_entries services = []
           then do { _ \<leftarrow> parse_pat_section_hdr default_pat_services hdr (stored_section env s); Some (success, services) }
           else Some (success, services)
         }
         else Some (False, default_pat_services));
       if success \<or> timedout
       then deliver env section_cb services (new_subtable_info (sp_pid s) True hdr (done_now t) timedout) s
       else Some s
     }
   }"

text \<open>
  A program map is handed over with the number of the packet behind the last one, whether it is the next one to
  become valid, and its bytes.
\<close>

record pmt_delivery =
  pd_pmt :: pmt_info_t
  stream_packetno_end :: u64
  pd_is_next :: bool
  pd_bytes :: bytes

definition pmt_parse_payload_unit :: "psi_env \<Rightarrow> (pmt_delivery \<Rightarrow> reset_type_t) \<Rightarrow>
    (pmt_delivery, 'z) table_parser_t_scheme \<Rightarrow> (pmt_delivery, 'z) table_parser_t_scheme option" where
  "pmt_parse_payload_unit env section_cb s = do {
     s \<leftarrow> parse_payload_unit_init s;
     let hdr = parsed_header s;
     if ss_error s then Some s
     else if table_id hdr \<noteq> 0x2 then Some (s\<lparr>ss_error := True\<rparr>)
     else do {
       ((timedout, badversion, t), s) \<leftarrow> check_hdr env s;
       if must_process t \<and> badversion then None
       else if must_process t \<or> timedout
       then do {
         let sec = stored_section env s;
         (success, pmt, sec) \<leftarrow> (if timedout then Some (True, default_pmt_info, sec) else parse_pmt_section_hdr default_pmt_info hdr sec);
         if success
         then deliver env (\<lambda>d _. section_cb d)
           \<lparr>pd_pmt = pmt, stream_packetno_end = last_pmt_end_bytepos (event_handler s) div 188, pd_is_next = (\<not> current_next hdr),
            pd_bytes = payload sec\<rparr> (new_subtable_info (sp_pid s) True hdr (done_now t) timedout) s
         else Some s
       }
       else Some s
     }
   }"

definition nit_parse_payload_unit :: "psi_env \<Rightarrow> (nit_network_t \<Rightarrow> subtable_info_t \<Rightarrow> reset_type_t) \<Rightarrow>
    (nit_network_t, 'z) table_parser_t_scheme \<Rightarrow> (nit_network_t, 'z) table_parser_t_scheme option" where
  "nit_parse_payload_unit env section_cb s = do {
     s \<leftarrow> parse_payload_unit_init s;
     let hdr = parsed_header s;
     if ss_error s then Some s
     else if table_id hdr = 0x72 then Some s
     else if table_id hdr AND NOT 0x1 \<noteq> 0x40 then Some (s\<lparr>ss_error := True\<rparr>)
     else do {
       ((timedout, badversion, t), s) \<leftarrow> check_hdr env s;
       if must_process t \<and> badversion then None
       else do {
         (success, network) \<leftarrow> (if must_process t \<or> timedout
           then do {
             (success, network, _) \<leftarrow> parse_nit_section_hdr (env_text env) default_nit_network hdr (stored_section env s);
             Some (success, network)
           }
           else Some (False, default_nit_network\<lparr>nit_is_actual := (table_id hdr = 0x40)\<rparr>));
         if success \<or> timedout
         then deliver env section_cb network (new_subtable_info (sp_pid s) (nit_is_actual network) hdr (done_now t) timedout) s
         else Some s
       }
     }
   }"

datatype sdt_or_bat = Sdt sdt_services_t | Bat bouquet_t

definition sdt_bat_parse_payload_unit :: "psi_env \<Rightarrow> int \<Rightarrow> (sdt_or_bat \<Rightarrow> subtable_info_t \<Rightarrow> reset_type_t) \<Rightarrow>
    (sdt_or_bat, 'z) table_parser_t_scheme \<Rightarrow> (sdt_or_bat, 'z) table_parser_t_scheme option" where
  "sdt_bat_parse_payload_unit env fst_preferred_region_id section_cb s = do {
     s \<leftarrow> parse_payload_unit_init s;
     let hdr = parsed_header s;
     let is_sdt = (table_id hdr = 0x42 \<or> table_id hdr = 0x46);
     let is_bat = (table_id hdr = 0x4A);
     if ss_error s then Some s
     else if table_id hdr = 0x72 then Some s
     else if \<not> is_sdt \<and> \<not> is_bat then Some (s\<lparr>ss_error := True\<rparr>)
     else do {
       ((timedout, badversion, t), s) \<leftarrow> check_hdr env s;
       if must_process t \<and> badversion then None
       else if is_sdt
       then do {
         (success, services) \<leftarrow> (if must_process t \<or> timedout
           then do {
             (success, services, _) \<leftarrow> parse_sdt_section_hdr (env_text env) default_sdt_services hdr (stored_section env s);
             Some (success, services)
           }
           else Some (False, default_sdt_services\<lparr>sdt_is_actual := (table_id hdr = 0x42)\<rparr>));
         if success \<or> timedout
         then deliver env section_cb (Sdt services) (new_subtable_info (sp_pid s) (sdt_is_actual services) hdr (done_now t) timedout) s
         else Some s
       }
       else if must_process t \<or> timedout
       then do {
         (success, bouquet, _) \<leftarrow> parse_bat_section_hdr (env_text env) fst_preferred_region_id default_bouquet hdr (stored_section env s);
         if success
         then deliver env section_cb (Bat bouquet) (new_subtable_info (sp_pid s) True hdr (done_now t) False) s
         else Some s
       }
       else Some s
     }
   }"

text \<open>The fields of \<open>epg_t\<close> that the section parsers do not touch.\<close>

record epg_kind =
  epg_is_freesat :: bool
  epg_is_sky :: bool
  epg_is_mhw2 :: bool
  epg_is_sky_title :: bool
  epg_is_sky_summary :: bool
  epg_is_mhw2_title :: bool
  epg_is_mhw2_summary :: bool
  ek_epg_type :: "int option"
  num_subtables_known :: int
  num_subtables_completed :: int

definition default_epg_kind :: epg_kind where
  "default_epg_kind = \<lparr>epg_is_freesat = False, epg_is_sky = False, epg_is_mhw2 = False, epg_is_sky_title = False,
     epg_is_sky_summary = False, epg_is_mhw2_title = False, epg_is_mhw2_summary = False, ek_epg_type = None,
     num_subtables_known = 0, num_subtables_completed = 0\<rparr>"

definition eit_kind :: "int \<Rightarrow> int \<Rightarrow> parser_status_t \<Rightarrow> epg_kind" where
  "eit_kind p epg_type ps =
     (let (done, known) = get_counts ps;
          title = (p \<ge> 0x30 \<and> p < 0x38);
          summary = (p \<ge> 0x40 \<and> p < 0x48)
      in default_epg_kind\<lparr>num_subtables_completed := done, num_subtables_known := known, ek_epg_type := Some epg_type,
           epg_is_sky_title := title, epg_is_sky_summary := summary, epg_is_sky := summary \<or> title, epg_is_freesat := (p = 3842)\<rparr>)"

definition eit_parse_payload_unit :: "psi_env \<Rightarrow> int \<Rightarrow> (epg_kind \<times> epg_t \<Rightarrow> subtable_info_t \<Rightarrow> reset_type_t) \<Rightarrow>
    (epg_kind \<times> epg_t, 'z) table_parser_t_scheme \<Rightarrow> (epg_kind \<times> epg_t, 'z) table_parser_t_scheme option" where
  "eit_parse_payload_unit env epg_type section_cb s = do {
     s \<leftarrow> parse_payload_unit_init s;
     if ss_error s then Some s
     else if table_id (parsed_header s) = 0x72 then Some s
     else do {
       let hdr = parsed_header s;
       let hdr = (if table_id hdr > last_table_id hdr then hdr\<lparr>last_table_id := table_id hdr\<rparr> else hdr);
       let s = s\<lparr>parsed_header := hdr\<rparr>;
       ((timedout, badversion, t), s) \<leftarrow> check_hdr env s;
       if must_process t \<and> badversion then None
       else do {
         let kind = eit_kind (sp_pid s) epg_type (parser_status s);
         (success, epg) \<leftarrow> (if must_process t \<or> timedout
           then do {
             (success, epg, _) \<leftarrow> (if epg_is_sky kind
               then parse_sky_section_hdr (env_text env) default_epg hdr (stored_section env s)
               else parse_eit_section_hdr (env_text env) default_epg hdr (stored_section env s));
             Some (success, epg)
           }
           else Some (False, default_epg\<lparr>epg_is_actual := (\<not> epg_is_sky kind \<and>
                  (table_id hdr = 0x4e \<or> (table_id hdr \<ge> 0x50 \<and> table_id hdr \<le> 0x5f)))\<rparr>));
         if success \<or> timedout
         then deliver env section_cb (kind, epg) (new_subtable_info (sp_pid s) (epg_is_actual epg) hdr (done_now t) timedout) s
         else Some s
       }
     }
   }"

datatype mhw2_delivery = Channels bouquet_t | Epg_Events epg_kind epg_t

datatype mhw2_table = Mhw2_Channel | Mhw2_Title | Mhw2_Summary

definition mhw2_table_of :: "int \<Rightarrow> section_header_t \<Rightarrow> mhw2_table option" where
  "mhw2_table_of p hdr =
     (if table_id hdr = 200 then (if table_id_extension hdr = 0 then Some Mhw2_Channel else None)
      else if table_id hdr = 220 then Some Mhw2_Title
      else if table_id hdr = 150 then (if p = 642 then Some Mhw2_Summary else None)
      else None)"

definition mhw2_section :: "psi_env \<Rightarrow> int \<Rightarrow> mhw2_table \<Rightarrow> section_header_t \<Rightarrow> stored_section_t \<Rightarrow> (bool \<times> mhw2_delivery) option" where
  "mhw2_section env epg_type tab hdr sec =
     (case tab of
        Mhw2_Channel \<Rightarrow> do {
          (success, bouquet, _) \<leftarrow> parse_mhw2_channel_section_hdr (env_text env) default_bouquet hdr sec;
          Some (success, Channels bouquet)
        }
      | Mhw2_Title \<Rightarrow> do {
          (success, epg, _) \<leftarrow> parse_mhw2_title_section_hdr (env_text env) default_epg hdr sec;
          Some (success, Epg_Events (default_epg_kind\<lparr>epg_is_mhw2 := True, epg_is_mhw2_title := True, ek_epg_type := Some epg_type\<rparr>) epg)
        }
      | Mhw2_Summary \<Rightarrow> do {
          (success, epg, _) \<leftarrow> parse_mhw2_long_summary_section_hdr (env_text env) default_epg sec;
          Some (success, Epg_Events (default_epg_kind\<lparr>epg_is_mhw2 := True, epg_is_mhw2_summary := True\<rparr>) epg)
        })"

definition mhw2_parse_payload_unit :: "psi_env \<Rightarrow> int \<Rightarrow> (mhw2_delivery \<Rightarrow> subtable_info_t \<Rightarrow> reset_type_t) \<Rightarrow>
    (mhw2_delivery, 'z) table_parser_t_scheme \<Rightarrow> (mhw2_delivery, 'z) table_parser_t_scheme option" where
  "mhw2_parse_payload_unit env epg_type section_cb s = do {
     s \<leftarrow> parse_payload_unit_init s;
     let hdr = parsed_header s;
     if ss_error s then Some s
     else if table_id hdr = 0x72 then Some s
     else case mhw2_table_of (sp_pid s) hdr of
       None \<Rightarrow> Some s
     | Some tab \<Rightarrow> do {
         ((timedout, badversion, t), s) \<leftarrow> check_hdr env s;
         if must_process t \<and> badversion then None
         else if must_process t \<or> timedout
         then do {
           (success, d) \<leftarrow> mhw2_section env epg_type tab hdr (stored_section env s);
           if success \<and> must_process t
           then deliver env section_cb d (new_subtable_info (sp_pid s) True hdr (done_now t) False) s
           else Some s
         }
         else Some s
       }
   }"

definition new_section_parser :: "int \<Rightarrow> event_handler_t \<Rightarrow> (nat \<Rightarrow> ts_packet_t) \<Rightarrow> (nat \<Rightarrow> int) \<Rightarrow> section_parser_t" where
  "new_section_parser p h ps clock = ts_substream_t.extend (new_substream True illegal h ps clock)
     (section_parser_t.fields default_section_header False [] p)"

lemma new_section_parser_fields [simp]:
  "arriving (new_section_parser p h f clock) = f" "arrived (new_section_parser p h f clock) = 0" "sp_pid (new_section_parser p h f clock) = p"
  "is_psi (new_section_parser p h f clock)" "\<not> ss_error (new_section_parser p h f clock)" "\<not> ss_encrypted (new_section_parser p h f clock)"
  "continuity_counter (new_section_parser p h f clock) = 0xff" "psi_sections (new_section_parser p h f clock) = []"
  by (simp_all add: new_section_parser_def new_substream_def ts_substream_t.defs section_parser_t.defs)

text \<open>The packet reader is used with the operations of a section parser.\<close>

interpretation sec: unit_client sp_unit_completed_cb
proof (unfold_locales, goal_cases)
  case (1 s)
  show ?case unfolding sp_unit_completed_cb_def Let_def by (intro exI, rule refl)
qed (simp add: sp_unit_completed_cb_def clock_part_def Let_def)

end
