(* ===== verification/Psi_Sections.thy ===== *)
theory Psi_Sections
  imports Psi
begin

text \<open>
  Sections in packets: a stream of packets that carries sections, one in each unit, is put together again by the section parser
  of \<open>Psi\<close> and handed over section by section. Shown with the lemmas of \<open>Substream\<close> on reading bytes across packets, through the
  interpretation \<open>sec\<close> of the packet reader.
\<close>

text \<open>
  A section that starts a unit with packet number \<open>n\<close>, followed by stuffing in its last packet, before packet number \<open>k\<close>.
\<close>

definition carries_unit :: "u16 \<Rightarrow> u8 \<Rightarrow> (nat \<Rightarrow> ts_packet_t) \<Rightarrow> nat \<Rightarrow> bytes \<Rightarrow> bytes \<Rightarrow> nat \<Rightarrow> bool" where
  "carries_unit pd cc f n sec stuff k \<longleftrightarrow> (stuff = [] \<or> hd stuff = 0xff) \<and> int (length stuff) < dr_available (range (f (k - 1))) \<and>
     (\<exists>bs ps. starts pd cc (f n) (0 # bs) \<and> bs \<noteq> [] \<and> coming pd (get_continuity_counter (f n)) f (Suc n) ps \<and>
       bs @ concat ps = sec @ stuff \<and> Suc n + length ps = k)"

fun units :: "u16 \<Rightarrow> u8 \<Rightarrow> (nat \<Rightarrow> ts_packet_t) \<Rightarrow> nat \<Rightarrow> (bytes \<times> bytes) list \<Rightarrow> nat \<Rightarrow> bool" where
  "units pd cc f n [] k \<longleftrightarrow> n = k"
| "units pd cc f n ((sec, stuff) # us) k \<longleftrightarrow>
     (\<exists>m. carries_unit pd cc f n sec stuff m \<and> units pd (get_continuity_counter (f (m - 1))) f m us k)"

text \<open>A section as its own header describes it, within the limits of the parser.\<close>

definition valid_section :: "u16 \<Rightarrow> bytes \<Rightarrow> bool" where
  "valid_section pd sec \<longleftrightarrow> 4 \<le> length sec \<and> length sec \<le> 4096 \<and> hd sec \<noteq> 0xff \<and>
     (let l = (be_word (take 2 (tl sec)) :: u16) in
      uint (l AND 0xfff) = int (length sec) - 3 \<and>
      (length sec > 16 \<or> drop_bit 15 l = 0 \<or> hd sec = 0x72 \<or>
       \<not> (0x4e \<le> hd sec \<and> hd sec \<le> 0x6f) \<and> pd \<notin> {3004, 3003, 3842, 3843}))"

lemma reader_partD:
  assumes "reader_part s' = reader_part s"
  shows "ss_error s' = ss_error s" "ss_encrypted s' = ss_encrypted s" "is_psi s' = is_psi s" "arriving s' = arriving s"
    "psi_sections s' = psi_sections s" "cc_error_counter s' = cc_error_counter s"
    "sp_payload s' = sp_payload s" "sp_pid s' = sp_pid s" "parsed_header s' = parsed_header s" "section_complete s' = section_complete s"
    "last_play_time s' = last_play_time s"
proof -
  show "ss_error s' = ss_error s" "ss_encrypted s' = ss_encrypted s" "is_psi s' = is_psi s" "arriving s' = arriving s"
    "psi_sections s' = psi_sections s" "cc_error_counter s' = cc_error_counter s"
    "sp_payload s' = sp_payload s" "sp_pid s' = sp_pid s" "parsed_header s' = parsed_header s" "section_complete s' = section_complete s"
    "last_play_time s' = last_play_time s"
    using arg_cong [OF assms, of ss_error] arg_cong [OF assms, of ss_encrypted] arg_cong [OF assms, of is_psi]
      arg_cong [OF assms, of arriving] arg_cong [OF assms, of psi_sections] arg_cong [OF assms, of cc_error_counter]
      arg_cong [OF assms, of sp_payload] arg_cong [OF assms, of sp_pid] arg_cong [OF assms, of parsed_header]
      arg_cong [OF assms, of section_complete] arg_cong [OF assms, of last_play_time]
    by (simp_all add: reader_part_def unread_part_def)
qed

lemma advanced_reader_part: "advanced n s s' \<Longrightarrow> reader_part s' = reader_part s"
  by (simp add: advanced_def reader_part_def)

lemma coming_last:
  "coming pd cc f n ps \<Longrightarrow> ps \<noteq> [] \<Longrightarrow> dr_available (range (f (n + length ps - 1))) = int (length (last ps))"
proof (induction ps arbitrary: cc n)
  case (Cons bs ps)
  then show ?case using Cons.IH [of "get_continuity_counter (f n)" "Suc n"]
    by (cases "ps = []") (auto simp: continues_def intact_def)
qed simp

text \<open>What is left when it is shorter than the last packet lies in that packet.\<close>

lemma upcoming_inside:
  assumes "upcoming pd stuff k s" "int (length stuff) < dr_available (range (arriving s (k - 1)))"
  shows "inside pd stuff s \<and> arrived s = k"
proof -
  obtain rest ps where ps: "pending pd rest ps s" "rest @ concat ps = stuff" "arrived s + length ps = k"
    using assms(1) by (auto simp: upcoming_def)
  have "ps = []"
  proof (rule ccontr)
    assume ne: "ps \<noteq> []"
    then have "dr_available (range (arriving s (k - 1))) = int (length (last ps))"
      using coming_last [of pd "continuity_counter s" "arriving s" "arrived s" ps] ps(1,3) by (simp add: pending_def)
    moreover have "length (last ps) \<le> length stuff"
      using ne ps(2) by (cases ps rule: rev_cases) auto
    ultimately show False using assms(2) by simp
  qed
  with ps show ?thesis by (simp add: pending_def)
qed

text \<open>The first byte of the unit that starts in the next packet.\<close>

lemma ss_get_next_unit:
  assumes "inside pd [] s" "carries_unit pd (continuity_counter s) (arriving s) (arrived s) (tid # y) stuff k" "is_psi s"
  shows "\<exists>s'. ss_get sp_unit_completed_cb 1 s = Some (tid, s') \<and> upcoming pd (y @ stuff) k s' \<and> reader_part s' = reader_part s \<and>
    clock_part (event_handler s') = clock_part (event_handler s) \<and> pointer_field s' = 0 \<and> ss_bytes_read s' = ss_bytes_read s + 1 \<and> in_step s'"
proof -
  obtain bs ps where u: "starts pd (continuity_counter s) (arriving s (arrived s)) (0 # bs)" "bs \<noteq> []"
    "coming pd (get_continuity_counter (arriving s (arrived s))) (arriving s) (Suc (arrived s)) ps"
    "bs @ concat ps = (tid # y) @ stuff" "Suc (arrived s) + length ps = k"
    using assms(2) by (auto simp: carries_unit_def)
  obtain r pre where r: "range (current_ts_packet s) = over r pre []" using assms(1) by (auto simp: inside_def)
  have ne: "\<not> ss_encrypted s" using assms(1) by (simp add: inside_def)
  from sec.get_next_packet_starts [OF u(1,2) assms(3) ne] obtain s1 where s1: "get_next_packet sp_unit_completed_cb s = Some s1"
    "inside pd bs s1" "pointer_field s1 = 0" "arrived s1 = arrived s + 1" "reader_part s1 = reader_part s"
    "clock_part (event_handler s1) = clock_part (event_handler s)" "ss_bytes_read s1 = ss_bytes_read s"
    "continuity_counter s1 = get_continuity_counter (arriving s (arrived s))" by blast
  have "upcoming pd ([tid] @ y @ stuff) k s1"
    using u s1 reader_partD(4) [OF s1(5)] by (auto simp: upcoming_def pending_def intro!: exI [of _ bs] exI [of _ ps])
  from ss_get_buffer_upcoming [OF this, of 1 sp_unit_completed_cb] obtain s' where s':
    "ss_get_buffer sp_unit_completed_cb 1 s1 = Some ([tid], s')" "upcoming pd (y @ stuff) k s'" "advanced 1 s1 s'" by auto
  have same: "s\<lparr>current_ts_packet := (current_ts_packet s)\<lparr>range := over r pre []\<rparr>\<rparr> = s"
    using r by (cases s; cases "current_ts_packet s") simp
  have "get_buffer_step sp_unit_completed_cb (1, [], s) = Some (Inr (1, [], s1))"
    using dr_get_buffer_over [of "[]" r pre "[]"] s1(1) by (simp add: get_buffer_step_def r same Let_def)
  then have "ss_get_buffer sp_unit_completed_cb 1 s = ss_get_buffer sp_unit_completed_cb 1 s1"
    by (simp add: ss_get_buffer_def while_return_step)
  then have "ss_get sp_unit_completed_cb 1 s = Some (tid, s')" using s'(1) by (simp add: ss_get_def)
  moreover have "in_step s1" using s1(4,8) reader_partD(4) [OF s1(5)] by (simp add: in_step_def)
  then have "event_handler s' = event_handler s1" "pointer_field s' = 0" "ss_bytes_read s' = ss_bytes_read s1 + 1" "in_step s'"
    using s'(3) advancedD [OF s'(3)] s1(3) by (auto simp: advanced_def)
  ultimately show ?thesis using s'(2) advanced_reader_part [OF s'(3)] s1(5-7) by auto
qed

text \<open>
  The parser stands before a section: at its first byte, or behind the section before it, where the rest of the packet is stuffing.
\<close>

definition before_section :: "u16 \<Rightarrow> bytes \<Rightarrow> bytes \<Rightarrow> nat \<Rightarrow> 'z section_parser_t_scheme \<Rightarrow> bool" where
  "before_section pd sec stuff k s \<longleftrightarrow> is_psi s \<and> \<not> ss_error s \<and> \<not> ss_encrypted s \<and> pointer_field s = 0 \<and> sp_pid s = uint pd \<and>
     get_pid (current_ts_packet s) = pd \<and>
     (upcoming pd (sec @ stuff) k s \<or>
      (\<exists>old. inside pd old s \<and> (old = [] \<or> hd old = 0xff) \<and>
        carries_unit pd (continuity_counter s) (arriving s) (arrived s) sec stuff k))"

definition parser_part :: "'z section_parser_t_scheme \<Rightarrow> 'z section_parser_t_scheme" where
  "parser_part s = (reader_part s)\<lparr>sp_payload := [], section_complete := False, parsed_header := default_section_header, last_play_time := 0\<rparr>"

lemma parser_partD:
  assumes "parser_part s' = parser_part s"
  shows "ss_error s' = ss_error s" "ss_encrypted s' = ss_encrypted s" "is_psi s' = is_psi s" "arriving s' = arriving s"
    "psi_sections s' = psi_sections s" "sp_pid s' = sp_pid s" "cc_error_counter s' = cc_error_counter s"
  using arg_cong [OF assms, of ss_error] arg_cong [OF assms, of ss_encrypted] arg_cong [OF assms, of is_psi]
    arg_cong [OF assms, of arriving] arg_cong [OF assms, of psi_sections] arg_cong [OF assms, of sp_pid]
    arg_cong [OF assms, of cc_error_counter]
  by (simp_all add: parser_part_def reader_part_def unread_part_def)

lemma parser_part_reader: "reader_part s' = reader_part s \<Longrightarrow> parser_part s' = parser_part s"
  by (simp add: parser_part_def)

lemma parser_part_append [simp]: "parser_part (sp_append bs s) = parser_part s"
  "parser_part (s\<lparr>sp_payload := x\<rparr>) = parser_part s" "parser_part (s\<lparr>ss_bytes_read := n\<rparr>) = parser_part s"
  "parser_part (s\<lparr>section_complete := c\<rparr>) = parser_part s" "parser_part (s\<lparr>parsed_header := h\<rparr>) = parser_part s"
  by (simp_all add: parser_part_def sp_append_def reader_part_def unread_part_def)

lemma upcoming_append [simp]: "upcoming pd bs k (sp_append x s) = upcoming pd bs k s"
  "upcoming pd bs k (s\<lparr>sp_payload := y\<rparr>) = upcoming pd bs k s" "upcoming pd bs k (s\<lparr>ss_bytes_read := n\<rparr>) = upcoming pd bs k s"
  "upcoming pd bs k (s\<lparr>section_complete := c\<rparr>) = upcoming pd bs k s" "upcoming pd bs k (s\<lparr>parsed_header := h\<rparr>) = upcoming pd bs k s"
  by (simp_all add: upcoming_def pending_def inside_def sp_append_def)

lemma in_step_update [simp]: "in_step (sp_append x s) = in_step s" "in_step (s\<lparr>sp_payload := y\<rparr>) = in_step s"
  "in_step (s\<lparr>ss_bytes_read := n\<rparr>) = in_step s" "in_step (s\<lparr>section_complete := c\<rparr>) = in_step s"
  "in_step (s\<lparr>parsed_header := h\<rparr>) = in_step s"
  by (simp_all add: in_step_def sp_append_def)

lemma sp_append_fields [simp]: "ss_bytes_read (sp_append x s) = ss_bytes_read s" "sp_payload (sp_append x s) = sp_payload s @ x"
  "event_handler (sp_append x s) = event_handler s" "pointer_field (sp_append x s) = pointer_field s"
  "ss_error (sp_append x s) = ss_error s" "current_ts_packet (sp_append x s) = current_ts_packet s" "sp_pid (sp_append x s) = sp_pid s"
  by (simp_all add: sp_append_def)

lemma get_table_id_before:
  assumes "before_section pd (tid # y) stuff k s" "tid \<noteq> 0xff"
  shows "\<exists>s'. get_table_id s = Some (tid, s') \<and> upcoming pd (y @ stuff) k s' \<and> reader_part s' = reader_part s \<and>
    clock_part (event_handler s') = clock_part (event_handler s) \<and> pointer_field s' = 0 \<and> (in_step s \<longrightarrow> in_step s')"
proof -
  have b: "is_psi s" "pointer_field s = 0" using assms(1) by (simp_all add: before_section_def)
  from assms(1) consider "upcoming pd ([tid] @ y @ stuff) k s"
    | old where "inside pd old s" "old = [] \<or> hd old = 0xff" "carries_unit pd (continuity_counter s) (arriving s) (arrived s) (tid # y) stuff k"
    by (auto simp: before_section_def)
  then show ?thesis
  proof cases
    case 1
    from ss_get_upcoming [OF 1, of 1 sp_unit_completed_cb, where 'a = 8] obtain s' where s':
      "ss_get sp_unit_completed_cb 1 s = Some (tid, s')" "upcoming pd (y @ stuff) k s'" "advanced 1 s s'" by auto
    then show ?thesis using assms(2) b advanced_reader_part [OF s'(3)] advancedD(6) [OF s'(3)]
      by (auto simp: get_table_id_def advanced_def)
  next
    case 2
    show ?thesis
    proof (cases old)
      case Nil
      with 2 ss_get_next_unit [of pd s tid y stuff k] b(1) assms(2) show ?thesis by (auto simp: get_table_id_def)
    next
      case (Cons a rest)
      with 2(1,2) have "inside pd ([0xff] @ rest) s" by simp
      from ss_get_inside [OF this, of 1 sp_unit_completed_cb, where 'a = 8] obtain s1 where s1:
        "ss_get sp_unit_completed_cb 1 s = Some (0xff :: u8, s1)" "inside pd rest s1" "advanced 1 s s1" "arrived s1 = arrived s"
        "continuity_counter s1 = continuity_counter s" by auto
      from ss_skip_inside [OF s1(2)] obtain s2 where s2:
        "ss_skip sp_unit_completed_cb (dr_available (range (current_ts_packet s1))) s1 = Some s2" "inside pd [] s2"
        "advanced (length rest) s1 s2" "arrived s2 = arrived s" "continuity_counter s2 = continuity_counter s"
        using s1(4,5) by metis
      have f: "arriving s2 = arriving s" "is_psi s2 = is_psi s" "reader_part s2 = reader_part s" "pointer_field s1 = 0"
        "event_handler s2 = event_handler s"
        using advancedD [OF s1(3)] advancedD [OF s2(3)] advanced_reader_part [OF s1(3)] advanced_reader_part [OF s2(3)] s1(3) b(2)
        by (auto simp: advanced_def)
      from ss_get_next_unit [OF s2(2), of tid y stuff k] 2(3) b(1) s2(4,5) f obtain s' where
        "ss_get sp_unit_completed_cb 1 s2 = Some (tid, s')" "upcoming pd (y @ stuff) k s'" "reader_part s' = reader_part s2"
        "clock_part (event_handler s') = clock_part (event_handler s2)" "pointer_field s' = 0" "in_step s'" by auto
      then show ?thesis using s1(1) s2(1) f by (auto simp: get_table_id_def)
    qed
  qed
qed

lemma upcoming_fields:
  "upcoming pd bs k s \<Longrightarrow> \<not> wait_for_unit_start s \<and> \<not> ss_encrypted s \<and> get_pid (current_ts_packet s) = pd"
  by (auto simp: upcoming_def pending_def inside_def)

lemma before_section_update [simp]:
  "before_section pd sec stuff k (s\<lparr>sp_payload := y\<rparr>) = before_section pd sec stuff k s"
  "before_section pd sec stuff k (s\<lparr>section_complete := c\<rparr>) = before_section pd sec stuff k s"
  "before_section pd sec stuff k (s\<lparr>ss_bytes_read := n\<rparr>) = before_section pd sec stuff k s"
  by (simp_all add: before_section_def inside_def)

definition section_header_of :: "u16 \<Rightarrow> bytes \<Rightarrow> section_header_t" where
  "section_header_of pd sec =
     (let l = (be_word (take 2 (tl sec)) :: u16) in
      default_section_header\<lparr>pid := pd, table_id := hd sec, len := l AND 0xfff, section_syntax_indicator := (drop_bit 15 l \<noteq> 0),
        private_bit := (drop_bit 14 l AND 1 \<noteq> 0)\<rparr>)"

lemma sp_parse_section_header_before:
  assumes "before_section pd (tid # a # b # y) stuff k s" "tid \<noteq> 0xff" "ss_bytes_read s = 0"
  shows "\<exists>s'. sp_parse_section_header default_section_header s = Some (section_header_of pd (tid # a # b # y), s') \<and>
    upcoming pd (y @ stuff) k s' \<and> parser_part s' = parser_part s \<and> clock_part (event_handler s') = clock_part (event_handler s) \<and>
    pointer_field s' = 0 \<and> sp_payload s' = [tid, a, b] \<and> ss_bytes_read s' = 3 \<and> (in_step s \<longrightarrow> in_step s')"
proof -
  let ?s = "s\<lparr>sp_payload := []\<rparr>"
  have b: "\<not> ss_error s" "pointer_field s = 0" "sp_pid s = uint pd" "get_pid (current_ts_packet s) = pd"
    using assms(1) by (simp_all add: before_section_def)
  have "before_section pd (tid # a # b # y) stuff k ?s" using assms(1) by simp
  from get_table_id_before [OF this assms(2)] obtain s1 where s1: "get_table_id ?s = Some (tid, s1)" "upcoming pd ((a # b # y) @ stuff) k s1"
    "reader_part s1 = reader_part ?s" "clock_part (event_handler s1) = clock_part (event_handler ?s)" "pointer_field s1 = 0" "in_step ?s \<longrightarrow> in_step s1" by blast
  define s2 where "s2 = sp_append [tid] (s1\<lparr>ss_bytes_read := 1\<rparr>)"
  have u2: "upcoming pd ([a, b] @ y @ stuff) k s2" using s1(2) by (simp add: s2_def)
  from ss_get_upcoming [OF u2, of 2 sp_unit_completed_cb, where 'a = 16] obtain s3 where s3:
    "ss_get sp_unit_completed_cb 2 s2 = Some (be_word [a, b] :: u16, s3)" "upcoming pd (y @ stuff) k s3" "advanced 2 s2 s3" by auto
  have p: "sp_payload s3 = [tid]" "ss_bytes_read s3 = 3"
    using reader_partD(7) [OF advanced_reader_part [OF s3(3)]] reader_partD(7) [OF s1(3)] advancedD(9) [OF s3(3)]
    by (simp_all add: s2_def)
  have pp: "parser_part s3 = parser_part s" "pointer_field s3 = 0" "event_handler s3 = event_handler s1" "in_step s \<longrightarrow> in_step s3"
    using parser_part_reader [OF advanced_reader_part [OF s3(3)]] parser_part_reader [OF s1(3)] s3(3) s1(5,6) advancedD(6) [OF s3(3)]
    by (auto simp: s2_def advanced_def)
  have "be_bytes 2 (be_word [a, b] :: u16) = [a, b]" by (rule be_bytes_be_word) simp_all
  then have "sp_parse_section_header default_section_header s =
      Some (section_header_of pd (tid # a # b # y), sp_append [a, b] s3)"
    using assms(2,3) b s1(1) s3(1) p upcoming_fields [OF s1(2)]
    by (simp add: sp_parse_section_header_def s2_def [symmetric] get_section_length_def section_header_of_def Let_def
        del: be_bytes_numeral)
  then show ?thesis using s3(2) p pp s1(4) by simp
qed

lemma valid_section_cases:
  assumes "valid_section pd sec"
  obtains tid a b y where "sec = tid # a # b # y" "y \<noteq> []" "tid \<noteq> 0xff" "length sec \<le> payload_capacity"
    "uint (len (section_header_of pd sec)) = int (length y)"
    "\<exists>h. (if tid = 0x72 then Some (section_header_of pd sec) else segment_fields (section_header_of pd sec) sec) = Some h"
proof -
  obtain tid a b y where sec: "sec = tid # a # b # y" "y \<noteq> []"
    using assms by (auto simp: valid_section_def Suc_le_length_iff numeral_eq_Suc neq_Nil_conv)
  define l where "l = (be_word [a, b] :: u16)"
  have v: "uint (l AND 0xfff) = int (length y)" "tid \<noteq> 0xff" "length sec \<le> 4096"
    "length sec > 16 \<or> drop_bit 15 l = 0 \<or> tid = 0x72 \<or> \<not> (0x4e \<le> tid \<and> tid \<le> 0x6f) \<and> pd \<notin> {3004, 3003, 3842, 3843}"
    using assms by (simp_all add: valid_section_def sec l_def)
  have h: "uint (len (section_header_of pd sec)) = int (length y)" "table_id (section_header_of pd sec) = tid"
    "pid (section_header_of pd sec) = pd" "section_syntax_indicator (section_header_of pd sec) \<longleftrightarrow> drop_bit 15 l \<noteq> 0"
    using v(1) by (simp_all add: section_header_of_def sec l_def Let_def)
  then have "is_eit (section_header_of pd sec) \<Longrightarrow> tid = 0x72 \<or> 13 < int (length y)"
    using v(4) sec(1) by (auto simp: is_eit_def is_freesat_eit_def)
  then have "\<exists>h. (if tid = 0x72 then Some (section_header_of pd sec) else segment_fields (section_header_of pd sec) sec) = Some h"
    using h(1) by (auto simp: segment_fields_def)
  with sec v h show ?thesis using that by (simp add: payload_capacity_def)
qed

lemma read_section_before:
  assumes "before_section pd sec stuff k s" "valid_section pd sec" "ss_bytes_read s = 0"
  shows "\<exists>s'. read_section True s = Some s' \<and> upcoming pd stuff k s' \<and> parser_part s' = parser_part s \<and>
    clock_part (event_handler s') = clock_part (event_handler s) \<and> pointer_field s' = 0 \<and> sp_payload s' = sec \<and> section_complete s' \<and>
    (in_step s \<longrightarrow> in_step s')"
proof -
  obtain tid a b y where sec: "sec = tid # a # b # y" "y \<noteq> []" "tid \<noteq> 0xff" "length sec \<le> payload_capacity"
    "uint (len (section_header_of pd sec)) = int (length y)"
    "\<exists>h. (if tid = 0x72 then Some (section_header_of pd sec) else segment_fields (section_header_of pd sec) sec) = Some h"
    using assms(2) by (rule valid_section_cases)
  obtain h where h: "(if tid = 0x72 then Some (section_header_of pd sec) else segment_fields (section_header_of pd sec) sec) = Some h"
    using sec(6) by blast
  let ?s = "s\<lparr>section_complete := False\<rparr>"
  have "before_section pd (tid # a # b # y) stuff k ?s" "ss_bytes_read ?s = 0" using assms(1,3) sec(1) by simp_all
  from sp_parse_section_header_before [OF this(1) sec(3) this(2)] obtain s1 where s1:
    "sp_parse_section_header default_section_header ?s = Some (section_header_of pd sec, s1)" "upcoming pd (y @ stuff) k s1"
    "parser_part s1 = parser_part ?s" "clock_part (event_handler s1) = clock_part (event_handler ?s)" "pointer_field s1 = 0"
    "sp_payload s1 = [tid, a, b]" "ss_bytes_read s1 = 3" "in_step ?s \<longrightarrow> in_step s1" unfolding sec(1) by blast
  from ss_get_buffer_upcoming [OF s1(2) refl, of sp_unit_completed_cb] obtain s2 where s2:
    "ss_get_buffer sp_unit_completed_cb (int (length y)) s1 = Some (y, s2)" "upcoming pd stuff k s2" "advanced (length y) s1 s2" by blast
  have e: "\<not> ss_error s1" using assms(1) parser_partD(1) [OF s1(3)] by (simp add: before_section_def)
  have p: "(section_header_of pd sec)\<lparr>pid := get_pid (current_ts_packet s1)\<rparr> = section_header_of pd sec"
    "table_id (section_header_of pd sec) = tid"
    using upcoming_fields [OF s1(2)] sec(1) by (simp_all add: section_header_of_def Let_def)
  have pl: "sp_payload s2 = [tid, a, b]" using reader_partD(7) [OF advanced_reader_part [OF s2(3)]] s1(6) by simp
  have len: "0 < length y" "length y < 4096" "length [tid, a, b] + length y \<le> payload_capacity"
    using sec by (simp_all add: payload_capacity_def)
  have "read_section True s = Some ((sp_append y s2)\<lparr>parsed_header := h, section_complete := True\<rparr>)"
    using s1(1,6,7) s2(1) e len sec(5) h
    by (cases "tid = 0x72") (use p pl in \<open>simp_all add: read_section_def read_section_body_def sec(1) [symmetric] Let_def\<close>)
  then show ?thesis
    using s2 s1 pl sec(1) parser_part_reader [OF advanced_reader_part [OF s2(3)]] advancedD(6) [OF s2(3)]
    by (auto simp: advanced_def)
qed

text \<open>One turn of the parser takes one section.\<close>

lemma unit_step_section:
  assumes "before_section pd sec stuff k s" "valid_section pd sec" "int (length stuff) < dr_available (range (arriving s (k - 1)))"
  shows "\<exists>s'. unit_step sp_parse_payload_unit sp_unit_completed_cb s = Some (Units, s') \<and> inside pd stuff s' \<and> arrived s' = k \<and>
    psi_sections s' = psi_sections s @ [(pd, sec)] \<and> arriving s' = arriving s \<and> is_psi s' \<and> \<not> ss_error s' \<and> \<not> ss_encrypted s' \<and>
    pointer_field s' = 0 \<and> sp_pid s' = uint pd \<and> (in_step s \<longrightarrow> in_step s')"
proof -
  let ?s = "s\<lparr>ss_bytes_read := 0\<rparr>"
  have "before_section pd sec stuff k ?s" using assms(1) by simp
  from read_section_before [OF this assms(2)] obtain s1 where s1: "read_section True ?s = Some s1" "upcoming pd stuff k s1"
    "parser_part s1 = parser_part ?s" "pointer_field s1 = 0" "sp_payload s1 = sec" "in_step s \<longrightarrow> in_step s1" by auto
  define s' where "s' = s1\<lparr>psi_sections := psi_sections s1 @ [(pd, sec)]\<rparr>"
  have b: "is_psi s" "\<not> ss_error s" "\<not> ss_encrypted s" "sp_pid s = uint pd" using assms(1) by (simp_all add: before_section_def)
  have f: "is_psi s1" "\<not> ss_error s1" "\<not> ss_encrypted s1" "sp_pid s1 = uint pd" "arriving s1 = arriving s" "psi_sections s1 = psi_sections s"
    using parser_partD [OF s1(3)] b by simp_all
  have "unit_step sp_parse_payload_unit sp_unit_completed_cb s = Some (Units, s')"
    using b f s1(1,5) by (simp add: unit_step_def has_problem_def sp_parse_payload_unit_def s'_def)
  moreover have "inside pd stuff s1 \<and> arrived s1 = k" using upcoming_inside [OF s1(2)] assms(3) f(5) by simp
  ultimately show ?thesis using f s1(4,6) by (auto simp: s'_def inside_def in_step_def)
qed

lemma unit_steps_sections:
  assumes "inside pd old s" "old = [] \<or> hd old = 0xff" "units pd (continuity_counter s) (arriving s) (arrived s) us k"
    "\<forall>u \<in> set us. valid_section pd (fst u)"
    "is_psi s" "\<not> ss_error s" "\<not> ss_encrypted s" "pointer_field s = 0" "sp_pid s = uint pd" "in_step s"
  shows "\<exists>s'. parse_steps sp_parse_payload_unit sp_unit_completed_cb (length us) (Units, s) = Some (Units, s') \<and>
    psi_sections s' = psi_sections s @ map (\<lambda>u. (pd, fst u)) us \<and> arrived s' = k \<and> \<not> ss_error s'"
  using assms
proof (induction us arbitrary: s old)
  case (Cons u us)
  obtain sec stuff where u: "u = (sec, stuff)" by fastforce
  obtain m where m: "carries_unit pd (continuity_counter s) (arriving s) (arrived s) sec stuff m"
    "units pd (get_continuity_counter (arriving s (m - 1))) (arriving s) m us k" using Cons.prems(3) by (auto simp: u)
  have "before_section pd sec stuff m s" using Cons.prems m(1) by (auto simp: before_section_def inside_def)
  moreover have "int (length stuff) < dr_available (range (arriving s (m - 1)))" "stuff = [] \<or> hd stuff = 0xff"
    using m(1) by (simp_all add: carries_unit_def)
  ultimately obtain s1 where s1: "unit_step sp_parse_payload_unit sp_unit_completed_cb s = Some (Units, s1)" "inside pd stuff s1"
    "arrived s1 = m" "psi_sections s1 = psi_sections s @ [(pd, sec)]" "arriving s1 = arriving s" "is_psi s1" "\<not> ss_error s1"
    "\<not> ss_encrypted s1" "pointer_field s1 = 0" "sp_pid s1 = uint pd" "in_step s1"
    using unit_step_section [of pd sec stuff m s] Cons.prems(4,10) u by auto
  then have "continuity_counter s1 = get_continuity_counter (arriving s (m - 1))" by (simp add: in_step_def)
  with Cons.IH [OF s1(2)] m(2) s1 Cons.prems(4) \<open>stuff = [] \<or> hd stuff = 0xff\<close>
  show ?case by (auto simp: parse_step_def u)
qed simp

text \<open>The first packet of a new parser begins a unit.\<close>

lemma parse_start_section:
  assumes "starts pd 0xff (f 0) (0 # bs)" "bs \<noteq> []"
  shows "\<exists>s. parse sp_parse_payload_unit sp_unit_completed_cb (Suc n) (new_section_parser (uint pd) h f clock) =
      parse_steps sp_parse_payload_unit sp_unit_completed_cb n (Units, s) \<and> inside pd bs s \<and> arrived s = 1 \<and> pointer_field s = 0 \<and>
    arriving s = f \<and> continuity_counter s = get_continuity_counter (f 0) \<and> in_step s \<and> is_psi s \<and> \<not> ss_error s \<and> \<not> ss_encrypted s \<and>
    sp_pid s = uint pd \<and> psi_sections s = []"
proof -
  define s0 where "s0 = (new_section_parser (uint pd) h f clock)\<lparr>arrived := 1, current_ts_packet := f 0\<rparr>"
  have "starts pd (continuity_counter s0) (f 0) (0 # bs)" "is_psi s0" "\<not> ss_encrypted s0" using assms by (simp_all add: s0_def)
  from sec.process_packet_header_starts [OF this(1) assms(2) this(2,3)] obtain s1 where s1:
    "process_packet_header sp_unit_completed_cb (f 0) s0 = Some (False, s1)" "inside pd bs s1" "get_payload_unit_start (current_ts_packet s1)"
    "pointer_field s1 = 0" "arrived s1 = arrived s0" "reader_part s1 = reader_part s0" "continuity_counter s1 = get_continuity_counter (f 0)" by blast
  define s where "s = s1\<lparr>wait_for_unit_start := False\<rparr>"
  have f: "arriving s1 = f" "is_psi s1" "\<not> ss_error s1" "\<not> ss_encrypted s1" "sp_pid s1 = uint pd" "psi_sections s1 = []"
    using reader_partD [OF s1(6)] by (simp_all add: s0_def)
  have "sync_step sp_unit_completed_cb s1 = Some (Units, s)"
    using s1(3,4) f by (simp add: sync_step_def skip_to_unit_start_def skip_to_pointer_def has_problem_def s_def)
  then have "parse sp_parse_payload_unit sp_unit_completed_cb (Suc n) (new_section_parser (uint pd) h f clock) =
      parse_steps sp_parse_payload_unit sp_unit_completed_cb n (Units, s)"
    using s1(1) by (simp add: parse_def get_packet_for_this_parser_def parse_start_def s0_def parse_step_def Let_def)
  moreover have "inside pd bs s" "arrived s = 1" "in_step s" using s1 f by (auto simp: s_def s0_def inside_def in_step_def)
  moreover have "pointer_field s = 0" "arriving s = f" "continuity_counter s = get_continuity_counter (f 0)" "is_psi s" "\<not> ss_error s"
    "\<not> ss_encrypted s" "sp_pid s = uint pd" "psi_sections s = []" using s1 f by (simp_all add: s_def)
  ultimately show ?thesis by blast
qed

text \<open>C1: Every section that arrives intact is handed over, unchanged and in order: a new parser that is given the packets
  of a sequence of sections, each of any length up to 4096 bytes, starting in a packet of its own and followed by stuffing, takes one turn
  per section, raises no error and has given exactly these sections to the receiver when the last packet has been used.\<close>
theorem sections_delivered:
  assumes "units pd 0xff f 0 us k" "us \<noteq> []" "\<forall>u \<in> set us. valid_section pd (fst u)"
  shows "\<exists>s. parse sp_parse_payload_unit sp_unit_completed_cb (length us + 1) (new_section_parser (uint pd) h f clock) = Some (Units, s) \<and>
    psi_sections s = map (\<lambda>u. (pd, fst u)) us \<and> arrived s = k \<and> \<not> ss_error s"
proof -
  obtain sec stuff us' where us: "us = (sec, stuff) # us'" using assms(2) by (cases us) auto
  obtain m where m: "carries_unit pd 0xff f 0 sec stuff m" "units pd (get_continuity_counter (f (m - 1))) f m us' k"
    using assms(1) by (auto simp: us)
  obtain bs ps where bs: "starts pd 0xff (f 0) (0 # bs)" "bs \<noteq> []" "coming pd (get_continuity_counter (f 0)) f 1 ps"
    "bs @ concat ps = sec @ stuff" "1 + length ps = m" using m(1) by (auto simp: carries_unit_def)
  from parse_start_section [of pd f bs "length us" h clock, OF bs(1,2)] obtain s where s:
    "parse sp_parse_payload_unit sp_unit_completed_cb (Suc (length us)) (new_section_parser (uint pd) h f clock) =
      parse_steps sp_parse_payload_unit sp_unit_completed_cb (length us) (Units, s)" "inside pd bs s" "arrived s = 1" "pointer_field s = 0"
    "arriving s = f" "continuity_counter s = get_continuity_counter (f 0)" "in_step s" "is_psi s" "\<not> ss_error s" "\<not> ss_encrypted s"
    "sp_pid s = uint pd" "psi_sections s = []" by blast
  have "upcoming pd (sec @ stuff) m s"
    unfolding upcoming_def pending_def using s bs by (intro exI [of _ bs] exI [of _ ps]) simp
  then have "before_section pd sec stuff m s" using s by (simp add: before_section_def inside_def)
  moreover have "int (length stuff) < dr_available (range (arriving s (m - 1)))" "stuff = [] \<or> hd stuff = 0xff"
    using m(1) s(5) by (simp_all add: carries_unit_def)
  ultimately obtain s1 where s1: "unit_step sp_parse_payload_unit sp_unit_completed_cb s = Some (Units, s1)" "inside pd stuff s1"
    "arrived s1 = m" "psi_sections s1 = [(pd, sec)]" "arriving s1 = f" "is_psi s1" "\<not> ss_error s1"
    "\<not> ss_encrypted s1" "pointer_field s1 = 0" "sp_pid s1 = uint pd" "in_step s1"
    using unit_step_section [of pd sec stuff m s] assms(3) s(5,7,12) by (auto simp: us)
  then have "continuity_counter s1 = get_continuity_counter (f (m - 1))" by (simp add: in_step_def)
  with unit_steps_sections [OF s1(2) \<open>stuff = [] \<or> hd stuff = 0xff\<close>, of us' k] m(2) s1 assms(3) s(1)
  show ?thesis by (auto simp: us parse_step_def)
qed

text \<open>Packets that each carry one small section.\<close>

definition example_packets :: "nat \<Rightarrow> ts_packet_t" where
  "example_packets n = default_ts_packet\<lparr>header := 0x4011, pkt_flags := 0x10 OR (of_nat n AND 0x0f),
     range := over default_data_range [] [0, 0x80, 0x30, 2, 7, of_nat n, 0xff]\<rparr>"

definition example_units :: "(bytes \<times> bytes) list" where
  "example_units = [([0x80, 0x30, 2, 7, 0], [0xff]), ([0x80, 0x30, 2, 7, 1], [0xff]), ([0x80, 0x30, 2, 7, 2], [0xff])]"

lemma example_carried:
  "carries_unit 0x11 0xff example_packets 0 [0x80, 0x30, 2, 7, 0] [0xff] 1"
  "carries_unit 0x11 0 example_packets 1 [0x80, 0x30, 2, 7, 1] [0xff] 2"
  "carries_unit 0x11 1 example_packets 2 [0x80, 0x30, 2, 7, 2] [0xff] 3"
  by (simp_all add: carries_unit_def starts_def intact_def example_packets_def default_ts_packet_def is_encrypted_def has_payload_def
      has_pcr_def get_pid_def get_continuity_counter_def get_payload_unit_start_def) (auto intro!: exI [of _ "[]"])

lemma example_units_carried: "units 0x11 0xff example_packets 0 example_units 3"
proof -
  have "get_continuity_counter (example_packets 0) = 0" "get_continuity_counter (example_packets 1) = 1"
    by (simp_all add: example_packets_def get_continuity_counter_def)
  then have "units 0x11 1 example_packets 2 [([0x80, 0x30, 2, 7, 2], [0xff])] 3"
    "units 0x11 0 example_packets 1 [([0x80, 0x30, 2, 7, 1], [0xff]), ([0x80, 0x30, 2, 7, 2], [0xff])] 3"
    using example_carried(2,3) by (auto intro: exI [of _ 3] exI [of _ 2])
  then show ?thesis using example_carried(1) \<open>get_continuity_counter (example_packets 0) = 0\<close> unfolding example_units_def
    by (subst units.simps, intro exI [of _ 1]) simp
qed

theorem sections_delivered_witness:
  "\<exists>s. parse sp_parse_payload_unit sp_unit_completed_cb (length example_units + 1)
      (new_section_parser (uint (0x11 :: u16)) (new_event_handler None 0) example_packets (\<lambda>_. 0)) = Some (Units, s) \<and>
    psi_sections s = map (\<lambda>u. (0x11, fst u)) example_units \<and> arrived s = 3 \<and> \<not> ss_error s"
proof (rule sections_delivered)
  show "units 0x11 0xff example_packets 0 example_units 3" by (rule example_units_carried)
  show "\<forall>u \<in> set example_units. valid_section 0x11 (fst u)" by code_simp
qed (simp add: example_units_def)

end
