(* ===== verification/Psi_Checks.thy ===== *)
theory Psi_Checks
  imports Psi_Sections
begin

text \<open>
  What the section parser and the table handlers of \<open>Psi\<close> guarantee whatever packets arrive: what each operation keeps of the state of a
  parser, that only complete sections are handed over, that tables come from checked sections only, how the parser recovers
  after a lost packet, and the inputs on which it stops.
\<close>

subsection \<open>Whatever arrives\<close>

text \<open>What the operations of the reader keep of a parser, for any packets.\<close>

definition keeps :: "'z section_parser_t_scheme \<Rightarrow> 'z section_parser_t_scheme \<Rightarrow> bool" where
  "keeps s s' \<longleftrightarrow> psi_sections s' = psi_sections s \<and> sp_pid s' = sp_pid s \<and> sp_payload s' = sp_payload s \<and>
     section_parser_t.more s' = section_parser_t.more s"

lemma keeps_refl [simp]: "keeps s s"
  by (simp add: keeps_def)

lemma keeps_trans: "keeps s s' \<Longrightarrow> keeps s' s'' \<Longrightarrow> keeps s s''"
  by (simp add: keeps_def)

lemma keeps_update [simp]:
  "keeps s (t\<lparr>ss_error := v0\<rparr>) = keeps s t" "keeps (s\<lparr>ss_error := v0\<rparr>) t = keeps s t"
  "keeps s (t\<lparr>ss_encrypted := v1\<rparr>) = keeps s t" "keeps (s\<lparr>ss_encrypted := v1\<rparr>) t = keeps s t"
  "keeps s (t\<lparr>wait_for_unit_start := v2\<rparr>) = keeps s t" "keeps (s\<lparr>wait_for_unit_start := v2\<rparr>) t = keeps s t"
  "keeps s (t\<lparr>continuity_counter := v3\<rparr>) = keeps s t" "keeps (s\<lparr>continuity_counter := v3\<rparr>) t = keeps s t"
  "keeps s (t\<lparr>pointer_field := v4\<rparr>) = keeps s t" "keeps (s\<lparr>pointer_field := v4\<rparr>) t = keeps s t"
  "keeps s (t\<lparr>pointer_pos := v5\<rparr>) = keeps s t" "keeps (s\<lparr>pointer_pos := v5\<rparr>) t = keeps s t"
  "keeps s (t\<lparr>num_encrypted_packets := v6\<rparr>) = keeps s t" "keeps (s\<lparr>num_encrypted_packets := v6\<rparr>) t = keeps s t"
  "keeps s (t\<lparr>current_unit_start_bytepos := v7\<rparr>) = keeps s t" "keeps (s\<lparr>current_unit_start_bytepos := v7\<rparr>) t = keeps s t"
  "keeps s (t\<lparr>current_unit_end_bytepos := v8\<rparr>) = keeps s t" "keeps (s\<lparr>current_unit_end_bytepos := v8\<rparr>) t = keeps s t"
  "keeps s (t\<lparr>current_ts_packet := v9\<rparr>) = keeps s t" "keeps (s\<lparr>current_ts_packet := v9\<rparr>) t = keeps s t"
  "keeps s (t\<lparr>ss_bytes_read := v10\<rparr>) = keeps s t" "keeps (s\<lparr>ss_bytes_read := v10\<rparr>) t = keeps s t"
  "keeps s (t\<lparr>event_handler := v11\<rparr>) = keeps s t" "keeps (s\<lparr>event_handler := v11\<rparr>) t = keeps s t"
  "keeps s (t\<lparr>last_play_time := v12\<rparr>) = keeps s t" "keeps (s\<lparr>last_play_time := v12\<rparr>) t = keeps s t"
  "keeps s (t\<lparr>parent_num_encrypted_packets := v13\<rparr>) = keeps s t" "keeps (s\<lparr>parent_num_encrypted_packets := v13\<rparr>) t = keeps s t"
  "keeps s (t\<lparr>arrived := v14\<rparr>) = keeps s t" "keeps (s\<lparr>arrived := v14\<rparr>) t = keeps s t"
  "keeps s (t\<lparr>section_complete := v15\<rparr>) = keeps s t" "keeps (s\<lparr>section_complete := v15\<rparr>) t = keeps s t"
  "keeps s (t\<lparr>parsed_header := v16\<rparr>) = keeps s t" "keeps (s\<lparr>parsed_header := v16\<rparr>) t = keeps s t"
  "keeps s (ss_throw_bad_data t) = keeps s t" "keeps s (throw_encrypted_data t) = keeps s t"
  "keeps (ss_throw_bad_data s) t = keeps s t" "keeps (throw_encrypted_data s) t = keeps s t"
  by (simp_all add: keeps_def ss_throw_bad_data_def throw_encrypted_data_def)

definition still :: "'z section_parser_t_scheme \<Rightarrow> 'z section_parser_t_scheme \<Rightarrow> bool" where
  "still s s' \<longleftrightarrow> keeps s s' \<and> ss_bytes_read s' = ss_bytes_read s"

lemma still_refl [simp]: "still s s"
  by (simp add: still_def)

lemma still_trans: "still s s' \<Longrightarrow> still s' s'' \<Longrightarrow> still s s''"
  by (auto simp: still_def intro: keeps_trans)

lemma still_cb [simp]: "still s (sp_unit_completed_cb s)"
  by (simp add: keeps_def still_def sp_unit_completed_cb_def Let_def)

lemma still_check: "check_continuity p s = (d, s') \<Longrightarrow> still s s'"
  by (auto simp: check_continuity_def ss_throw_bad_data_def keeps_def still_def Let_def split: if_splits)

lemma still_pointer: "read_pointer_field s = Some s' \<Longrightarrow> still s s'"
  by (auto simp: read_pointer_field_def ss_throw_bad_data_def keeps_def still_def Let_def bind_eq_Some_conv split: if_splits)

lemma still_update [simp]:
  "still s (t\<lparr>ss_error := v0\<rparr>) = still s t" "still (s\<lparr>ss_error := v0\<rparr>) t = still s t"
  "still s (t\<lparr>ss_encrypted := v1\<rparr>) = still s t" "still (s\<lparr>ss_encrypted := v1\<rparr>) t = still s t"
  "still s (t\<lparr>wait_for_unit_start := v2\<rparr>) = still s t" "still (s\<lparr>wait_for_unit_start := v2\<rparr>) t = still s t"
  "still s (t\<lparr>continuity_counter := v3\<rparr>) = still s t" "still (s\<lparr>continuity_counter := v3\<rparr>) t = still s t"
  "still s (t\<lparr>pointer_field := v4\<rparr>) = still s t" "still (s\<lparr>pointer_field := v4\<rparr>) t = still s t"
  "still s (t\<lparr>pointer_pos := v5\<rparr>) = still s t" "still (s\<lparr>pointer_pos := v5\<rparr>) t = still s t"
  "still s (t\<lparr>num_encrypted_packets := v6\<rparr>) = still s t" "still (s\<lparr>num_encrypted_packets := v6\<rparr>) t = still s t"
  "still s (t\<lparr>current_unit_start_bytepos := v7\<rparr>) = still s t" "still (s\<lparr>current_unit_start_bytepos := v7\<rparr>) t = still s t"
  "still s (t\<lparr>current_unit_end_bytepos := v8\<rparr>) = still s t" "still (s\<lparr>current_unit_end_bytepos := v8\<rparr>) t = still s t"
  "still s (t\<lparr>current_ts_packet := v9\<rparr>) = still s t" "still (s\<lparr>current_ts_packet := v9\<rparr>) t = still s t"
  "still s (t\<lparr>event_handler := v11\<rparr>) = still s t" "still (s\<lparr>event_handler := v11\<rparr>) t = still s t"
  "still s (t\<lparr>last_play_time := v12\<rparr>) = still s t" "still (s\<lparr>last_play_time := v12\<rparr>) t = still s t"
  "still s (t\<lparr>parent_num_encrypted_packets := v13\<rparr>) = still s t" "still (s\<lparr>parent_num_encrypted_packets := v13\<rparr>) t = still s t"
  "still s (t\<lparr>arrived := v14\<rparr>) = still s t" "still (s\<lparr>arrived := v14\<rparr>) t = still s t"
  "still s (t\<lparr>section_complete := v15\<rparr>) = still s t" "still (s\<lparr>section_complete := v15\<rparr>) t = still s t"
  "still s (t\<lparr>parsed_header := v16\<rparr>) = still s t" "still (s\<lparr>parsed_header := v16\<rparr>) t = still s t"
  "still s (ss_throw_bad_data t) = still s t" "still s (throw_encrypted_data t) = still s t"
  "still (ss_throw_bad_data s) t = still s t" "still (throw_encrypted_data s) t = still s t"
  by (simp_all add: still_def keeps_def ss_throw_bad_data_def throw_encrypted_data_def)

lemma still_process: "process_packet_header sp_unit_completed_cb p s = Some (d, s') \<Longrightarrow> still s s'"
proof -
  assume *: "process_packet_header sp_unit_completed_cb p s = Some (d, s')"
  define s1 where "s1 = (if \<not> pkt_valid p then ss_throw_bad_data s else s)"
  define s2 where "s2 = (if get_payload_unit_start p
              then if ss_encrypted s1
                   then s1\<lparr>parent_num_encrypted_packets := parent_num_encrypted_packets s1 + 1,
                          num_encrypted_packets := num_encrypted_packets s1 + 1\<rparr>
                   else sp_unit_completed_cb s1
              else s1)"
  define s3 where "s3 = s2\<lparr>current_unit_end_bytepos := word_of_int (dr_start_bytepos (range (current_ts_packet s2))), current_ts_packet := p\<rparr>"
  obtain dup s4 where s4: "check_continuity p s3 = (dup, s4)" by fastforce
  define s5 where "s5 = (if get_payload_unit_start p then s4\<lparr>wait_for_unit_start := False\<rparr> else s4)\<lparr>continuity_counter := get_continuity_counter p\<rparr>"
  have "still s s1" by (simp add: s1_def)
  moreover have "still s1 s2" by (simp add: s2_def)
  moreover have "still s2 s3" by (simp add: s3_def)
  moreover have "still s3 s4" using s4 by (rule still_check)
  moreover have "still s4 s5" by (simp add: s5_def)
  ultimately have k5: "still s s5" by (blast intro: still_trans)
  define A where "A = (if has_pcr p
           then do {
             h \<leftarrow> pcr_update (wall_clock s5 (arrived s5)) (pkt_pcr p) (get_is_discontinuity p) (event_handler s5);
             Some (s5\<lparr>event_handler := h\<rparr>)
           }
           else Some s5)"
  have "process_packet_header sp_unit_completed_cb p s = do {
     s6 \<leftarrow> A;
     s' \<leftarrow> read_pointer_field (if is_encrypted p then throw_encrypted_data s6 else s6);
     Some (dup, s') }"
    unfolding process_packet_header_def Let_def s1_def [symmetric] s2_def [symmetric] s3_def [symmetric] s4 prod.case s5_def [symmetric] A_def
    by (rule refl)
  with * obtain s6 where e: "A = Some s6" and rp: "read_pointer_field (if is_encrypted p then throw_encrypted_data s6 else s6) = Some s'"
    by (auto simp add: bind_eq_Some_conv simp del: if_split)
  have s6: "still s5 s6" using e by (auto simp: A_def bind_eq_Some_conv split: if_splits)
  have "still (if is_encrypted p then throw_encrypted_data s6 else s6) s'" using rp by (rule still_pointer)
  then have "still s6 s'" by (simp split: if_splits)
  with k5 s6 show ?thesis by (blast intro: still_trans)
qed

lemma still_next_packet: "get_next_packet sp_unit_completed_cb s = Some s' \<Longrightarrow> still s s'"
proof -
  assume "get_next_packet sp_unit_completed_cb s = Some s'"
  then obtain r where r: "while_return (\<lambda>_. True) (next_packet_step sp_unit_completed_cb) s = Some r" "s' = (case r of Inl s \<Rightarrow> s | Inr s \<Rightarrow> s)"
    by (auto simp: get_next_packet_def bind_eq_Some_conv)
  have step: "still t t'" if "next_packet_step sp_unit_completed_cb t = Some (Inl t') \<or> next_packet_step sp_unit_completed_cb t = Some (Inr t')" for t t'
    using that by (auto simp: next_packet_step_def get_packet_for_this_parser_def Let_def bind_eq_Some_conv split: if_splits dest!: still_process)
  have "case r of Inl v \<Rightarrow> still s v | Inr s' \<Rightarrow> still s s'"
    by (rule while_return_keeps [OF _ _ r(1), where P = "still s" and Q = "still s"]) (use step still_trans still_refl in blast)+
  then show ?thesis using r(2) by (simp split: sum.splits)
qed

lemma keeps_next_packet: "get_next_packet sp_unit_completed_cb s = Some s' \<Longrightarrow> keeps s s' \<and> ss_bytes_read s' = ss_bytes_read s"
  using still_next_packet by (auto simp: still_def)

lemma dr_get_buffer_length:
  assumes "dr_get_buffer n r = Some (bs, r')" "0 \<le> n" "0 \<le> dr_available r"
  shows "int (length bs) = min (dr_available r) n"
proof -
  have "int (length bs) = l" if "bytes_at (dr_curpos r) l r = Some bs" for l
    using that by (auto simp: bytes_at_def split: option.splits if_splits)
  then show ?thesis using assms by (auto simp: dr_get_buffer_def bind_eq_Some_conv Let_def split: if_splits)
qed

lemma keeps_get_buffer:
  assumes "ss_get_buffer sp_unit_completed_cb n s = Some (bs, s')" "0 \<le> n"
  shows "keeps s s' \<and> int (length bs) = n \<and> ss_bytes_read s' = ss_bytes_read s + n"
proof -
  define P where "P = (\<lambda>(toread, acc :: bytes, t). 0 \<le> toread \<and> int (length acc) + toread = n \<and> keeps s t \<and> ss_bytes_read t = ss_bytes_read s + n - toread)"
  define Q where "Q = (\<lambda>(bs :: bytes, t). int (length bs) = n \<and> keeps s t \<and> ss_bytes_read t = ss_bytes_read s + n)"
  have step: "case r of Inl v \<Rightarrow> Q v | Inr st' \<Rightarrow> P st'" if "P st" "get_buffer_step sp_unit_completed_cb st = Some r" for st r
    using that unfolding P_def Q_def get_buffer_step_def Let_def
    by (auto simp: bind_eq_Some_conv split: if_splits dest!: keeps_next_packet dr_get_buffer_length)
      (simp_all add: min_def split: if_splits, (blast intro: keeps_trans)+)
  obtain r where r: "while_return (\<lambda>_. True) (get_buffer_step sp_unit_completed_cb) (n, [], s) = Some r"
    "(case r of Inl v \<Rightarrow> Some v | Inr _ \<Rightarrow> None) = Some (bs, s')"
    using assms(1) by (auto simp: ss_get_buffer_def bind_eq_Some_conv)
  have "case r of Inl v \<Rightarrow> Q v | Inr s' \<Rightarrow> P s'"
    by (rule while_return_keeps [OF _ _ r(1)]) (use step assms(2) in \<open>fastforce simp: P_def\<close>)+
  then show ?thesis using r(2) by (cases r) (auto simp: Q_def)
qed

lemma keeps_get: "ss_get sp_unit_completed_cb n s = Some (v, s') \<Longrightarrow> keeps s s' \<and> ss_bytes_read s' = ss_bytes_read s + int n"
  by (auto simp: ss_get_def bind_eq_Some_conv dest: keeps_get_buffer)

lemma keeps_skip: "ss_skip sp_unit_completed_cb n s = Some s' \<Longrightarrow> keeps s s'"
proof -
  assume "ss_skip sp_unit_completed_cb n s = Some s'"
  then obtain r where r: "while_return (\<lambda>_. True) (skip_step sp_unit_completed_cb) (n, s) = Some r"
    "(case r of Inl s \<Rightarrow> Some s | Inr _ \<Rightarrow> None) = Some s'"
    by (auto simp: ss_skip_def bind_eq_Some_conv)
  have step: "case r of Inl v \<Rightarrow> keeps (snd st) v | Inr st' \<Rightarrow> keeps (snd st) (snd st')" if "skip_step sp_unit_completed_cb st = Some r" for st r
    using that unfolding skip_step_def Let_def
    by (auto simp: bind_eq_Some_conv split: if_splits prod.splits dest!: keeps_next_packet)
  have "case r of Inl v \<Rightarrow> keeps s v | Inr st \<Rightarrow> keeps s (snd st)"
    by (rule while_return_keeps [OF _ _ r(1), where P = "\<lambda>st. keeps s (snd st)" and Q = "keeps s"])
      (use step keeps_trans in fastforce)+
  then show ?thesis using r(2) by (cases r) auto
qed

lemma keeps_unit_start: "skip_to_unit_start sp_unit_completed_cb s = Some s' \<Longrightarrow> keeps s s'"
proof -
  assume *: "skip_to_unit_start sp_unit_completed_cb s = Some s'"
  have "keeps s t" if "while_loop (\<lambda>s. \<not> get_payload_unit_start (current_ts_packet s)) (get_next_packet sp_unit_completed_cb)
      (s\<lparr>wait_for_unit_start := True\<rparr>) = Some t" for t
    using while_loop_keeps [OF _ that, of "keeps s"] keeps_next_packet keeps_trans by fastforce
  with * show ?thesis by (auto simp: skip_to_unit_start_def Let_def bind_eq_Some_conv split: if_splits)
qed

lemma keeps_skip_pointer: "skip_to_pointer s = Some s' \<Longrightarrow> keeps s s'"
  by (auto simp: skip_to_pointer_def Let_def bind_eq_Some_conv split: if_splits)

lemma keeps_table_id: "get_table_id s = Some (tid, s') \<Longrightarrow> keeps s s'"
  by (auto simp: get_table_id_def bind_eq_Some_conv split: if_splits dest!: keeps_get keeps_skip keeps_skip_pointer intro: keeps_trans)

text \<open>The header that was read describes the bytes that were kept.\<close>

definition header_read :: "section_header_t \<Rightarrow> bytes \<Rightarrow> bool" where
  "header_read hdr bs \<longleftrightarrow> (\<exists>a b rest. bs = table_id hdr # a # b # rest \<and> table_id hdr \<noteq> 0xff \<and>
     len hdr = be_word [a, b] AND 0xfff \<and> section_syntax_indicator hdr = (drop_bit 15 (be_word [a, b] :: u16) \<noteq> 0))"

definition keeps_sections :: "'z section_parser_t_scheme \<Rightarrow> 'z section_parser_t_scheme \<Rightarrow> bool" where
  "keeps_sections s s' \<longleftrightarrow> psi_sections s' = psi_sections s \<and> sp_pid s' = sp_pid s \<and> section_parser_t.more s' = section_parser_t.more s"

lemma keeps_sectionsI: "keeps s s' \<Longrightarrow> keeps_sections s s'"
  by (simp add: keeps_def keeps_sections_def)

lemma keeps_sections_trans: "keeps_sections s s' \<Longrightarrow> keeps_sections s' s'' \<Longrightarrow> keeps_sections s s''"
  by (simp add: keeps_sections_def)

lemma keeps_sections_append [simp]: "keeps_sections s (sp_append x t) = keeps_sections s t" "keeps_sections s s"
  "keeps_sections s (s\<lparr>sp_payload := y\<rparr>)"
  by (simp_all add: keeps_sections_def sp_append_def)

lemma be_bytes_two: obtains a b where "be_bytes 2 (l :: u16) = [a, b]" "be_word [a, b] = l"
  using be_word_be_bytes [of 2 l] by auto

lemma get_section_length_sound:
  assumes "get_section_length ret s = Some (hdr, s')" "sp_payload s = [table_id ret]" "table_id ret \<noteq> 0xff"
  shows "keeps_sections s s' \<and> header_read hdr (sp_payload s') \<and> ss_bytes_read s' = int (length (sp_payload s'))"
proof -
  obtain l :: u16 and s1 where l: "ss_get sp_unit_completed_cb 2 s = Some (l, s1)" "s' = sp_append (be_bytes 2 l) s1"
    "ss_bytes_read s' = int (length (sp_payload s'))" "len hdr = l AND 0xfff" "section_syntax_indicator hdr = (drop_bit 15 l \<noteq> 0)"
    "table_id hdr = table_id ret"
    using assms(1) by (auto simp: get_section_length_def Let_def bind_eq_Some_conv simp del: be_bytes_numeral split: if_splits)
  obtain a b where "be_bytes 2 l = [a, b]" "be_word [a, b] = l" by (rule be_bytes_two)
  moreover have "keeps s s1" using keeps_get [OF l(1)] by simp
  ultimately show ?thesis using l(2-6) assms(2,3) by (auto simp: header_read_def keeps_def keeps_sections_def sp_append_def)
qed

lemma sp_parse_section_header_sound:
  assumes "sp_parse_section_header ret s = Some (hdr, s')"
  shows "keeps_sections s s' \<and> (\<not> ss_error s' \<longrightarrow> header_read hdr (sp_payload s') \<and> ss_bytes_read s' = int (length (sp_payload s')))"
proof -
  consider "ss_error s" | "\<not> ss_error s" "pointer_field s > 0" "table_id ret = 0xff" | "\<not> ss_error s" "\<not> (pointer_field s > 0 \<and> table_id ret = 0xff)"
    by blast
  then show ?thesis
  proof cases
    case 1
    then show ?thesis using assms by (auto simp: sp_parse_section_header_def Let_def split: if_splits)
  next
    case 2
    then show ?thesis using assms
      by (auto simp: sp_parse_section_header_def Let_def bind_eq_Some_conv ss_throw_bad_data_def keeps_sections_def keeps_def
          split: if_splits dest!: keeps_skip_pointer)
  next
    case 3
    let ?s = "s\<lparr>sp_payload := []\<rparr>" and ?ret = "ret\<lparr>pid := word_of_int (sp_pid s)\<rparr>"
    obtain s1 tid s2 where s2: "(if pointer_field ?s > 0 then do { s \<leftarrow> skip_to_pointer ?s; Some (s\<lparr>ss_bytes_read := 0\<rparr>) } else Some ?s) = Some s1"
      "get_table_id s1 = Some (tid, s2)"
      "(if tid = 0xff then Some (?ret\<lparr>table_id := tid\<rparr>, ss_throw_bad_data s2) else if wait_for_unit_start s2 then None
        else get_section_length (?ret\<lparr>table_id := tid\<rparr>) (sp_append [tid] (s2\<lparr>ss_bytes_read := 1\<rparr>))) = Some (hdr, s')"
      using assms 3(1) by (auto simp: sp_parse_section_header_def Let_def bind_eq_Some_conv 3(2) simp del: if_split word_neq_0_conv split: if_split_asm)
    have "keeps ?s s1" using s2(1) keeps_skip_pointer [of ?s] by (auto simp: bind_eq_Some_conv split: if_splits)
    with keeps_table_id [OF s2(2)] have k: "keeps ?s s2" by (blast intro: keeps_trans)
    then have p: "sp_payload s2 = []" "keeps_sections s s2" by (simp_all add: keeps_def keeps_sections_def)
    show ?thesis
    proof (cases "tid = 0xff")
      case True
      with s2(3) p(2) show ?thesis by (auto simp: ss_throw_bad_data_def keeps_sections_def)
    next
      case tid: False
      with s2(3) have "get_section_length (?ret\<lparr>table_id := tid\<rparr>) (sp_append [tid] (s2\<lparr>ss_bytes_read := 1\<rparr>)) = Some (hdr, s')"
        by (simp split: if_splits)
      from get_section_length_sound [OF this] tid p show ?thesis by (auto simp: keeps_sections_def sp_append_def)
    qed
  qed
qed

lemma get_table_fields_sound:
  assumes "get_table_fields ret s = Some (hdr, s')" "header_read ret (sp_payload s)"
  shows "keeps_sections s s' \<and> header_read hdr (sp_payload s') \<and> (\<not> ss_error s' \<longrightarrow> ss_bytes_read s' = int (length (sp_payload s')))"
proof -
  have ext: "header_read r (bs @ xs)" if "header_read r bs" for r bs xs using that by (auto simp: header_read_def)
  have upd: "header_read (r\<lparr>table_id_extension := e, current_next := c, version_number := v, section_number := n, last_section_number := m\<rparr>) bs = header_read r bs"
    "header_read (r\<lparr>table_id_extension1 := e1\<rparr>) bs = header_read r bs" "header_read (r\<lparr>table_id_extension2 := e2\<rparr>) bs = header_read r bs"
    "header_read (r\<lparr>header_len := l\<rparr>) bs = header_read r bs" for r bs e c v n m e1 e2 l by (simp_all add: header_read_def)
  have te: "keeps_sections t t' \<and> header_read h (sp_payload t') \<and>
      (ss_bytes_read t = int (length (sp_payload t)) \<longrightarrow> ss_bytes_read t' = int (length (sp_payload t')))" if "table_extension r t = Some (h, t')" "header_read r (sp_payload t)" for r t h t'
    using that by (auto simp: table_extension_def bind_eq_Some_conv Let_def upd keeps_def keeps_sections_def sp_append_def
      simp del: be_bytes_numeral split: if_splits dest!: keeps_get intro!: ext)
  show ?thesis
    using assms
    by (auto simp: get_table_fields_def bind_eq_Some_conv Let_def upd keeps_def keeps_sections_def sp_append_def
      simp del: be_bytes_numeral split: if_splits dest!: keeps_get te intro!: ext) (metis upd(1,4))
qed

text \<open>A section that was read without an error is complete and, with a table header, has the right checksum.\<close>

definition sound_section :: "bool \<Rightarrow> section_header_t \<Rightarrow> bytes \<Rightarrow> bool" where
  "sound_section only hdr bs \<longleftrightarrow> header_read hdr bs \<and> int (length bs) = uint (len hdr) + 3 \<and> 4 \<le> length bs \<and> length bs \<le> payload_capacity \<and>
     (\<not> only \<and> section_syntax_indicator hdr \<and> table_id hdr \<noteq> 0x72 \<longrightarrow> crc32 bs = 0)"

lemma segment_fields_sound: "segment_fields hdr bs = Some h \<Longrightarrow> sound_section only h xs = sound_section only hdr xs"
  by (auto simp: segment_fields_def sound_section_def header_read_def split: if_splits)

lemma sp_parse_table_header_sound:
  assumes "sp_parse_table_header ret s = Some (hdr, s')"
  shows "keeps_sections s s' \<and> (\<not> ss_error s' \<longrightarrow> header_read hdr (sp_payload s') \<and> ss_bytes_read s' = int (length (sp_payload s')))"
proof -
  obtain r t where t: "sp_parse_section_header ret s = Some (r, t)"
    "(if ss_error t then Some (r, t) else if ss_bytes_read t \<noteq> int (length (sp_payload t)) then None
      else if uint (len r) > 4096 - 3 then Some (r, ss_throw_bad_data t) else get_table_fields r t) = Some (hdr, s')"
    using assms by (auto simp: sp_parse_table_header_def bind_eq_Some_conv)
  note h = sp_parse_section_header_sound [OF t(1)]
  show ?thesis
  proof (cases "ss_error t \<or> uint (len r) > 4096 - 3")
    case True
    with t(2) h show ?thesis by (auto simp: ss_throw_bad_data_def keeps_sections_def split: if_splits)
  next
    case False
    with t(2) have "get_table_fields r t = Some (hdr, s')" by (simp split: if_splits)
    from get_table_fields_sound [OF this] h False show ?thesis by (auto intro: keeps_sections_trans)
  qed
qed

lemma read_section_body_sound:
  assumes "read_section_body only hdr s = Some s'" "header_read hdr (sp_payload s)" "ss_bytes_read s = int (length (sp_payload s))"
  shows "keeps_sections s s' \<and> (\<not> ss_error s' \<longrightarrow> section_complete s' \<and> sound_section only (parsed_header s') (sp_payload s'))"
proof -
  define toread where "toread = uint (len hdr) - (ss_bytes_read s - 3)"
  show ?thesis
  proof (cases "toread \<le> 0 \<or> toread \<ge> 4096")
    case True
    then show ?thesis using assms(1) by (auto simp: read_section_body_def toread_def keeps_sections_def Let_def)
  next
    case False
    then obtain bs t where t: "ss_get_buffer sp_unit_completed_cb toread s = Some (bs, t)" "length (sp_payload s) + nat toread \<le> payload_capacity"
      "(if table_id hdr \<noteq> 0x72 \<and> \<not> only \<and> section_syntax_indicator hdr \<and> crc32 (sp_payload s @ bs) \<noteq> 0 then Some (ss_throw_bad_data (sp_append bs t))
        else do {
          hdr \<leftarrow> (if table_id hdr = 0x72 then Some hdr else segment_fields hdr (sp_payload s @ bs));
          Some ((sp_append bs t)\<lparr>parsed_header := hdr, section_complete := True\<rparr>)
        }) = Some s'"
      using assms(1) keeps_get_buffer [of toread s]
      by (auto simp: read_section_body_def toread_def [symmetric] bind_eq_Some_conv Let_def keeps_def simp del: if_split split: if_split_asm)
    have k: "keeps s t" "int (length bs) = toread" using keeps_get_buffer [OF t(1)] False by simp_all
    show ?thesis
    proof (cases "table_id hdr \<noteq> 0x72 \<and> \<not> only \<and> section_syntax_indicator hdr \<and> crc32 (sp_payload s @ bs) \<noteq> 0")
      case True
      with t(3) k(1) show ?thesis by (auto simp: ss_throw_bad_data_def keeps_sections_def keeps_def sp_append_def)
    next
      case crc: False
      then obtain h where h: "(if table_id hdr = 0x72 then Some hdr else segment_fields hdr (sp_payload s @ bs)) = Some h"
        "s' = (sp_append bs t)\<lparr>parsed_header := h, section_complete := True\<rparr>"
        using t(3) by (auto simp: bind_eq_Some_conv simp del: if_split)
      have "header_read hdr (sp_payload s @ bs)" using assms(2) by (auto simp: header_read_def)
      then have "sound_section only hdr (sp_payload s @ bs)"
        using crc k(2) t(2) assms(2,3) False by (auto simp: sound_section_def toread_def header_read_def)
      then have "sound_section only h (sp_payload s @ bs)" using h(1) segment_fields_sound by (auto split: if_splits)
      then show ?thesis using h(2) k(1) by (simp add: keeps_sections_def keeps_def sp_append_def)
    qed
  qed
qed

lemma read_section_sound:
  assumes "read_section only s = Some s'"
  shows "keeps_sections s s' \<and> (\<not> ss_error s' \<longrightarrow> section_complete s' \<and> sound_section only (parsed_header s') (sp_payload s'))"
proof -
  let ?s = "s\<lparr>section_complete := False\<rparr>"
  obtain hdr t where t: "(if only then sp_parse_section_header default_section_header ?s else sp_parse_table_header default_section_header ?s) = Some (hdr, t)"
    "(if ss_error t then Some (t\<lparr>parsed_header := default_section_header\<rparr>)
      else read_section_body only (hdr\<lparr>pid := get_pid (current_ts_packet t)\<rparr>) t) = Some s'"
    using assms unfolding read_section_def Let_def by (auto simp: bind_eq_Some_conv simp del: if_split)
  have h: "keeps_sections s t" "\<not> ss_error t \<Longrightarrow> header_read hdr (sp_payload t) \<and> ss_bytes_read t = int (length (sp_payload t))"
    using t(1) sp_parse_section_header_sound [of default_section_header ?s hdr t] sp_parse_table_header_sound [of default_section_header ?s hdr t]
    by (auto simp: keeps_sections_def split: if_splits)
  show ?thesis
  proof (cases "ss_error t")
    case True
    with t(2) h(1) show ?thesis by (auto simp: keeps_sections_def)
  next
    case False
    with t(2) have "read_section_body only (hdr\<lparr>pid := get_pid (current_ts_packet t)\<rparr>) t = Some s'" by simp
    from read_section_body_sound [OF this] h False show ?thesis by (auto simp: header_read_def intro: keeps_sections_trans)
  qed
qed

text \<open>Every step of the parser keeps what has been handed over and adds at most one complete section.\<close>

definition complete_section :: "u16 \<Rightarrow> u16 \<times> bytes \<Rightarrow> bool" where
  "complete_section pd x \<longleftrightarrow> fst x = pd \<and> 4 \<le> length (snd x) \<and> length (snd x) \<le> 4096 \<and> hd (snd x) \<noteq> 0xff \<and>
     int (length (snd x)) = uint ((be_word (take 2 (tl (snd x))) :: u16) AND 0xfff) + 3"

definition sections_inv :: "int \<Rightarrow> 'z section_parser_t_scheme \<Rightarrow> bool" where
  "sections_inv p s \<longleftrightarrow> sp_pid s = p \<and> (\<forall>x \<in> set (psi_sections s). complete_section (word_of_int p) x)"

lemma sections_inv_keeps: "sections_inv p s \<Longrightarrow> keeps s s' \<Longrightarrow> sections_inv p s'"
  by (simp add: sections_inv_def keeps_def)

lemma sections_inv_payload_unit:
  assumes "sp_parse_payload_unit s = Some s'" "sections_inv p s"
  shows "sections_inv p s'"
proof -
  obtain t where t: "read_section True s = Some t"
    "s' = (if \<not> ss_error t then t\<lparr>psi_sections := psi_sections t @ [(word_of_int (sp_pid t), sp_payload t)]\<rparr> else t)"
    using assms(1) by (auto simp: sp_parse_payload_unit_def bind_eq_Some_conv simp del: if_split)
  have "complete_section (word_of_int (sp_pid t)) (word_of_int (sp_pid t), sp_payload t)" if "\<not> ss_error t"
    using read_section_sound [OF t(1)] that
    by (auto simp: complete_section_def sound_section_def header_read_def payload_capacity_def)
  then show ?thesis using t(2) read_section_sound [OF t(1)] assms(2) by (auto simp: sections_inv_def keeps_sections_def)
qed

lemma sections_inv_step:
  assumes "parse_step sp_parse_payload_unit sp_unit_completed_cb (ph, s) = Some (ph', s')" "sections_inv p s"
  shows "sections_inv p s'"
proof (cases ph)
  case Sync
  with assms show ?thesis
    by (auto simp: parse_step_def sync_step_def bind_eq_Some_conv split: if_splits
        dest!: keeps_unit_start keeps_skip_pointer intro: sections_inv_keeps keeps_trans)
next
  case Units
  have "sections_inv p (s\<lparr>ss_bytes_read := 0\<rparr>)" using assms(2) by (simp add: sections_inv_def)
  with Units assms show ?thesis
    by (auto simp: parse_step_def unit_step_def bind_eq_Some_conv split: if_splits
        dest!: keeps_unit_start keeps_next_packet sections_inv_payload_unit) (blast intro: sections_inv_keeps keeps_trans)
next
  case Recover
  with assms show ?thesis
    by (auto simp: parse_step_def recover_step_def bind_eq_Some_conv split: if_splits dest!: keeps_next_packet intro: sections_inv_keeps)
qed

lemma sections_inv_steps:
  "parse_steps sp_parse_payload_unit sp_unit_completed_cb n st = Some st' \<Longrightarrow> sections_inv p (snd st) \<Longrightarrow> sections_inv p (snd st')"
proof (induction n arbitrary: st)
  case (Suc n)
  then show ?case using sections_inv_step [of "fst st" "snd st"] by (auto simp: bind_eq_Some_conv)
qed simp

text \<open>C3: Whatever packets arrive, damaged, lost or encrypted ones included: as long as no step so far reached undefined behaviour or a
  failed assertion, the parser has handed over complete sections only. Each has the length its header announces, at most 4096 bytes,
  and none is stuffing. Nothing is said about a run that got that far: a section that announces 4094 or 4095 bytes is read past the end
  of its buffer, and an event section of at most 13 bytes ends in an assertion.\<close>
theorem only_complete_sections:
  assumes "parse sp_parse_payload_unit sp_unit_completed_cb n (new_section_parser p h f clock) = Some (ph, s)"
  shows "\<forall>x \<in> set (psi_sections s). complete_section (word_of_int p) x"
proof -
  obtain d t where t: "process_packet_header sp_unit_completed_cb (f 0)
      ((new_section_parser p h f clock)\<lparr>arrived := 1, current_ts_packet := f 0\<rparr>) = Some (d, t)"
    "parse_steps sp_parse_payload_unit sp_unit_completed_cb n (Sync, t) = Some (ph, s)"
    using assms by (auto simp: parse_def parse_start_def get_packet_for_this_parser_def Let_def bind_eq_Some_conv)
  have "sections_inv p ((new_section_parser p h f clock)\<lparr>arrived := 1, current_ts_packet := f 0\<rparr>)" by (simp add: sections_inv_def)
  moreover have "keeps ((new_section_parser p h f clock)\<lparr>arrived := 1, current_ts_packet := f 0\<rparr>) t"
    using still_process [OF t(1)] unfolding still_def by blast
  ultimately have "sections_inv p t" by (rule sections_inv_keeps)
  from sections_inv_steps [OF t(2)] this show ?thesis by (simp add: sections_inv_def)
qed

theorem only_complete_sections_witness:
  "list_all (complete_section 0x11) (psi_sections (snd (the (parse sp_parse_payload_unit sp_unit_completed_cb 3
      (new_section_parser 0x11 (new_event_handler None 0) example_packets (\<lambda>_. 0))))))"
proof -
  have "\<not> Option.is_none (parse sp_parse_payload_unit sp_unit_completed_cb 3
      (new_section_parser 0x11 (new_event_handler None 0) example_packets (\<lambda>_. 0)))"
    by code_simp
  then obtain ph s where "parse sp_parse_payload_unit sp_unit_completed_cb 3
      (new_section_parser 0x11 (new_event_handler None 0) example_packets (\<lambda>_. 0)) = Some (ph, s)"
    by (auto simp: Option.is_none_def)
  from only_complete_sections [OF this] this show ?thesis by (simp add: list_all_iff)
qed

text \<open>C36: Two assertions of the reader of sections do not hold for what may arrive. A section with a length field of 4094 or 4095
  is accepted and written behind the end of the buffer of 4096 bytes, and a section of an event table of 13 bytes or less stops the program.\<close>
theorem section_reader_aborts:
  assumes "before_section pd (tid # a # b # y) stuff k s" "tid \<noteq> 0xff" "ss_bytes_read s = 0"
  shows "(uint ((be_word [a, b] :: u16) AND 0xfff) > 4093 \<longrightarrow> read_section True s = None) \<and>
    (is_eit (section_header_of pd (tid # a # b # y)) \<and> tid \<noteq> 0x72 \<and> uint ((be_word [a, b] :: u16) AND 0xfff) = int (length y) \<and>
      0 < length y \<and> length y \<le> 13 \<longrightarrow> read_section True s = None)"
proof -
  let ?sec = "tid # a # b # y" and ?s = "s\<lparr>section_complete := False\<rparr>"
  define l where "l = uint ((be_word [a, b] :: u16) AND 0xfff)"
  have "before_section pd ?sec stuff k ?s" "ss_bytes_read ?s = 0" using assms(1,3) by simp_all
  from sp_parse_section_header_before [OF this(1) assms(2) this(2)] obtain s1 where s1:
    "sp_parse_section_header default_section_header ?s = Some (section_header_of pd ?sec, s1)" "upcoming pd (y @ stuff) k s1"
    "parser_part s1 = parser_part ?s" "sp_payload s1 = [tid, a, b]" "ss_bytes_read s1 = 3" by blast
  have e: "\<not> ss_error s1" using assms(1) parser_partD(1) [OF s1(3)] by (simp add: before_section_def)
  have p: "(section_header_of pd ?sec)\<lparr>pid := get_pid (current_ts_packet s1)\<rparr> = section_header_of pd ?sec"
    "table_id (section_header_of pd ?sec) = tid" "uint (len (section_header_of pd ?sec)) = l"
    using upcoming_fields [OF s1(2)] by (simp_all add: section_header_of_def l_def Let_def)
  have body: "read_section True s = read_section_body True (section_header_of pd ?sec) s1"
    using s1(1) e p(1) by (simp add: read_section_def)
  have "l \<le> 0xfff" unfolding l_def unsigned_and_eq by (simp add: AND_upper2)
  then have "read_section True s = None" if "l > 4093"
  proof -
    from that have "4093 < nat l" by simp
    then show ?thesis using that \<open>l \<le> 0xfff\<close> s1(4,5) p by (simp add: body read_section_body_def payload_capacity_def Let_def)
  qed
  moreover have "read_section True s = None" if "is_eit (section_header_of pd ?sec)" "tid \<noteq> 0x72" "l = int (length y)" "0 < length y" "length y \<le> 13"
  proof -
    obtain s2 where "ss_get_buffer sp_unit_completed_cb (int (length y)) s1 = Some (y, s2)" "advanced (length y) s1 s2"
      using ss_get_buffer_upcoming [OF s1(2) refl, of sp_unit_completed_cb] by blast
    then show ?thesis using that s1(4,5) p
      by (simp add: body read_section_body_def payload_capacity_def segment_fields_def Let_def)
  qed
  ultimately show ?thesis by (auto simp: l_def)
qed

definition example_section_reader :: "bytes \<Rightarrow> section_parser_t" where
  "example_section_reader bs = (new_section_parser 0x11 (new_event_handler None 0) example_packets (\<lambda>_. 0))
     \<lparr>wait_for_unit_start := False, continuity_counter := 0, current_ts_packet := (example_packets 0)\<lparr>range := over default_data_range [] bs\<rparr>\<rparr>"

lemma example_before: "before_section 0x11 bs [] 0 (example_section_reader bs)" "ss_bytes_read (example_section_reader bs) = 0"
proof -
  have "inside 0x11 bs (example_section_reader bs)"
    by (auto simp: inside_def example_section_reader_def example_packets_def default_ts_packet_def new_section_parser_def new_substream_def
        ts_substream_t.defs section_parser_t.defs get_continuity_counter_def get_pid_def)
  then have "upcoming 0x11 bs 0 (example_section_reader bs)"
    by (auto simp: upcoming_def pending_def example_section_reader_def intro!: exI [of _ bs] exI [of _ "[]"])
  then show "before_section 0x11 bs [] 0 (example_section_reader bs)" "ss_bytes_read (example_section_reader bs) = 0"
    by (simp_all add: before_section_def example_section_reader_def example_packets_def get_pid_def new_section_parser_def new_substream_def
        ts_substream_t.defs section_parser_t.defs)
qed

theorem section_reader_aborts_witness:
  "read_section True (example_section_reader [0x4e, 0x3f, 0xfe]) = None \<and> read_section True (example_section_reader [0x4e, 0xb0, 0x01, 0x00]) = None"
proof
  show "read_section True (example_section_reader [0x4e, 0x3f, 0xfe]) = None"
    using section_reader_aborts [OF example_before(1), of "0x4e" "0x3f" "0xfe" "[]", OF _ example_before(2)] by simp
  have "is_eit (section_header_of 0x11 [0x4e, 0xb0, 0x01, 0x00])" by code_simp
  then show "read_section True (example_section_reader [0x4e, 0xb0, 0x01, 0x00]) = None"
    using section_reader_aborts [OF example_before(1), of "0x4e" "0xb0" "0x01" "[0x00]", OF _ example_before(2)] by simp
qed

subsection \<open>Tables that are handed over\<close>

text \<open>
  What a handler may deliver for a section: the table that the parser of that section kind makes of the stored bytes. A section that
  is delivered because of a time-out may be one its parser refuses, and a program map that timed out is the default one.
\<close>

definition accepted :: "(section_header_t \<Rightarrow> stored_section_t \<Rightarrow> (bool \<times> 't \<times> stored_section_t) option) \<Rightarrow>
    section_header_t \<Rightarrow> stored_section_t \<Rightarrow> bool \<Rightarrow> 't \<Rightarrow> bool" where
  "accepted parser hdr sec timed_out t \<longleftrightarrow> (\<exists>ok rest. parser hdr sec = Some (ok, t, rest) \<and> (ok \<or> timed_out))"

definition pat_accepted :: "section_header_t \<Rightarrow> stored_section_t \<Rightarrow> int \<Rightarrow> bool \<Rightarrow> pat_services_t \<Rightarrow> bool" where
  "pat_accepted hdr sec p timed_out t \<longleftrightarrow> section_syntax_indicator hdr \<and> table_id hdr = 0 \<and>
     accepted (parse_pat_section_hdr default_pat_services) hdr sec timed_out t"

definition pmt_accepted :: "section_header_t \<Rightarrow> stored_section_t \<Rightarrow> int \<Rightarrow> bool \<Rightarrow> pmt_delivery \<Rightarrow> bool" where
  "pmt_accepted hdr sec p timed_out d \<longleftrightarrow> table_id hdr = 2 \<and> pd_is_next d = (\<not> current_next hdr) \<and>
     (if timed_out then pd_pmt d = default_pmt_info
      else accepted (parse_pmt_section_hdr default_pmt_info) hdr sec False (pd_pmt d))"

definition nit_accepted :: "text_env \<Rightarrow> section_header_t \<Rightarrow> stored_section_t \<Rightarrow> int \<Rightarrow> bool \<Rightarrow> nit_network_t \<Rightarrow> bool" where
  "nit_accepted tenv hdr sec p timed_out t \<longleftrightarrow> table_id hdr AND NOT 0x1 = 0x40 \<and>
     accepted (parse_nit_section_hdr tenv default_nit_network) hdr sec timed_out t"

definition sdt_bat_accepted :: "text_env \<Rightarrow> int \<Rightarrow> section_header_t \<Rightarrow> stored_section_t \<Rightarrow> int \<Rightarrow> bool \<Rightarrow> sdt_or_bat \<Rightarrow> bool" where
  "sdt_bat_accepted tenv region hdr sec p timed_out d \<longleftrightarrow>
     (case d of
        Sdt t \<Rightarrow> table_id hdr \<in> {0x42, 0x46} \<and> accepted (parse_sdt_section_hdr tenv default_sdt_services) hdr sec timed_out t
      | Bat t \<Rightarrow> table_id hdr = 0x4A \<and> accepted (parse_bat_section_hdr tenv region default_bouquet) hdr sec False t)"

definition eit_accepted :: "text_env \<Rightarrow> section_header_t \<Rightarrow> stored_section_t \<Rightarrow> int \<Rightarrow> bool \<Rightarrow> epg_kind \<times> epg_t \<Rightarrow> bool" where
  "eit_accepted tenv hdr sec p timed_out d \<longleftrightarrow>
     accepted (if (0x30 \<le> p \<and> p < 0x38) \<or> (0x40 \<le> p \<and> p < 0x48) then parse_sky_section_hdr tenv default_epg
               else parse_eit_section_hdr tenv default_epg) hdr sec timed_out (snd d)"

definition mhw2_accepted :: "text_env \<Rightarrow> section_header_t \<Rightarrow> stored_section_t \<Rightarrow> int \<Rightarrow> bool \<Rightarrow> mhw2_delivery \<Rightarrow> bool" where
  "mhw2_accepted tenv hdr sec p timed_out d \<longleftrightarrow>
     (case d of
        Channels t \<Rightarrow> table_id hdr = 200 \<and> table_id_extension hdr = 0 \<and>
          accepted (parse_mhw2_channel_section_hdr tenv default_bouquet) hdr sec False t
      | Epg_Events kind t \<Rightarrow>
          table_id hdr = 220 \<and> epg_is_mhw2_title kind \<and> accepted (parse_mhw2_title_section_hdr tenv default_epg) hdr sec False t \<or>
          table_id hdr = 150 \<and> p = 642 \<and> epg_is_mhw2_summary kind \<and>
          accepted (\<lambda>_. parse_mhw2_long_summary_section_hdr tenv default_epg) hdr sec False t)"

definition checked_delivery :: "psi_env \<Rightarrow> (section_header_t \<Rightarrow> stored_section_t \<Rightarrow> int \<Rightarrow> bool \<Rightarrow> 'i \<Rightarrow> bool) \<Rightarrow>
    ('i, 'z) table_parser_t_scheme \<Rightarrow> ('i, 'z) table_parser_t_scheme \<Rightarrow> bool" where
  "checked_delivery env parsed s s' \<longleftrightarrow> delivered s' = delivered s \<or>
     (\<exists>i info. delivered s' = delivered s @ [(i, info)] \<and> st_table_id info = hd (sp_payload s') \<and>
        sound_section False (parsed_header s') (sp_payload s') \<and>
        parsed (parsed_header s') (stored_section env s') (sp_pid s') (st_timedout info) i)"

lemma stored_section_cong:
  "sp_payload s' = sp_payload s \<Longrightarrow> parsed_header s' = parsed_header s \<Longrightarrow> stored_section env s' = stored_section env s"
  by (simp add: stored_section_def)

lemma deliver_fields:
  assumes "deliver env cb i info t = Some s'"
  shows "delivered s' = delivered t @ [(i, info)] \<and> sp_payload s' = sp_payload t \<and> parsed_header s' = parsed_header t \<and> sp_pid s' = sp_pid t"
  using assms by (auto simp: deliver_def return_early_def get_packet_for_this_parser_def bind_eq_Some_conv Let_def split: reset_type_t.splits)

lemma more_delivered: "section_parser_t.more s' = section_parser_t.more s \<Longrightarrow> delivered s' = delivered s \<and> parser_status s' = parser_status s"
  by (cases s; cases s') simp

lemma parse_payload_unit_init_sound:
  assumes "parse_payload_unit_init s = Some s'"
  shows "delivered s' = delivered s"
    and "\<not> ss_error s' \<Longrightarrow> sound_section False (parsed_header s') (sp_payload s') \<and> table_id (parsed_header s') = hd (sp_payload s')"
proof -
  obtain h t where t: "read_section False (s\<lparr>event_handler := h, last_play_time := t\<rparr>) = Some s'"
    using assms by (auto simp: parse_payload_unit_init_def bind_eq_Some_conv Let_def split: if_splits)
  note sound = read_section_sound [OF t]
  show "delivered s' = delivered s" using sound more_delivered [of s' "s\<lparr>event_handler := h, last_play_time := t\<rparr>"] by (simp add: keeps_sections_def)
  show "\<not> ss_error s' \<Longrightarrow> sound_section False (parsed_header s') (sp_payload s') \<and> table_id (parsed_header s') = hd (sp_payload s')"
    using sound by (auto simp: sound_section_def header_read_def)
qed

lemma check_hdr_fields:
  "check_hdr env s = Some (r, s') \<Longrightarrow> delivered s' = delivered s \<and> sp_payload s' = sp_payload s \<and> parsed_header s' = parsed_header s \<and> sp_pid s' = sp_pid s"
  by (auto simp: check_hdr_def bind_eq_Some_conv)

lemma checked_refl: "delivered s' = delivered s \<Longrightarrow> checked_delivery env parsed s s'"
  by (simp add: checked_delivery_def)

lemma handler_checked:
  assumes "parse_payload_unit_init s = Some t" "\<not> ss_error t" "check_hdr env (t\<lparr>parsed_header := h\<rparr>) = Some (r, u)"
    "h = parsed_header t \<or> h = (parsed_header t)\<lparr>last_table_id := l\<rparr>"
    "(if c then deliver env cb i (new_subtable_info p a h e d) u else Some u) = Some s'"
    "c \<Longrightarrow> parsed h (stored_section env u) (sp_pid u) d i"
  shows "checked_delivery env parsed s s'"
proof -
  note i = parse_payload_unit_init_sound [OF assms(1)]
  have u: "delivered u = delivered s" "sp_payload u = sp_payload t" "parsed_header u = h"
    using check_hdr_fields [OF assms(3)] i(1) by simp_all
  have h: "sound_section False h (sp_payload t)" "table_id h = hd (sp_payload t)"
    using assms(4)
    by (elim disjE; hypsubst; use i(2) [OF assms(2)] in \<open>simp add: sound_section_def header_read_def\<close>)+
  show ?thesis
  proof (cases c)
    case True
    then have "deliver env cb i (new_subtable_info p a h e d) u = Some s'" using assms(5) by simp
    from deliver_fields [OF this] show ?thesis
      using assms(6) [OF True] by (auto simp: checked_delivery_def u h new_subtable_info_def stored_section_def)
  next
    case False
    then show ?thesis using assms(5) u(1) by (simp add: checked_refl)
  qed
qed

lemmas handler_checked_same = handler_checked [of _ t _ "parsed_header t" for t, simplified]

lemma bind_SomeE:
  assumes "Option.bind m f = Some y" obtains x where "m = Some x" "f x = Some y"
  using assms by (auto simp: bind_eq_Some_conv)


lemma pat_checked:
  assumes "pat_parse_payload_unit env cb s = Some s'" shows "checked_delivery env pat_accepted s s'"
proof -
  obtain t where t: "parse_payload_unit_init s = Some t" using assms by (auto simp: pat_parse_payload_unit_def elim: bind_SomeE)
  note refl = parse_payload_unit_init_sound(1) [OF t]
  show ?thesis
  proof (cases "ss_error t \<or> table_id (parsed_header t) \<noteq> 0x0 \<or> \<not> section_syntax_indicator (parsed_header t)")
    case True
    then show ?thesis using assms t refl by (auto simp: pat_parse_payload_unit_def Let_def split: if_split_asm intro!: checked_refl)
  next
    case False
    with assms t obtain timedout bad y u ok i where u: "check_hdr env t = Some ((timedout, bad, y), u)"
      and p: "(if must_process y \<or> timedout
         then do {
           (success, services, _) \<leftarrow> parse_pat_section_hdr default_pat_services (parsed_header t) (stored_section env u);
           if success \<and> pat_entries services = []
           then do { _ \<leftarrow> parse_pat_section_hdr default_pat_services (parsed_header t) (stored_section env u); Some (success, services) }
           else Some (success, services)
         }
         else Some (False, default_pat_services)) = Some (ok, i)"
      and d: "(if ok \<or> timedout then deliver env cb i (new_subtable_info (sp_pid u) True (parsed_header t) (done_now y) timedout) u
        else Some u) = Some s'"
      by (auto simp: pat_parse_payload_unit_def Let_def simp del: if_split split: prod.split_asm elim!: bind_SomeE)
    show ?thesis
      using False p by (intro handler_checked_same [OF t _ u d])
        (auto simp: pat_accepted_def accepted_def elim!: bind_SomeE split: if_split_asm)
  qed
qed

lemma pmt_checked:
  assumes "pmt_parse_payload_unit env cb s = Some s'" shows "checked_delivery env pmt_accepted s s'"
proof -
  obtain t where t: "parse_payload_unit_init s = Some t" using assms by (auto simp: pmt_parse_payload_unit_def elim: bind_SomeE)
  note refl = parse_payload_unit_init_sound(1) [OF t]
  show ?thesis
  proof (cases "ss_error t \<or> table_id (parsed_header t) \<noteq> 0x2")
    case True
    then show ?thesis using assms t refl by (auto simp: pmt_parse_payload_unit_def Let_def split: if_split_asm intro!: checked_refl)
  next
    case False
    with assms t obtain timedout bad y u where u: "check_hdr env t = Some ((timedout, bad, y), u)"
      and d: "(if must_process y \<or> timedout
        then do {
          (success, pmt, sec) \<leftarrow> (if timedout then Some (True, default_pmt_info, stored_section env u)
            else parse_pmt_section_hdr default_pmt_info (parsed_header t) (stored_section env u));
          if success then deliver env (\<lambda>d _. cb d) \<lparr>pd_pmt = pmt, stream_packetno_end = last_pmt_end_bytepos (event_handler u) div 188,
            pd_is_next = (\<not> current_next (parsed_header t)), pd_bytes = payload sec\<rparr>
            (new_subtable_info (sp_pid u) True (parsed_header t) (done_now y) timedout) u
          else Some u
        } else Some u) = Some s'"
      by (auto simp: pmt_parse_payload_unit_def Let_def simp del: if_split split: prod.split_asm if_split_asm elim!: bind_SomeE)
    show ?thesis
    proof (cases "must_process y \<or> timedout")
      case True
      with d obtain ok pmt sec where p: "(if timedout then Some (True, default_pmt_info, stored_section env u)
            else parse_pmt_section_hdr default_pmt_info (parsed_header t) (stored_section env u)) = Some (ok, pmt, sec)"
        and d': "(if ok then deliver env (\<lambda>d _. cb d) \<lparr>pd_pmt = pmt, stream_packetno_end = last_pmt_end_bytepos (event_handler u) div 188,
            pd_is_next = (\<not> current_next (parsed_header t)), pd_bytes = payload sec\<rparr>
            (new_subtable_info (sp_pid u) True (parsed_header t) (done_now y) timedout) u
          else Some u) = Some s'"
        by (auto simp del: if_split split: prod.split_asm elim!: bind_SomeE)
      show ?thesis
        using False p by (intro handler_checked_same [OF t _ u d']) (auto simp: pmt_accepted_def accepted_def split: if_split_asm)
    next
      case False
      then show ?thesis using d refl check_hdr_fields [OF u] by (auto intro!: checked_refl)
    qed
  qed
qed

lemma nit_checked:
  assumes "nit_parse_payload_unit env cb s = Some s'" shows "checked_delivery env (nit_accepted (env_text env)) s s'"
proof -
  obtain t where t: "parse_payload_unit_init s = Some t" using assms by (auto simp: nit_parse_payload_unit_def elim: bind_SomeE)
  note refl = parse_payload_unit_init_sound(1) [OF t]
  show ?thesis
  proof (cases "ss_error t \<or> table_id (parsed_header t) = 0x72 \<or> table_id (parsed_header t) AND NOT 0x1 \<noteq> 0x40")
    case True
    then show ?thesis using assms t refl by (auto simp: nit_parse_payload_unit_def Let_def split: if_split_asm intro!: checked_refl)
  next
    case False
    with assms t obtain timedout bad y u ok i where u: "check_hdr env t = Some ((timedout, bad, y), u)"
      and p: "(if must_process y \<or> timedout
         then do {
           (success, network, _) \<leftarrow> parse_nit_section_hdr (env_text env) default_nit_network (parsed_header t) (stored_section env u);
           Some (success, network)
         }
         else Some (False, default_nit_network\<lparr>nit_is_actual := (table_id (parsed_header t) = 0x40)\<rparr>)) = Some (ok, i)"
      and d: "(if ok \<or> timedout then deliver env cb i (new_subtable_info (sp_pid u) (nit_is_actual i) (parsed_header t) (done_now y) timedout) u
        else Some u) = Some s'"
      by (auto simp: nit_parse_payload_unit_def Let_def simp del: if_split split: prod.split_asm if_split_asm elim!: bind_SomeE)
    show ?thesis
      using False p by (intro handler_checked_same [OF t _ u d])
        (auto simp: nit_accepted_def accepted_def elim!: bind_SomeE split: if_split_asm)
  qed
qed

lemma sdt_bat_checked:
  assumes "sdt_bat_parse_payload_unit env region cb s = Some s'"
  shows "checked_delivery env (sdt_bat_accepted (env_text env) region) s s'"
proof -
  obtain t where t: "parse_payload_unit_init s = Some t" using assms by (auto simp: sdt_bat_parse_payload_unit_def elim: bind_SomeE)
  note refl = parse_payload_unit_init_sound(1) [OF t]
  let ?sdt = "table_id (parsed_header t) = 0x42 \<or> table_id (parsed_header t) = 0x46"
  show ?thesis
  proof (cases "ss_error t \<or> table_id (parsed_header t) = 0x72 \<or> \<not> ?sdt \<and> table_id (parsed_header t) \<noteq> 0x4A")
    case True
    then show ?thesis using assms t refl by (auto simp: sdt_bat_parse_payload_unit_def Let_def split: if_split_asm intro!: checked_refl)
  next
    case False
    with assms t obtain timedout bad y u where u: "check_hdr env t = Some ((timedout, bad, y), u)"
      and d: "(if ?sdt
       then do {
         (success, services) \<leftarrow> (if must_process y \<or> timedout
           then do {
             (success, services, _) \<leftarrow> parse_sdt_section_hdr (env_text env) default_sdt_services (parsed_header t) (stored_section env u);
             Some (success, services)
           }
           else Some (False, default_sdt_services\<lparr>sdt_is_actual := (table_id (parsed_header t) = 0x42)\<rparr>));
         if success \<or> timedout
         then deliver env cb (Sdt services) (new_subtable_info (sp_pid u) (sdt_is_actual services) (parsed_header t) (done_now y) timedout) u
         else Some u
       }
       else if must_process y \<or> timedout
       then do {
         (success, bouquet, _) \<leftarrow> parse_bat_section_hdr (env_text env) region default_bouquet (parsed_header t) (stored_section env u);
         if success
         then deliver env cb (Bat bouquet) (new_subtable_info (sp_pid u) True (parsed_header t) (done_now y) False) u
         else Some u
       }
       else Some u) = Some s'"
      by (auto simp: sdt_bat_parse_payload_unit_def Let_def simp del: if_split split: prod.split_asm if_split_asm elim!: bind_SomeE)
    note same = handler_checked_same [OF t _ u]
    consider (sdt) ?sdt | (bat) "\<not> ?sdt" "must_process y \<or> timedout" | (other) "\<not> ?sdt" "\<not> (must_process y \<or> timedout)" by blast
    then show ?thesis
    proof cases
      case sdt
      then obtain ok i where "(if must_process y \<or> timedout
           then do {
             (success, services, _) \<leftarrow> parse_sdt_section_hdr (env_text env) default_sdt_services (parsed_header t) (stored_section env u);
             Some (success, services)
           }
           else Some (False, default_sdt_services\<lparr>sdt_is_actual := (table_id (parsed_header t) = 0x42)\<rparr>)) = Some (ok, i)"
        and d': "(if ok \<or> timedout then deliver env cb (Sdt i) (new_subtable_info (sp_pid u) (sdt_is_actual i) (parsed_header t) (done_now y) timedout) u
          else Some u) = Some s'"
        using d unfolding if_P [OF sdt] by (auto simp del: if_split elim!: bind_SomeE)
      then show ?thesis using False sdt
        by (intro same [OF _ d']) (auto simp: sdt_bat_accepted_def accepted_def elim!: bind_SomeE split: if_split_asm)
    next
      case bat
      then obtain ok i rest where "parse_bat_section_hdr (env_text env) region default_bouquet (parsed_header t) (stored_section env u) = Some (ok, i, rest)"
        and d': "(if ok then deliver env cb (Bat i) (new_subtable_info (sp_pid u) True (parsed_header t) (done_now y) False) u else Some u) = Some s'"
        using d unfolding if_not_P [OF bat(1)] if_P [OF bat(2)] by (auto simp del: if_split elim!: bind_SomeE)
      then show ?thesis using False bat(1) by (intro same [OF _ d']) (auto simp: sdt_bat_accepted_def accepted_def)
    next
      case other
      then show ?thesis using d refl check_hdr_fields [OF u] by (auto intro!: checked_refl)
    qed
  qed
qed

lemma mhw2_section_accepted:
  "mhw2_section env epg_type tab hdr sec = Some (True, d) \<Longrightarrow> mhw2_table_of p hdr = Some tab \<Longrightarrow> mhw2_accepted (env_text env) hdr sec p b d"
  by (cases tab) (auto simp: mhw2_section_def mhw2_accepted_def mhw2_table_of_def accepted_def split: if_split_asm elim!: bind_SomeE)

lemma mhw2_checked:
  assumes "mhw2_parse_payload_unit env epg_type cb s = Some s'" shows "checked_delivery env (mhw2_accepted (env_text env)) s s'"
proof -
  obtain t where t: "parse_payload_unit_init s = Some t" using assms by (auto simp: mhw2_parse_payload_unit_def elim: bind_SomeE)
  note refl = parse_payload_unit_init_sound(1) [OF t]
  show ?thesis
  proof (cases "ss_error t \<or> table_id (parsed_header t) = 0x72 \<or> mhw2_table_of (sp_pid t) (parsed_header t) = None")
    case True
    then show ?thesis using assms t refl by (auto simp: mhw2_parse_payload_unit_def Let_def split: if_split_asm intro!: checked_refl)
  next
    case False
    then obtain tab where tab: "mhw2_table_of (sp_pid t) (parsed_header t) = Some tab" by blast
    with False assms t obtain timedout bad y u where u: "check_hdr env t = Some ((timedout, bad, y), u)"
      and d: "(if must_process y \<or> timedout
         then do {
           (success, d) \<leftarrow> mhw2_section env epg_type tab (parsed_header t) (stored_section env u);
           if success \<and> must_process y
           then deliver env cb d (new_subtable_info (sp_pid u) True (parsed_header t) (done_now y) False) u
           else Some u
         }
         else Some u) = Some s'"
      by (auto simp: mhw2_parse_payload_unit_def Let_def simp del: if_split split: prod.split_asm if_split_asm elim!: bind_SomeE)
    have pid: "sp_pid u = sp_pid t" using check_hdr_fields [OF u] by simp
    show ?thesis
    proof (cases "must_process y \<or> timedout")
      case c: True
      obtain ok i where i: "mhw2_section env epg_type tab (parsed_header t) (stored_section env u) = Some (ok, i)"
        and d': "(if ok \<and> must_process y then deliver env cb i (new_subtable_info (sp_pid u) True (parsed_header t) (done_now y) False) u
          else Some u) = Some s'"
        using d unfolding if_P [OF c] by (auto simp del: if_split elim!: bind_SomeE)
      show ?thesis using False i tab pid
        by (intro handler_checked_same [OF t _ u d']) (auto intro: mhw2_section_accepted)
    next
      case no: False
      show ?thesis using d refl check_hdr_fields [OF u] unfolding if_not_P [OF no] by (auto intro!: checked_refl)
    qed
  qed
qed

lemma eit_checked:
  assumes "eit_parse_payload_unit env epg_type cb s = Some s'" shows "checked_delivery env (eit_accepted (env_text env)) s s'"
proof -
  obtain t where t: "parse_payload_unit_init s = Some t" using assms by (auto simp: eit_parse_payload_unit_def elim: bind_SomeE)
  note refl = parse_payload_unit_init_sound(1) [OF t]
  show ?thesis
  proof (cases "ss_error t \<or> table_id (parsed_header t) = 0x72")
    case True
    then show ?thesis using assms t refl by (auto simp: eit_parse_payload_unit_def Let_def split: if_split_asm intro!: checked_refl)
  next
    case False
    define h where "h = (if table_id (parsed_header t) > last_table_id (parsed_header t)
      then (parsed_header t)\<lparr>last_table_id := table_id (parsed_header t)\<rparr> else parsed_header t)"
    have h: "h = parsed_header t \<or> h = (parsed_header t)\<lparr>last_table_id := table_id (parsed_header t)\<rparr>" by (simp add: h_def)
    from False assms obtain timedout bad y u where u: "check_hdr env (t\<lparr>parsed_header := h\<rparr>) = Some ((timedout, bad, y), u)"
      and d: "do {
         let kind = eit_kind (sp_pid u) epg_type (parser_status u);
         (success, epg) \<leftarrow> (if must_process y \<or> timedout
           then do {
             (success, epg, _) \<leftarrow> (if epg_is_sky kind
               then parse_sky_section_hdr (env_text env) default_epg h (stored_section env u)
               else parse_eit_section_hdr (env_text env) default_epg h (stored_section env u));
             Some (success, epg)
           }
           else Some (False, default_epg\<lparr>epg_is_actual := (\<not> epg_is_sky kind \<and>
                  (table_id h = 0x4e \<or> (table_id h \<ge> 0x50 \<and> table_id h \<le> 0x5f)))\<rparr>));
         if success \<or> timedout
         then deliver env cb (kind, epg) (new_subtable_info (sp_pid u) (epg_is_actual epg) h (done_now y) timedout) u
         else Some u
       } = Some s'"
      unfolding eit_parse_payload_unit_def t Option.bind_lunit Let_def h_def [symmetric]
      by (auto simp del: if_split split: prod.split_asm if_split_asm elim!: bind_SomeE)
    let ?kind = "eit_kind (sp_pid u) epg_type (parser_status u)"
    obtain ok i where i: "(if must_process y \<or> timedout
           then do {
             (success, epg, _) \<leftarrow> (if epg_is_sky ?kind
               then parse_sky_section_hdr (env_text env) default_epg h (stored_section env u)
               else parse_eit_section_hdr (env_text env) default_epg h (stored_section env u));
             Some (success, epg)
           }
           else Some (False, default_epg\<lparr>epg_is_actual := (\<not> epg_is_sky ?kind \<and>
                  (table_id h = 0x4e \<or> (table_id h \<ge> 0x50 \<and> table_id h \<le> 0x5f)))\<rparr>)) = Some (ok, i)"
      and d': "(if ok \<or> timedout then deliver env cb (?kind, i) (new_subtable_info (sp_pid u) (epg_is_actual i) h (done_now y) timedout) u
        else Some u) = Some s'"
      using d unfolding Let_def by (auto simp del: if_split elim!: bind_SomeE)
    have "epg_is_sky ?kind \<longleftrightarrow> (0x30 \<le> sp_pid u \<and> sp_pid u < 0x38) \<or> (0x40 \<le> sp_pid u \<and> sp_pid u < 0x48)"
      by (auto simp: eit_kind_def Let_def split: prod.split)
    then show ?thesis using False i
      by (intro handler_checked [OF t _ u h d']) (auto simp: eit_accepted_def accepted_def elim!: bind_SomeE split: if_split_asm)
  qed
qed

text \<open>C4: A call of one of the six table handlers hands over at most one table and keeps what was handed over before. The table is exactly
  what the parser for that kind of section makes of the stored bytes, which are a complete section of the announced length with the table
  number of its header; the checksum is right whenever the section has the syntax indicator (the program association handler insists on
  it, the others hand over sections without it unchecked). A table that timed out may be one that its parser refuses, and a program map
  that timed out is the default one.\<close>
theorem table_deliveries_checked:
  "(pat_parse_payload_unit env cb1 s1 = Some s1' \<longrightarrow> checked_delivery env pat_accepted s1 s1') \<and>
   (pmt_parse_payload_unit env cb2 s2 = Some s2' \<longrightarrow> checked_delivery env pmt_accepted s2 s2') \<and>
   (nit_parse_payload_unit env cb3 s3 = Some s3' \<longrightarrow> checked_delivery env (nit_accepted (env_text env)) s3 s3') \<and>
   (sdt_bat_parse_payload_unit env region cb4 s4 = Some s4' \<longrightarrow> checked_delivery env (sdt_bat_accepted (env_text env) region) s4 s4') \<and>
   (eit_parse_payload_unit env epg_type cb5 s5 = Some s5' \<longrightarrow> checked_delivery env (eit_accepted (env_text env)) s5 s5') \<and>
   (mhw2_parse_payload_unit env epg_type cb6 s6 = Some s6' \<longrightarrow> checked_delivery env (mhw2_accepted (env_text env)) s6 s6')"
  by (simp add: pat_checked pmt_checked nit_checked sdt_bat_checked eit_checked mhw2_checked)

text \<open>A program association table with one service, as it comes out of a packet.\<close>

definition example_table_parser :: "bytes \<Rightarrow> 'i table_parser_t" where
  "example_table_parser bs =
     (let r = example_section_reader bs
      in section_parser_t.extend (r\<lparr>sp_pid := 0, current_ts_packet := (current_ts_packet r)\<lparr>header := 0x4000\<rparr>\<rparr>)
           (table_parser_t.fields new_parser_status []))"

definition example_pat :: bytes where
  "example_pat = [0, 0xb0, 0x0d, 0, 1, 0xc1, 0, 0, 0, 1, 0xe0, 0x20, 0xa2, 0xc3, 0x29, 0x41]"

definition example_psi_env :: psi_env where
  "example_psi_env = \<lparr>env_now = (\<lambda>_. 0), env_junk = (\<lambda>_. 0), env_text = latin_env\<rparr>"

theorem table_deliveries_checked_witness:
  "\<exists>s'. pat_parse_payload_unit example_psi_env (\<lambda>_ _. NO_RESET) (example_table_parser example_pat) = Some s' \<and>
    map (pat_entries \<circ> fst) (delivered s') = [[\<lparr>pat_service_id = 1, pat_pmt_pid = 0x20\<rparr>]] \<and>
    checked_delivery example_psi_env pat_accepted (example_table_parser example_pat) s'"
proof -
  have "map_option (\<lambda>s. map (pat_entries \<circ> fst) (delivered s))
      (pat_parse_payload_unit example_psi_env (\<lambda>_ _. NO_RESET) (example_table_parser example_pat)) = Some [[\<lparr>pat_service_id = 1, pat_pmt_pid = 0x20\<rparr>]]"
    by code_simp
  then show ?thesis by (auto intro: table_deliveries_checked [THEN conjunct1, rule_format])
qed

text \<open>C22: When packets are missing, the reader of sections reports an error, reads past the packets up to the next one that starts a unit,
  and stands in that packet.\<close>
theorem section_resync:
  assumes "out_of_sequence (continuity_counter s) (arriving s (arrived s))"
    and "\<forall>i \<le> n. plain (arriving s (arrived s + i))" "\<forall>i < n. \<not> get_payload_unit_start (arriving s (arrived s + i))"
    and "get_payload_unit_start (arriving s (arrived s + n))"
    and "n > 0 \<longrightarrow> get_continuity_counter (arriving s (arrived s + n)) \<noteq> get_continuity_counter (arriving s (arrived s + n - 1))"
  shows "\<exists>s'. get_next_packet sp_unit_completed_cb s = Some s' \<and> ss_error s' \<and> \<not> wait_for_unit_start s' \<and> arrived s' = arrived s + n + 1 \<and>
    header (current_ts_packet s') = header (arriving s (arrived s + n))"
  using assms by (rule sec.resync)

theorem section_resync_witness:
  "\<exists>s'. get_next_packet sp_unit_completed_cb ((example_section_reader [])\<lparr>arrived := 3\<rparr>) = Some s' \<and> ss_error s' \<and> \<not> wait_for_unit_start s' \<and>
    arrived s' = 3 + 0 + 1 \<and> header (current_ts_packet s') = 0x4011"
proof -
  let ?s = "(example_section_reader [])\<lparr>arrived := 3\<rparr>"
  have "arriving ?s = example_packets" "continuity_counter ?s = 0" by (simp_all add: example_section_reader_def)
  moreover have "plain (example_packets 3)"
    by (auto simp: plain_def example_packets_def default_ts_packet_def has_pcr_def)
  moreover have "out_of_sequence 0 (example_packets 3)" "get_payload_unit_start (example_packets 3)" "header (example_packets 3) = 0x4011"
    by code_simp+
  ultimately show ?thesis using section_resync [of ?s 0] by simp
qed

end
