(* ===== verification/Pes.thy ===== *)
theory Pes
  imports Substream
begin

text \<open>
  The parsers of elementary streams (\<open>receiver/streamparser/pes.h\<close>, \<open>pes.cc\<close> and the frame types of \<open>mpeg.h\<close>): the header of a
  packetised unit with its time stamps, the type of the picture that starts in it, and the entry in the index of the
  recording when the unit is complete. The parsers extend the record of the packet reader. \<open>None\<close> is a failed
  assertion, an undefined shift or a loop that waits forever.
\<close>

record pes_parser_t = ts_substream_t +
  pes_stream_id :: u8
  pes_packet_len :: int
  pes_header_len :: int
  flags1 :: u8
  flags2 :: u8
  pes_header_data_len :: u8
  pes_clock_period :: pts_dts_t
  pes_pts :: pts_dts_t
  pes_dts :: pts_dts_t
  last_pts :: pts_dts_t
  last_dts :: pts_dts_t

definition new_pes_parser :: "event_handler_t \<Rightarrow> (nat \<Rightarrow> ts_packet_t) \<Rightarrow> (nat \<Rightarrow> int) \<Rightarrow> pes_parser_t" where
  "new_pes_parser h ps clock = ts_substream_t.extend (new_substream False illegal h ps clock)
     (pes_parser_t.fields 0 0 0 0 0 0 pts_invalid pts_invalid pts_invalid pts_invalid pts_invalid)"

definition has_pts :: "'z pes_parser_t_scheme \<Rightarrow> bool" where
  "has_pts s \<longleftrightarrow> pts_is_valid (pes_pts s)"

definition has_dts :: "'z pes_parser_t_scheme \<Rightarrow> bool" where
  "has_dts s \<longleftrightarrow> pts_is_valid (pes_dts s)"

definition dts_or_pts :: "'z pes_parser_t_scheme \<Rightarrow> pts_dts_t" where
  "dts_or_pts s = (if pts_is_valid (pes_dts s) then pes_dts s else pes_pts s)"

subsection \<open>Kinds of streams and frames\<close>

definition is_pes :: "u8 \<Rightarrow> bool" where
  "is_pes st \<longleftrightarrow> st \<in> {0x01, 0x02, 0x03, 0x04, 0x06, 0x09, 0x10, 0x11, 0x12, 0x15, 0x1B, 0x0F, 0x81, 0x87, 0x24, 0x25, 0x90}"

definition is_mpeg2 :: "u8 \<Rightarrow> bool" where
  "is_mpeg2 st \<longleftrightarrow> st = 0x01 \<or> st = 0x02"

definition is_private :: "u8 \<Rightarrow> bool" where
  "is_private st \<longleftrightarrow> st = 0x06"

definition h264_frame_type :: "u8 \<Rightarrow> marker_type" where
  "h264_frame_type pic_type =
     (if pic_type \<in> {0, 3, 5} then i_frame
      else if pic_type \<in> {1, 4, 6} then p_frame
      else if pic_type \<in> {2, 7} then b_frame
      else illegal)"

definition mpeg2_frame_type :: "u16 \<Rightarrow> marker_type" where
  "mpeg2_frame_type pic_type =
     (if pic_type = 1 then i_frame else if pic_type = 2 then p_frame else if pic_type = 3 then b_frame else illegal)"

definition is_iframe :: "marker_type \<Rightarrow> bool" where
  "is_iframe t \<longleftrightarrow> t = i_frame"

subsection \<open>Units\<close>

text \<open>A unit is complete when the next one starts: it is noted in the index, unless its type is not known.\<close>

definition pes_unit_completed_cb :: "'z pes_parser_t_scheme \<Rightarrow> 'z pes_parser_t_scheme" where
  "pes_unit_completed_cb s =
     (let s = (if current_unit_type s \<noteq> illegal
               then s\<lparr>event_handler := index_event (current_unit_type s) (last_play_time s) (current_unit_start_bytepos s)
                       (current_unit_end_bytepos s) (event_handler s)\<rparr>
               else s)
      in s\<lparr>current_unit_start_bytepos := word_of_int (dr_start_bytepos (range (current_ts_packet s)))\<rparr>)"

text \<open>The same method of the video and of the audio parser.\<close>

definition on_pes_start :: "'z pes_parser_t_scheme \<Rightarrow> 'z pes_parser_t_scheme option" where
  "on_pes_start s = do {
     let s = s\<lparr>last_pts := pes_pts s, last_dts := pes_dts s\<rparr>;
     (new_last_play_time, h) \<leftarrow> pcr_play_time (event_handler s);
     if new_last_play_time \<ge> last_play_time s
     then Some (s\<lparr>event_handler := h, last_play_time := new_last_play_time\<rparr>)
     else None
   }"

text \<open>The time stamps of a header, and the number of bytes they take.\<close>

definition get_time_stamps :: "u8 \<Rightarrow> 'z pes_parser_t_scheme \<Rightarrow> (int \<times> 'z pes_parser_t_scheme) option" where
  "get_time_stamps pts_dts s =
     (if pts_dts = 0 then Some (0, s\<lparr>pes_pts := pts_invalid, pes_dts := pts_invalid\<rparr>)
      else if pts_dts = 2
      then do {
        (t, s) \<leftarrow> get_pts_or_dts pes_unit_completed_cb s;
        Some (5, s\<lparr>pes_pts := t, pes_dts := t\<rparr>)
      }
      else if pts_dts = 3
      then do {
        (t, s) \<leftarrow> get_pts_or_dts pes_unit_completed_cb s;
        let s = s\<lparr>pes_pts := t\<rparr>;
        let old = pes_dts s;
        (t, s) \<leftarrow> get_pts_or_dts pes_unit_completed_cb s;
        let s = s\<lparr>pes_dts := t\<rparr>;
        s \<leftarrow> (if pts_is_valid old
              then do { c \<leftarrow> check_pes_discontinuity (pes_clock_period s) old t; Some (s\<lparr>pes_clock_period := c\<rparr>) }
              else Some s);
        Some (10, s)
      }
      else Some (0, s))"

definition parse_pes_header :: "'z pes_parser_t_scheme \<Rightarrow> (bool \<times> 'z pes_parser_t_scheme) option" where
  "parse_pes_header s =
     (if \<not> get_payload_unit_start (current_ts_packet s) then Some (False, s)
      else do {
        (sid, s) \<leftarrow> get_start_code pes_unit_completed_cb s;
        let s = s\<lparr>pes_stream_id := sid\<rparr>;
        (l, s) \<leftarrow> ss_get pes_unit_completed_cb 2 s;
        let s = s\<lparr>pes_packet_len := uint (l :: u16)\<rparr>;
        (f1, s) \<leftarrow> ss_get pes_unit_completed_cb 1 s;
        let s = s\<lparr>flags1 := f1\<rparr>;
        if f1 AND 0xc0 \<noteq> 0x80 then Some (False, ss_throw_bad_data s)
        else do {
          (f2, s) \<leftarrow> ss_get pes_unit_completed_cb 1 s;
          let s = s\<lparr>flags2 := f2\<rparr>;
          (n, s) \<leftarrow> ss_get pes_unit_completed_cb 1 s;
          let s = s\<lparr>pes_header_data_len := n, pes_header_len := uint n + 8\<rparr>;
          (used, s) \<leftarrow> get_time_stamps (drop_bit 6 f2 AND 0x3) s;
          let toskip = uint n - used;
          if toskip < 0 then Some (False, ss_throw_bad_data s)
          else do {
            s \<leftarrow> (if toskip > 0 then ss_skip pes_unit_completed_cb toskip s else Some s);
            Some (True, s)
          }
        }
      })"

subsection \<open>H.264\<close>

text \<open>The method for slice headers has no caller.\<close>

definition h264_parse_slice_header :: "int \<Rightarrow> 'z pes_parser_t_scheme \<Rightarrow> 'z pes_parser_t_scheme option" where
  "h264_parse_slice_header nal_unit_type s = do {
     (byte, s) \<leftarrow> ss_get pes_unit_completed_cb 1 s;
     (_, st) \<leftarrow> get_Golomb_UE pes_unit_completed_cb (byte, 7, s);
     (_, st) \<leftarrow> get_Golomb_UE pes_unit_completed_cb st;
     (_, st) \<leftarrow> get_Golomb_UE pes_unit_completed_cb st;
     (_, st) \<leftarrow> get_bits pes_unit_completed_cb 4 st;
     (field_pic_flag, st) \<leftarrow> get_bits pes_unit_completed_cb 1 st;
     st \<leftarrow> (if field_pic_flag \<noteq> 0 then do { (_, st) \<leftarrow> get_bits pes_unit_completed_cb 1 st; Some st } else Some st);
     st \<leftarrow> (if nal_unit_type = 5 then do { (_, st) \<leftarrow> get_Golomb_UE pes_unit_completed_cb st; Some st } else Some st);
     (_, st) \<leftarrow> get_Golomb_SE pes_unit_completed_cb st;
     st \<leftarrow> (if field_pic_flag = 0 then do { (_, st) \<leftarrow> get_Golomb_SE pes_unit_completed_cb st; Some st } else Some st);
     Some (snd (snd st))
   }"

text \<open>The type of the access unit behind its delimiter.\<close>

definition h264_access_unit :: "'z pes_parser_t_scheme \<Rightarrow> 'z pes_parser_t_scheme option" where
  "h264_access_unit s = do {
     (b, s) \<leftarrow> ss_get pes_unit_completed_cb 1 s;
     if b AND 0x1f \<noteq> (0x10 :: u8) then Some (ss_throw_bad_data s)
     else do {
       let primary_pic_type = drop_bit 5 b;
       let primary_pic_type = (if primary_pic_type > 5 then primary_pic_type - 5 else primary_pic_type);
       let s = s\<lparr>current_unit_type := h264_frame_type primary_pic_type\<rparr>;
       Some (if is_iframe (current_unit_type s) \<and> \<not> has_pts s then ss_throw_bad_data s else s)
     }
   }"

definition h264_extension :: "u8 \<Rightarrow> int" where
  "h264_extension code =
     (let nal_unit_type = code AND 0x1f;
          has_svc_extension_flag = (nal_unit_type = 4 \<or> nal_unit_type = 20);
          has_avc_3d_extension_flag = (nal_unit_type = 21);
          extension_flag = (code AND 1 \<noteq> 0)
      in if has_svc_extension_flag \<or> has_avc_3d_extension_flag
         then if extension_flag \<and> has_svc_extension_flag then 3 else if extension_flag \<and> has_avc_3d_extension_flag then 2 else 3
         else 0)"

definition h264_parse_payload_unit :: "'z pes_parser_t_scheme \<Rightarrow> 'z pes_parser_t_scheme option" where
  "h264_parse_payload_unit s = do {
     (is_payload_unit_start, s) \<leftarrow> parse_pes_header s;
     if ss_error s then Some s
     else if \<not> is_payload_unit_start then Some s
     else do {
       s \<leftarrow> on_pes_start s;
       (code, s) \<leftarrow> get_nalu_start_code pes_unit_completed_cb s;
       if code AND 0x80 \<noteq> 0 \<and> ss_error s then Some s
       else if code AND 0x1f \<noteq> 0x9 \<and> ss_error s then Some s
       else do {
         s \<leftarrow> (if h264_extension code \<noteq> 0 then ss_skip pes_unit_completed_cb (h264_extension code) s else Some s);
         h264_access_unit s
       }
     }
   }"

subsection \<open>MPEG-2\<close>

definition mpeg2_sequence_header :: "'z pes_parser_t_scheme \<Rightarrow> 'z pes_parser_t_scheme option" where
  "mpeg2_sequence_header s = do {
     (_ :: u8, s) \<leftarrow> ss_get pes_unit_completed_cb 1 s;
     (_ :: u8, s) \<leftarrow> ss_get pes_unit_completed_cb 1 s;
     (_ :: u8, s) \<leftarrow> ss_get pes_unit_completed_cb 1 s;
     (_ :: u8, s) \<leftarrow> ss_get pes_unit_completed_cb 1 s;
     s \<leftarrow> ss_skip pes_unit_completed_cb 3 s;
     (quantiser_flags :: u8, s) \<leftarrow> ss_get pes_unit_completed_cb 1 s;
     (quantiser_flags :: u8, s) \<leftarrow>
       (if quantiser_flags AND 0x2 \<noteq> 0
        then do { s \<leftarrow> ss_skip pes_unit_completed_cb 63 s; ss_get pes_unit_completed_cb 1 s }
        else Some (quantiser_flags, s));
     if quantiser_flags AND 0x01 \<noteq> 0 then ss_skip pes_unit_completed_cb 64 s else Some s
   }"

text \<open>The next start code that is not one of an extension.\<close>

definition skip_extensions :: "'z pes_parser_t_scheme \<Rightarrow> (u8 \<times> 'z pes_parser_t_scheme) option" where
  "skip_extensions s = do {
     r \<leftarrow> while_return (\<lambda>_. True)
       (\<lambda>s. do { (code, s) \<leftarrow> next_start_code pes_unit_completed_cb s; Some (if code = 0xb5 then Inr s else Inl (code, s)) }) s;
     case r of Inl v \<Rightarrow> Some v | Inr _ \<Rightarrow> None
   }"

text \<open>
  One round of the loop over start codes; the start code is given when the round begins at the label \<open>dont_read\<close>. The result
  is the parser at the end of the unit or the start of the next round.
\<close>

definition mpeg2_step :: "u8 option \<times> 'z pes_parser_t_scheme \<Rightarrow>
    ('z pes_parser_t_scheme + (u8 option \<times> 'z pes_parser_t_scheme)) option" where
  "mpeg2_step st =
     (case st of (c, s) \<Rightarrow> do {
        (code, s) \<leftarrow> (case c of Some code \<Rightarrow> Some (code, s) | None \<Rightarrow> next_start_code pes_unit_completed_cb s);
        if c = None \<and> has_problem s then Some (Inl s)
        else if code = 0x0
        then do {
          (temporal_reference, s) \<leftarrow> ss_get pes_unit_completed_cb 2 s;
          Some (Inl (s\<lparr>current_unit_type := mpeg2_frame_type (drop_bit 3 temporal_reference AND 7)\<rparr>))
        }
        else if code = 0xb3 then do { s \<leftarrow> mpeg2_sequence_header s; Some (Inr (None, s)) }
        else if code = 0xb5
        then do {
          s \<leftarrow> ss_skip pes_unit_completed_cb 6 s;
          (code, s) \<leftarrow> skip_extensions s;
          Some (Inr (Some code, s))
        }
        else if code = 0xb8
        then do {
          (_ :: u32, s) \<leftarrow> ss_get pes_unit_completed_cb 4 s;
          (code, s) \<leftarrow> skip_extensions s;
          Some (Inr (Some code, s))
        }
        else Some (Inr (None, s))
      })"

definition mpeg2_parse_payload_unit :: "'z pes_parser_t_scheme \<Rightarrow> 'z pes_parser_t_scheme option" where
  "mpeg2_parse_payload_unit s = do {
     (is_payload_unit_start, s) \<leftarrow> parse_pes_header s;
     if ss_error s then Some s
     else if \<not> is_payload_unit_start then Some s
     else do {
       s \<leftarrow> on_pes_start s;
       r \<leftarrow> while_return (\<lambda>_. True) mpeg2_step (None, s);
       case r of Inl s \<Rightarrow> Some s | Inr _ \<Rightarrow> None
     }
   }"

subsection \<open>Audio\<close>

definition audio_parse_payload_unit :: "'z pes_parser_t_scheme \<Rightarrow> 'z pes_parser_t_scheme option" where
  "audio_parse_payload_unit s = do {
     (is_payload_unit_start, s) \<leftarrow> parse_pes_header s;
     if ss_error s then Some s
     else if ss_encrypted s then Some s
     else if \<not> is_payload_unit_start then Some s
     else do {
       s \<leftarrow> on_pes_start s;
       let s = s\<lparr>current_unit_type := pes_other\<rparr>;
       ss_skip pes_unit_completed_cb (pes_packet_len s - uint (pes_header_data_len s) - 2 - 1) s
     }
   }"

subsection \<open>Reading\<close>

text \<open>The packet reader is used with the operations of a parser of an elementary stream.\<close>

lemma clock_part_index_event [simp]: "clock_part (index_event t p a b h) = clock_part h"
  by (simp add: clock_part_def index_event_def Let_def split: option.splits)

interpretation elem: unit_client pes_unit_completed_cb
proof (unfold_locales, goal_cases)
  case (1 s)
  show ?case
  proof (cases "current_unit_type s = illegal")
    case True
    then show ?thesis unfolding pes_unit_completed_cb_def Let_def
      by (intro exI [of _ "event_handler s"] exI) simp
  next
    case False
    then show ?thesis unfolding pes_unit_completed_cb_def Let_def by (intro exI) simp
  qed
qed (simp add: pes_unit_completed_cb_def Let_def)

text \<open>What the parsers of elementary streams have beside the packet reader.\<close>

lemma advanced_pes:
  assumes "advanced n s s'"
  shows "pes_pts s' = pes_pts s" "pes_dts s' = pes_dts s" "pes_clock_period s' = pes_clock_period s" "pes_packet_len s' = pes_packet_len s" "pes_header_data_len s' = pes_header_data_len s" "pes_stream_id s' = pes_stream_id s" "last_pts s' = last_pts s" "last_dts s' = last_dts s"
proof -
  have *: "unread_part s' = unread_part s" using assms by (simp add: advanced_def)
  show "pes_pts s' = pes_pts s" "pes_dts s' = pes_dts s" "pes_clock_period s' = pes_clock_period s" "pes_packet_len s' = pes_packet_len s" "pes_header_data_len s' = pes_header_data_len s" "pes_stream_id s' = pes_stream_id s" "last_pts s' = last_pts s" "last_dts s' = last_dts s"
    using arg_cong [OF *, of pes_pts] arg_cong [OF *, of pes_dts] arg_cong [OF *, of pes_clock_period] arg_cong [OF *, of pes_packet_len] arg_cong [OF *, of pes_header_data_len] arg_cong [OF *, of pes_stream_id] arg_cong [OF *, of last_pts] arg_cong [OF *, of last_dts]
    by (simp_all add: unread_part_def)
qed

text \<open>The time stamps that a header may carry, as fields of it and as the parser keeps them.\<close>

datatype stamps = No_Stamp | Pts u64 | Pts_Dts u64 u64

fun stamp_bytes :: "stamps \<Rightarrow> bytes" where
  "stamp_bytes No_Stamp = []"
| "stamp_bytes (Pts t) = pts_bytes 2 t"
| "stamp_bytes (Pts_Dts t d) = pts_bytes 3 t @ pts_bytes 1 d"

fun stamp_flags :: "stamps \<Rightarrow> u8" where
  "stamp_flags No_Stamp = 0"
| "stamp_flags (Pts t) = 2"
| "stamp_flags (Pts_Dts t d) = 3"

text \<open>
  Stamps of 33 bits. A decoding time stamp is subtracted from the one of the unit before it, which is defined unless the two lie on
  both sides of the middle of the clock period.
\<close>

fun stamps_fit :: "pts_dts_t \<Rightarrow> stamps \<Rightarrow> bool" where
  "stamps_fit old No_Stamp \<longleftrightarrow> True"
| "stamps_fit old (Pts t) \<longleftrightarrow> unat t < 2 ^ 33"
| "stamps_fit old (Pts_Dts t d) \<longleftrightarrow> unat t < 2 ^ 33 \<and> unat d < 2 ^ 33 \<and> (pts_is_valid old \<longrightarrow> pts_subtractable (pts_of_ticks d) old)"

fun pts_of :: "stamps \<Rightarrow> pts_dts_t" where
  "pts_of No_Stamp = pts_invalid"
| "pts_of (Pts t) = pts_of_ticks t"
| "pts_of (Pts_Dts t d) = pts_of_ticks t"

fun dts_of :: "stamps \<Rightarrow> pts_dts_t" where
  "dts_of No_Stamp = pts_invalid"
| "dts_of (Pts t) = pts_of_ticks t"
| "dts_of (Pts_Dts t d) = pts_of_ticks d"

lemma length_pts_bytes [simp]: "length (pts_bytes p t) = 5"
  by (simp add: pts_bytes_def)

lemma valid_of_ticks [simp]: "pts_is_valid (pts_of_ticks t)"
  by (rule pts_ok_valid) simp

lemma check_pes_discontinuity_total:
  "pts_is_valid a \<Longrightarrow> pts_is_valid b \<Longrightarrow> pts_subtractable b a \<Longrightarrow> \<exists>c. check_pes_discontinuity p a b = Some c"
  by (simp add: check_pes_discontinuity_def pts_minus_def Let_def)

text \<open>The fields that reading a header sets.\<close>

definition header_part :: "'z pes_parser_t_scheme \<Rightarrow> 'z pes_parser_t_scheme" where
  "header_part s = (unread_part s)\<lparr>pes_stream_id := 0, pes_packet_len := 0, pes_header_len := 0, flags1 := 0, flags2 := 0,
     pes_header_data_len := 0, pes_clock_period := pts_invalid, pes_pts := pts_invalid, pes_dts := pts_invalid\<rparr>"

lemma header_part_cong: "unread_part s' = unread_part s \<Longrightarrow> header_part s' = header_part s"
  by (simp add: header_part_def)

text \<open>The parser has gone on in its stream; only the fields of a header may have changed.\<close>

definition header_step :: "'z pes_parser_t_scheme \<Rightarrow> 'z pes_parser_t_scheme \<Rightarrow> bool" where
  "header_step s s' \<longleftrightarrow> header_part s' = header_part s \<and> (pointer_field s = 0 \<longrightarrow> pointer_field s' = 0) \<and> (in_step s \<longrightarrow> in_step s') \<and>
     (at_end s \<longrightarrow> at_end s')"

lemma header_step_trans: "header_step s s' \<Longrightarrow> header_step s' s'' \<Longrightarrow> header_step s s''"
  by (simp add: header_step_def)

lemma header_step_advanced: "advanced n s s' \<Longrightarrow> header_step s s'"
  using header_part_cong [of s' s] unfolding header_step_def advanced_def by auto

lemma header_step_fields [simp]:
  "header_step s (s'\<lparr>pes_pts := t\<rparr>) = header_step s s'" "header_step s (s'\<lparr>pes_dts := t\<rparr>) = header_step s s'"
  "header_step s (s'\<lparr>pes_clock_period := t\<rparr>) = header_step s s'" "header_step s (s'\<lparr>pes_stream_id := b\<rparr>) = header_step s s'"
  "header_step s (s'\<lparr>pes_packet_len := n\<rparr>) = header_step s s'" "header_step s (s'\<lparr>pes_header_len := n\<rparr>) = header_step s s'"
  "header_step s (s'\<lparr>flags1 := b\<rparr>) = header_step s s'" "header_step s (s'\<lparr>flags2 := b\<rparr>) = header_step s s'"
  "header_step s (s'\<lparr>pes_header_data_len := b\<rparr>) = header_step s s'" "header_step s s"
  by (simp_all add: header_step_def header_part_def unread_part_def in_step_def at_end_def)

lemma upcoming_fields_pes [simp]:
  "upcoming pd y k (s\<lparr>pes_pts := t\<rparr>) = upcoming pd y k s" "upcoming pd y k (s\<lparr>pes_dts := t\<rparr>) = upcoming pd y k s"
  "upcoming pd y k (s\<lparr>pes_clock_period := t\<rparr>) = upcoming pd y k s" "upcoming pd y k (s\<lparr>pes_stream_id := b\<rparr>) = upcoming pd y k s"
  "upcoming pd y k (s\<lparr>pes_packet_len := n\<rparr>) = upcoming pd y k s" "upcoming pd y k (s\<lparr>pes_header_len := n\<rparr>) = upcoming pd y k s"
  "upcoming pd y k (s\<lparr>flags1 := b\<rparr>) = upcoming pd y k s" "upcoming pd y k (s\<lparr>flags2 := b\<rparr>) = upcoming pd y k s"
  "upcoming pd y k (s\<lparr>pes_header_data_len := b\<rparr>) = upcoming pd y k s"
  by (simp_all add: upcoming_def pending_def inside_def)

lemma header_stepD:
  assumes "header_step s s'"
  shows "ss_error s' = ss_error s" "ss_encrypted s' = ss_encrypted s" "is_psi s' = is_psi s" "arriving s' = arriving s" "event_handler s' = event_handler s" "last_play_time s' = last_play_time s" "current_unit_type s' = current_unit_type s" "current_unit_start_bytepos s' = current_unit_start_bytepos s" "wait_for_unit_start s' = wait_for_unit_start s"
proof -
  have *: "header_part s' = header_part s" using assms by (simp add: header_step_def)
  show "ss_error s' = ss_error s" "ss_encrypted s' = ss_encrypted s" "is_psi s' = is_psi s" "arriving s' = arriving s" "event_handler s' = event_handler s" "last_play_time s' = last_play_time s" "current_unit_type s' = current_unit_type s" "current_unit_start_bytepos s' = current_unit_start_bytepos s" "wait_for_unit_start s' = wait_for_unit_start s"
    using arg_cong [OF *, of ss_error] arg_cong [OF *, of ss_encrypted] arg_cong [OF *, of is_psi] arg_cong [OF *, of arriving] arg_cong [OF *, of event_handler] arg_cong [OF *, of last_play_time] arg_cong [OF *, of current_unit_type] arg_cong [OF *, of current_unit_start_bytepos] arg_cong [OF *, of wait_for_unit_start]
    by (simp_all add: header_part_def unread_part_def)
qed

lemma get_time_stamps_read:
  assumes "upcoming pd (stamp_bytes st @ y) k s" "stamps_fit (pes_dts s) st"
  shows "\<exists>s'. get_time_stamps (stamp_flags st) s = Some (int (length (stamp_bytes st)), s') \<and> upcoming pd y k s' \<and> header_step s s' \<and>
    pes_pts s' = pts_of st \<and> pes_dts s' = dts_of st \<and> pes_header_data_len s' = pes_header_data_len s \<and>
    pes_packet_len s' = pes_packet_len s \<and> pes_stream_id s' = pes_stream_id s"
proof (cases st)
  case No_Stamp
  then show ?thesis using assms by (simp add: get_time_stamps_def)
next
  case (Pts t)
  then have "upcoming pd (pts_bytes 2 t @ y) k s" "unat t < 2 ^ 33" using assms by simp_all
  from get_pts_or_dts_upcoming [OF this, of pes_unit_completed_cb] obtain s1 where
    "get_pts_or_dts pes_unit_completed_cb s = Some (pts_of_ticks t, s1)" "upcoming pd y k s1" "advanced 5 s s1" by blast
  with advanced_pes [OF \<open>advanced 5 s s1\<close>] show ?thesis
    by (simp add: get_time_stamps_def Pts header_step_advanced)
next
  case (Pts_Dts t d)
  then have "upcoming pd (pts_bytes 3 t @ pts_bytes 1 d @ y) k s" "unat t < 2 ^ 33" "unat d < 2 ^ 33" using assms by simp_all
  from get_pts_or_dts_upcoming [OF this(1,2), of pes_unit_completed_cb] obtain s1 where s1:
    "get_pts_or_dts pes_unit_completed_cb s = Some (pts_of_ticks t, s1)" "upcoming pd (pts_bytes 1 d @ y) k s1" "advanced 5 s s1" by blast
  let ?s1 = "s1\<lparr>pes_pts := pts_of_ticks t\<rparr>"
  have "upcoming pd (pts_bytes 1 d @ y) k ?s1" using s1(2) by simp
  from get_pts_or_dts_upcoming [OF this \<open>unat d < 2 ^ 33\<close>, of pes_unit_completed_cb] obtain s2 where s2:
    "get_pts_or_dts pes_unit_completed_cb ?s1 = Some (pts_of_ticks d, s2)" "upcoming pd y k s2" "advanced 5 ?s1 s2" by blast
  have h: "header_step s s2"
    using header_step_trans [OF _ header_step_advanced [OF s2(3)]] header_step_advanced [OF s1(3)] by simp
  obtain c where c: "pts_is_valid (pes_dts s1) \<Longrightarrow> check_pes_discontinuity (pes_clock_period s2) (pes_dts s1) (pts_of_ticks d) = Some c"
    using check_pes_discontinuity_total [OF _ valid_of_ticks] assms(2) advanced_pes(2) [OF s1(3)] Pts_Dts by (metis stamps_fit.simps(3))
  show ?thesis
    using s1 s2 h c advanced_pes [OF s1(3)] advanced_pes [OF s2(3)]
    by (cases "pts_is_valid (pes_dts s1)") (simp_all add: get_time_stamps_def Pts_Dts Let_def)
qed

definition pes_header :: "u8 \<Rightarrow> u16 \<Rightarrow> u8 \<Rightarrow> u8 \<Rightarrow> stamps \<Rightarrow> bytes \<Rightarrow> bytes" where
  "pes_header sid l f1 f2 st stuff = be_bytes 4 (0x100 OR ucast sid :: u32) @ be_bytes 2 l @ [0x80 OR (f1 AND 0x3f)] @
     [push_bit 6 (stamp_flags st) OR (f2 AND 0x3f)] @ [of_nat (length (stamp_bytes st) + length stuff)] @ stamp_bytes st @ stuff"

lemma header_flags:
  "(0x80 OR (f AND 0x3f)) AND 0xc0 = (0x80 :: u8)" "drop_bit 6 (push_bit 6 (stamp_flags st) OR (f AND 0x3f)) AND 0x3 = stamp_flags st"
proof -
  have "(0x3f :: u8) AND 0xc0 = 0" "(0x80 :: u8) AND 0xc0 = 0x80" "drop_bit 6 (0x3f :: u8) = 0" by code_simp+
  then show "(0x80 OR (f AND 0x3f)) AND 0xc0 = (0x80 :: u8)" "drop_bit 6 (push_bit 6 (stamp_flags st) OR (f AND 0x3f)) AND 0x3 = stamp_flags st"
    by (cases st; simp add: bit.conj_disj_distrib2 and.assoc drop_bit_or drop_bit_and)+
qed

lemma start_code_fields:
  "(0x100 OR ucast sid :: u32) AND 0xffffff00 = 0x100" "ucast ((0x100 OR ucast sid :: u32) AND 0xff) = (sid :: u8)"
proof -
  have "(ucast sid :: u32) AND NOT (mask 8) = 0" "(ucast sid :: u32) AND mask 8 = ucast sid"
    by (rule bit_word_eqI; auto simp: bit_simps dest: bit_imp_le_length)+
  moreover have "NOT (mask 8) = (0xffffff00 :: u32)" "mask 8 = (0xff :: u32)" "0x100 AND 0xffffff00 = (0x100 :: u32)" "0x100 AND 0xff = (0 :: u32)"
    by code_simp+
  moreover have "ucast (ucast sid :: u32) = sid" by (rule bit_word_eqI) (auto simp: bit_simps dest: bit_imp_le_length)
  ultimately show "(0x100 OR ucast sid :: u32) AND 0xffffff00 = 0x100" "ucast ((0x100 OR ucast sid :: u32) AND 0xff) = (sid :: u8)"
    by (simp_all only: bit.conj_disj_distrib2 or.right_neutral or.left_neutral)
qed

lemma get_start_code_read:
  assumes "upcoming pd (be_bytes 4 (0x100 OR ucast sid :: u32) @ y) k s" "get_payload_unit_start (current_ts_packet s)"
  shows "\<exists>s'. get_start_code cb s = Some (sid, s') \<and> upcoming pd y k s' \<and> advanced 4 s s'"
proof -
  from ss_get_upcoming [OF assms(1), of 4 cb, where 'a = 32] obtain s1 where s1:
    "ss_get cb 4 s = Some (0x100 OR ucast sid :: u32, s1)" "upcoming pd y k s1" "advanced 4 s s1" by (auto simp: be_word_be_bytes simp del: be_bytes_numeral)
  have "pkt_valid (current_ts_packet s1)" using s1(2) by (auto simp: upcoming_def pending_def inside_def)
  then show ?thesis using s1 assms(2) by (simp add: get_start_code_def start_code_fields)
qed

lemma parse_pes_header_read:
  assumes "upcoming pd (pes_header sid l f1 f2 st stuff @ y) k s" "get_payload_unit_start (current_ts_packet s)"
    "stamps_fit (pes_dts s) st" "length (stamp_bytes st) + length stuff < 256"
  shows "\<exists>s'. parse_pes_header s = Some (True, s') \<and> upcoming pd y k s' \<and> header_step s s' \<and>
    pes_pts s' = pts_of st \<and> pes_dts s' = dts_of st \<and> pes_stream_id s' = sid \<and> pes_packet_len s' = uint l \<and>
    uint (pes_header_data_len s') = int (length (stamp_bytes st) + length stuff)"
proof -
  let ?cb = pes_unit_completed_cb
  define g1 g2 n where "g1 = (0x80 OR (f1 AND 0x3f) :: u8)" "g2 = push_bit 6 (stamp_flags st) OR (f2 AND 0x3f)"
    "n = (of_nat (length (stamp_bytes st) + length stuff) :: u8)"
  have g: "g1 AND 0xc0 = 0x80" "drop_bit 6 g2 AND 0x3 = stamp_flags st" by (simp_all only: g1_g2_n_def header_flags)
  have "unat n = length (stamp_bytes st) + length stuff"
    unfolding g1_g2_n_def unsigned_of_nat using assms(4) by (simp add: take_bit_nat_eq_self)
  then have un: "uint n = int (length (stamp_bytes st) + length stuff)" by (simp only: uint_nat)
  have u: "upcoming pd (be_bytes 4 (0x100 OR ucast sid :: u32) @ be_bytes 2 l @ [g1] @ [g2] @ [n] @ stamp_bytes st @ stuff @ y) k s"
    using assms(1) by (simp add: pes_header_def g1_g2_n_def del: be_bytes_numeral)
  from get_start_code_read [OF u assms(2), of ?cb] obtain s1 where s1: "get_start_code ?cb s = Some (sid, s1)"
    "upcoming pd (be_bytes 2 l @ [g1] @ [g2] @ [n] @ stamp_bytes st @ stuff @ y) k s1" "advanced 4 s s1" by blast
  let ?s1 = "s1\<lparr>pes_stream_id := sid\<rparr>"
  have "upcoming pd (be_bytes 2 l @ [g1] @ [g2] @ [n] @ stamp_bytes st @ stuff @ y) k ?s1" using s1(2) by simp
  from ss_get_upcoming [OF this, of 2 ?cb, where 'a = 16] obtain s2 where s2: "ss_get ?cb 2 ?s1 = Some (l, s2)"
    "upcoming pd ([g1] @ [g2] @ [n] @ stamp_bytes st @ stuff @ y) k s2" "advanced 2 ?s1 s2" by (auto simp: be_word_be_bytes simp del: be_bytes_numeral)
  let ?s2 = "s2\<lparr>pes_packet_len := uint l\<rparr>"
  have "upcoming pd ([g1] @ [g2] @ [n] @ stamp_bytes st @ stuff @ y) k ?s2" using s2(2) by simp
  from ss_get_upcoming [OF this, of 1 ?cb, where 'a = 8] obtain s3 where s3: "ss_get ?cb 1 ?s2 = Some (g1, s3)"
    "upcoming pd ([g2] @ [n] @ stamp_bytes st @ stuff @ y) k s3" "advanced 1 ?s2 s3" by auto
  let ?s3 = "s3\<lparr>flags1 := g1\<rparr>"
  have "upcoming pd ([g2] @ [n] @ stamp_bytes st @ stuff @ y) k ?s3" using s3(2) by simp
  from ss_get_upcoming [OF this, of 1 ?cb, where 'a = 8] obtain s4 where s4: "ss_get ?cb 1 ?s3 = Some (g2, s4)"
    "upcoming pd ([n] @ stamp_bytes st @ stuff @ y) k s4" "advanced 1 ?s3 s4" by auto
  let ?s4 = "s4\<lparr>flags2 := g2\<rparr>"
  have "upcoming pd ([n] @ stamp_bytes st @ stuff @ y) k ?s4" using s4(2) by simp
  from ss_get_upcoming [OF this, of 1 ?cb, where 'a = 8] obtain s5 where s5: "ss_get ?cb 1 ?s4 = Some (n, s5)"
    "upcoming pd (stamp_bytes st @ stuff @ y) k s5" "advanced 1 ?s4 s5" by auto
  let ?s5 = "s5\<lparr>pes_header_data_len := n, pes_header_len := uint n + 8\<rparr>"
  have "upcoming pd (stamp_bytes st @ stuff @ y) k ?s5" using s5(2) by simp
  moreover have "pes_dts ?s5 = pes_dts s"
    using advanced_pes(2) [OF s1(3)] advanced_pes(2) [OF s2(3)] advanced_pes(2) [OF s3(3)] advanced_pes(2) [OF s4(3)] advanced_pes(2) [OF s5(3)] by simp
  ultimately obtain s6 where s6:
    "get_time_stamps (stamp_flags st) ?s5 = Some (int (length (stamp_bytes st)), s6)" "upcoming pd (stuff @ y) k s6" "header_step ?s5 s6"
    "pes_pts s6 = pts_of st" "pes_dts s6 = dts_of st" "pes_header_data_len s6 = n" "pes_packet_len s6 = pes_packet_len s5"
    "pes_stream_id s6 = pes_stream_id s5" using get_time_stamps_read [of pd st "stuff @ y" k ?s5] assms(3) by auto
  from ss_skip_upcoming [OF s6(2), of "int (length stuff)" ?cb] obtain s7 where s7: "ss_skip ?cb (int (length stuff)) s6 = Some s7"
    "upcoming pd y k s7" "advanced (length stuff) s6 s7" by blast
  define s' where "s' = (if stuff = [] then s6 else s7)"
  have h6: "header_step s s6"
    using header_step_advanced [OF s1(3)] header_step_advanced [OF s2(3)] header_step_advanced [OF s3(3)] header_step_advanced [OF s4(3)]
      header_step_advanced [OF s5(3)] s6(3) by (metis header_step_fields header_step_trans)
  have "parse_pes_header s = Some (True, s')"
    using assms(2) s1(1) s2(1) s3(1) s4(1) s5(1) s6(1) s7(1) un g
    by (simp add: parse_pes_header_def s'_def Let_def)
  moreover have "upcoming pd y k s'" "header_step s s'"
    using s6(2) s7(2) h6 header_step_trans [OF h6 header_step_advanced [OF s7(3)]] by (auto simp: s'_def)
  ultimately show ?thesis
    using s6 un advanced_pes [OF s2(3)] advanced_pes [OF s3(3)] advanced_pes [OF s4(3)] advanced_pes [OF s5(3)] advanced_pes [OF s7(3)]
    by (auto simp: s'_def)
qed

subsection \<open>Units in the index\<close>

text \<open>A parser before a unit: it stands in the first packet of the unit.\<close>

definition unit_ready :: "'z pes_parser_t_scheme \<Rightarrow> bool" where
  "unit_ready s \<longleftrightarrow> get_payload_unit_start (current_ts_packet s) \<and> \<not> has_problem s \<and> \<not> is_psi s \<and> in_step s \<and> at_end s \<and> pointer_field s = 0"

text \<open>A parser behind the part of a unit that it reads: packet number \<open>k\<close> starts the next unit.\<close>

lemma unit_step_indexed:
  assumes "ppu (s\<lparr>ss_bytes_read := 0\<rparr>) = Some s1" "upcoming pd rest k s1" "arriving s1 = f"
    and "starts pd (get_continuity_counter (f (k - 1))) (f k) bs" "\<not> has_problem s" "\<not> ss_error s1" "\<not> is_psi s1" "in_step s1" "at_end s1"
      "pointer_field s1 = 0" "current_unit_type s1 \<noteq> illegal"
  shows "\<exists>s'. unit_step ppu pes_unit_completed_cb s = Some (Units, s') \<and> unit_ready s' \<and> inside pd bs s' \<and> arrived s' = k + 1 \<and> arriving s' = f \<and>
    event_handler s' = index_event (current_unit_type s1) (last_play_time s1) (current_unit_start_bytepos s1)
      (word_of_int (dr_start_bytepos (range (f (k - 1))))) (event_handler s1) \<and>
    current_unit_start_bytepos s' = word_of_int (dr_start_bytepos (range (f k))) \<and> last_play_time s' = last_play_time s1 \<and>
    last_pts s' = last_pts s1 \<and> last_dts s' = last_dts s1"
proof -
  obtain r ps where ps: "inside pd r s1" "coming pd (continuity_counter s1) f (arrived s1) ps" "k = arrived s1 + length ps"
    using assms(2,3) by (auto simp: upcoming_def pending_def)
  let ?s1 = "s1\<lparr>wait_for_unit_start := True\<rparr>"
  have i: "intact pd (get_continuity_counter (f (k - 1))) (f k) bs" "get_payload_unit_start (f k)" using assms(4) by (simp_all add: starts_def)
  have e: "\<not> ss_encrypted s1" using ps(1) by (simp add: inside_def)
  have next1: "get_next_packet pes_unit_completed_cb ?s1 = Some ((pes_unit_completed_cb (unit_end k ?s1))
    \<lparr>current_unit_end_bytepos := word_of_int (dr_start_bytepos (range (arriving ?s1 k))), wait_for_unit_start := False,
     continuity_counter := get_continuity_counter (arriving ?s1 k), pointer_field := 0\<rparr>)"
    by (rule elem.get_next_packet_awaits [of pd ?s1 ps k bs]) (use assms ps e in \<open>simp_all add: in_step_def at_end_def\<close>)
  define s' where "s' = (pes_unit_completed_cb (unit_end k ?s1))
    \<lparr>current_unit_end_bytepos := word_of_int (dr_start_bytepos (range (f k))), wait_for_unit_start := False,
     continuity_counter := get_continuity_counter (f k), pointer_field := 0\<rparr>"
  have step: "unit_step ppu pes_unit_completed_cb s = Some (Units, s')"
    using assms(1,3,5,7) i(2) next1 by (simp add: unit_step_def skip_to_unit_start_def unit_end_def s'_def)
  have p: "\<exists>r pre. range (f k) = over r pre bs" "pkt_valid (f k)" "get_pid (f k) = pd" using i(1) by (auto simp: intact_def)
  have s': "current_ts_packet s' = f k" "arrived s' = k + 1" "arriving s' = f" "ss_error s' = ss_error s1" "ss_encrypted s' = ss_encrypted s1"
    "is_psi s' = is_psi s1" "\<not> wait_for_unit_start s'" "continuity_counter s' = get_continuity_counter (f k)" "pointer_field s' = 0"
    "current_unit_end_bytepos s' = word_of_int (dr_start_bytepos (range (f k)))"
    using assms(3) by (simp_all add: s'_def unit_end_def)
  have "event_handler s' = index_event (current_unit_type s1) (last_play_time s1) (current_unit_start_bytepos s1)
      (word_of_int (dr_start_bytepos (range (f (k - 1))))) (event_handler s1)"
    "current_unit_start_bytepos s' = word_of_int (dr_start_bytepos (range (f k)))" "last_play_time s' = last_play_time s1"
    "last_pts s' = last_pts s1" "last_dts s' = last_dts s1"
    using assms(3,11) by (simp_all add: s'_def unit_end_def pes_unit_completed_cb_def Let_def)
  moreover have "unit_ready s'" using s' assms(6,7) e i(2) by (simp add: unit_ready_def has_problem_def in_step_def at_end_def)
  moreover have "inside pd bs s'" using s' e p by (simp add: inside_def)
  ultimately show ?thesis using step s' by blast
qed

text \<open>The delimiter of an H.264 access unit behind a start code of four or three bytes.\<close>

definition delimiter :: "bool \<Rightarrow> u8 \<Rightarrow> u8 \<Rightarrow> bytes" where
  "delimiter long code t = (if long then be_bytes 4 (1 :: u32) @ [code] else be_bytes 4 (0x100 OR ucast code :: u32)) @ [push_bit 5 t OR 0x10]"

lemma get_nalu_start_code_read:
  assumes "upcoming pd ((if long then be_bytes 4 (1 :: u32) @ [code] else be_bytes 4 (0x100 OR ucast code :: u32)) @ y) k s" "code AND 0x80 = 0"
  shows "\<exists>s' n. get_nalu_start_code cb s = Some (code, s') \<and> upcoming pd y k s' \<and> advanced n s s'"
proof (cases long)
  case True
  then have "upcoming pd (be_bytes 4 (1 :: u32) @ [code] @ y) k s" using assms(1) by simp
  from ss_get_upcoming [OF this, of 4 cb, where 'a = 32] obtain s1 where s1:
    "ss_get cb 4 s = Some (1 :: u32, s1)" "upcoming pd ([code] @ y) k s1" "advanced 4 s s1" by (auto simp: be_word_be_bytes simp del: be_bytes_numeral)
  from ss_get_upcoming [OF s1(2), of 1 cb, where 'a = 8] obtain s2 where s2: "ss_get cb 1 s1 = Some (code, s2)" "upcoming pd y k s2" "advanced 1 s1 s2"
    by auto
  with s1 assms(2) show ?thesis using advanced_trans [OF s1(3) s2(3)] by (auto simp: get_nalu_start_code_def)
next
  case False
  then have "upcoming pd (be_bytes 4 (0x100 OR ucast code :: u32) @ y) k s" using assms(1) by simp
  from ss_get_upcoming [OF this, of 4 cb, where 'a = 32] obtain s1 where s1:
    "ss_get cb 4 s = Some (0x100 OR ucast code :: u32, s1)" "upcoming pd y k s1" "advanced 4 s s1" by (auto simp: be_word_be_bytes simp del: be_bytes_numeral)
  have "(0x100 OR ucast code :: u32) \<noteq> 1" using start_code_fields(1) [of code] by auto
  with s1 show ?thesis by (auto simp: get_nalu_start_code_def start_code_fields)
qed

lemma small_u8: "t < 8 \<Longrightarrow> t \<in> {0, 1, 2, 3, 4, 5, 6, 7 :: u8}"
proof -
  assume "t < 8"
  then have "unat t < 8" by (simp add: word_less_nat_alt)
  then have "unat t = 0 \<or> unat t = 1 \<or> unat t = 2 \<or> unat t = 3 \<or> unat t = 4 \<or> unat t = 5 \<or> unat t = 6 \<or> unat t = 7" by arith
  then show ?thesis by (simp add: word_unat_eq_iff)
qed

lemma picture_type:
  assumes "t < 8"
  shows "(push_bit 5 t OR 0x10) AND 0x1f = (0x10 :: u8)" "drop_bit 5 (push_bit 5 t OR 0x10) = (t :: u8)"
    "h264_frame_type (if t > 5 then t - 5 else t) = h264_frame_type t" "h264_frame_type t \<noteq> illegal"
proof -
  have t: "t \<in> {0, 1, 2, 3, 4, 5, 6, 7}" using assms by (rule small_u8)
  then show "(push_bit 5 t OR 0x10) AND 0x1f = (0x10 :: u8)" by (elim insertE emptyE; hypsubst) code_simp+
  from t show "drop_bit 5 (push_bit 5 t OR 0x10) = (t :: u8)" by (elim insertE emptyE; hypsubst) code_simp+
  from t show "h264_frame_type (if t > 5 then t - 5 else t) = h264_frame_type t" "h264_frame_type t \<noteq> illegal"
    by (auto simp: h264_frame_type_def)
qed

lemma upcoming_unit_fields [simp]:
  "upcoming pd y k (s\<lparr>event_handler := h\<rparr>) = upcoming pd y k s" "upcoming pd y k (s\<lparr>last_play_time := tm\<rparr>) = upcoming pd y k s"
  "upcoming pd y k (s\<lparr>current_unit_type := ty\<rparr>) = upcoming pd y k s" "upcoming pd y k (s\<lparr>ss_bytes_read := n\<rparr>) = upcoming pd y k s"
  by (simp_all add: upcoming_def pending_def inside_def)

lemma upcoming_last_stamps [simp]:
  "upcoming pd y k (s\<lparr>last_pts := t\<rparr>) = upcoming pd y k s" "upcoming pd y k (s\<lparr>last_dts := t\<rparr>) = upcoming pd y k s"
  by (simp_all add: upcoming_def pending_def inside_def)

text \<open>A parser that has read what it needs of a unit with these time stamps, at this play time.\<close>

definition unit_read :: "stamps \<Rightarrow> int \<Rightarrow> event_handler_t \<Rightarrow> 'z pes_parser_t_scheme \<Rightarrow> 'z pes_parser_t_scheme \<Rightarrow> bool" where
  "unit_read st tm h s s' \<longleftrightarrow> arriving s' = arriving s \<and> ss_error s' = ss_error s \<and> is_psi s' = is_psi s \<and> (in_step s \<longrightarrow> in_step s') \<and>
     (at_end s \<longrightarrow> at_end s') \<and> (pointer_field s = 0 \<longrightarrow> pointer_field s' = 0) \<and> last_play_time s' = tm \<and> event_handler s' = h \<and>
     current_unit_start_bytepos s' = current_unit_start_bytepos s \<and> last_pts s' = pts_of st \<and> last_dts s' = dts_of st \<and> pes_pts s' = pts_of st"

lemma advanced_unit:
  fixes s :: "'z pes_parser_t_scheme"
  assumes "advanced n s s'"
  shows "current_unit_type s' = current_unit_type s" "current_unit_start_bytepos s' = current_unit_start_bytepos s"
    "last_play_time s' = last_play_time s"
  by (rule header_stepD [OF header_step_advanced [OF assms]])+

lemma unit_read_advanced:
  assumes "unit_read st tm h s s'" "advanced n s' s''"
  shows "unit_read st tm h s s''"
proof -
  have "pointer_field s' = 0 \<longrightarrow> pointer_field s'' = 0" "in_step s' \<longrightarrow> in_step s''" "at_end s' \<longrightarrow> at_end s''"
    using assms(2) unfolding advanced_def by auto
  then show ?thesis
    using assms(1) unfolding unit_read_def
    by (simp add: advancedD [OF assms(2)] advanced_pes [OF assms(2)] advanced_unit [OF assms(2)])
qed

lemma unit_read_type [simp]: "unit_read st tm h s (s'\<lparr>current_unit_type := ty\<rparr>) = unit_read st tm h s s'"
  by (simp add: unit_read_def in_step_def at_end_def)

lemma on_pes_start_read:
  assumes "upcoming pd (pes_header sid l f1 f2 st stuff @ y) k s" "get_payload_unit_start (current_ts_packet s)"
    "stamps_fit (pes_dts s) st" "length (stamp_bytes st) + length stuff < 256" "pcr_play_time (event_handler s) = Some (tm, h)" "last_play_time s \<le> tm"
  shows "\<exists>s1 s2. parse_pes_header s = Some (True, s1) \<and> ss_error s1 = ss_error s \<and> ss_encrypted s1 = ss_encrypted s \<and>
    on_pes_start s1 = Some s2 \<and> upcoming pd y k s2 \<and> unit_read st tm h s s2 \<and> pes_packet_len s2 = uint l \<and>
    uint (pes_header_data_len s2) = int (length (stamp_bytes st) + length stuff)"
proof -
  from parse_pes_header_read [OF assms(1-4)] obtain s1 where s1: "parse_pes_header s = Some (True, s1)" "upcoming pd y k s1" "header_step s s1"
    "pes_pts s1 = pts_of st" "pes_dts s1 = dts_of st" "pes_packet_len s1 = uint l"
    "uint (pes_header_data_len s1) = int (length (stamp_bytes st) + length stuff)" by blast
  define s2 where "s2 = s1\<lparr>last_pts := pes_pts s1, last_dts := pes_dts s1, event_handler := h, last_play_time := tm\<rparr>"
  note f = header_stepD [OF s1(3)]
  have "on_pes_start s1 = Some s2" using assms(5,6) f by (simp add: on_pes_start_def s2_def Let_def)
  moreover have "unit_read st tm h s s2"
    using s1(3-5) f by (simp add: unit_read_def s2_def header_step_def in_step_def at_end_def)
  ultimately show ?thesis using s1 f by (intro exI [of _ s1] exI [of _ s2]) (simp add: s2_def)
qed

lemma h264_unit_read:
  assumes "upcoming pd (pes_header sid l f1 f2 st stuff @ delimiter long code t @ y) k s" "get_payload_unit_start (current_ts_packet s)"
    "stamps_fit (pes_dts s) st" "length (stamp_bytes st) + length stuff < 256" "pcr_play_time (event_handler s) = Some (tm, h)" "last_play_time s \<le> tm"
    "code AND 0x80 = 0" "code AND 0x1f = 9" "t < 8" "h264_frame_type t = i_frame \<longrightarrow> st \<noteq> No_Stamp" "\<not> ss_error s"
  shows "\<exists>s'. h264_parse_payload_unit s = Some s' \<and> upcoming pd y k s' \<and> unit_read st tm h s s' \<and> current_unit_type s' = h264_frame_type t"
proof -
  from on_pes_start_read [OF assms(1-6)] obtain s1 s2 where s2: "parse_pes_header s = Some (True, s1)" "ss_error s1 = ss_error s"
    "on_pes_start s1 = Some s2" "upcoming pd (delimiter long code t @ y) k s2" "unit_read st tm h s s2" by blast
  have "upcoming pd ((if long then be_bytes 4 (1 :: u32) @ [code] else be_bytes 4 (0x100 OR ucast code :: u32)) @ [push_bit 5 t OR 0x10] @ y) k s2"
    using s2(4) by (simp only: delimiter_def append_assoc)
  from get_nalu_start_code_read [OF this assms(7), of pes_unit_completed_cb] obtain s3 n where s3:
    "get_nalu_start_code pes_unit_completed_cb s2 = Some (code, s3)" "upcoming pd ([push_bit 5 t OR 0x10] @ y) k s3" "advanced n s2 s3" by blast
  from ss_get_upcoming [OF s3(2), of 1 pes_unit_completed_cb, where 'a = 8] obtain s4 where s4:
    "ss_get pes_unit_completed_cb 1 s3 = Some (push_bit 5 t OR 0x10, s4)" "upcoming pd y k s4" "advanced 1 s3 s4" by auto
  have r: "unit_read st tm h s s4" using s2(5) s3(3) s4(3) by (blast intro: unit_read_advanced)
  have pts: "h264_frame_type t = i_frame \<longrightarrow> has_pts (s4\<lparr>current_unit_type := ty\<rparr>)" for ty
    using assms(10) r by (cases st) (auto simp: has_pts_def unit_read_def)
  define b where "b = (push_bit 5 t OR 0x10 :: u8)"
  have b: "b AND 0x1f = 0x10" "drop_bit 5 b = t" unfolding b_def by (rule picture_type(1,2) [OF assms(9)])+
  have "h264_extension code = 0" using assms(8) by (simp add: h264_extension_def Let_def)
  moreover have "h264_access_unit s3 = Some (s4\<lparr>current_unit_type := h264_frame_type t\<rparr>)"
    using s4(1) b pts picture_type(3) [OF assms(9)]
    by (simp add: h264_access_unit_def b_def [symmetric] is_iframe_def Let_def del: One_nat_def) (auto split: if_splits)
  ultimately have "h264_parse_payload_unit s = Some (s4\<lparr>current_unit_type := h264_frame_type t\<rparr>)"
    using s2(1-3) s3(1) assms(7,8,11) by (simp add: h264_parse_payload_unit_def)
  then show ?thesis using s4(2) r by simp
qed

lemma audio_unit_read:
  assumes "upcoming pd (pes_header sid l f1 f2 st stuff @ body @ y) k s" "get_payload_unit_start (current_ts_packet s)"
    "stamps_fit (pes_dts s) st" "length (stamp_bytes st) + length stuff < 256" "pcr_play_time (event_handler s) = Some (tm, h)" "last_play_time s \<le> tm"
    "unat l = length (stamp_bytes st) + length stuff + 3 + length body" "\<not> has_problem s"
  shows "\<exists>s'. audio_parse_payload_unit s = Some s' \<and> upcoming pd y k s' \<and> unit_read st tm h s s' \<and> current_unit_type s' = pes_other"
proof -
  from on_pes_start_read [OF assms(1-6)] obtain s1 s2 where s2: "parse_pes_header s = Some (True, s1)" "ss_error s1 = ss_error s"
    "ss_encrypted s1 = ss_encrypted s" "on_pes_start s1 = Some s2" "upcoming pd (body @ y) k s2" "unit_read st tm h s s2" "pes_packet_len s2 = uint l"
    "uint (pes_header_data_len s2) = int (length (stamp_bytes st) + length stuff)" by blast
  define s3 where "s3 = s2\<lparr>current_unit_type := pes_other\<rparr>"
  have "upcoming pd (body @ y) k s3" using s2(5) by (simp add: s3_def)
  from ss_skip_upcoming [OF this, of "int (length body)" pes_unit_completed_cb] obtain s4 where s4:
    "ss_skip pes_unit_completed_cb (int (length body)) s3 = Some s4" "upcoming pd y k s4" "advanced (length body) s3 s4" by blast
  have "pes_packet_len s2 - uint (pes_header_data_len s2) - 3 = int (length body)" using s2(7,8) assms(7) uint_nat [of l] by linarith
  then have "audio_parse_payload_unit s = Some s4"
    using s2(1-4) s4(1) assms(8) by (simp add: audio_parse_payload_unit_def has_problem_def s3_def Let_def)
  moreover have "unit_read st tm h s s4" using s2(6) s4(3) unit_read_advanced [of st tm h s s3] by (simp add: s3_def)
  ultimately show ?thesis using s4(2) advanced_unit [OF s4(3)] by (simp add: s3_def)
qed

lemma unit_ready_reset: "unit_ready s \<Longrightarrow> unit_ready (s\<lparr>ss_bytes_read := 0\<rparr>)"
  by (simp add: unit_ready_def has_problem_def in_step_def at_end_def)

lemma unit_read_indexed:
  assumes "unit_ready s" "starts pd (get_continuity_counter (arriving s (k - 1))) (arriving s k) bs"
    "ppu (s\<lparr>ss_bytes_read := 0\<rparr>) = Some s1" "upcoming pd y k s1" "unit_read st tm h (s\<lparr>ss_bytes_read := 0\<rparr>) s1" "current_unit_type s1 = ty" "ty \<noteq> illegal"
  shows "\<exists>s'. unit_step ppu pes_unit_completed_cb s = Some (Units, s') \<and> unit_ready s' \<and> inside pd bs s' \<and> arrived s' = k + 1 \<and>
    event_handler s' = index_event ty tm (current_unit_start_bytepos s) (word_of_int (dr_start_bytepos (range (arriving s (k - 1))))) h \<and>
    current_unit_start_bytepos s' = word_of_int (dr_start_bytepos (range (arriving s k))) \<and> last_pts s' = pts_of st \<and> last_dts s' = dts_of st"
proof -
  note r = assms(5) [unfolded unit_read_def] and u = unit_ready_reset [OF assms(1), unfolded unit_ready_def]
  have "arriving s1 = arriving s" "\<not> has_problem s" "\<not> ss_error s1" "\<not> is_psi s1" "in_step s1" "at_end s1" "pointer_field s1 = 0"
    "last_play_time s1 = tm" "event_handler s1 = h" "current_unit_start_bytepos s1 = current_unit_start_bytepos s" "last_pts s1 = pts_of st"
    "last_dts s1 = dts_of st" "current_unit_type s1 \<noteq> illegal"
    using r u assms(6,7) by (auto simp: has_problem_def)
  with unit_step_indexed [of ppu s s1 pd y k "arriving s" bs] assms(2-4,6) show ?thesis by auto
qed


text \<open>Packets that each hold a picture that needs no other one.\<close>

definition example_picture :: bytes where
  "example_picture = pes_header 0xe0 0 0 0 (Pts 0x1abcd) [] @ delimiter True 9 0"

definition example_pes_packets :: "nat \<Rightarrow> ts_packet_t" where
  "example_pes_packets n = default_ts_packet\<lparr>header := 0x4100, pkt_flags := 0x10 OR (of_nat n AND 0x0f),
     range := over default_data_range [] example_picture\<rparr>"

definition example_pes_parser :: pes_parser_t where
  "example_pes_parser = (new_pes_parser (new_event_handler (Some []) 0) example_pes_packets (\<lambda>_. 0))
     \<lparr>wait_for_unit_start := False, continuity_counter := 0, arrived := 1, current_ts_packet := example_pes_packets 0\<rparr>"

lemma example_pes_parser_ready: "unit_ready example_pes_parser" "upcoming 0x100 (example_picture @ []) 1 example_pes_parser"
proof -
  have "dr_start_bytepos (over default_data_range [] bs) = 0" for bs by (simp add: over_def default_data_range_def)
  then show "unit_ready example_pes_parser"
    by (simp add: unit_ready_def has_problem_def in_step_def at_end_def example_pes_parser_def new_pes_parser_def new_substream_def
        ts_substream_t.defs pes_parser_t.defs example_pes_packets_def get_payload_unit_start_def get_continuity_counter_def)
  have "inside 0x100 example_picture example_pes_parser"
    by (auto simp: inside_def example_pes_parser_def new_pes_parser_def new_substream_def ts_substream_t.defs pes_parser_t.defs
        example_pes_packets_def default_ts_packet_def get_pid_def get_continuity_counter_def)
  then show "upcoming 0x100 (example_picture @ []) 1 example_pes_parser"
    by (auto simp: upcoming_def pending_def example_pes_parser_def intro!: exI [of _ example_picture] exI [of _ "[]"])
qed


end
