(* ===== verification/Demux.thy ===== *)
theory Demux
  imports Ts_Packet "HOL-Library.Monad_Syntax"
begin

text \<open>
  The demultiplexer (\<open>stream_parser_base_t\<close> in \<open>receiver/streamparser/streamparser.h\<close> and \<open>streamparser_impl.h\<close>): one coroutine
  for each registered packet identifier, and the root coroutine that runs \<open>parse\<close>. Whichever coroutine has control reads
  the next packet; when the packet belongs to another parser, control goes to that one, and to the root when nobody has
  registered for it. A parser is what it does between two requests for a packet: \<open>feed\<close> gives its state after a packet, the
  parsers it registers and unregisters on the way, and whether it asks for the next packet or returns early. \<open>None\<close> is a failed
  assertion or a coroutine that is resumed while it runs.
\<close>

datatype request = Next_Packet | Return_Early

datatype 'p change = Register u16 'p | Unregister u16

type_synonym 'p feed = "ts_packet_t \<Rightarrow> 'p \<Rightarrow> 'p \<times> 'p change list \<times> request"

text \<open>Where a suspended parser waits; \<open>For_Data\<close> has the identifier in the variable \<open>parser_pid\<close>.\<close>

datatype wait_point = At_Start | For_Data u16 | For_Packet | Returned_Early

record 'p fiber_t =
  fb_parser :: 'p
  fb_wait :: wait_point

record 'p demux_t =
  fibers :: "u16 \<Rightarrow> 'p fiber_t option"
  current_pid :: u16

text \<open>The coroutine that has control, with the variable \<open>parser_pid\<close> of one that has asked for a packet.\<close>

datatype control = Idle | Root_Loop | Running u16 u16

definition fb_suspend :: "u16 \<Rightarrow> wait_point \<Rightarrow> 'p demux_t \<Rightarrow> 'p demux_t" where
  "fb_suspend q w d = d\<lparr>fibers := (fibers d)(q := map_option (\<lambda>f. f\<lparr>fb_wait := w\<rparr>) (fibers d q))\<rparr>"

definition register_parser :: "u16 \<Rightarrow> 'p \<Rightarrow> 'p demux_t \<Rightarrow> 'p demux_t option" where
  "register_parser q st d =
     (if fibers d q \<noteq> None then None else Some (d\<lparr>fibers := (fibers d)(q \<mapsto> \<lparr>fb_parser = st, fb_wait = At_Start\<rparr>)\<rparr>))"

definition unregister_parser :: "u16 \<Rightarrow> 'p demux_t \<Rightarrow> 'p demux_t" where
  "unregister_parser q d = d\<lparr>fibers := (fibers d)(q := None)\<rparr>"

fun apply_changes :: "u16 \<Rightarrow> 'p change list \<Rightarrow> 'p demux_t \<Rightarrow> 'p demux_t option" where
  "apply_changes x [] d = Some d"
| "apply_changes x (Register q st # cs) d = do { d \<leftarrow> register_parser q st d; apply_changes x cs d }"
| "apply_changes x (Unregister q # cs) d = (if q = x then None else apply_changes x cs (unregister_parser q d))"

text \<open>A parser that has got a packet, until it asks for the next one or returns early.\<close>

definition run_parser :: "'p feed \<Rightarrow> u16 \<Rightarrow> ts_packet_t \<Rightarrow> 'p demux_t \<Rightarrow> (control \<times> 'p demux_t) option" where
  "run_parser feed x p d = do {
     f \<leftarrow> fibers d x;
     let (st, cs, r) = feed p (fb_parser f);
     d \<leftarrow> apply_changes x cs (d\<lparr>fibers := (fibers d)(x \<mapsto> f\<lparr>fb_parser := st\<rparr>)\<rparr>);
     Some (case r of Next_Packet \<Rightarrow> (Running x (current_pid d), d) | Return_Early \<Rightarrow> (Idle, fb_suspend x Returned_Early d))
   }"

definition resume_fiber :: "'p feed \<Rightarrow> u16 \<Rightarrow> ts_packet_t \<Rightarrow> 'p demux_t \<Rightarrow> (control \<times> 'p demux_t) option" where
  "resume_fiber feed x p d = do {
     f \<leftarrow> fibers d x;
     case fb_wait f of
       For_Data parser_pid \<Rightarrow> if get_pid p = parser_pid then run_parser feed x p d else None
     | _ \<Rightarrow> run_parser feed x p d
   }"

text \<open>A packet that was read: by the root loop, or for a parser.\<close>

definition on_packet :: "'p feed \<Rightarrow> control \<Rightarrow> ts_packet_t \<Rightarrow> 'p demux_t \<Rightarrow> (control \<times> 'p demux_t) option" where
  "on_packet feed c p d =
     (case c of
        Idle \<Rightarrow> None
      | Root_Loop \<Rightarrow>
          if fibers d (get_pid p) \<noteq> None then resume_fiber feed (get_pid p) p (d\<lparr>current_pid := get_pid p\<rparr>)
          else Some (Root_Loop, d)
      | Running x parser_pid \<Rightarrow>
          if parser_pid = get_pid p then run_parser feed x p d
          else do {
            let d = (fb_suspend x For_Packet d)\<lparr>current_pid := get_pid p\<rparr>;
            if fibers d (get_pid p) \<noteq> None
            then (if get_pid p = x then None else resume_fiber feed (get_pid p) p d)
            else Some (Root_Loop, d)
          })"

text \<open>\<open>parse\<close> with the packets that \<open>read_packet\<close> returns before it returns the null pointer: what is left and the new state.\<close>

fun demux_loop :: "'p feed \<Rightarrow> control \<Rightarrow> ts_packet_t list \<Rightarrow> 'p demux_t \<Rightarrow> (ts_packet_t list \<times> 'p demux_t) option" where
  "demux_loop feed Idle ps d = Some (ps, d)"
| "demux_loop feed Root_Loop [] d = Some ([], d)"
| "demux_loop feed (Running x parser_pid) [] d = Some ([], fb_suspend x (For_Data parser_pid) d)"
| "demux_loop feed c (p # ps) d = do { (c, d) \<leftarrow> on_packet feed c p d; demux_loop feed c ps d }"

definition demux_parse :: "'p feed \<Rightarrow> ts_packet_t list \<Rightarrow> 'p demux_t \<Rightarrow> (ts_packet_t list \<times> 'p demux_t) option" where
  "demux_parse feed ps d = demux_loop feed Root_Loop ps d"

definition new_demux :: "'p demux_t" where
  "new_demux = \<lparr>fibers = (\<lambda>_. None), current_pid = 0xffff\<rparr>"

text \<open>
  The life of a demultiplexer: calls of \<open>parse\<close>, new data when all packets have been read, and parsers that are registered and
  unregistered between the calls. The packets that were read and the identifiers that were touched are collected.
\<close>

inductive demux_run :: "'p feed \<Rightarrow> ts_packet_t list \<times> 'p demux_t \<Rightarrow> ts_packet_t list \<Rightarrow> u16 set \<Rightarrow> ts_packet_t list \<times> 'p demux_t \<Rightarrow> bool"
  for feed where
  Stop: "demux_run feed s [] {} s"
| Parse: "demux_parse feed (used @ left) d = Some (left, d') \<Longrightarrow> demux_run feed (left, d') us ts s \<Longrightarrow> demux_run feed (used @ left, d) (used @ us) ts s"
| Data: "demux_run feed (ps, d) us ts s \<Longrightarrow> demux_run feed ([], d) us ts s"
| Reg: "register_parser q st d = Some d' \<Longrightarrow> demux_run feed (ps, d') us ts s \<Longrightarrow> demux_run feed (ps, d) us (insert q ts) s"
| Unreg: "demux_run feed (ps, unregister_parser q d) us ts s \<Longrightarrow> demux_run feed (ps, d) us (insert q ts) s"

subsection \<open>Every parser gets its own packets\<close>

text \<open>A parser that waits for data waits for its own packets, and the parser that has control reads its own packets.\<close>

definition demux_inv :: "control \<Rightarrow> 'p demux_t \<Rightarrow> bool" where
  "demux_inv c d \<longleftrightarrow> (\<forall>q f x. fibers d q = Some f \<longrightarrow> fb_wait f = For_Data x \<longrightarrow> x = q) \<and>
     (case c of Running x parser_pid \<Rightarrow> parser_pid = x \<and> current_pid d = x \<and> fibers d x \<noteq> None | _ \<Rightarrow> True)"

definition touches :: "'p change list \<Rightarrow> u16 \<Rightarrow> bool" where
  "touches cs q \<longleftrightarrow> (\<exists>st. Register q st \<in> set cs) \<or> Unregister q \<in> set cs"

text \<open>The state of a parser after packets of its own.\<close>

definition fed :: "'p feed \<Rightarrow> ts_packet_t list \<Rightarrow> 'p \<Rightarrow> 'p" where
  "fed feed ps st = foldl (\<lambda>st p. fst (feed p st)) st ps"

lemma fed_simps [simp]: "fed feed [] = (\<lambda>st. st)" "fed feed (p # ps) st = fed feed ps (fst (feed p st))"
  "fed feed (ps @ qs) st = fed feed qs (fed feed ps st)"
  by (simp_all add: fed_def fun_eq_iff)

declare option.map_ident [simp]

definition parser_of :: "'p demux_t \<Rightarrow> u16 \<Rightarrow> 'p option" where
  "parser_of d q = map_option fb_parser (fibers d q)"

lemma parser_of_current_pid [simp]: "parser_of (d\<lparr>current_pid := q\<rparr>) = parser_of d"
  by (simp add: parser_of_def fun_eq_iff)

lemma fb_suspend_simps [simp]: "parser_of (fb_suspend x w d) = parser_of d" "current_pid (fb_suspend x w d) = current_pid d"
  "fibers (fb_suspend x w d) q = None \<longleftrightarrow> fibers d q = None"
proof -
  show "parser_of (fb_suspend x w d) = parser_of d"
  proof
    fix q
    show "parser_of (fb_suspend x w d) q = parser_of d q"
      by (cases "fibers d x") (auto simp: fb_suspend_def parser_of_def)
  qed
qed (auto simp: fb_suspend_def)

lemma apply_changes_spec:
  assumes "apply_changes x cs d = Some d'" "demux_inv Idle d" "fibers d x \<noteq> None"
  shows "demux_inv Idle d'" "current_pid d' = current_pid d" "fibers d' x = fibers d x" "\<not> touches cs q \<Longrightarrow> parser_of d' q = parser_of d q"
proof -
  have "demux_inv Idle d' \<and> current_pid d' = current_pid d \<and> fibers d' x = fibers d x \<and> (\<not> touches cs q \<longrightarrow> parser_of d' q = parser_of d q)"
    using assms
  proof (induction x cs d rule: apply_changes.induct)
    case (2 x p st cs d)
    from 2(2) obtain d1 where d1: "register_parser p st d = Some d1" "apply_changes x cs d1 = Some d'" by (auto simp: bind_eq_Some_conv)
    from d1(1) have n: "fibers d p = None" "d1 = d\<lparr>fibers := (fibers d)(p \<mapsto> \<lparr>fb_parser = st, fb_wait = At_Start\<rparr>)\<rparr>"
      by (simp_all add: register_parser_def split: if_splits)
    have i: "demux_inv Idle d1" "fibers d1 x = fibers d x" "current_pid d1 = current_pid d" "q \<noteq> p \<longrightarrow> parser_of d1 q = parser_of d q"
      using 2(3,4) n by (auto simp: demux_inv_def parser_of_def)
    with 2(1) [OF d1] 2(4) show ?case by (auto simp: touches_def)
  next
    case (3 x p cs d)
    from 3(2) have x: "x \<noteq> p" "apply_changes x cs (unregister_parser p d) = Some d'" by (simp_all split: if_splits)
    then have i: "demux_inv Idle (unregister_parser p d)" "fibers (unregister_parser p d) x = fibers d x"
      "current_pid (unregister_parser p d) = current_pid d" "q \<noteq> p \<longrightarrow> parser_of (unregister_parser p d) q = parser_of d q"
      using 3(3) by (auto simp: demux_inv_def unregister_parser_def parser_of_def)
    with 3(1) x 3(4) show ?case by (auto simp: touches_def)
  qed auto
  then show "demux_inv Idle d'" "current_pid d' = current_pid d" "fibers d' x = fibers d x" "\<not> touches cs q \<Longrightarrow> parser_of d' q = parser_of d q"
    by auto
qed

text \<open>The packets for one parser.\<close>

abbreviation own :: "u16 \<Rightarrow> ts_packet_t list \<Rightarrow> ts_packet_t list" where
  "own q ps \<equiv> filter (\<lambda>p. get_pid p = q) ps"

definition undisturbed :: "'p feed \<Rightarrow> u16 \<Rightarrow> bool" where
  "undisturbed feed q \<longleftrightarrow> (\<forall>p st. \<not> touches (fst (snd (feed p st))) q)"

lemma demux_inv_suspend: "demux_inv c d \<Longrightarrow> \<forall>y. w = For_Data y \<longrightarrow> y = x \<Longrightarrow> demux_inv Idle (fb_suspend x w d)"
  by (auto simp: demux_inv_def fb_suspend_def split: if_splits control.splits)

lemma run_parser_spec:
  assumes "run_parser feed x p d = Some (c, d')" "demux_inv Idle d" "current_pid d = x" "get_pid p = x" "undisturbed feed q"
  shows "demux_inv c d' \<and> parser_of d' q = map_option (fed feed (own q [p])) (parser_of d q)"
proof -
  obtain f st cs r where f: "fibers d x = Some f" "feed p (fb_parser f) = (st, cs, r)"
    using assms(1) by (cases "fibers d x") (auto simp: run_parser_def, metis prod_cases3)
  let ?d = "d\<lparr>fibers := (fibers d)(x \<mapsto> f\<lparr>fb_parser := st\<rparr>)\<rparr>"
  obtain d1 where d1: "apply_changes x cs ?d = Some d1"
    "(c, d') = (case r of Next_Packet \<Rightarrow> (Running x (current_pid d1), d1) | Return_Early \<Rightarrow> (Idle, fb_suspend x Returned_Early d1))"
    using assms(1) f by (auto simp: run_parser_def bind_eq_Some_conv)
  have i: "demux_inv Idle ?d" "fibers ?d x \<noteq> None" using assms(2) f(1) by (auto simp: demux_inv_def)
  have "\<not> touches cs q" using assms(5) f(2) by (metis undisturbed_def fst_conv snd_conv)
  note s = apply_changes_spec [OF d1(1) i] and q = apply_changes_spec(4) [OF d1(1) i this]
  have "parser_of ?d q = map_option (fed feed (own q [p])) (parser_of d q)" using f assms(4) by (auto simp: parser_of_def)
  moreover have "demux_inv c d' \<and> parser_of d' q = parser_of d1 q"
  proof (cases r)
    case Next_Packet
    then have "c = Running x (current_pid d1)" "d' = d1" using d1(2) by simp_all
    then show ?thesis using s(1,2,3) assms(3) by (simp add: demux_inv_def)
  next
    case Return_Early
    then have "c = Idle" "d' = fb_suspend x Returned_Early d1" using d1(2) by simp_all
    then show ?thesis using demux_inv_suspend [OF s(1), of Returned_Early x] by simp
  qed
  ultimately show ?thesis using q by simp
qed

lemma resume_fiber_spec:
  assumes "resume_fiber feed x p d = Some (c, d')" "demux_inv Idle d" "current_pid d = x" "get_pid p = x" "undisturbed feed q"
  shows "demux_inv c d' \<and> parser_of d' q = map_option (fed feed (own q [p])) (parser_of d q)"
proof -
  have "run_parser feed x p d = Some (c, d')"
  proof -
    obtain f where "fibers d x = Some f" using assms(1) by (auto simp: resume_fiber_def bind_eq_Some_conv)
    then show ?thesis using assms(1) by (cases "fb_wait f") (auto simp: resume_fiber_def split: if_splits)
  qed
  then show ?thesis using assms(2-5) by (rule run_parser_spec)
qed

lemma on_packet_spec:
  assumes "on_packet feed c p d = Some (c', d')" "demux_inv c d" "undisturbed feed q"
  shows "demux_inv c' d' \<and> parser_of d' q = map_option (fed feed (own q [p])) (parser_of d q)"
proof (cases c)
  case Idle
  with assms(1) show ?thesis by (simp add: on_packet_def)
next
  case Root_Loop
  let ?d = "d\<lparr>current_pid := get_pid p\<rparr>"
  have i: "demux_inv Idle ?d" "parser_of ?d = parser_of d" using assms(2) Root_Loop by (auto simp: demux_inv_def parser_of_def)
  show ?thesis
  proof (cases "fibers d (get_pid p) = None")
    case True
    then show ?thesis using assms Root_Loop by (auto simp: on_packet_def parser_of_def)
  next
    case False
    then have "resume_fiber feed (get_pid p) p ?d = Some (c', d')" using assms(1) Root_Loop by (simp add: on_packet_def)
    from resume_fiber_spec [OF this i(1) _ refl assms(3)] i(2) show ?thesis by simp
  qed
next
  case (Running x y)
  then have y: "y = x" "current_pid d = x" "demux_inv Idle d" using assms(2) by (auto simp: demux_inv_def)
  show ?thesis
  proof (cases "get_pid p = x")
    case True
    then have "run_parser feed x p d = Some (c', d')" using assms(1) Running y by (simp add: on_packet_def)
    from run_parser_spec [OF this y(3,2) True assms(3)] show ?thesis .
  next
    case False
    let ?d = "(fb_suspend x For_Packet d)\<lparr>current_pid := get_pid p\<rparr>"
    have "demux_inv Idle (fb_suspend x For_Packet d)" by (rule demux_inv_suspend [OF y(3)]) simp
    then have i: "demux_inv Idle ?d" "demux_inv Root_Loop ?d" by (simp_all add: demux_inv_def)
    have p: "parser_of ?d = parser_of d" by simp
    show ?thesis
    proof (cases "fibers d (get_pid p) = None")
      case True
      then have "c' = Root_Loop" "d' = ?d" "get_pid p = q \<Longrightarrow> parser_of d q = None"
        using assms(1) Running False y(1) by (auto simp: on_packet_def parser_of_def Let_def simp del: not_None_eq)
      then show ?thesis using i p by (cases "get_pid p = q") auto
    next
      case reg: False
      then have "resume_fiber feed (get_pid p) p ?d = Some (c', d')"
        using assms(1) Running False y(1) by (simp add: on_packet_def Let_def del: not_None_eq)
      from resume_fiber_spec [OF this i(1) _ refl assms(3)] p show ?thesis by simp
    qed
  qed
qed

lemma demux_loop_spec:
  assumes "demux_loop feed c ps d = Some (left, d')" "demux_inv c d" "undisturbed feed q"
  shows "\<exists>used. ps = used @ left \<and> demux_inv Idle d' \<and> parser_of d' q = map_option (fed feed (own q used)) (parser_of d q)"
  using assms(1,2)
proof (induction ps arbitrary: c d)
  case Nil
  then show ?case
  proof (cases c)
    case (Running x y)
    with Nil have "d' = fb_suspend x (For_Data y) d" "left = []" "y = x" by (auto simp: demux_inv_def)
    then show ?thesis using Nil.prems(2) by (auto intro: demux_inv_suspend)
  qed (auto simp: demux_inv_def)
next
  case (Cons p ps)
  show ?case
  proof (cases "c = Idle")
    case True
    then show ?thesis using Cons.prems by auto
  next
    case False
    then obtain c1 d1 where 1: "on_packet feed c p d = Some (c1, d1)" "demux_loop feed c1 ps d1 = Some (left, d')"
      using Cons.prems(1) by (cases c) (auto simp: bind_eq_Some_conv)
    note s = on_packet_spec [OF 1(1) Cons.prems(2) assms(3)]
    from Cons.IH [OF 1(2)] s obtain used where u: "ps = used @ left" "demux_inv Idle d'"
      "parser_of d' q = map_option (fed feed (own q used)) (parser_of d1 q)" by blast
    have "parser_of d' q = map_option (fed feed (own q (p # used))) (parser_of d q)"
      using u(3) s by (cases "parser_of d q") auto
    with u(1,2) show ?thesis by (intro exI [of _ "p # used"]) simp
  qed
qed

lemma demux_run_spec:
  assumes "demux_run feed s us ts s'" "demux_inv Idle (snd s)" "undisturbed feed q" "q \<notin> ts"
  shows "demux_inv Idle (snd s') \<and> parser_of (snd s') q = map_option (fed feed (own q us)) (parser_of (snd s) q)"
  using assms(1,2,4)
proof (induction rule: demux_run.induct)
  case (Parse used left d d' us ts s)
  have "demux_inv Root_Loop d" using Parse.prems(1) by (simp add: demux_inv_def)
  from demux_loop_spec [OF Parse.hyps(1) [unfolded demux_parse_def] this assms(3)] have
    "demux_inv Idle d'" "parser_of d' q = map_option (fed feed (own q used)) (parser_of d q)" by auto
  with Parse.IH Parse.prems(2) show ?case by (cases "parser_of d q") auto
next
  case (Reg p st d d' ps us ts s)
  have "demux_inv Idle d'" "parser_of d' q = parser_of d q"
    using Reg.hyps(1) Reg.prems by (auto simp: register_parser_def demux_inv_def parser_of_def split: if_splits)
  with Reg.IH Reg.prems(2) show ?case by simp
next
  case (Unreg ps p d us ts s)
  have "demux_inv Idle (unregister_parser p d)" "parser_of (unregister_parser p d) q = parser_of d q"
    using Unreg.prems by (auto simp: unregister_parser_def demux_inv_def parser_of_def)
  with Unreg.IH Unreg.prems(2) show ?case by simp
qed simp_all

text \<open>The demultiplexer goes on with every packet as long as the parsers do not change the registrations.\<close>

lemma run_parser_returns:
  assumes "fibers d x \<noteq> None" "\<forall>p st. fst (snd (feed p st)) = []"
  shows "\<exists>r. run_parser feed x p d = Some r"
proof -
  obtain f where f: "fibers d x = Some f" using assms(1) by blast
  obtain st cs r where r: "feed p (fb_parser f) = (st, cs, r)" by (rule prod_cases3)
  moreover have "cs = []" using assms(2) r by (metis fst_conv snd_conv)
  ultimately show ?thesis using f by (simp add: run_parser_def)
qed

lemma resume_fiber_returns:
  assumes "fibers d (get_pid p) \<noteq> None" "\<forall>p st. fst (snd (feed p st)) = []" "demux_inv Idle d"
  shows "\<exists>r. resume_fiber feed (get_pid p) p d = Some r"
proof -
  obtain f where f: "fibers d (get_pid p) = Some f" using assms(1) by blast
  show ?thesis using run_parser_returns [OF assms(1,2), of p] f assms(3)
    by (cases "fb_wait f") (auto simp: resume_fiber_def demux_inv_def)
qed

lemma on_packet_returns:
  assumes "c \<noteq> Idle" "demux_inv c d" "\<forall>p st. fst (snd (feed p st)) = []"
  shows "\<exists>r. on_packet feed c p d = Some r"
proof (cases c)
  case Root_Loop
  have "demux_inv Idle (d\<lparr>current_pid := get_pid p\<rparr>)" using assms(2) by (simp add: demux_inv_def)
  then show ?thesis using Root_Loop resume_fiber_returns [of "d\<lparr>current_pid := get_pid p\<rparr>" p feed] assms(3) by (simp add: on_packet_def)
next
  case (Running x y)
  let ?d = "(fb_suspend x For_Packet d)\<lparr>current_pid := get_pid p\<rparr>"
  have y: "y = x" "fibers d x \<noteq> None" using assms(2) Running by (auto simp: demux_inv_def)
  have "demux_inv Idle (fb_suspend x For_Packet d)" using assms(2) by (rule demux_inv_suspend) simp
  then have i: "demux_inv Idle ?d" by (simp add: demux_inv_def)
  show ?thesis
  proof (cases "get_pid p = x \<or> fibers ?d (get_pid p) = None")
    case True
    then show ?thesis using Running y run_parser_returns [OF y(2) assms(3), of p]
      by (auto simp: on_packet_def Let_def simp del: not_None_eq)
  next
    case False
    then show ?thesis using Running y resume_fiber_returns [of ?d p, OF _ assms(3) i] by (auto simp: on_packet_def Let_def simp del: not_None_eq)
  qed
qed (use assms(1) in simp)

lemma undisturbed_quiet: "\<forall>p st. fst (snd (feed p st)) = [] \<Longrightarrow> undisturbed feed q"
  by (simp add: undisturbed_def touches_def)

lemma demux_loop_returns:
  assumes "demux_inv c d" "\<forall>p st. fst (snd (feed p st)) = []"
  shows "\<exists>r. demux_loop feed c ps d = Some r"
  using assms(1)
proof (induction ps arbitrary: c d)
  case Nil
  then show ?case by (cases c) auto
next
  case (Cons p ps)
  show ?case
  proof (cases "c = Idle")
    case False
    from on_packet_returns [OF this Cons.prems assms(2), of p] obtain c1 d1 where 1: "on_packet feed c p d = Some (c1, d1)" by auto
    then have "demux_inv c1 d1" using on_packet_spec [OF 1 Cons.prems undisturbed_quiet [OF assms(2)]] by blast
    with Cons.IH 1 False show ?thesis by (cases c) auto
  qed simp
qed

text \<open>C7: Whichever coroutine has control and however the data are split over the calls, a registered parser is given exactly the packets with its
  own identifier, in their order: its state is the one after these packets. This holds as long as nobody registers or
  unregisters it. A call of parse returns when the parsers do not change the registrations.\<close>
theorem demultiplexer_delivers:
  "(demux_inv Idle d \<and> demux_run feed (ps, d) used ts (ps', d') \<and> undisturbed feed q \<and> q \<notin> ts \<longrightarrow>
      demux_inv Idle d' \<and> parser_of d' q = map_option (fed feed (own q used)) (parser_of d q)) \<and>
   (demux_inv Idle d \<and> (\<forall>p st. fst (snd (feed p st)) = []) \<longrightarrow> (\<exists>r. demux_parse feed ps d = Some r))"
proof (intro conjI impI)
  show "demux_inv Idle d'" "parser_of d' q = map_option (fed feed (own q used)) (parser_of d q)"
    if "demux_inv Idle d \<and> demux_run feed (ps, d) used ts (ps', d') \<and> undisturbed feed q \<and> q \<notin> ts"
    using demux_run_spec [of feed "(ps, d)" used ts "(ps', d')" q] that by simp_all
  show "\<exists>r. demux_parse feed ps d = Some r" if "demux_inv Idle d \<and> (\<forall>p st. fst (snd (feed p st)) = [])"
    using demux_loop_returns [of Root_Loop d feed ps] that by (simp add: demux_parse_def demux_inv_def)
qed

text \<open>Two parsers that collect the numbers of the packets they are given.\<close>

definition example_feed :: "u16 list feed" where
  "example_feed p st = (st @ [get_pid p], [], Next_Packet)"

definition example_demux :: "u16 list demux_t" where
  "example_demux = the (register_parser 2 [] (the (register_parser 1 [] new_demux)))"

definition numbered :: "u16 \<Rightarrow> ts_packet_t" where
  "numbered n = default_ts_packet\<lparr>header := n\<rparr>"

lemma example_demux_parse:
  "\<exists>d. demux_parse example_feed (map numbered [1, 2, 3, 2]) example_demux = Some ([], d) \<and> parser_of d 2 = Some [2, 2]"
  by (simp add: demux_parse_def on_packet_def resume_fiber_def run_parser_def example_demux_def register_parser_def new_demux_def numbered_def
      get_pid_def example_feed_def fb_suspend_def parser_of_def Let_def)

theorem demultiplexer_delivers_witness:
  "\<exists>d. demux_parse example_feed (map numbered [1, 2, 3, 2]) example_demux = Some ([], d) \<and> demux_inv Idle d \<and>
    parser_of d 2 = Some (fed example_feed (own 2 (map numbered [1, 2, 3, 2])) [])"
proof -
  obtain d where d: "demux_parse example_feed (map numbered [1, 2, 3, 2]) example_demux = Some ([], d)" using example_demux_parse by blast
  then have "demux_run example_feed (map numbered [1, 2, 3, 2], example_demux) (map numbered [1, 2, 3, 2]) {} ([], d)"
    using demux_run.Parse [of example_feed "map numbered [1, 2, 3, 2]" "[]" example_demux d "[]" "{}" "([], d)"] demux_run.Stop by fastforce
  moreover have "demux_inv Idle example_demux" "undisturbed example_feed 2" "parser_of example_demux 2 = Some []"
    by (auto simp: demux_inv_def example_demux_def register_parser_def new_demux_def undisturbed_def touches_def example_feed_def parser_of_def
        split: if_splits)
  ultimately show ?thesis using d demultiplexer_delivers [THEN conjunct1, rule_format, of example_demux example_feed _ _ "{}" "[]" d 2] by auto
qed

end
