(* ===== verification/Devdb.thy ===== *)
theory Devdb
  imports Chdb_Types "HOL-Library.Product_Lexorder"
begin

text \<open>
  The records of the device database, src/src/neumodb/devdb/dbdefs.py: LNBs with their networks and connections,
  dishes, front ends and their subscriptions. The generated C++ structures have the fields and the defaults given there; signed fields
  are \<open>int\<close>, and a narrowing assignment is written as \<^term>\<open>signed_take_bit\<close>. A table of the database is the list of its
  records in the order of the encoded primary key, which is the order of the key fields (\<open>Codec\<close>).
\<close>

unbundle bit_operations_syntax

section \<open>Keys, LNBs and dishes\<close>

datatype lnb_type_t = LNB_UNKNOWN | LNB_C | LNB_Ku | LNB_UNIV | LNB_WDB | LNB_WDBUK | LNB_KaA | LNB_KaB | LNB_KaC | LNB_KaD | LNB_KaE

datatype lnb_pol_type_t = PT_UNKNOWN | PT_HV | PT_LR | PT_VH | PT_RL | PT_H | PT_V | PT_L | PT_R

datatype sat_band_t = BAND_UNKNOWN | BAND_C | BAND_Ku | BAND_KaA | BAND_KaB | BAND_KaC | BAND_KaD | BAND_KaE | BAND_Other

datatype sat_sub_band_t = SUB_NONE | SUB_LOW | SUB_HIGH

datatype rotor_control_t = ROTOR_MASTER_MANUAL | ROTOR_MASTER_USALS | ROTOR_MASTER_DISEQC12 | ROTOR_NONE

text \<open>\<open>neumodb/metadata.h\<close>\<close>


abbreviation sat_pos_tolerance :: int where "sat_pos_tolerance \<equiv> 100"

record mux_key_t =
  mk_sat_pos :: int
  mk_stream_id :: int
  mk_t2mi_pid :: int
  mk_mux_id :: u16

definition default_mux_key :: mux_key_t where
  "default_mux_key = \<lparr>mk_sat_pos = sat_pos_none, mk_stream_id = -1, mk_t2mi_pid = -1, mk_mux_id = 0\<rparr>"

record lnb_key_t =
  dish_id :: int
  lnb_id :: int
  lnb_type :: lnb_type_t

definition default_lnb_key :: lnb_key_t where
  "default_lnb_key = \<lparr>dish_id = -1, lnb_id = -1, lnb_type = LNB_UNIV\<rparr>"

record rf_path_t =
  rf_lnb :: lnb_key_t
  rf_card_mac_address :: int
  rf_input :: int

definition default_rf_path :: rf_path_t where
  "default_rf_path = \<lparr>rf_lnb = default_lnb_key, rf_card_mac_address = -1, rf_input = -1\<rparr>"

record lnb_network_t =
  nw_sat_pos :: int
  nw_priority :: int
  nw_usals_pos :: int
  nw_diseqc12 :: int
  nw_enabled :: bool
  nw_ref_mux :: mux_key_t

record lnb_connection_t =
  conn_card_mac_address :: int
  conn_rf_input :: int
  conn_enabled :: bool
  conn_can_be_used :: bool
  conn_priority :: int
  conn_rotor_control :: rotor_control_t
  conn_diseqc_mini :: u8
  conn_diseqc_10 :: int
  conn_diseqc_11 :: int
  conn_unicable :: bool
  conn_card_no :: int
  conn_rf_coupler_id :: int
  conn_tune_string :: string
  conn_connection_name :: string

record unicable_ch_t =
  uc_unicable_version :: int
  uc_ch_id :: int
  uc_position :: int
  uc_frequency :: int
  uc_enabled :: bool
  uc_pin_code :: int

record lnb_t =
  lnb_k :: lnb_key_t
  lnb_cur_usals_pos :: int \<comment> \<open>\<open>usals_pos\<close>\<close>
  lnb_usals_pos :: int
  lnb_cur_sat_pos :: int
  lnb_on_positioner :: bool
  lnb_pol_type :: lnb_pol_type_t
  lnb_enabled :: bool
  lnb_offset_angle :: int
  lnb_priority :: int
  lnb_lof_low :: int
  lnb_lof_high :: int
  lnb_freq_low :: int
  lnb_freq_mid :: int
  lnb_freq_high :: int
  lnb_can_be_used :: bool
  lnb_networks :: "lnb_network_t list"
  lnb_connections :: "lnb_connection_t list"
  lnb_unicable_channels :: "unicable_ch_t list"
  lnb_lof_offsets :: "int list"

record dish_t =
  dh_dish_id :: int
  dh_cur_usals_pos :: int
  dh_target_usals_pos :: int
  dh_powerup_time :: int
  dh_speeds :: "int list"
  dh_mtime :: int
  dh_enabled :: bool
  dh_name :: string

record usals_location_t =
  usals_latitude :: int
  usals_longitude :: int
  usals_altitude :: int

record band_scan_t =
  bs_pol :: fe_polarisation_t
  bs_sat_band :: sat_band_t
  bs_sat_sub_band :: sat_sub_band_t

definition default_dish :: dish_t where
  "default_dish = \<lparr>dh_dish_id = -1, dh_cur_usals_pos = sat_pos_none, dh_target_usals_pos = sat_pos_none, dh_powerup_time = 1500,
     dh_speeds = [100, 200], dh_mtime = 0, dh_enabled = True, dh_name = []\<rparr>"

definition default_lnb :: lnb_t where
  "default_lnb = \<lparr>lnb_k = default_lnb_key, lnb_cur_usals_pos = sat_pos_none, lnb_usals_pos = sat_pos_none,
     lnb_cur_sat_pos = sat_pos_none, lnb_on_positioner = False, lnb_pol_type = PT_HV, lnb_enabled = True, lnb_offset_angle = 0,
     lnb_priority = -1, lnb_lof_low = -1, lnb_lof_high = -1, lnb_freq_low = -1, lnb_freq_mid = -1, lnb_freq_high = -1,
     lnb_can_be_used = True, lnb_networks = [], lnb_connections = [], lnb_unicable_channels = [], lnb_lof_offsets = []\<rparr>"

definition default_network :: lnb_network_t where
  "default_network = \<lparr>nw_sat_pos = sat_pos_none, nw_priority = 0, nw_usals_pos = sat_pos_none, nw_diseqc12 = -1, nw_enabled = True,
     nw_ref_mux = default_mux_key\<rparr>"

definition default_connection :: lnb_connection_t where
  "default_connection = \<lparr>conn_card_mac_address = -1, conn_rf_input = -1, conn_enabled = True, conn_can_be_used = True,
     conn_priority = -1, conn_rotor_control = ROTOR_NONE, conn_diseqc_mini = 0, conn_diseqc_10 = -1, conn_diseqc_11 = -1,
     conn_unicable = True, conn_card_no = -1, conn_rf_coupler_id = -1, conn_tune_string = ''UCP'', conn_connection_name = []\<rparr>"

section \<open>Front ends and subscriptions\<close>

record db_service_t =
  sv_mux :: mux_key_t
  sv_network_id :: u16
  sv_ts_id :: u16
  sv_service_id :: u16

datatype subscribed_t = Monostate | Service db_service_t | Band_Scan band_scan_t

record subscription_data_t =
  sd_subscription_id :: int
  sd_has_mux :: bool
  sd_has_service :: bool
  sd_v :: subscribed_t

record fe_subscription_t =
  sub_owner :: int
  sub_config_id :: int
  sub_rf_path :: rf_path_t
  sub_sat_pos :: int
  sub_pol :: fe_polarisation_t
  sub_band :: sat_sub_band_t
  sub_usals_pos :: int
  sub_dish_usals_pos :: int
  sub_dish_id :: int
  sub_frequency :: int
  sub_rf_coupler_id :: int
  sub_mux_key :: mux_key_t
  sub_unicable_ch :: "unicable_ch_t option"
  sub_subs :: "subscription_data_t list"

definition default_subscription :: fe_subscription_t where
  "default_subscription = \<lparr>sub_owner = -1, sub_config_id = -1, sub_rf_path = default_rf_path, sub_sat_pos = sat_pos_none,
     sub_pol = POL_NONE, sub_band = SUB_NONE, sub_usals_pos = sat_pos_none, sub_dish_usals_pos = sat_pos_none, sub_dish_id = -1,
     sub_frequency = 0, sub_rf_coupler_id = -1, sub_mux_key = default_mux_key, sub_unicable_ch = None, sub_subs = []\<rparr>"

datatype fe_delsys_t = DELSYS_UNDEFINED | DELSYS_DVBC_ANNEX_A | DELSYS_DVBC_ANNEX_B | DELSYS_DVBC_ANNEX_C | DELSYS_ISDBC
  | DELSYS_DVBT | DELSYS_DVBT2 | DELSYS_TURBO | DELSYS_ATSC | DELSYS_ATSCMH | DELSYS_ISDBT
  | DELSYS_DVBS | DELSYS_DVBS2 | DELSYS_ISDBS | DELSYS_DSS | DELSYS_DVBH | DELSYS_DTMB | DELSYS_CMMB | DELSYS_DAB

datatype delsys_type_t = DT_NONE | DVB_S | DVB_T | DVB_C

record fe_supports_t =
  multistream :: bool
  blindscan :: bool
  spectrum_sweep :: bool
  spectrum_fft :: bool
  iq :: bool

record fe_key_t =
  adapter_mac_address :: int
  frontend_no :: u8

record fe_t =
  fe_card_no :: int
  fe_k :: fe_key_t
  fe_adapter_no :: int
  fe_present :: bool
  fe_can_be_used :: bool
  fe_enable_dvbs :: bool
  fe_enable_dvbt :: bool
  fe_enable_dvbc :: bool
  fe_priority :: int
  fe_sub :: fe_subscription_t
  fe_card_mac_address :: int
  fe_supports :: fe_supports_t
  fe_card_short_name :: string
  fe_delsys :: "fe_delsys_t list"
  fe_rf_inputs :: "int list"

definition default_fe :: fe_t where
  "default_fe = \<lparr>fe_card_no = -1, fe_k = \<lparr>adapter_mac_address = 0, frontend_no = 0\<rparr>, fe_adapter_no = 0, fe_present = False,
     fe_can_be_used = True, fe_enable_dvbs = True, fe_enable_dvbt = True, fe_enable_dvbc = True, fe_priority = 0,
     fe_sub = default_subscription, fe_card_mac_address = 0,
     fe_supports = \<lparr>multistream = False, blindscan = False, spectrum_sweep = False, spectrum_fft = False, iq = False\<rparr>,
     fe_card_short_name = [], fe_delsys = [], fe_rf_inputs = []\<rparr>"

section \<open>Tables\<close>

fun table_put :: "('r \<Rightarrow> 'k::linorder) \<Rightarrow> 'r \<Rightarrow> 'r list \<Rightarrow> 'r list" where
  "table_put key x [] = [x]"
| "table_put key x (y # ys) = (if key x < key y then x # y # ys else if key x = key y then x # ys else y # table_put key x ys)"

definition table_find :: "('r \<Rightarrow> 'k) \<Rightarrow> 'k \<Rightarrow> 'r list \<Rightarrow> 'r option" where
  "table_find key k t = find (\<lambda>r. key r = k) t"

definition table_delete :: "('r \<Rightarrow> 'k) \<Rightarrow> 'k \<Rightarrow> 'r list \<Rightarrow> 'r list" where
  "table_delete key k t = filter (\<lambda>r. key r \<noteq> k) t"

primrec lnb_type_code :: "lnb_type_t \<Rightarrow> int" where
  "lnb_type_code LNB_UNKNOWN = -1"
| "lnb_type_code LNB_C = 0"
| "lnb_type_code LNB_Ku = 1"
| "lnb_type_code LNB_UNIV = 2"
| "lnb_type_code LNB_WDB = 3"
| "lnb_type_code LNB_WDBUK = 4"
| "lnb_type_code LNB_KaA = 5"
| "lnb_type_code LNB_KaB = 6"
| "lnb_type_code LNB_KaC = 7"
| "lnb_type_code LNB_KaD = 8"
| "lnb_type_code LNB_KaE = 9"

definition lnb_key_order :: "lnb_key_t \<Rightarrow> int \<times> int \<times> int" where
  "lnb_key_order k = (dish_id k, lnb_id k, lnb_type_code (lnb_type k))"

definition lnb_order :: "lnb_t \<Rightarrow> int \<times> int \<times> int" where
  "lnb_order l = lnb_key_order (lnb_k l)"

definition fe_key_order :: "fe_key_t \<Rightarrow> int \<times> nat" where
  "fe_key_order k = (adapter_mac_address k, unat (frontend_no k))"

definition fe_order :: "fe_t \<Rightarrow> int \<times> nat" where
  "fe_order f = fe_key_order (fe_k f)"

text \<open>The two counters are those of the process, \<open>next_config_id\<close> and \<open>subscribe_ret_t::next_subscription_id\<close>.\<close>

record devdb_t =
  lnbs :: "lnb_t list"
  fes :: "fe_t list"
  dishes :: "dish_t list"
  next_config_id :: int
  next_subscription_id :: int

definition put_lnb :: "lnb_t \<Rightarrow> devdb_t \<Rightarrow> devdb_t" where
  "put_lnb l db = db\<lparr>lnbs := table_put lnb_order l (lnbs db)\<rparr>"

definition put_fe :: "fe_t \<Rightarrow> devdb_t \<Rightarrow> devdb_t" where
  "put_fe f db = db\<lparr>fes := table_put fe_order f (fes db)\<rparr>"

definition put_dish :: "dish_t \<Rightarrow> devdb_t \<Rightarrow> devdb_t" where
  "put_dish d db = db\<lparr>dishes := table_put dh_dish_id d (dishes db)\<rparr>"

definition find_lnb :: "lnb_key_t \<Rightarrow> devdb_t \<Rightarrow> lnb_t option" where
  "find_lnb k db = table_find lnb_order (lnb_key_order k) (lnbs db)"

definition find_fe :: "fe_key_t \<Rightarrow> devdb_t \<Rightarrow> fe_t option" where
  "find_fe k db = table_find fe_order (fe_key_order k) (fes db)"

lemma lnb_type_code_inj: "lnb_type_code a = lnb_type_code b \<longleftrightarrow> a = b"
  by (cases a; cases b) simp_all

lemma lnb_key_order_inj [simp]: "lnb_key_order a = lnb_key_order b \<longleftrightarrow> a = b"
  by (cases a; cases b) (auto simp: lnb_key_order_def lnb_type_code_inj)

lemma fe_key_order_inj [simp]: "fe_key_order a = fe_key_order b \<longleftrightarrow> a = b"
  by (cases a; cases b) (auto simp: fe_key_order_def word_unat_eq_iff)

section \<open>The contract of a table\<close>

definition table_ok :: "('r \<Rightarrow> 'k::linorder) \<Rightarrow> 'r list \<Rightarrow> bool" where
  "table_ok key t \<longleftrightarrow> sorted_wrt (\<lambda>x y. key x < key y) t"

lemma table_put_set:
  assumes "table_ok key t"
  shows "set (table_put key x t) = insert x {y \<in> set t. key y \<noteq> key x}"
  using assms by (induction t) (auto simp: table_ok_def)

lemma table_put_ok:
  assumes "table_ok key t"
  shows "table_ok key (table_put key x t)"
  using assms
proof (induction t)
  case (Cons y ys)
  then have *: "table_ok key ys" "\<forall>z \<in> set ys. key y < key z" by (auto simp: table_ok_def)
  then have "set (table_put key x ys) = insert x {z \<in> set ys. key z \<noteq> key x}" by (intro table_put_set)
  then show ?case using Cons.IH [OF *(1)] * by (auto simp: table_ok_def)
qed (simp add: table_ok_def)

lemma table_find_iff:
  assumes "table_ok key t"
  shows "table_find key k t = Some r \<longleftrightarrow> r \<in> set t \<and> key r = k"
  using assms by (induction t) (auto simp: table_ok_def table_find_def)

lemma table_find_put:
  assumes "table_ok key t"
  shows "table_find key k (table_put key x t) = (if k = key x then Some x else table_find key k t)"
  using assms by (induction t) (auto simp: table_ok_def table_find_def)


text \<open>What the code relies on when it uses a table: a record that was put is found under its key, no other record changes,
  and the table keeps its order, so that no two of its records share a key.\<close>

locale keyed_table =
  fixes key :: "'r \<Rightarrow> 'k"
    and find_record :: "'k \<Rightarrow> 'd \<Rightarrow> 'r option"
    and put_record :: "'r \<Rightarrow> 'd \<Rightarrow> 'd"
    and records :: "'d \<Rightarrow> 'r set"
    and ok :: "'d \<Rightarrow> bool"
  assumes ok_put: "ok db \<Longrightarrow> ok (put_record r db)"
    and records_put: "ok db \<Longrightarrow> records (put_record r db) = insert r {r' \<in> records db. key r' \<noteq> key r}"
    and find_iff: "ok db \<Longrightarrow> find_record k db = Some r \<longleftrightarrow> r \<in> records db \<and> key r = k"
begin

lemma find_put: "ok db \<Longrightarrow> find_record k (put_record r db) = (if k = key r then Some r else find_record k db)"
proof -
  assume ok: "ok db"
  have "find_record k (put_record r db) = Some x \<longleftrightarrow> (if k = key r then Some r else find_record k db) = Some x" for x
    using ok by (auto simp: find_iff ok_put records_put)
  then show ?thesis by (metis (no_types) not_Some_eq)
qed

lemma same_key_same_record: "ok db \<Longrightarrow> r \<in> records db \<Longrightarrow> r' \<in> records db \<Longrightarrow> key r = key r' \<Longrightarrow> r = r'"
  by (metis find_iff option.inject)

lemma keys_put: "ok db \<Longrightarrow> key ` records (put_record r db) = insert (key r) (key ` records db)"
  by (auto simp: records_put)

lemma ball_put:
  "ok db \<Longrightarrow> (\<forall>r' \<in> records (put_record r db). P r') \<longleftrightarrow> P r \<and> (\<forall>r' \<in> records db. key r' \<noteq> key r \<longrightarrow> P r')"
  by (auto simp: records_put)

end

definition devdb_ok :: "devdb_t \<Rightarrow> bool" where
  "devdb_ok db \<longleftrightarrow> table_ok lnb_order (lnbs db) \<and> table_ok fe_order (fes db) \<and> table_ok dh_dish_id (dishes db)"

lemmas table_laws = devdb_ok_def table_put_ok table_put_set table_find_iff

interpretation lnb_table: keyed_table lnb_k find_lnb put_lnb "\<lambda>db. set (lnbs db)" devdb_ok
  by unfold_locales (auto simp: table_laws put_lnb_def find_lnb_def lnb_order_def)

interpretation fe_table: keyed_table fe_k find_fe put_fe "\<lambda>db. set (fes db)" devdb_ok
  by unfold_locales (auto simp: table_laws put_fe_def find_fe_def fe_order_def)

definition find_dish :: "int \<Rightarrow> devdb_t \<Rightarrow> dish_t option" where
  "find_dish k db = table_find dh_dish_id k (dishes db)"

interpretation dish_table: keyed_table dh_dish_id find_dish put_dish "\<lambda>db. set (dishes db)" devdb_ok
  by unfold_locales (auto simp: table_laws put_dish_def find_dish_def)

lemma put_other_tables [simp]:
  "fes (put_lnb l db) = fes db" "dishes (put_lnb l db) = dishes db" "lnbs (put_fe f db) = lnbs db" "dishes (put_fe f db) = dishes db"
  "lnbs (put_dish d db) = lnbs db" "fes (put_dish d db) = fes db"
  by (simp_all add: put_lnb_def put_fe_def put_dish_def)

end
