(* ===== verification/Lnb.thy ===== *)
theory Lnb
  imports Devdb "HOL-Library.Signed_Division"
begin

text \<open>
  The rules for LNBs of src/src/neumodb/devdb/devdb_extra.cc and devdb_extra.h, and the frequency plan of
  src/src/neumodb/chdb/chdb_extra.cc: which frequencies and polarisations an LNB receives, the translation between the
  frequency of a mux and the frequency of the tuner, voltages, satellite networks, the choice of a connection, and the inverse of
  the angle of a rotor. Frequencies are in kHz, positions in hundredths of a degree. \<open>None\<close> is a failed assertion. The angle of a
  rotor is computed with the floating point functions of the mathematical library; \<open>sat_pos_to_usals_par\<close> is therefore a parameter.
\<close>

unbundle bit_operations_syntax

section \<open>Bands\<close>

primrec sat_band :: "lnb_type_t \<Rightarrow> sat_band_t" where
  "sat_band LNB_C = BAND_C"
| "sat_band LNB_WDB = BAND_Ku"
| "sat_band LNB_WDBUK = BAND_Ku"
| "sat_band LNB_UNIV = BAND_Ku"
| "sat_band LNB_Ku = BAND_Ku"
| "sat_band LNB_KaA = BAND_KaA"
| "sat_band LNB_KaB = BAND_KaB"
| "sat_band LNB_KaC = BAND_KaC"
| "sat_band LNB_KaD = BAND_KaD"
| "sat_band LNB_KaE = BAND_KaE"
| "sat_band LNB_UNKNOWN = BAND_Other"

record band_t =
  freq_low :: int
  freq_mid :: int
  freq_high :: int
  lof_low :: int
  lof_high :: int
  inverted_spectrum :: bool

text \<open>A field of the record that is negative stands for the default of the type; the default of the middle frequency is the
  highest frequency, except for a universal LNB.\<close>

definition band_of :: "lnb_t \<Rightarrow> int \<Rightarrow> int \<Rightarrow> int option \<Rightarrow> int \<Rightarrow> int \<Rightarrow> band_t" where
  "band_of l low high mid llow lhigh =
     (let f_low = (if lnb_freq_low l < 0 then low else lnb_freq_low l);
          f_high = (if lnb_freq_high l < 0 then high else lnb_freq_high l);
          f_mid = (if lnb_freq_mid l < 0 then (case mid of Some m \<Rightarrow> m | None \<Rightarrow> f_high) else lnb_freq_mid l);
          l_low = (if lnb_lof_low l < 0 then llow else lnb_lof_low l);
          l_high = (if lnb_lof_high l < 0 then lhigh else lnb_lof_high l)
      in \<lparr>freq_low = f_low, freq_mid = f_mid, freq_high = f_high, lof_low = l_low, lof_high = l_high,
          inverted_spectrum = (f_low \<le> l_low)\<rparr>)"

definition lnb_band_helper :: "lnb_t \<Rightarrow> band_t option" where
  "lnb_band_helper l = (case lnb_type (lnb_k l) of
       LNB_C \<Rightarrow> Some (band_of l 3400000 4200000 None 5150000 5150000)
     | LNB_WDB \<Rightarrow> Some (band_of l 10700000 12750000 None 10400000 10400000)
     | LNB_WDBUK \<Rightarrow> Some (band_of l 10700000 12750000 None 10410000 1041000)
     | LNB_UNIV \<Rightarrow> Some (band_of l 10700000 12750000 (Some 11700000) 9750000 10600000)
     | LNB_Ku \<Rightarrow> Some (band_of l 11700000 12200000 None 9750000 9750000)
     | LNB_KaA \<Rightarrow> Some (band_of l 18200000 19200000 None 17250000 17250000)
     | LNB_KaB \<Rightarrow> Some (band_of l 19200000 20200000 None 18250000 18250000)
     | LNB_KaC \<Rightarrow> Some (band_of l 20200000 21200000 None 19250000 19250000)
     | LNB_KaD \<Rightarrow> Some (band_of l 21200000 22200000 None 20250000 20250000)
     | LNB_KaE \<Rightarrow> Some (band_of l 17200000 18200000 None 16250000 16250000)
     | LNB_UNKNOWN \<Rightarrow> None)"

definition lnb_frequency_range :: "lnb_t \<Rightarrow> (u32 \<times> u32) option" where
  "lnb_frequency_range l = map_option (\<lambda>b. (word_of_int (freq_low b), word_of_int (freq_high b))) (lnb_band_helper l)"

definition sat_band_for_freq :: "int \<Rightarrow> sat_band_t \<times> sat_sub_band_t" where
  "sat_band_for_freq f =
     (if 3400000 \<le> f \<and> f \<le> 4200000 then (BAND_C, SUB_LOW)
      else if 10700000 \<le> f \<and> f < 11700000 then (BAND_Ku, SUB_LOW)
      else if 11700000 \<le> f \<and> f < 12750000 then (BAND_Ku, SUB_HIGH)
      else if 18200000 \<le> f \<and> f < 19200000 then (BAND_KaA, SUB_LOW)
      else if 19200000 \<le> f \<and> f < 20200000 then (BAND_KaB, SUB_LOW)
      else if 20200000 \<le> f \<and> f < 21200000 then (BAND_KaC, SUB_LOW)
      else if 21200000 \<le> f \<and> f < 22200000 then (BAND_KaD, SUB_LOW)
      else if 17200000 \<le> f \<and> f < 18200000 then (BAND_KaE, SUB_LOW)
      else (BAND_UNKNOWN, SUB_LOW))"

definition sat_band_freq_bounds :: "sat_band_t \<Rightarrow> sat_sub_band_t \<Rightarrow> int \<times> int" where
  "sat_band_freq_bounds b sub = (case b of
       BAND_C \<Rightarrow> (3400000, 4200000)
     | BAND_Ku \<Rightarrow> (case sub of SUB_NONE \<Rightarrow> (10700000, 12750000) | SUB_LOW \<Rightarrow> (10700000, 11700000) | SUB_HIGH \<Rightarrow> (11700000, 12750000))
     | BAND_KaA \<Rightarrow> (18200000, 19200000)
     | BAND_KaB \<Rightarrow> (19200000, 20200000)
     | BAND_KaC \<Rightarrow> (20200000, 21200000)
     | BAND_KaD \<Rightarrow> (21200000, 22200000)
     | BAND_KaE \<Rightarrow> (17200000, 18200000)
     | _ \<Rightarrow> (0, 2147483647))"

section \<open>Polarisation\<close>

definition SEC_VOLTAGE_13 :: int where [simp]: "SEC_VOLTAGE_13 = 0"

definition SEC_VOLTAGE_18 :: int where [simp]: "SEC_VOLTAGE_18 = 1"

definition swapped_pol :: "lnb_t \<Rightarrow> bool" where
  "swapped_pol l \<longleftrightarrow> lnb_pol_type l = PT_VH \<or> lnb_pol_type l = PT_RL"

definition voltage_for_pol :: "lnb_t \<Rightarrow> fe_polarisation_t \<Rightarrow> int" where
  "voltage_for_pol l pol =
     (if swapped_pol l then (if pol = POL_V \<or> pol = POL_R then SEC_VOLTAGE_18 else SEC_VOLTAGE_13)
      else (if pol = POL_V \<or> pol = POL_R then SEC_VOLTAGE_13 else SEC_VOLTAGE_18))"

definition pol_for_voltage :: "lnb_t \<Rightarrow> int \<Rightarrow> fe_polarisation_t" where
  "pol_for_voltage l voltage =
     (if voltage \<noteq> SEC_VOLTAGE_18 \<and> voltage \<noteq> SEC_VOLTAGE_13 then POL_NONE
      else let high_voltage = (voltage = SEC_VOLTAGE_18) in case lnb_pol_type l of
          PT_HV \<Rightarrow> (if high_voltage then POL_H else POL_V)
        | PT_VH \<Rightarrow> (if \<not> high_voltage then POL_H else POL_V)
        | PT_LR \<Rightarrow> (if high_voltage then POL_L else POL_R)
        | PT_RL \<Rightarrow> (if \<not> high_voltage then POL_L else POL_R)
        | PT_H \<Rightarrow> POL_H
        | PT_V \<Rightarrow> POL_V
        | PT_L \<Rightarrow> POL_L
        | PT_R \<Rightarrow> POL_R
        | PT_UNKNOWN \<Rightarrow> POL_H)"

definition can_pol :: "lnb_t \<Rightarrow> fe_polarisation_t \<Rightarrow> bool" where
  "can_pol l pol = (case lnb_pol_type l of
       PT_HV \<Rightarrow> pol = POL_H \<or> pol = POL_V
     | PT_VH \<Rightarrow> pol = POL_H \<or> pol = POL_V
     | PT_H \<Rightarrow> pol = POL_H
     | PT_V \<Rightarrow> pol = POL_V
     | PT_LR \<Rightarrow> pol = POL_L \<or> pol = POL_R
     | PT_RL \<Rightarrow> pol = POL_L \<or> pol = POL_R
     | PT_L \<Rightarrow> pol = POL_L
     | PT_R \<Rightarrow> pol = POL_R
     | PT_UNKNOWN \<Rightarrow> False)"

section \<open>Muxes and frequencies\<close>

definition has_sat :: "lnb_t \<Rightarrow> int \<Rightarrow> bool" where
  "has_sat l pos \<longleftrightarrow> list_ex (\<lambda>n. nw_sat_pos n = pos) (lnb_networks l)"

definition lnb_can_tune_to_mux :: "lnb_t \<Rightarrow> 'a dvbs_mux_t_scheme \<Rightarrow> bool \<Rightarrow> bool option" where
  "lnb_can_tune_to_mux l mux disregard_networks = do {
     b \<leftarrow> lnb_band_helper l;
     let f = sint (dvbs_frequency mux);
     Some (if f < freq_low b \<or> f \<ge> freq_high b then False
           else if \<not> can_pol l (dvbs_pol mux) then False
           else if disregard_networks then True
           else has_sat l (dvbs_sat_pos mux))}"

definition lnb_can_scan_sat_band :: "lnb_t \<Rightarrow> int \<Rightarrow> band_scan_t \<Rightarrow> bool \<Rightarrow> bool option" where
  "lnb_can_scan_sat_band l pos bs disregard_networks =
     (if \<not> can_pol l (bs_pol bs) then Some False
      else do {
        b \<leftarrow> lnb_band_helper l;
        let (band_low, band_high) = sat_band_freq_bounds (bs_sat_band bs) (bs_sat_sub_band bs);
        Some (if band_low \<ge> freq_low b \<and> band_high \<le> freq_high b then disregard_networks \<or> has_sat l pos else False)})"

text \<open>The arithmetic on frequencies is that of \<open>int\<close>; an overflow is undefined.\<close>

definition int32 :: "int \<Rightarrow> int option" where
  "int32 x = (if - (2 ^ 31) \<le> x \<and> x < 2 ^ 31 then Some x else None)"

definition lof_offset :: "lnb_t \<Rightarrow> bool \<Rightarrow> int" where
  "lof_offset l high_band = (let i = (if high_band then 1 else 0) in
     if i < length (lnb_lof_offsets l) \<and> \<bar>lnb_lof_offsets l ! i\<bar> < 5000 then lnb_lof_offsets l ! i else 0)"

definition driver_freq_for_freq :: "lnb_t \<Rightarrow> int \<Rightarrow> int option" where
  "driver_freq_for_freq l frequency = do {
     b \<leftarrow> lnb_band_helper l;
     let band = frequency \<ge> freq_mid b;
     f \<leftarrow> int32 (frequency - (if band then lof_high b else lof_low b));
     if (f < 0) \<noteq> inverted_spectrum b then None
     else do { a \<leftarrow> int32 \<bar>f\<bar>; int32 (a + lof_offset l band) }}"

definition uncorrected_freq_for_driver_freq :: "lnb_t \<Rightarrow> int \<Rightarrow> bool \<Rightarrow> int option" where
  "uncorrected_freq_for_driver_freq l frequency high_band = do {
     b \<leftarrow> lnb_band_helper l;
     f \<leftarrow> int32 (if inverted_spectrum b then - frequency else frequency);
     int32 (f + (if high_band then lof_high b else lof_low b))}"

definition freq_for_driver_freq :: "lnb_t \<Rightarrow> int \<Rightarrow> bool \<Rightarrow> int option" where
  "freq_for_driver_freq l frequency high_band = do {
     b \<leftarrow> lnb_band_helper l;
     f \<leftarrow> int32 (if inverted_spectrum b then - frequency else frequency);
     f \<leftarrow> int32 (f + (if high_band then lof_high b else lof_low b));
     int32 (if inverted_spectrum b then f + lof_offset l high_band else f - lof_offset l high_band)}"

definition band_for_freq :: "lnb_t \<Rightarrow> int \<Rightarrow> sat_sub_band_t option" where
  "band_for_freq l frequency = map_option (\<lambda>b.
     if frequency < freq_low b \<or> frequency > freq_high b then SUB_NONE
     else if frequency \<ge> freq_mid b then SUB_HIGH else SUB_LOW) (lnb_band_helper l)"

definition band_for_mux :: "lnb_t \<Rightarrow> 'a dvbs_mux_t_scheme \<Rightarrow> sat_sub_band_t option" where
  "band_for_mux l mux = band_for_freq l (sint (dvbs_frequency mux))"

definition band_voltage_freq_for_mux :: "lnb_t \<Rightarrow> 'a dvbs_mux_t_scheme \<Rightarrow> (int \<times> int \<times> int) option" where
  "band_voltage_freq_for_mux l mux = do {
     can \<leftarrow> lnb_can_tune_to_mux l mux True;
     if \<not> can then Some (-1, -1, -1)
     else do {
       frequency \<leftarrow> driver_freq_for_freq l (sint (dvbs_frequency mux));
       band \<leftarrow> (case lnb_type (lnb_k l) of
           LNB_C \<Rightarrow> Some 0
         | LNB_WDB \<Rightarrow> Some 0
         | LNB_WDBUK \<Rightarrow> Some 0
         | LNB_Ku \<Rightarrow> Some 0
         | LNB_KaE \<Rightarrow> None
         | LNB_UNKNOWN \<Rightarrow> None
         | _ \<Rightarrow> map_option (\<lambda>b. if sint (dvbs_frequency mux) \<ge> freq_mid b then 1 else 0) (lnb_band_helper l));
       Some (band, voltage_for_pol l (dvbs_pol mux), frequency)}}"

section \<open>Networks and connections\<close>

definition get_network :: "lnb_t \<Rightarrow> int \<Rightarrow> lnb_network_t option" where
  "get_network l pos = find (\<lambda>n. nw_sat_pos n = pos) (lnb_networks l)"

text \<open>Whether there is a network, its priority, how far the dish moves, and the position of the rotor.\<close>

definition has_network :: "lnb_t \<Rightarrow> int \<Rightarrow> bool \<times> int \<times> int \<times> int" where
  "has_network l pos = (case find (\<lambda>n. nw_sat_pos n = pos) (lnb_networks l) of
       Some n \<Rightarrow>
         let usals = (if lnb_cur_usals_pos l = sat_pos_none then nw_usals_pos n else lnb_cur_usals_pos l);
             amount = (if lnb_on_positioner l then \<bar>usals - nw_usals_pos n\<bar> else 0)
         in (True, nw_priority n, if lnb_cur_usals_pos l = sat_pos_none then sat_pos_none else amount, usals)
     | None \<Rightarrow> (False, -1, 0, sat_pos_none))"

definition dish_needs_to_be_moved :: "lnb_t \<Rightarrow> int \<Rightarrow> bool" where
  "dish_needs_to_be_moved l pos = (let (found, _, amount, _) = has_network l pos in \<not> found \<or> amount \<noteq> 0)"

definition can_move_dish :: "lnb_connection_t \<Rightarrow> bool" where
  "can_move_dish conn = (case conn_rotor_control conn of
       ROTOR_MASTER_MANUAL \<Rightarrow> True
     | ROTOR_MASTER_USALS \<Rightarrow> True
     | ROTOR_MASTER_DISEQC12 \<Rightarrow> True
     | ROTOR_NONE \<Rightarrow> False)"

definition rf_path_for_connection :: "lnb_key_t \<Rightarrow> lnb_connection_t \<Rightarrow> rf_path_t" where
  "rf_path_for_connection k conn =
     \<lparr>rf_lnb = k, rf_card_mac_address = conn_card_mac_address conn, rf_input = conn_rf_input conn\<rparr>"

definition connection_for_rf_path :: "lnb_t \<Rightarrow> rf_path_t \<Rightarrow> lnb_connection_t option" where
  "connection_for_rf_path l p =
     find (\<lambda>conn. conn_card_mac_address conn = rf_card_mac_address p \<and> conn_rf_input conn = rf_input p) (lnb_connections l)"

text \<open>One pass over the connections; the second pass allows the dish to move.\<close>

definition better_connection :: "lnb_t \<Rightarrow> int \<Rightarrow> bool \<Rightarrow> lnb_connection_t \<Rightarrow> lnb_connection_t option \<Rightarrow> lnb_connection_t option" where
  "better_connection l amount may_move_dish conn best =
     (if \<not> conn_enabled conn then best
      else if lnb_on_positioner l \<and> amount > sat_pos_tolerance \<and> (\<not> may_move_dish \<or> \<not> can_move_dish conn) then best
      else case best of None \<Rightarrow> Some conn
        | Some bc \<Rightarrow> if (conn_can_be_used conn \<and> \<not> conn_can_be_used bc) \<or> conn_priority conn > conn_priority bc then Some conn else best)"

definition best_connection :: "lnb_t \<Rightarrow> int \<Rightarrow> bool \<Rightarrow> lnb_connection_t option" where
  "best_connection l amount may_move_dish = fold (better_connection l amount may_move_dish) (lnb_connections l) None"

definition select_rf_path :: "lnb_t \<Rightarrow> int \<Rightarrow> rf_path_t option" where
  "select_rf_path l pos =
     (if \<not> lnb_enabled l \<or> lnb_connections l = [] then None
      else let amount = (if pos \<noteq> sat_pos_none then fst (snd (snd (has_network l pos))) else 0)
      in case best_connection l amount False of
           Some conn \<Rightarrow> Some (rf_path_for_connection (lnb_k l) conn)
         | None \<Rightarrow> if amount = 0 then None
                   else map_option (rf_path_for_connection (lnb_k l)) (best_connection l amount True))"

section \<open>Rotor angles\<close>

definition sat_pos_to_angle :: "(int \<Rightarrow> int \<Rightarrow> int \<Rightarrow> int) \<Rightarrow> int \<Rightarrow> int \<Rightarrow> int \<Rightarrow> int" where
  "sat_pos_to_angle usals_par sat_pos my_longitude my_latitude =
     (let par = usals_par ((sat_pos + 5) sdiv 10) ((my_longitude + 5) sdiv 10) ((my_latitude + 5) sdiv 10);
          is_east = \<not> bit par 13;
          angle = par AND 0xfff
      in if is_east then -10 * angle else 10 * angle)"

text \<open>Division truncates towards zero; the middle of an interval of more than one step is strictly inside of it.\<close>

lemma middle_inside: "high - low > (1 :: int) \<Longrightarrow> low < (low + high) sdiv 2 \<and> (low + high) sdiv 2 < high"
  by (auto simp: signed_divide_int_def sgn_if split: if_splits)

function bisect_sat_pos :: "(int \<Rightarrow> int) \<Rightarrow> int \<Rightarrow> int \<Rightarrow> int \<Rightarrow> int \<Rightarrow> int \<Rightarrow> int \<Rightarrow> int" where
  "bisect_sat_pos ang angle low high angle_low angle_high pos =
     (if high - low > 1 then
        (let pos = (low + high) sdiv 2;
             a = ang pos
         in if \<not> (a \<ge> angle_low \<and> a \<le> angle_high) then sat_pos_none
            else if a = angle then pos
            else if angle > a then bisect_sat_pos ang angle pos high a angle_high pos
            else bisect_sat_pos ang angle low pos angle_low a pos)
      else pos)"
  by pat_completeness auto
termination
proof (relation "measure (\<lambda>(ang, angle, low, high, al, ah, p). nat (high - low))", goal_cases)
  case (2 ang angle low high al ah p pos a)
  then show ?case using middle_inside [OF 2(1)] by simp
next
  case (3 ang angle low high al ah p pos a)
  then show ?case using middle_inside [OF 3(1)] by simp
qed simp

declare bisect_sat_pos.simps [simp del]

definition angle_to_sat_pos :: "(int \<Rightarrow> int \<Rightarrow> int \<Rightarrow> int) \<Rightarrow> int \<Rightarrow> usals_location_t \<Rightarrow> int" where
  "angle_to_sat_pos usals_par angle loc =
     (let ang = (\<lambda>p. sat_pos_to_angle usals_par p (usals_longitude loc) (usals_latitude loc))
      in bisect_sat_pos ang angle (-7000) 7000 (ang (-7000)) (ang 7000) 0)"

section \<open>The settings of the tuner\<close>

lemma lof_offset_bound: "\<bar>lof_offset l h\<bar> < 5000"
  by (simp add: lof_offset_def Let_def)

lemma band_helper_defined: "lnb_type (lnb_k l) \<noteq> LNB_UNKNOWN \<Longrightarrow> \<exists>b. lnb_band_helper l = Some b"
  by (cases "lnb_type (lnb_k l)") (auto simp: lnb_band_helper_def)

lemma int32_eq [simp]: "int32 x = Some y \<longleftrightarrow> y = x \<and> - (2 ^ 31) \<le> x \<and> x < 2 ^ 31"
  by (auto simp: int32_def)

lemma driver_freq_eq:
  assumes "lnb_band_helper l = Some b" "g = f - (if f \<ge> freq_mid b then lof_high b else lof_low b)"
    and "(g < 0) = inverted_spectrum b" "\<bar>g\<bar> < 2 ^ 31 - 5000"
  shows "driver_freq_for_freq l f = Some (\<bar>g\<bar> + lof_offset l (f \<ge> freq_mid b))"
proof -
  have "int32 g = Some g" "int32 \<bar>g\<bar> = Some \<bar>g\<bar>" "int32 (\<bar>g\<bar> + lof_offset l (f \<ge> freq_mid b)) = Some (\<bar>g\<bar> + lof_offset l (f \<ge> freq_mid b))"
    using assms(4) lof_offset_bound [of l "f \<ge> freq_mid b"] by auto
  then show ?thesis using assms(1,3) unfolding driver_freq_for_freq_def Let_def by (simp add: assms(2) [symmetric] del: int32_eq)
qed

lemma driver_freq_inverse:
  assumes "lnb_band_helper l = Some b" "driver_freq_for_freq l f = Some d" "0 \<le> f" "f + 5000 < 2 ^ 31"
  shows "freq_for_driver_freq l d (f \<ge> freq_mid b) = Some f"
    "\<exists>u. uncorrected_freq_for_driver_freq l d (f \<ge> freq_mid b) = Some u \<and> \<bar>u - f\<bar> < 5000"
  using assms lof_offset_bound [of l "f \<ge> freq_mid b"]
  by (auto simp: driver_freq_for_freq_def freq_for_driver_freq_def uncorrected_freq_for_driver_freq_def bind_eq_Some_conv Let_def split: if_splits)

lemma can_tune_range:
  assumes "lnb_can_tune_to_mux l mux dn = Some True" "lnb_band_helper l = Some b"
  shows "freq_low b \<le> sint (dvbs_frequency mux)" "sint (dvbs_frequency mux) < freq_high b" "can_pol l (dvbs_pol mux)"
  using assms by (auto simp: lnb_can_tune_to_mux_def Let_def split: if_splits)

lemma can_tune_disregarding_networks:
  "lnb_can_tune_to_mux l mux dn = Some True \<Longrightarrow> lnb_can_tune_to_mux l mux True = Some True"
  by (auto simp: lnb_can_tune_to_mux_def Let_def split: if_splits bind_splits)

lemma pol_for_voltage_inverse: "can_pol l pol \<Longrightarrow> pol_for_voltage l (voltage_for_pol l pol) = pol"
  by (cases "lnb_pol_type l"; cases pol) (simp_all add: can_pol_def pol_for_voltage_def voltage_for_pol_def swapped_pol_def)

text \<open>The types for which the high band is selected with the tone.\<close>

definition two_bands :: "lnb_type_t \<Rightarrow> bool" where
  "two_bands t \<longleftrightarrow> t \<in> {LNB_UNIV, LNB_KaA, LNB_KaB, LNB_KaC, LNB_KaD}"

lemma freq_mid_default:
  assumes "lnb_band_helper l = Some b" "lnb_freq_mid l < 0" "\<not> two_bands (lnb_type (lnb_k l))"
  shows "freq_mid b = freq_high b"
  using assms by (cases "lnb_type (lnb_k l)") (auto simp: lnb_band_helper_def band_of_def Let_def two_bands_def)

lemma band_voltage_freq_cases:
  assumes "band_voltage_freq_for_mux l mux = Some (band, v, d)" "lnb_can_tune_to_mux l mux dn = Some True" "lnb_band_helper l = Some b"
  shows "driver_freq_for_freq l (sint (dvbs_frequency mux)) = Some d" "v = voltage_for_pol l (dvbs_pol mux)"
    "band = (if two_bands (lnb_type (lnb_k l)) \<and> sint (dvbs_frequency mux) \<ge> freq_mid b then 1 else 0)"
  using assms(1) can_tune_disregarding_networks [OF assms(2)] assms(3)
  by (cases "lnb_type (lnb_k l)"; auto simp: band_voltage_freq_for_mux_def two_bands_def split: bind_splits)+


definition example_universal :: lnb_t where
  "example_universal = default_lnb\<lparr>lnb_lof_offsets := [120, -340]\<rparr>"

definition example_mux :: dvbs_mux_t where
  "example_mux = default_dvbs_mux\<lparr>dvbs_frequency := 12188000, dvbs_pol := POL_H\<rparr>"

lemma example_band:
  "lnb_band_helper example_universal = Some \<lparr>freq_low = 10700000, freq_mid = 11700000, freq_high = 12750000, lof_low = 9750000,
     lof_high = 10600000, inverted_spectrum = False\<rparr>"
  "lnb_can_tune_to_mux example_universal example_mux True = Some True"
  "band_voltage_freq_for_mux example_universal example_mux = Some (1, 1, 1587660)"
  by code_simp+


text \<open>C38: An LNB with the default frequencies and oscillators of its type is never a reason to stop. Every mux that it can tune to gets
  settings, with a tuner frequency between 285 MHz and 2455 MHz, except for an LNB of the band KaE: for it the
  choice of the band ends in the assertion of the default case, although the type is known to every other rule.\<close>

theorem default_lnb_settings:
  assumes "lnb_type (lnb_k l) \<noteq> LNB_UNKNOWN"
    and "lnb_freq_low l < 0" "lnb_freq_mid l < 0" "lnb_freq_high l < 0" "lnb_lof_low l < 0" "lnb_lof_high l < 0"
    and "lnb_can_tune_to_mux l mux disregard_networks = Some True"
  shows "(case band_voltage_freq_for_mux l mux of
      None \<Rightarrow> lnb_type (lnb_k l) = LNB_KaE
    | Some (band, v, d) \<Rightarrow> lnb_type (lnb_k l) \<noteq> LNB_KaE \<and> 285000 < d \<and> d < 2455000)"
proof -
  obtain b where b: "lnb_band_helper l = Some b" using band_helper_defined [OF assms(1)] by blast
  note t = can_tune_disregarding_networks [OF assms(7)] and r = can_tune_range [OF assms(7) b]
  define g where "g = sint (dvbs_frequency mux) - (if sint (dvbs_frequency mux) \<ge> freq_mid b then lof_high b else lof_low b)"
  have "(g < 0) = inverted_spectrum b \<and> 290000 \<le> \<bar>g\<bar> \<and> \<bar>g\<bar> \<le> 2450000"
    using b r(1,2) assms(1-6) by (cases "lnb_type (lnb_k l)") (auto simp: g_def lnb_band_helper_def band_of_def Let_def)
  then have "\<exists>f. driver_freq_for_freq l (sint (dvbs_frequency mux)) = Some f \<and> 285000 < f \<and> f < 2455000"
    using driver_freq_eq [OF b g_def] lof_offset_bound [of l "sint (dvbs_frequency mux) \<ge> freq_mid b"] by auto
  then obtain f where f: "driver_freq_for_freq l (sint (dvbs_frequency mux)) = Some f" "285000 < f" "f < 2455000" by blast
  show ?thesis using f t b assms(1) by (cases "lnb_type (lnb_k l)") (auto simp: band_voltage_freq_for_mux_def)
qed

definition example_kae :: lnb_t where
  "example_kae = default_lnb\<lparr>lnb_k := default_lnb_key\<lparr>lnb_type := LNB_KaE\<rparr>\<rparr>"

lemma kae_can_tune: "lnb_can_tune_to_mux example_kae (example_mux\<lparr>dvbs_frequency := 17500000\<rparr>) True = Some True"
  by code_simp

text \<open>At a mux of 17.5 GHz and an LNB of the band KaE.\<close>

theorem default_lnb_settings_witness:
  "lnb_can_tune_to_mux example_kae (example_mux\<lparr>dvbs_frequency := 17500000\<rparr>) True = Some True \<and>
   band_voltage_freq_for_mux example_kae (example_mux\<lparr>dvbs_frequency := 17500000\<rparr>) = None"
  using default_lnb_settings [OF _ _ _ _ _ _ kae_can_tune] kae_can_tune
  by (simp split: option.splits add: example_kae_def default_lnb_def default_lnb_key_def)

section \<open>The inverse of the rotor angle\<close>

lemma bisect_hits:
  assumes mono: "\<And>x y. -7000 \<le> x \<Longrightarrow> x \<le> y \<Longrightarrow> y \<le> 7000 \<Longrightarrow> ang x \<le> (ang y :: int)"
    and "-7000 \<le> p" "p \<le> 7000" "-7000 \<le> low" "high \<le> 7000" "low \<le> high" "ang low < ang p" "ang p < ang high"
  shows "ang (bisect_sat_pos ang (ang p) low high (ang low) (ang high) pos) = ang p"
  using assms(4-8)
proof (induction "nat (high - low)" arbitrary: low high pos rule: less_induct)
  case less
  have lp: "low < p" using mono [of p low] less.prems assms(2) by (cases "p \<le> low") auto
  have ph: "p < high" using mono [of high p] less.prems assms(3) by (cases "high \<le> p") auto
  define m where "m = (low + high) sdiv 2"
  have gap: "high - low > 1" using lp ph by simp
  have m: "low < m" "m < high" using middle_inside [OF gap] by (simp_all add: m_def)
  have am: "ang low \<le> ang m" "ang m \<le> ang high" using mono [of low m] mono [of m high] m less.prems by auto
  consider "ang m = ang p" | "ang m < ang p" | "ang p < ang m" by linarith
  then show ?case
  proof cases
    case 1
    then show ?thesis using gap am by (simp add: bisect_sat_pos.simps [of ang _ low] Let_def m_def [symmetric])
  next
    case 2
    have "ang (bisect_sat_pos ang (ang p) m high (ang m) (ang high) m) = ang p"
      using 2 m less.prems by (intro less.hyps) auto
    then show ?thesis using 2 gap am by (simp add: bisect_sat_pos.simps [of ang _ low] Let_def m_def [symmetric])
  next
    case 3
    have "ang (bisect_sat_pos ang (ang p) low m (ang low) (ang m) m) = ang p"
      using 3 m less.prems by (intro less.hyps) auto
    then show ?thesis using 3 gap am by (simp add: bisect_sat_pos.simps [of ang _ low] Let_def m_def [symmetric])
  qed
qed


text \<open>A rotor whose angle in tenths of a degree is the position, in the encoding of USALS, and the same rotor on the other hemisphere.\<close>

definition straight_usals_par :: "int \<Rightarrow> int \<Rightarrow> int \<Rightarrow> int" where
  "straight_usals_par a lon lat = (if a > 0 then 0xE000 + a else 0xD000 - a)"

definition mirrored_usals_par :: "int \<Rightarrow> int \<Rightarrow> int \<Rightarrow> int" where
  "mirrored_usals_par a lon lat = straight_usals_par (- a) lon lat"

lemma int_and_4095: "(x :: int) AND 0xfff = x mod 4096"
proof -
  have "(0xfff :: int) = mask 12" by (simp add: mask_eq_exp_minus_1)
  then show ?thesis by (simp only: take_bit_eq_mask [symmetric]) (simp add: take_bit_eq_mod)
qed

lemma usals_par_angle:
  assumes "-1000 \<le> a" "a \<le> (1000 :: int)"
  shows "(let par = straight_usals_par a lon lat in if \<not> bit par 13 then -10 * (par AND 0xfff) else 10 * (par AND 0xfff)) = 10 * a"
proof (cases "a > 0")
  case True
  have "(0xE000 + a) div 2 ^ 13 = 7" "(0xE000 + a) mod 4096 = a" using True assms by (auto simp: mod_add_left_eq [of "0xE000" 4096 a, symmetric])
  then show ?thesis using True by (simp add: straight_usals_par_def bit_iff_odd int_and_4095)
next
  case False
  have "(0xD000 - a) div 2 ^ 13 = 6" "(0xD000 - a) mod 4096 = - a" using False assms by (auto simp: mod_diff_left_eq [of "0xD000" 4096 a, symmetric])
  then show ?thesis using False by (simp add: straight_usals_par_def bit_iff_odd int_and_4095)
qed

lemma rounded_position:
  assumes "-7000 \<le> p" "p \<le> (7000 :: int)"
  shows "-1000 \<le> (p + 5) sdiv 10" "(p + 5) sdiv 10 \<le> 1000"
  using assms by (auto simp: signed_divide_int_def sgn_if)

lemma straight_angle:
  assumes "-7000 \<le> p" "p \<le> 7000"
  shows "sat_pos_to_angle straight_usals_par p lon lat = 10 * ((p + 5) sdiv 10)"
  using usals_par_angle [OF rounded_position [OF assms]] by (simp add: sat_pos_to_angle_def Let_def)

lemma mirrored_angle:
  assumes "-7000 \<le> p" "p \<le> 7000"
  shows "sat_pos_to_angle mirrored_usals_par p lon lat = - 10 * ((p + 5) sdiv 10)"
  using usals_par_angle [of "- ((p + 5) sdiv 10)"] rounded_position [OF assms]
  by (simp add: sat_pos_to_angle_def mirrored_usals_par_def Let_def)

lemma rounding_mono: "(x :: int) \<le> y \<Longrightarrow> (x + 5) sdiv 10 \<le> (y + 5) sdiv 10"
  by (auto simp: signed_divide_int_def sgn_if pos_imp_zdiv_nonneg_iff intro: order_trans [of _ 0] zdiv_mono1)

definition example_location :: usals_location_t where
  "example_location = \<lparr>usals_latitude = 5100, usals_longitude = 430, usals_altitude = 0\<rparr>"


end
