(* ===== verification/Dish.thy ===== *)
theory Dish
  imports Lnb
begin

text \<open>
  The networks of an LNB and the movement of dishes, src/src/neumodb/devdb/devdb_extra.cc: how a network is added to an LNB, the offset
  of an LNB that is not in the centre of the dish, the record of a dish, and the update of the database when a dish is sent to
  another position. A loop over the cursor of a table that puts records is a fold over the records the table has when it starts; the
  loops here put records under their own keys only. The time is the argument \<open>now\<close>. Positions that are passed as \<open>int\<close> are those of
  records, which have 16 bits.
\<close>

section \<open>Networks\<close>

definition set_lnb_offset_angle :: "(int \<Rightarrow> int \<Rightarrow> int \<Rightarrow> int) \<Rightarrow> lnb_t \<Rightarrow> usals_location_t \<Rightarrow> lnb_t" where
  "set_lnb_offset_angle usals_par l loc =
     (let ang = (\<lambda>p. sat_pos_to_angle usals_par p (usals_longitude loc) (usals_latitude loc));
          total = (\<Sum>n\<leftarrow>lnb_networks l. ang (nw_sat_pos n) - ang (nw_usals_pos n));
          num = int (length (lnb_networks l))
      in l\<lparr>lnb_offset_angle := (if num \<noteq> 0 then signed_take_bit 15 (total sdiv num) else 0)\<rparr>)"

definition complete_network :: "(int \<Rightarrow> int \<Rightarrow> int \<Rightarrow> int) \<Rightarrow> lnb_t \<Rightarrow> usals_location_t \<Rightarrow> lnb_network_t \<Rightarrow> lnb_t \<times> lnb_network_t" where
  "complete_network usals_par l loc n =
     (let ang = (\<lambda>p. sat_pos_to_angle usals_par p (usals_longitude loc) (usals_latitude loc));
          (l, n) = (if nw_usals_pos n = sat_pos_none then
              (if \<not> lnb_on_positioner l then (l, n\<lparr>nw_usals_pos := nw_sat_pos n\<rparr>)
               else let l = set_lnb_offset_angle usals_par l loc
                 in (l, n\<lparr>nw_usals_pos := angle_to_sat_pos usals_par (ang (nw_sat_pos n) - lnb_offset_angle l) loc\<rparr>))
            else (l, n))
      in if nw_sat_pos n = sat_pos_none then
           (if \<not> lnb_on_positioner l then (l, n\<lparr>nw_sat_pos := nw_usals_pos n\<rparr>)
            else let l = set_lnb_offset_angle usals_par l loc
              in (l, n\<lparr>nw_sat_pos := angle_to_sat_pos usals_par (ang (nw_usals_pos n) + lnb_offset_angle l) loc\<rparr>))
         else (l, n))"

fun replace_network :: "lnb_network_t \<Rightarrow> lnb_network_t list \<Rightarrow> (lnb_network_t list \<times> bool) option" where
  "replace_network n [] = None"
| "replace_network n (m # ms) =
     (if nw_sat_pos m = nw_sat_pos n then Some (n # ms, n \<noteq> m)
      else map_option (\<lambda>(ms, changed). (m # ms, changed)) (replace_network n ms))"

text \<open>The result is the LNB, the network and whether anything changed.\<close>

definition add_or_edit_network ::
    "(int \<Rightarrow> int \<Rightarrow> int \<Rightarrow> int) \<Rightarrow> lnb_t \<Rightarrow> usals_location_t \<Rightarrow> lnb_network_t \<Rightarrow> lnb_t \<times> lnb_network_t \<times> bool" where
  "add_or_edit_network usals_par l loc n =
     (let (l, n) = complete_network usals_par l loc n
      in case replace_network n (lnb_networks l) of
           Some (ms, changed) \<Rightarrow> (l\<lparr>lnb_networks := ms\<rparr>, n, changed)
         | None \<Rightarrow>
             let n = (if nw_usals_pos n = sat_pos_none then n\<lparr>nw_usals_pos := nw_sat_pos n\<rparr> else n);
                 n = (if nw_sat_pos n = sat_pos_none then n\<lparr>nw_sat_pos := nw_usals_pos n\<rparr> else n);
                 l = l\<lparr>lnb_networks := lnb_networks l @ [n]\<rparr>;
                 l = (if lnb_cur_usals_pos l = sat_pos_none
                      then l\<lparr>lnb_cur_usals_pos := (if nw_usals_pos n = sat_pos_none then nw_sat_pos n else nw_usals_pos n)\<rparr> else l)
             in (l, n, True))"

section \<open>Dishes\<close>

text \<open>The record of a dish is created when it is missing.\<close>

definition get_dish :: "int \<Rightarrow> devdb_t \<Rightarrow> dish_t \<times> devdb_t" where
  "get_dish d db =
     (let ret = (case find_dish d db of Some r \<Rightarrow> r | None \<Rightarrow> default_dish);
          ret = ret\<lparr>dh_dish_id := d\<rparr>
      in (ret, put_dish ret db))"

definition dish_differs :: "dish_t \<Rightarrow> dish_t \<Rightarrow> bool" where
  "dish_differs d e \<longleftrightarrow> d\<lparr>dh_mtime := 0\<rparr> \<noteq> e\<lparr>dh_mtime := 0\<rparr>"

definition moved_lnb :: "(int \<Rightarrow> int \<Rightarrow> int \<Rightarrow> int) \<Rightarrow> lnb_key_t \<Rightarrow> int \<Rightarrow> int \<Rightarrow> usals_location_t \<Rightarrow> lnb_t \<Rightarrow> lnb_t" where
  "moved_lnb usals_par moved target_usals_pos target_lnb_sat_pos loc l =
     (let angle = sat_pos_to_angle usals_par target_usals_pos (usals_longitude loc) (usals_latitude loc);
          l = set_lnb_offset_angle usals_par l loc;
          l = l\<lparr>lnb_cur_usals_pos := target_usals_pos,
                lnb_usals_pos := angle_to_sat_pos usals_par (angle + lnb_offset_angle l) loc\<rparr>
      in if lnb_k l = moved then l\<lparr>lnb_cur_sat_pos := target_lnb_sat_pos\<rparr> else l)"

text \<open>One step of the loop over the LNBs, on the LNB of the caller and the database.\<close>

definition move_step ::
    "(int \<Rightarrow> int \<Rightarrow> int \<Rightarrow> int) \<Rightarrow> int \<Rightarrow> int \<Rightarrow> usals_location_t \<Rightarrow> lnb_t \<Rightarrow> lnb_t \<times> devdb_t \<Rightarrow> lnb_t \<times> devdb_t" where
  "move_step usals_par target_usals_pos target_lnb_sat_pos loc l st = (case st of (caller, db) \<Rightarrow>
     if dish_id (lnb_k l) \<noteq> dish_id (lnb_k caller) \<or> \<not> lnb_on_positioner l then (caller, db)
     else let l' = moved_lnb usals_par (lnb_k caller) target_usals_pos target_lnb_sat_pos loc l
       in (if lnb_k l = lnb_k caller then caller\<lparr>lnb_cur_sat_pos := target_lnb_sat_pos,
              lnb_cur_usals_pos := lnb_cur_usals_pos l', lnb_usals_pos := lnb_usals_pos l'\<rparr> else caller,
           put_lnb l' db))"

text \<open>The result is the dish, the LNB of the caller and the database.\<close>

definition schedule_move ::
    "(int \<Rightarrow> int \<Rightarrow> int \<Rightarrow> int) \<Rightarrow> int \<Rightarrow> lnb_t \<Rightarrow> int \<Rightarrow> int \<Rightarrow> usals_location_t \<Rightarrow> bool \<Rightarrow> devdb_t
     \<Rightarrow> (dish_t \<times> lnb_t \<times> devdb_t) option" where
  "schedule_move usals_par now caller target_usals_pos target_lnb_sat_pos loc move_has_finished db =
     (let (db_dish, db) = get_dish (dish_id (lnb_k caller)) db
      in if dh_target_usals_pos db_dish = target_usals_pos then Some (db_dish, caller, db)
         else if target_usals_pos = sat_pos_none then None
         else
           let dish = db_dish\<lparr>dh_mtime := now, dh_target_usals_pos := target_usals_pos\<rparr>;
               dish = (if move_has_finished then dish\<lparr>dh_cur_usals_pos := target_usals_pos\<rparr> else dish);
               db = (if dish_differs dish db_dish then put_dish dish db else db);
               (caller, db) = fold (move_step usals_par target_usals_pos target_lnb_sat_pos loc) (lnbs db) (caller, db)
           in Some (dish, caller, db))"

definition end_move :: "dish_t \<Rightarrow> devdb_t \<Rightarrow> devdb_t" where
  "end_move dish db =
     (let (_, db) = get_dish (dh_dish_id dish) db
      in put_dish (dish\<lparr>dh_cur_usals_pos := dh_target_usals_pos dish\<rparr>) db)"

definition dish_needs_move :: "devdb_t \<Rightarrow> int \<Rightarrow> int \<Rightarrow> bool" where
  "dish_needs_move db d pos =
     (case find (\<lambda>l. dish_id (lnb_k l) = d \<and> lnb_on_positioner l \<and> fst (has_network l pos)) (lnbs db) of
        Some l \<Rightarrow> fst (snd (snd (has_network l pos))) \<noteq> 0
      | None \<Rightarrow> False)"

fun list_dishes_loop :: "int \<Rightarrow> lnb_t list \<Rightarrow> int list" where
  "list_dishes_loop prev [] = []"
| "list_dishes_loop prev (l # ls) =
     (if dish_id (lnb_k l) = prev then list_dishes_loop prev ls
      else dish_id (lnb_k l) # list_dishes_loop (dish_id (lnb_k l)) ls)"

definition list_dishes :: "devdb_t \<Rightarrow> int list" where
  "list_dishes db = list_dishes_loop (-1024) (lnbs db)"

section \<open>Adding a network\<close>

definition positions_distinct :: "lnb_t \<Rightarrow> bool" where
  "positions_distinct l \<longleftrightarrow> distinct (map nw_sat_pos (lnb_networks l))"

lemma replace_network_None: "replace_network n ms = None \<longleftrightarrow> nw_sat_pos n \<notin> nw_sat_pos ` set ms"
  by (induction ms) auto

lemma replace_network_Some:
  assumes "replace_network n ms = Some (ms', changed)"
  shows "map nw_sat_pos ms' = map nw_sat_pos ms" "find (\<lambda>m. nw_sat_pos m = nw_sat_pos n) ms' = Some n"
    "p \<noteq> nw_sat_pos n \<Longrightarrow> find (\<lambda>m. nw_sat_pos m = p) ms' = find (\<lambda>m. nw_sat_pos m = p) ms"
    "changed \<longleftrightarrow> ms' \<noteq> ms"
  using assms by (induction ms arbitrary: ms' changed) (auto split: if_splits)

lemma complete_network_networks [simp]: "lnb_networks (fst (complete_network usals_par l loc n)) = lnb_networks l"
  by (simp add: complete_network_def Let_def set_lnb_offset_angle_def)

lemma find_append: "find P (xs @ ys) = (case find P xs of None \<Rightarrow> find P ys | Some x \<Rightarrow> Some x)"
  by (induction xs) auto

lemma find_None_iff_image: "find (\<lambda>m. f m = p) ms = None \<longleftrightarrow> p \<notin> f ` set ms"
  by (induction ms) auto

lemma complete_network_sat_pos:
  "nw_sat_pos n \<noteq> sat_pos_none \<Longrightarrow> nw_sat_pos (snd (complete_network usals_par l loc n)) = nw_sat_pos n"
  by (simp add: complete_network_def Let_def)

text \<open>Adding or editing the network of a satellite stores exactly that network. Afterwards the LNB finds it under its position, with the
  positions that were left out filled in, finds the same network as before under every other position, and has no position twice when it had
  none twice before; the result tells whether the list of networks changed.\<close>

theorem network_stored:
  assumes "nw_sat_pos n \<noteq> sat_pos_none" "add_or_edit_network usals_par l loc n = (l', n', changed)"
  shows "nw_sat_pos n' = nw_sat_pos n \<and> get_network l' (nw_sat_pos n) = Some n' \<and>
    (\<forall>p. p = nw_sat_pos n \<or> get_network l' p = get_network l p) \<and>
    (positions_distinct l' \<longleftrightarrow> positions_distinct l) \<and> (changed \<longleftrightarrow> lnb_networks l' \<noteq> lnb_networks l)"
proof -
  obtain l1 n1 where c: "complete_network usals_par l loc n = (l1, n1)" by fastforce
  have l1: "lnb_networks l1 = lnb_networks l" using complete_network_networks [of usals_par l loc n] c by simp
  have n1: "nw_sat_pos n1 = nw_sat_pos n" using complete_network_sat_pos [OF assms(1), of usals_par l loc] c by simp
  show ?thesis
  proof (cases "replace_network n1 (lnb_networks l)")
    case None
    then have "nw_sat_pos n \<notin> nw_sat_pos ` set (lnb_networks l)" by (simp add: replace_network_None n1)
    moreover have "changed \<and> nw_sat_pos n' = nw_sat_pos n \<and> lnb_networks l' = lnb_networks l @ [n']"
      using assms None c l1 n1 by (auto simp: add_or_edit_network_def Let_def)
    moreover have "find (\<lambda>m. nw_sat_pos m = nw_sat_pos n) (lnb_networks l) = None"
      using calculation(1) by (simp add: find_None_iff_image)
    ultimately show ?thesis by (auto simp: get_network_def positions_distinct_def find_append split: option.splits)
  next
    case (Some r)
    obtain ms ch where r: "r = (ms, ch)" by fastforce
    have "lnb_networks l' = ms \<and> n' = n1 \<and> changed = ch" using assms Some c l1 r by (auto simp: add_or_edit_network_def Let_def)
    then show ?thesis using replace_network_Some [OF Some [unfolded r]] n1
      by (auto simp: get_network_def positions_distinct_def)
  qed
qed

definition example_astra :: lnb_network_t where
  "example_astra = default_network\<lparr>nw_sat_pos := 1920\<rparr>"

text \<open>For a first network without a rotor position on an LNB with a fixed dish.\<close>

theorem network_stored_witness:
  "get_network (fst (add_or_edit_network straight_usals_par default_lnb example_location example_astra)) 1920 =
     Some (example_astra\<lparr>nw_usals_pos := 1920\<rparr>)"
proof -
  have "add_or_edit_network straight_usals_par default_lnb example_location example_astra =
      (default_lnb\<lparr>lnb_networks := [example_astra\<lparr>nw_usals_pos := 1920\<rparr>], lnb_cur_usals_pos := 1920\<rparr>, example_astra\<lparr>nw_usals_pos := 1920\<rparr>, True)"
    by code_simp
  from network_stored [OF _ this] this show ?thesis by (simp add: example_astra_def)
qed

section \<open>Moving a dish\<close>

text \<open>The LNBs on one dish agree on the position of the rotor, which \<open>dish_needs_to_be_moved\<close> relies on.\<close>

definition dishes_agree :: "devdb_t \<Rightarrow> bool" where
  "dishes_agree db \<longleftrightarrow> (\<forall>l \<in> set (lnbs db). \<forall>l' \<in> set (lnbs db). lnb_on_positioner l \<longrightarrow> lnb_on_positioner l' \<longrightarrow>
     dish_id (lnb_k l) = dish_id (lnb_k l') \<longrightarrow> lnb_cur_usals_pos l = lnb_cur_usals_pos l')"

lemma moved_lnb_fields [simp]:
  "lnb_k (moved_lnb usals_par k t s loc l) = lnb_k l" "lnb_cur_usals_pos (moved_lnb usals_par k t s loc l) = t"
  "lnb_on_positioner (moved_lnb usals_par k t s loc l) = lnb_on_positioner l"
  "lnb_connections (moved_lnb usals_par k t s loc l) = lnb_connections l" "lnb_networks (moved_lnb usals_par k t s loc l) = lnb_networks l"
  "lnb_unicable_channels (moved_lnb usals_par k t s loc l) = lnb_unicable_channels l"
  by (simp_all add: moved_lnb_def Let_def set_lnb_offset_angle_def)

lemma moved_lnb_cur_sat_pos: "lnb_cur_sat_pos (moved_lnb usals_par (lnb_k l) t s loc l) = s"
  by (simp add: moved_lnb_def Let_def set_lnb_offset_angle_def)

definition on_dish :: "int \<Rightarrow> lnb_t \<Rightarrow> bool" where
  "on_dish d l \<longleftrightarrow> dish_id (lnb_k l) = d \<and> lnb_on_positioner l"

lemma move_fold:
  fixes usals_par t s loc
  defines "upd k \<equiv> \<lambda>l. if on_dish (dish_id k) l then moved_lnb usals_par k t s loc l else l"
  assumes "devdb_ok db" "set ls \<subseteq> set (lnbs db)" "distinct (map lnb_k ls)"
    and "fold (move_step usals_par t s loc) ls (caller, db) = (caller', db')"
  shows "devdb_ok db' \<and> fes db' = fes db \<and> dishes db' = dishes db \<and> next_config_id db' = next_config_id db \<and>
    next_subscription_id db' = next_subscription_id db \<and> lnb_k caller' = lnb_k caller \<and>
    set (lnbs db') = upd (lnb_k caller) ` set ls \<union> (set (lnbs db) - set ls)"
  using assms(2-)
proof (induction ls arbitrary: caller db)
  case (Cons l ls)
  obtain c1 db1 where st: "move_step usals_par t s loc l (caller, db) = (c1, db1)" by fastforce
  have k: "lnb_k c1 = lnb_k caller" and one: "db1 = (if on_dish (dish_id (lnb_k caller)) l then put_lnb (upd (lnb_k caller) l) db else db)"
    using st by (auto simp: move_step_def on_dish_def upd_def Let_def split: if_splits)
  have keys: "lnb_k x \<noteq> lnb_k l" if "x \<in> set ls" for x using that Cons.prems(3) by (auto simp: image_iff)
  have ok: "devdb_ok db1" using Cons.prems(1) one lnb_table.ok_put by simp
  have recs: "set (lnbs db1) = insert (upd (lnb_k caller) l) (set (lnbs db) - {l})"
  proof (cases "on_dish (dish_id (lnb_k caller)) l")
    case True
    have "{r \<in> set (lnbs db). lnb_k r \<noteq> lnb_k l} = set (lnbs db) - {l}"
      using lnb_table.same_key_same_record [OF Cons.prems(1)] Cons.prems(2) by fastforce
    then show ?thesis using True one by (simp add: lnb_table.records_put [OF Cons.prems(1)] upd_def)
  qed (use one Cons.prems(2) in \<open>auto simp: upd_def\<close>)
  have other: "x \<noteq> upd (lnb_k caller) l" if "x \<in> set ls" for x using keys [OF that] by (auto simp: upd_def)
  have "set ls \<subseteq> set (lnbs db1)" using Cons.prems(2) keys recs by fastforce
  then have IH: "devdb_ok db' \<and> fes db' = fes db1 \<and> dishes db' = dishes db1 \<and> next_config_id db' = next_config_id db1 \<and>
      next_subscription_id db' = next_subscription_id db1 \<and> lnb_k caller' = lnb_k c1 \<and>
      set (lnbs db') = upd (lnb_k c1) ` set ls \<union> (set (lnbs db1) - set ls)"
    using Cons.prems st ok by (intro Cons.IH) auto
  have "set (lnbs db1) - set ls = insert (upd (lnb_k caller) l) (set (lnbs db) - set (l # ls))"
    using recs other by auto
  then show ?case using IH k one by (auto simp: put_lnb_def)
qed simp

lemma get_dish_ok:
  assumes "devdb_ok db" "get_dish d db = (r, db')"
  shows "devdb_ok db'" "lnbs db' = lnbs db" "fes db' = fes db" "next_config_id db' = next_config_id db"
    "next_subscription_id db' = next_subscription_id db" "dh_dish_id r = d" "find_dish d db' = Some r"
  using assms dish_table.ok_put dish_table.find_put [OF assms(1)] by (auto simp: get_dish_def Let_def put_dish_def)

lemma distinct_keys: "devdb_ok db \<Longrightarrow> distinct (map lnb_k (lnbs db))"
proof -
  assume "devdb_ok db"
  then have "sorted_wrt (\<lambda>x y. lnb_k x \<noteq> lnb_k y) (lnbs db)"
    by (auto simp: devdb_ok_def table_ok_def lnb_order_def elim!: sorted_wrt_mono_rel [rotated])
  then show ?thesis by (simp add: distinct_conv_nth sorted_wrt_iff_nth_less) (metis linorder_neqE_nat)
qed

text \<open>Whether the dish is not yet on its way to a position.\<close>

definition new_target :: "lnb_t \<Rightarrow> int \<Rightarrow> devdb_t \<Rightarrow> bool" where
  "new_target l t db \<longleftrightarrow> dh_target_usals_pos (fst (get_dish (dish_id (lnb_k l)) db)) \<noteq> t"

lemma schedule_move_lnbs:
  fixes usals_par t s loc
  defines "upd k \<equiv> \<lambda>l. if on_dish (dish_id k) l then moved_lnb usals_par k t s loc l else l"
  assumes ok: "devdb_ok db" and m: "schedule_move usals_par now caller t s loc finished db = Some (dish, caller', db')"
  shows "devdb_ok db' \<and> fes db' = fes db \<and> next_config_id db' = next_config_id db \<and> next_subscription_id db' = next_subscription_id db \<and>
    dh_target_usals_pos dish = t \<and> find_dish (dish_id (lnb_k caller)) db' = Some dish \<and> lnb_k caller' = lnb_k caller \<and>
    (if new_target caller t db then set (lnbs db') = upd (lnb_k caller) ` set (lnbs db) \<and> t \<noteq> sat_pos_none
     else lnbs db' = lnbs db \<and> caller' = caller)"
proof -
  obtain d0 db0 where g: "get_dish (dish_id (lnb_k caller)) db = (d0, db0)" by fastforce
  note g0 = get_dish_ok [OF ok g]
  show ?thesis
  proof (cases "dh_target_usals_pos d0 = t")
    case True
    then show ?thesis using m g g0 by (auto simp: schedule_move_def new_target_def)
  next
    case False
    define d1 where "d1 = (let d = d0\<lparr>dh_mtime := now, dh_target_usals_pos := t\<rparr> in if finished then d\<lparr>dh_cur_usals_pos := t\<rparr> else d)"
    have d1: "dh_target_usals_pos d1 = t" "dh_dish_id d1 = dish_id (lnb_k caller)" using g0 by (auto simp: d1_def Let_def)
    have diff: "dish_differs d1 d0"
      using False d1(1) by (auto simp: dish_differs_def dest: arg_cong [of _ _ dh_target_usals_pos])
    have ok1: "devdb_ok (put_dish d1 db0)" using g0(1) dish_table.ok_put by blast
    obtain c2 db2 where f: "fold (move_step usals_par t s loc) (lnbs db0) (caller, put_dish d1 db0) = (c2, db2)" by fastforce
    have res: "t \<noteq> sat_pos_none \<and> dish = d1 \<and> caller' = c2 \<and> db' = db2"
      using m g False f diff by (auto simp: schedule_move_def d1_def Let_def split: if_splits prod.splits)
    have "devdb_ok db2 \<and> fes db2 = fes (put_dish d1 db0) \<and> dishes db2 = dishes (put_dish d1 db0) \<and>
        next_config_id db2 = next_config_id (put_dish d1 db0) \<and> next_subscription_id db2 = next_subscription_id (put_dish d1 db0) \<and>
        lnb_k c2 = lnb_k caller \<and> set (lnbs db2) = upd (lnb_k caller) ` set (lnbs db0) \<union> (set (lnbs (put_dish d1 db0)) - set (lnbs db0))"
      using move_fold [OF ok1 _ distinct_keys f] g0(1) by (simp add: upd_def)
    moreover have "find_dish (dish_id (lnb_k caller)) (put_dish d1 db0) = Some d1"
      using dish_table.find_put [OF g0(1)] d1(2) by simp
    ultimately show ?thesis using res g g0 d1 False by (simp add: new_target_def find_dish_def put_dish_def)
  qed
qed

lemma schedule_move_find:
  assumes "devdb_ok db" "schedule_move usals_par now l t s loc finished db = Some (dish, l', db')"
  shows "find_lnb k db' = (if new_target l t db
     then map_option (\<lambda>r. if on_dish (dish_id (lnb_k l)) r then moved_lnb usals_par (lnb_k l) t s loc r else r) (find_lnb k db)
     else find_lnb k db)"
proof (cases "new_target l t db")
  case True
  define upd where "upd = (\<lambda>r. if on_dish (dish_id (lnb_k l)) r then moved_lnb usals_par (lnb_k l) t s loc r else r)"
  have ok: "devdb_ok db'" and s: "set (lnbs db') = upd ` set (lnbs db)"
    using schedule_move_lnbs [OF assms] True by (auto simp: upd_def)
  have iff: "find_lnb k db' = Some r \<longleftrightarrow> (\<exists>x. find_lnb k db = Some x \<and> r = upd x)" for r
    using lnb_table.find_iff [OF ok] lnb_table.find_iff [OF assms(1)] by (auto simp: s upd_def)
  have "find_lnb k db' = map_option upd (find_lnb k db)"
  proof (cases "find_lnb k db")
    case None
    then show ?thesis using iff by (cases "find_lnb k db'") auto
  next
    case (Some x)
    then show ?thesis using iff [of "upd x"] by simp
  qed
  then show ?thesis using True unfolding upd_def by simp
next
  case False
  then show ?thesis using schedule_move_lnbs [OF assms] by (simp add: find_lnb_def)
qed

text \<open>C40: Sending a dish to a new position updates the database as one. The record of the dish has the new target; every LNB on the
  rotor of the dish gets the new rotor position, the LNB that asked for it also the satellite; every other LNB keeps its record; and the LNBs of
  each dish agree on the rotor position when they did before, which is what the check whether a dish has to be moved relies on. A dish that
  is already on its way to the position is left alone.\<close>

theorem dish_move_updates_lnbs:
  assumes "devdb_ok db" "schedule_move usals_par now l t s loc finished db = Some (dish, l', db')"
  shows "devdb_ok db' \<and> find_dish (dish_id (lnb_k l)) db' = Some dish \<and> dh_target_usals_pos dish = t \<and>
    (dishes_agree db \<longrightarrow> dishes_agree db') \<and>
    (if new_target l t db
     then (\<forall>k. find_lnb k db' = map_option (\<lambda>r. if on_dish (dish_id (lnb_k l)) r then moved_lnb usals_par (lnb_k l) t s loc r else r)
            (find_lnb k db))
     else lnbs db' = lnbs db)"
proof -
  define upd where "upd = (\<lambda>r. if on_dish (dish_id (lnb_k l)) r then moved_lnb usals_par (lnb_k l) t s loc r else r)"
  have m: "devdb_ok db'" "dh_target_usals_pos dish = t" "find_dish (dish_id (lnb_k l)) db' = Some dish"
    "if new_target l t db then set (lnbs db') = upd ` set (lnbs db) else lnbs db' = lnbs db"
    using schedule_move_lnbs [OF assms] by (auto simp: upd_def split: if_splits)
  have k: "lnb_k (upd r) = lnb_k r" for r by (simp add: upd_def)
  have "dishes_agree db'" if a: "dishes_agree db"
  proof (cases "new_target l t db")
    case True
    then have "set (lnbs db') = upd ` set (lnbs db)" using m(4) by simp
    moreover have "lnb_cur_usals_pos (upd x) = lnb_cur_usals_pos (upd y)"
      if "x \<in> set (lnbs db)" "y \<in> set (lnbs db)" "lnb_on_positioner x" "lnb_on_positioner y" "dish_id (lnb_k x) = dish_id (lnb_k y)" for x y
    proof (cases "dish_id (lnb_k x) = dish_id (lnb_k l)")
      case True
      then show ?thesis using that(3-5) by (simp add: upd_def on_dish_def)
    next
      case False
      then have "upd x = x" "upd y = y" using that(5) by (simp_all add: upd_def on_dish_def)
      then show ?thesis using that a unfolding dishes_agree_def by metis
    qed
    moreover have "lnb_on_positioner (upd r) = lnb_on_positioner r" for r by (simp add: upd_def)
    ultimately show ?thesis unfolding dishes_agree_def by (simp only: ball_simps k) blast
  next
    case False
    then have "lnbs db' = lnbs db" using m(4) by simp
    then show ?thesis using a unfolding dishes_agree_def by (simp only:)
  qed
  then show ?thesis using m schedule_move_find [OF assms] by (simp split: if_splits)
qed

definition example_rotor :: "int \<Rightarrow> lnb_t" where
  "example_rotor i = default_lnb\<lparr>lnb_k := \<lparr>dish_id = 1, lnb_id = i, lnb_type = LNB_UNIV\<rparr>, lnb_cur_usals_pos := 1920,
     lnb_usals_pos := 1920, lnb_on_positioner := True\<rparr>"

definition example_dish_db :: devdb_t where
  "example_dish_db = \<lparr>lnbs = [example_rotor 1, example_rotor 2], fes = [], dishes = [], next_config_id = 0, next_subscription_id = 0\<rparr>"

lemma example_dish_db_ok: "devdb_ok example_dish_db"
  by code_simp

lemma example_schedule:
  "\<exists>dish l' db'. schedule_move straight_usals_par 7 (example_rotor 1) 1300 1300 example_location False example_dish_db = Some (dish, l', db')"
  by (simp add: schedule_move_def get_dish_def Let_def find_dish_def table_find_def example_dish_db_def default_dish_def split: prod.splits)

text \<open>For a dish with two LNBs that is sent from 19.2 to 13 degrees east.\<close>

theorem dish_move_updates_lnbs_witness:
  "\<exists>dish l' db'. schedule_move straight_usals_par 7 (example_rotor 1) 1300 1300 example_location False example_dish_db = Some (dish, l', db') \<and>
     dh_target_usals_pos dish = 1300 \<and> map_option lnb_cur_usals_pos (find_lnb (lnb_k (example_rotor 2)) db') = Some 1300"
proof -
  obtain dish l' db' where s: "schedule_move straight_usals_par 7 (example_rotor 1) 1300 1300 example_location False example_dish_db = Some (dish, l', db')"
    using example_schedule by blast
  have n: "new_target (example_rotor 1) 1300 example_dish_db" by code_simp
  have f: "find_lnb (lnb_k (example_rotor 2)) example_dish_db = Some (example_rotor 2)" by code_simp
  have o: "on_dish (dish_id (lnb_k (example_rotor 1))) (example_rotor 2)" by code_simp
  show ?thesis using dish_move_updates_lnbs [OF example_dish_db_ok s] s n f o by auto
qed

end
