(* ===== verification/Fe_Find.thy ===== *)
theory Fe_Find
  imports Dish
begin

text \<open>
  The choice of a front end and an LNB, src/src/neumodb/devdb/fe_find.cc: which front ends are in use, whether a new
  subscription would disturb an existing one, the best front end for an LNB, and the best LNB, connection and front end for a mux or
  for the spectrum of a band. The processes of the system (\<open>getpid\<close>, \<open>kill\<close> with signal 0) are the record \<open>os_t\<close>. \<open>None\<close>
  is a failed assertion or an index of a bit set that is out of range; log messages are left out. Priorities, penalties and bonuses are
  integers without a bound.
\<close>

record os_t =
  proc_id :: int
  alive :: "int \<Rightarrow> bool"

section \<open>Muxes and options\<close>

text \<open>A satellite mux with the rest of its key, and a cable or terrestrial mux.\<close>

record keyed_dvbs_mux_t = dvbs_mux_t +
  dvbs_t2mi_pid :: int
  dvbs_mux_id :: u16

definition mux_key_of :: "keyed_dvbs_mux_t \<Rightarrow> mux_key_t" where
  "mux_key_of m = \<lparr>mk_sat_pos = dvbs_sat_pos m, mk_stream_id = dvbs_stream_id m, mk_t2mi_pid = dvbs_t2mi_pid m, mk_mux_id = dvbs_mux_id m\<rparr>"

record tune_options_t =
  allowed_dish_ids :: "int list option"
  allowed_card_mac_addresses :: "int list option"
  allowed_rf_paths :: "rf_path_t list option"
  use_blind_tune :: bool
  opt_may_move_dish :: bool
  opt_need_spectrum :: bool
  resource_reuse_bonus :: int
  dish_move_penalty :: int
  opt_usals_location :: usals_location_t

definition allowed :: "'a list option \<Rightarrow> 'a \<Rightarrow> bool" where
  "allowed xs x = (case xs of None \<Rightarrow> True | Some ys \<Rightarrow> x \<in> set ys)"

definition rf_path_is_allowed :: "tune_options_t \<Rightarrow> rf_path_t \<Rightarrow> bool" where
  "rf_path_is_allowed opts p \<longleftrightarrow> allowed (allowed_rf_paths opts) p \<and> allowed (allowed_dish_ids opts) (dish_id (rf_lnb p)) \<and>
     allowed (allowed_card_mac_addresses opts) (rf_card_mac_address p)"

section \<open>Subscriptions\<close>

definition is_subscribed :: "os_t \<Rightarrow> fe_t \<Rightarrow> bool" where
  "is_subscribed os fe \<longleftrightarrow> sub_owner (fe_sub fe) \<ge> 0 \<and> alive os (sub_owner (fe_sub fe))"

primrec delsys_to_type :: "fe_delsys_t \<Rightarrow> delsys_type_t" where
  "delsys_to_type DELSYS_UNDEFINED = DT_NONE"
| "delsys_to_type DELSYS_DVBC_ANNEX_A = DVB_C"
| "delsys_to_type DELSYS_DVBC_ANNEX_B = DVB_C"
| "delsys_to_type DELSYS_DVBC_ANNEX_C = DVB_C"
| "delsys_to_type DELSYS_ISDBC = DVB_C"
| "delsys_to_type DELSYS_DVBT = DVB_T"
| "delsys_to_type DELSYS_DVBT2 = DVB_T"
| "delsys_to_type DELSYS_TURBO = DVB_T"
| "delsys_to_type DELSYS_ATSC = DVB_T"
| "delsys_to_type DELSYS_ATSCMH = DVB_T"
| "delsys_to_type DELSYS_ISDBT = DVB_T"
| "delsys_to_type DELSYS_DVBS = DVB_S"
| "delsys_to_type DELSYS_DVBS2 = DVB_S"
| "delsys_to_type DELSYS_ISDBS = DVB_S"
| "delsys_to_type DELSYS_DSS = DT_NONE"
| "delsys_to_type DELSYS_DVBH = DT_NONE"
| "delsys_to_type DELSYS_DTMB = DT_NONE"
| "delsys_to_type DELSYS_CMMB = DT_NONE"
| "delsys_to_type DELSYS_DAB = DT_NONE"

definition supports_delsys_type :: "fe_t \<Rightarrow> delsys_type_t \<Rightarrow> bool" where
  "supports_delsys_type fe t \<longleftrightarrow> list_ex (\<lambda>d. delsys_to_type d = t) (fe_delsys fe)"

definition may_move_dish :: "fe_subscription_t \<Rightarrow> bool" where
  "may_move_dish sub \<longleftrightarrow> sub_dish_usals_pos sub = sat_pos_none"

definition may_change_lnb :: "fe_subscription_t \<Rightarrow> bool" where
  "may_change_lnb sub \<longleftrightarrow> sub_usals_pos sub = sat_pos_none \<or> sub_sat_pos sub = sat_pos_none \<or> sub_pol sub = POL_NONE \<or> sub_band sub = SUB_NONE"

definition is_exclusive :: "fe_subscription_t \<Rightarrow> bool" where
  "is_exclusive sub \<longleftrightarrow> may_change_lnb sub \<or> may_move_dish sub"

section \<open>Conflicts\<close>

record counts_t =
  cnt_positioner :: nat
  cnt_rf_path :: nat
  cnt_rf_coupler :: nat
  cnt_tuner :: nat
  cnt_config_id :: int
  cnt_owner :: int

definition no_counts :: counts_t where
  "no_counts = \<lparr>cnt_positioner = 0, cnt_rf_path = 0, cnt_rf_coupler = 0, cnt_tuner = 0, cnt_config_id = -1, cnt_owner = -1\<rparr>"

definition can_control_lnb :: "counts_t \<Rightarrow> bool" where
  "can_control_lnb c \<longleftrightarrow> \<not> (cnt_rf_path c > 0 \<or> cnt_tuner c > 0 \<or> cnt_rf_coupler c > 0)"

definition same_rf_path :: "fe_subscription_t \<Rightarrow> fe_subscription_t \<Rightarrow> bool" where
  "same_rf_path sub s \<longleftrightarrow> sub_rf_path sub = sub_rf_path s"

definition same_dish :: "fe_subscription_t \<Rightarrow> fe_subscription_t \<Rightarrow> bool" where
  "same_dish sub s \<longleftrightarrow> sub_dish_id sub = sub_dish_id s \<and> sub_dish_id s \<ge> 0"

definition same_rf_coupler :: "fe_subscription_t \<Rightarrow> fe_subscription_t \<Rightarrow> bool" where
  "same_rf_coupler sub s \<longleftrightarrow> sub_rf_coupler_id sub = sub_rf_coupler_id s \<and> sub_rf_coupler_id s \<ge> 0"

definition same_tuner :: "fe_subscription_t \<Rightarrow> fe_subscription_t \<Rightarrow> bool" where
  "same_tuner sub s \<longleftrightarrow> rf_card_mac_address (sub_rf_path sub) = rf_card_mac_address (sub_rf_path s) \<and>
     rf_input (sub_rf_path sub) = rf_input (sub_rf_path s)"

definition same_sat_band_pol :: "fe_subscription_t \<Rightarrow> fe_subscription_t \<Rightarrow> bool" where
  "same_sat_band_pol sub s \<longleftrightarrow> sub_usals_pos sub = sub_usals_pos s \<and> sub_pol sub = sub_pol s \<and> sub_band sub = sub_band s"

text \<open>The conditions under which the check gives up.\<close>

definition resource_conflict :: "bool \<Rightarrow> fe_subscription_t \<Rightarrow> fe_subscription_t \<Rightarrow> bool" where
  "resource_conflict is_unicable_connection sub s \<longleftrightarrow>
     ((is_exclusive sub \<or> is_exclusive s) \<and> (same_rf_path sub s \<or> same_dish sub s \<or> same_tuner sub s \<or> same_rf_coupler sub s)) \<or>
     (same_dish sub s \<and> (may_move_dish sub \<or> may_move_dish s)) \<or>
     (same_rf_path sub s \<and> \<not> same_sat_band_pol sub s \<and> \<not> is_unicable_connection) \<or>
     (same_tuner sub s \<and> (\<not> same_rf_path sub s \<or> (\<not> same_sat_band_pol sub s \<and> \<not> is_unicable_connection)))"

definition count_resources :: "bool \<Rightarrow> fe_subscription_t \<Rightarrow> fe_subscription_t \<Rightarrow> counts_t \<Rightarrow> counts_t" where
  "count_resources on_positioner sub s c =
     \<lparr>cnt_positioner = cnt_positioner c + of_bool (same_dish sub s \<and> on_positioner),
      cnt_rf_path = cnt_rf_path c + of_bool (same_rf_path sub s),
      cnt_rf_coupler = cnt_rf_coupler c + of_bool (same_rf_coupler sub s),
      cnt_tuner = cnt_tuner c + of_bool (same_tuner sub s),
      cnt_config_id = sub_config_id sub,
      cnt_owner = sub_owner sub\<rparr>"

fun check_resources :: "os_t \<Rightarrow> fe_subscription_t \<Rightarrow> fe_key_t option \<Rightarrow> bool \<Rightarrow> bool \<Rightarrow> fe_t list \<Rightarrow> counts_t \<Rightarrow> counts_t option option" where
  "check_resources os s release on_positioner unicable [] ret = Some (Some ret)"
| "check_resources os s release on_positioner unicable (fe # fs) ret =
     (if \<not> is_subscribed os fe then check_resources os s release on_positioner unicable fs ret
      else if sub_owner (fe_sub fe) \<noteq> sub_owner s \<and> \<not> alive os (sub_owner (fe_sub fe))
        then check_resources os s release on_positioner unicable fs ret
      else if release = Some (fe_k fe) then
        (if length (sub_subs (fe_sub fe)) \<noteq> 1 then None else check_resources os s release on_positioner unicable fs ret)
      else if sub_config_id (fe_sub fe) < 0 \<or> sub_owner (fe_sub fe) < 0 then None
      else if resource_conflict unicable (fe_sub fe) s then Some None
      else check_resources os s release on_positioner unicable fs (count_resources on_positioner (fe_sub fe) s ret))"

definition check_for_resource_conflicts ::
    "os_t \<Rightarrow> devdb_t \<Rightarrow> fe_subscription_t \<Rightarrow> fe_key_t option \<Rightarrow> bool \<Rightarrow> bool \<Rightarrow> counts_t option option" where
  "check_for_resource_conflicts os db s release on_positioner unicable =
     (if sub_owner s < 0 then None else check_resources os s release on_positioner unicable (fes db) no_counts)"

section \<open>Unicable channels\<close>

fun unicable_in_use :: "os_t \<Rightarrow> lnb_key_t \<Rightarrow> fe_key_t option \<Rightarrow> fe_t list \<Rightarrow> unicable_ch_t list option" where
  "unicable_in_use os k release [] = Some []"
| "unicable_in_use os k release (fe # fs) =
     (if \<not> is_subscribed os fe then unicable_in_use os k release fs
      else if release = Some (fe_k fe) then
        (if length (sub_subs (fe_sub fe)) \<noteq> 1 then None else unicable_in_use os k release fs)
      else if sub_config_id (fe_sub fe) < 0 \<or> sub_owner (fe_sub fe) < 0 then None
      else if rf_lnb (sub_rf_path (fe_sub fe)) \<noteq> k then unicable_in_use os k release fs
      else map_option (\<lambda>us. case sub_unicable_ch (fe_sub fe) of Some u \<Rightarrow> u # us | None \<Rightarrow> us) (unicable_in_use os k release fs))"

definition uc_usable :: "unicable_ch_t \<Rightarrow> bool" where
  "uc_usable u \<longleftrightarrow> 0 \<le> uc_ch_id u \<and> uc_ch_id u < 32 \<and> uc_enabled u"

definition select_unicable_ch :: "os_t \<Rightarrow> devdb_t \<Rightarrow> lnb_t \<Rightarrow> fe_key_t option \<Rightarrow> unicable_ch_t option option" where
  "select_unicable_ch os db l release =
     (if list_ex uc_usable (drop 32 (lnb_unicable_channels l)) then None
      else do {
        used \<leftarrow> unicable_in_use os (lnb_k l) release (fes db);
        if list_ex (\<lambda>u. u \<in> set used) (drop 32 (lnb_unicable_channels l)) then None
        else Some (find (\<lambda>u. uc_usable u \<and> u \<notin> set used) (take 32 (lnb_unicable_channels l)))})"

section \<open>The best front end for an LNB\<close>

definition adapter_in_use :: "os_t \<Rightarrow> devdb_t \<Rightarrow> bool \<Rightarrow> int \<Rightarrow> bool" where
  "adapter_in_use os db ignore_subscriptions adapter_no \<longleftrightarrow> \<not> ignore_subscriptions \<and>
     list_ex (\<lambda>fe. fe_adapter_no fe = adapter_no \<and> fe_present fe \<and> is_subscribed os fe) (fes db)"

definition candidate_subscription ::
    "os_t \<Rightarrow> lnb_t \<Rightarrow> lnb_connection_t \<Rightarrow> rf_path_t \<Rightarrow> int \<Rightarrow> fe_polarisation_t \<Rightarrow> sat_sub_band_t \<Rightarrow> int \<Rightarrow> fe_subscription_t" where
  "candidate_subscription os l conn p sat_pos pol band usals_pos =
     default_subscription\<lparr>sub_owner := proc_id os, sub_rf_path := p, sub_pol := pol, sub_band := band, sub_usals_pos := usals_pos,
       sub_sat_pos := sat_pos, sub_dish_id := dish_id (lnb_k l),
       sub_dish_usals_pos := (if lnb_on_positioner l then usals_pos else lnb_cur_usals_pos l),
       sub_rf_coupler_id := conn_rf_coupler_id conn\<rparr>"

definition preferred_fe :: "bool \<Rightarrow> bool \<Rightarrow> fe_t \<Rightarrow> fe_t option \<Rightarrow> bool" where
  "preferred_fe need_spectrum is_our_subscription fe best =
     (if need_spectrum then
        (if spectrum_fft (fe_supports fe) then
           (case best of None \<Rightarrow> True | Some b \<Rightarrow> \<not> spectrum_fft (fe_supports b) \<or> fe_priority fe > fe_priority b \<or>
              (fe_priority fe = fe_priority b \<and> is_our_subscription))
         else if spectrum_sweep (fe_supports fe) then
           (case best of None \<Rightarrow> True | Some b \<Rightarrow> \<not> spectrum_fft (fe_supports b) \<and> fe_priority fe > fe_priority b)
         else False)
      else (case best of None \<Rightarrow> True | Some b \<Rightarrow>
         (spectrum_fft (fe_supports b) \<and> \<not> spectrum_fft (fe_supports fe)) \<or>
         (spectrum_sweep (fe_supports b) \<and> \<not> spectrum_fft (fe_supports fe) \<and> \<not> spectrum_sweep (fe_supports fe)) \<or>
         fe_priority fe > fe_priority b \<or> (fe_priority fe = fe_priority b \<and> is_our_subscription)))"

definition ours :: "fe_key_t option \<Rightarrow> bool \<Rightarrow> fe_t \<Rightarrow> bool" where
  "ours release ignore_subscriptions fe \<longleftrightarrow>
     \<not> (ignore_subscriptions \<or> length (sub_subs (fe_sub fe)) > 1) \<and> release = Some (fe_k fe)"

definition with_counts :: "fe_t \<Rightarrow> counts_t \<Rightarrow> fe_t" where
  "with_counts fe c = fe\<lparr>fe_sub := (fe_sub fe)\<lparr>sub_config_id := cnt_config_id c, sub_owner := cnt_owner c\<rparr>\<rparr>"

definition usable_fe :: "os_t \<Rightarrow> devdb_t \<Rightarrow> rf_path_t \<Rightarrow> fe_key_t option \<Rightarrow> bool \<Rightarrow> bool \<Rightarrow> bool \<Rightarrow> fe_t \<Rightarrow> bool" where
  "usable_fe os db p release need_blind_tune need_multistream ignore_subscriptions fe \<longleftrightarrow>
     (ignore_subscriptions \<or> \<not> is_subscribed os fe \<or> ours release ignore_subscriptions fe) \<and>
     fe_can_be_used fe \<and> fe_present fe \<and> supports_delsys_type fe DVB_S \<and> fe_enable_dvbs fe \<and>
     rf_input p \<in> set (fe_rf_inputs fe) \<and> (need_blind_tune \<longrightarrow> blindscan (fe_supports fe)) \<and>
     (need_multistream \<longrightarrow> multistream (fe_supports fe)) \<and>
     (ours release ignore_subscriptions fe \<or> \<not> adapter_in_use os db ignore_subscriptions (fe_adapter_no fe))"

definition consider_fe ::
    "os_t \<Rightarrow> devdb_t \<Rightarrow> lnb_t \<Rightarrow> fe_subscription_t \<Rightarrow> fe_key_t option \<Rightarrow> bool \<Rightarrow> bool \<Rightarrow> bool \<Rightarrow> bool \<Rightarrow> bool \<Rightarrow> fe_t
     \<Rightarrow> (fe_t \<times> counts_t) option \<Rightarrow> (fe_t \<times> counts_t) option option" where
  "consider_fe os db l s release unicable need_blind_tune need_spec need_multistream ignore_subscriptions fe best =
     (if \<not> usable_fe os db (sub_rf_path s) release need_blind_tune need_multistream ignore_subscriptions fe then Some best
      else do {
        use_counts \<leftarrow> check_for_resource_conflicts os db s release (lnb_on_positioner l) unicable;
        case use_counts of None \<Rightarrow> Some best
        | Some c \<Rightarrow>
            if need_spec \<and> \<not> (case best of None \<Rightarrow> True | Some (b, _) \<Rightarrow> spectrum_fft (fe_supports b) \<or> spectrum_sweep (fe_supports b)) then None
            else Some (if preferred_fe need_spec (ours release ignore_subscriptions fe) fe (map_option fst best)
                       then Some (with_counts fe c, c) else best)})"

text \<open>A loop that updates the best choice so far.\<close>

fun consider_each :: "('a \<Rightarrow> 'b \<Rightarrow> 'b option) \<Rightarrow> 'a list \<Rightarrow> 'b \<Rightarrow> 'b option" where
  "consider_each step [] best = Some best"
| "consider_each step (fe # fs) best = do { best' \<leftarrow> step fe best; consider_each step fs best' }"

definition find_best_fe_for_lnb ::
    "os_t \<Rightarrow> devdb_t \<Rightarrow> rf_path_t \<Rightarrow> lnb_t \<Rightarrow> fe_key_t option \<Rightarrow> bool \<Rightarrow> bool \<Rightarrow> bool \<Rightarrow> int \<Rightarrow> fe_polarisation_t \<Rightarrow> sat_sub_band_t
     \<Rightarrow> int \<Rightarrow> bool \<Rightarrow> (fe_t \<times> counts_t \<times> unicable_ch_t option) option option" where
  "find_best_fe_for_lnb os db p l release need_blind_tune need_spec need_multistream sat_pos pol band usals_pos ignore_subscriptions =
     (case connection_for_rf_path l p of
        None \<Rightarrow> Some None
      | Some conn \<Rightarrow>
          let unicable = (lnb_unicable_channels l \<noteq> [] \<and> conn_unicable conn);
              s = candidate_subscription os l conn p sat_pos pol band usals_pos
          in do {
            ch \<leftarrow> (if unicable then select_unicable_ch os db l release else Some None);
            if unicable \<and> ch = None then Some None
            else map_option (map_option (\<lambda>(fe, c). (fe, c, ch)))
              (consider_each (consider_fe os db l s release unicable need_blind_tune need_spec need_multistream ignore_subscriptions)
                 (filter (\<lambda>fe. fe_card_mac_address fe = rf_card_mac_address p) (fes db)) None)})"

section \<open>The best LNB, connection and front end\<close>

record best_t =
  b_lnb_prio :: int
  b_fe_prio :: int
  b_rf_path_prio :: int
  b_lnb :: "lnb_t option"
  b_rf_path :: "rf_path_t option"
  b_fe :: "fe_t option"
  b_use_counts :: counts_t
  b_unicable_ch :: "unicable_ch_t option"

definition INT_MIN :: int where "INT_MIN = - 2147483648"

definition nothing_yet :: best_t where
  "nothing_yet = \<lparr>b_lnb_prio = INT_MIN, b_fe_prio = INT_MIN, b_rf_path_prio = INT_MIN, b_lnb = None, b_rf_path = None, b_fe = None,
     b_use_counts = no_counts, b_unicable_ch = None\<rparr>"

text \<open>What is known of the network, of the movement of the dish and of the connection before a front end is looked for.\<close>

definition connection_usable :: "tune_options_t \<Rightarrow> lnb_t \<Rightarrow> int \<Rightarrow> lnb_connection_t \<Rightarrow> bool" where
  "connection_usable opts l amount conn \<longleftrightarrow> conn_can_be_used conn \<and> conn_enabled conn \<and>
     rf_path_is_allowed opts (rf_path_for_connection (lnb_k l) conn) \<and>
     \<not> (lnb_on_positioner l \<and> amount > sat_pos_tolerance \<and> (\<not> opt_may_move_dish opts \<or> \<not> can_move_dish conn))"

definition consider_connection ::
    "tune_options_t \<Rightarrow> (lnb_t \<Rightarrow> rf_path_t \<Rightarrow> int \<Rightarrow> (fe_t \<times> counts_t \<times> unicable_ch_t option) option option)
     \<Rightarrow> lnb_t \<Rightarrow> bool \<times> int \<times> int \<times> int \<Rightarrow> lnb_connection_t \<Rightarrow> best_t \<Rightarrow> best_t option" where
  "consider_connection opts search l net conn best = (case net of (found, network_priority, amount, usals_pos) \<Rightarrow>
     if \<not> connection_usable opts l amount conn then Some best
     else
       let p = rf_path_for_connection (lnb_k l) conn;
           prio = (if network_priority \<ge> 0 then network_priority else lnb_priority l);
           penalty = (if amount \<noteq> 0 then dish_move_penalty opts else 0)
       in if \<not> found \<or> (prio \<ge> 0 \<and> prio - penalty < b_lnb_prio best) then Some best
          else if prio \<ge> 0 \<and> prio - penalty = b_lnb_prio best \<and> b_rf_path best \<noteq> None \<and> b_rf_path_prio best \<ge> conn_priority conn then Some best
          else do {
            r \<leftarrow> search l p usals_pos;
            case r of None \<Rightarrow> Some best
            | Some (fe, c, ch) \<Rightarrow>
                let fe_prio = fe_priority fe + (if cnt_config_id c \<ge> 0 then resource_reuse_bonus opts else 0)
                in Some (
                  if (prio < 0 \<or> prio - penalty = b_lnb_prio best) \<and> b_rf_path_prio best \<ge> conn_priority conn then best
                  else if (prio < 0 \<or> b_rf_path_prio best = conn_priority conn) \<and> fe_prio - penalty \<le> b_fe_prio best then best
                  else \<lparr>b_lnb_prio = (if prio < 0 then fe_prio else prio) - penalty, b_fe_prio = fe_prio - penalty,
                         b_rf_path_prio = conn_priority conn, b_lnb = Some l, b_rf_path = Some p, b_fe = Some (with_counts fe c),
                         b_use_counts = c, b_unicable_ch = ch\<rparr>)})"

text \<open>The call of \<open>find_best_fe_for_lnb\<close> for a mux passes the satellite position where the function has \<open>need_multistream\<close>, and
  \<open>need_multistream\<close> where it has the satellite position; both are converted implicitly.\<close>

definition search_for_mux ::
    "os_t \<Rightarrow> devdb_t \<Rightarrow> keyed_dvbs_mux_t \<Rightarrow> tune_options_t \<Rightarrow> fe_key_t option \<Rightarrow> bool \<Rightarrow> lnb_t \<Rightarrow> rf_path_t \<Rightarrow> int
     \<Rightarrow> (fe_t \<times> counts_t \<times> unicable_ch_t option) option option" where
  "search_for_mux os db mux opts release ignore_subscriptions l p usals_pos =
     (if opt_need_spectrum opts then None
      else do {
        band \<leftarrow> band_for_mux l mux;
        let need_multistream = (dvbs_stream_id mux \<ge> 0);
        find_best_fe_for_lnb os db p l release (use_blind_tune opts) (opt_need_spectrum opts)
          (dvbs_sat_pos mux \<noteq> 0) (if need_multistream then 1 else 0) (dvbs_pol mux) band usals_pos ignore_subscriptions})"

definition consider_lnb_for_mux ::
    "os_t \<Rightarrow> devdb_t \<Rightarrow> keyed_dvbs_mux_t \<Rightarrow> tune_options_t \<Rightarrow> fe_key_t option \<Rightarrow> bool \<Rightarrow> lnb_t \<Rightarrow> best_t \<Rightarrow> best_t option" where
  "consider_lnb_for_mux os db mux opts release ignore_subscriptions l best =
     (if \<not> lnb_enabled l \<or> \<not> lnb_can_be_used l then Some best
      else do {
        let net = has_network l (dvbs_sat_pos mux);
        can \<leftarrow> lnb_can_tune_to_mux l mux False;
        if \<not> can then Some best
        else consider_each (consider_connection opts (search_for_mux os db mux opts release ignore_subscriptions) l net) (lnb_connections l) best})"

definition find_fe_and_lnb_for_tuning_to_mux ::
    "os_t \<Rightarrow> devdb_t \<Rightarrow> keyed_dvbs_mux_t \<Rightarrow> tune_options_t \<Rightarrow> fe_key_t option \<Rightarrow> bool \<Rightarrow> best_t option" where
  "find_fe_and_lnb_for_tuning_to_mux os db mux opts release ignore_subscriptions =
     consider_each (consider_lnb_for_mux os db mux opts release ignore_subscriptions) (lnbs db) nothing_yet"

definition search_for_band ::
    "os_t \<Rightarrow> devdb_t \<Rightarrow> int \<Rightarrow> band_scan_t \<Rightarrow> tune_options_t \<Rightarrow> fe_key_t option \<Rightarrow> bool \<Rightarrow> lnb_t \<Rightarrow> rf_path_t \<Rightarrow> int
     \<Rightarrow> (fe_t \<times> counts_t \<times> unicable_ch_t option) option option" where
  "search_for_band os db pos bs opts release ignore_subscriptions l p usals_pos =
     find_best_fe_for_lnb os db p l release (use_blind_tune opts) (opt_need_spectrum opts) False pos (bs_pol bs) SUB_NONE usals_pos
       ignore_subscriptions"

definition consider_lnb_for_band ::
    "os_t \<Rightarrow> devdb_t \<Rightarrow> int \<Rightarrow> band_scan_t \<Rightarrow> tune_options_t \<Rightarrow> fe_key_t option \<Rightarrow> bool \<Rightarrow> lnb_t \<Rightarrow> best_t \<Rightarrow> best_t option" where
  "consider_lnb_for_band os db pos bs opts release ignore_subscriptions l best =
     (let net = has_network l pos in
      if \<not> lnb_enabled l \<or> \<not> lnb_can_be_used l \<or> \<not> fst net then Some best
      else do {
        can \<leftarrow> lnb_can_scan_sat_band l pos bs True;
        if \<not> can then Some best
        else consider_each (consider_connection opts (search_for_band os db pos bs opts release ignore_subscriptions) l net) (lnb_connections l) best})"

definition find_fe_and_lnb_for_tuning_to_band ::
    "os_t \<Rightarrow> devdb_t \<Rightarrow> int \<Rightarrow> band_scan_t \<Rightarrow> tune_options_t \<Rightarrow> fe_key_t option \<Rightarrow> bool \<Rightarrow> best_t option" where
  "find_fe_and_lnb_for_tuning_to_band os db pos bs opts release ignore_subscriptions =
     consider_each (consider_lnb_for_band os db pos bs opts release ignore_subscriptions) (lnbs db) nothing_yet"

definition can_subscribe_mux :: "os_t \<Rightarrow> devdb_t \<Rightarrow> keyed_dvbs_mux_t \<Rightarrow> tune_options_t \<Rightarrow> bool option" where
  "can_subscribe_mux os db mux opts = map_option (\<lambda>b. b_fe b \<noteq> None) (find_fe_and_lnb_for_tuning_to_mux os db mux opts None True)"

definition can_subscribe_sat_band :: "os_t \<Rightarrow> devdb_t \<Rightarrow> int \<Rightarrow> band_scan_t \<Rightarrow> tune_options_t \<Rightarrow> bool option" where
  "can_subscribe_sat_band os db pos bs opts =
     map_option (\<lambda>b. b_fe b \<noteq> None) (find_fe_and_lnb_for_tuning_to_band os db pos bs opts None True)"

section \<open>Cable and terrestrial front ends\<close>

text \<open>The lowest priority stands for no front end yet.\<close>

definition lowest_prio :: int where "lowest_prio = - 32768"

definition preferred_dvtdbc :: "bool \<Rightarrow> fe_t \<Rightarrow> fe_t \<Rightarrow> bool" where
  "preferred_dvtdbc need_spec fe best =
     (let none_yet = (fe_priority best = lowest_prio) in
      if need_spec then
        (if spectrum_fft (fe_supports fe) then none_yet \<or> \<not> spectrum_fft (fe_supports best) \<or> fe_priority fe > fe_priority best
         else if spectrum_sweep (fe_supports fe) then none_yet \<or> (\<not> spectrum_fft (fe_supports best) \<and> fe_priority fe > fe_priority best)
         else False)
      else none_yet \<or> (spectrum_fft (fe_supports best) \<and> \<not> spectrum_fft (fe_supports fe)) \<or>
         (spectrum_sweep (fe_supports best) \<and> \<not> spectrum_fft (fe_supports fe) \<and> \<not> spectrum_sweep (fe_supports fe)) \<or>
         fe_priority fe > fe_priority best)"

definition usable_dvtdbc :: "os_t \<Rightarrow> fe_key_t option \<Rightarrow> bool \<Rightarrow> bool \<Rightarrow> delsys_type_t \<Rightarrow> bool \<Rightarrow> fe_t \<Rightarrow> bool" where
  "usable_dvtdbc os release need_blind_tune need_multistream t ignore_subscriptions fe \<longleftrightarrow>
     \<not> (t = DVB_C \<and> (\<not> fe_enable_dvbc fe \<or> \<not> supports_delsys_type fe DVB_C)) \<and>
     \<not> (t = DVB_T \<and> (\<not> fe_enable_dvbt fe \<or> \<not> supports_delsys_type fe DVB_T)) \<and>
     (ignore_subscriptions \<or> \<not> is_subscribed os fe \<or> ours release ignore_subscriptions fe) \<and>
     fe_present fe \<and> fe_can_be_used fe \<and> (need_blind_tune \<longrightarrow> blindscan (fe_supports fe)) \<and> (need_multistream \<longrightarrow> multistream (fe_supports fe))"

definition consider_dvtdbc ::
    "os_t \<Rightarrow> fe_key_t option \<Rightarrow> bool \<Rightarrow> bool \<Rightarrow> bool \<Rightarrow> delsys_type_t \<Rightarrow> bool \<Rightarrow> fe_t \<Rightarrow> fe_t \<Rightarrow> fe_t option" where
  "consider_dvtdbc os release need_blind_tune need_spec need_multistream t ignore_subscriptions fe best =
     (if \<not> usable_dvtdbc os release need_blind_tune need_multistream t ignore_subscriptions fe then Some best
      else if need_spec \<and> fe_priority best \<noteq> lowest_prio \<and> \<not> spectrum_fft (fe_supports best) \<and> \<not> spectrum_sweep (fe_supports best) then None
      else Some (if preferred_dvtdbc need_spec fe best then fe else best))"

definition find_best_fe_for_dvtdbc ::
    "os_t \<Rightarrow> devdb_t \<Rightarrow> fe_key_t option \<Rightarrow> bool \<Rightarrow> bool \<Rightarrow> bool \<Rightarrow> delsys_type_t \<Rightarrow> bool \<Rightarrow> fe_t option option" where
  "find_best_fe_for_dvtdbc os db release need_blind_tune need_spec need_multistream t ignore_subscriptions = do {
     best \<leftarrow> consider_each (consider_dvtdbc os release need_blind_tune need_spec need_multistream t ignore_subscriptions) (fes db)
       (default_fe\<lparr>fe_priority := lowest_prio\<rparr>);
     Some (if fe_priority best = lowest_prio then None else Some best)}"

section \<open>What a choice guarantees\<close>

lemma consider_each_inv:
  assumes "consider_each step xs b = Some b'" "P b" "\<And>x b b'. x \<in> set xs \<Longrightarrow> P b \<Longrightarrow> step x b = Some b' \<Longrightarrow> P b'"
  shows "P b'"
  using assms
proof (induction xs arbitrary: b)
  case (Cons x xs)
  then obtain b1 where "step x b = Some b1" "consider_each step xs b1 = Some b'" by (auto split: bind_splits)
  then show ?case using Cons.IH [of b1] Cons.prems(2,3) by (metis list.set_intros)
qed simp

text \<open>The subscriptions a new one has to live with: those of other front ends, of processes that are still running.\<close>

definition live_other :: "os_t \<Rightarrow> fe_key_t option \<Rightarrow> fe_t \<Rightarrow> bool" where
  "live_other os release fe \<longleftrightarrow> is_subscribed os fe \<and> release \<noteq> Some (fe_k fe)"

lemma check_resources_sound:
  assumes "check_resources os s release on_pos unicable fs ret = Some (Some c)" "fe \<in> set fs" "live_other os release fe"
  shows "\<not> resource_conflict unicable (fe_sub fe) s"
  using assms by (induction fs arbitrary: ret) (auto simp: live_other_def is_subscribed_def split: if_splits)

lemma check_resources_released:
  assumes "check_resources os s release on_pos unicable fs ret = Some r" "r \<noteq> None" "fe \<in> set fs" "is_subscribed os fe" "release = Some (fe_k fe)"
  shows "length (sub_subs (fe_sub fe)) = 1"
  using assms by (induction fs arbitrary: ret) (auto simp: is_subscribed_def split: if_splits)

lemma check_for_resource_conflicts_sound:
  assumes "check_for_resource_conflicts os db s release on_pos unicable = Some (Some c)" "fe \<in> set (fes db)"
  shows "live_other os release fe \<Longrightarrow> \<not> resource_conflict unicable (fe_sub fe) s"
    and "is_subscribed os fe \<Longrightarrow> release = Some (fe_k fe) \<Longrightarrow> length (sub_subs (fe_sub fe)) = 1"
  using assms check_resources_sound [of os s release on_pos unicable "fes db" no_counts c fe]
    check_resources_released [of os s release on_pos unicable "fes db" no_counts "Some c" fe]
  by (auto simp: check_for_resource_conflicts_def split: if_splits)

lemma consider_fe_Some:
  assumes "consider_fe os db l s release unicable nb ns nm ign fe best = Some (Some (fe', c))"
  shows "best = Some (fe', c) \<or> (fe' = with_counts fe c \<and> usable_fe os db (sub_rf_path s) release nb nm ign fe \<and>
    check_for_resource_conflicts os db s release (lnb_on_positioner l) unicable = Some (Some c))"
  using assms by (auto simp: consider_fe_def split: if_splits bind_splits option.splits)

definition unicable_connection :: "lnb_t \<Rightarrow> lnb_connection_t \<Rightarrow> bool" where
  "unicable_connection l conn \<longleftrightarrow> lnb_unicable_channels l \<noteq> [] \<and> conn_unicable conn"

lemma find_best_fe_for_lnb_sound:
  assumes "find_best_fe_for_lnb os db p l release nb ns nm sat_pos pol band usals_pos ign = Some (Some (fe, c, ch))"
  obtains fe0 conn where "fe0 \<in> set (fes db)" "fe = with_counts fe0 c" "fe_card_mac_address fe0 = rf_card_mac_address p"
    "connection_for_rf_path l p = Some conn" "usable_fe os db p release nb nm ign fe0"
    "check_for_resource_conflicts os db (candidate_subscription os l conn p sat_pos pol band usals_pos) release (lnb_on_positioner l)
       (unicable_connection l conn) = Some (Some c)"
    "(if unicable_connection l conn then \<exists>u. ch = Some u \<and> select_unicable_ch os db l release = Some (Some u) else ch = None)"
proof -
  obtain conn where conn: "connection_for_rf_path l p = Some conn"
    using assms by (cases "connection_for_rf_path l p") (auto simp: find_best_fe_for_lnb_def)
  define s where "s = candidate_subscription os l conn p sat_pos pol band usals_pos"
  define step where "step = consider_fe os db l s release (unicable_connection l conn) nb ns nm ign"
  define fs where "fs = filter (\<lambda>fe. fe_card_mac_address fe = rf_card_mac_address p) (fes db)"
  have loop: "consider_each step fs None = Some (Some (fe, c))"
    and ch: "if unicable_connection l conn then \<exists>u. ch = Some u \<and> select_unicable_ch os db l release = Some (Some u) else ch = None"
    using assms conn unfolding find_best_fe_for_lnb_def step_def fs_def s_def unicable_connection_def
    by (auto simp: Let_def split: bind_splits if_splits)
  have p: "sub_rf_path s = p" by (simp add: s_def candidate_subscription_def)
  define P where "P = (\<lambda>b. \<forall>fe c. b = Some (fe, c) \<longrightarrow> (\<exists>fe0 \<in> set fs. fe = with_counts fe0 c \<and> usable_fe os db p release nb nm ign fe0 \<and>
     check_for_resource_conflicts os db s release (lnb_on_positioner l) (unicable_connection l conn) = Some (Some c)))"
  have "P (Some (fe, c))"
  proof (rule consider_each_inv [OF loop])
    show "P None" by (simp add: P_def)
    show "P b'" if "x \<in> set fs" "P b" "step x b = Some b'" for x b b'
      using that consider_fe_Some [of os db l s release "unicable_connection l conn" nb ns nm ign x b] unfolding P_def step_def p
      by (metis (no_types, lifting))
  qed
  then obtain fe0 where "fe0 \<in> set fs" "fe = with_counts fe0 c" "usable_fe os db p release nb nm ign fe0"
    "check_for_resource_conflicts os db s release (lnb_on_positioner l) (unicable_connection l conn) = Some (Some c)"
    by (auto simp: P_def)
  then show ?thesis using that conn ch by (auto simp: fs_def s_def)
qed

text \<open>A choice that comes from an LNB, a connection of it and a front end that the search for this path gave.\<close>

definition chosen_from ::
    "tune_options_t \<Rightarrow> (lnb_t \<Rightarrow> rf_path_t \<Rightarrow> int \<Rightarrow> (fe_t \<times> counts_t \<times> unicable_ch_t option) option option)
     \<Rightarrow> bool \<times> int \<times> int \<times> int \<Rightarrow> lnb_t \<Rightarrow> lnb_connection_t \<Rightarrow> best_t \<Rightarrow> bool" where
  "chosen_from opts search net l conn best \<longleftrightarrow> conn \<in> set (lnb_connections l) \<and> b_lnb best = Some l \<and>
     b_rf_path best = Some (rf_path_for_connection (lnb_k l) conn) \<and> fst net \<and> connection_usable opts l (fst (snd (snd net))) conn \<and>
     (\<exists>fe. b_fe best = Some (with_counts fe (b_use_counts best)) \<and>
       search l (rf_path_for_connection (lnb_k l) conn) (snd (snd (snd net))) = Some (Some (fe, b_use_counts best, b_unicable_ch best)))"

lemma consider_connection_cases:
  assumes "consider_connection opts search l net conn best = Some best'" "conn \<in> set (lnb_connections l)"
  shows "best' = best \<or> chosen_from opts search net l conn best'"
  using assms unfolding consider_connection_def chosen_from_def
  by (auto simp: Let_def split: if_splits bind_splits option.splits prod.splits)

lemma consider_connections_cases:
  assumes "consider_each (consider_connection opts search l net) (lnb_connections l) best = Some best'"
  shows "best' = best \<or> (\<exists>conn. chosen_from opts search net l conn best')"
  using assms by (rule consider_each_inv) (auto dest: consider_connection_cases)

lemma find_mux_sound:
  assumes "find_fe_and_lnb_for_tuning_to_mux os db mux opts release ign = Some best"
  shows "b_fe best = None \<and> b_rf_path best = None \<and> b_lnb best = None \<or>
    (\<exists>l \<in> set (lnbs db). \<exists>conn. lnb_enabled l \<and> lnb_can_tune_to_mux l mux False = Some True \<and>
      chosen_from opts (search_for_mux os db mux opts release ign) (has_network l (dvbs_sat_pos mux)) l conn best)"
  using assms unfolding find_fe_and_lnb_for_tuning_to_mux_def
proof (rule consider_each_inv)
  show "b_fe nothing_yet = None \<and> b_rf_path nothing_yet = None \<and> b_lnb nothing_yet = None \<or>
    (\<exists>l \<in> set (lnbs db). \<exists>conn. lnb_enabled l \<and> lnb_can_tune_to_mux l mux False = Some True \<and>
      chosen_from opts (search_for_mux os db mux opts release ign) (has_network l (dvbs_sat_pos mux)) l conn nothing_yet)"
    by (simp add: nothing_yet_def)
qed (auto simp: consider_lnb_for_mux_def split: if_splits bind_splits dest!: consider_connections_cases)

lemma find_band_sound:
  assumes "find_fe_and_lnb_for_tuning_to_band os db pos bs opts release ign = Some best"
  shows "b_fe best = None \<and> b_rf_path best = None \<and> b_lnb best = None \<or>
    (\<exists>l \<in> set (lnbs db). \<exists>conn. lnb_enabled l \<and> lnb_can_scan_sat_band l pos bs True = Some True \<and>
      chosen_from opts (search_for_band os db pos bs opts release ign) (has_network l pos) l conn best)"
  using assms unfolding find_fe_and_lnb_for_tuning_to_band_def
proof (rule consider_each_inv)
  show "b_fe nothing_yet = None \<and> b_rf_path nothing_yet = None \<and> b_lnb nothing_yet = None \<or>
    (\<exists>l \<in> set (lnbs db). \<exists>conn. lnb_enabled l \<and> lnb_can_scan_sat_band l pos bs True = Some True \<and>
      chosen_from opts (search_for_band os db pos bs opts release ign) (has_network l pos) l conn nothing_yet)"
    by (simp add: nothing_yet_def)
qed (auto simp: consider_lnb_for_band_def Let_def split: if_splits bind_splits dest!: consider_connections_cases)

end
