(* ===== verification/Fe_Subscribe.thy ===== *)
theory Fe_Subscribe
  imports Fe_Find
begin

text \<open>
  Subscriptions of front ends, src/src/neumodb/devdb/fe_subscribe.cc: how a subscription is released, how a front end that already
  receives a mux is shared, how a front end, a connection and an LNB are reserved for a mux, for a band or for a given path, and when the
  dish is sent to another position. Every operation takes the database and returns the changed one; \<open>None\<close> is a failed assertion. The
  caller holds the write transaction, so an operation is one step. Log messages are left out; two of them (lines 845 and 902) print the key of an
  old front end that may not exist.
\<close>

record tune_pars_t =
  tp_dish :: "dish_t option"
  tp_move_dish :: bool
  tp_send_lnb_commands :: bool
  tp_unicable_ch :: "unicable_ch_t option"
  tp_owner :: int
  tp_config_id :: int

record subscribe_ret_t =
  ret_failed :: bool
  ret_subscription_id :: int
  ret_was_subscribed :: bool
  ret_sub_to_reuse :: int
  ret_retune :: bool
  ret_change_service :: bool
  ret_updated_old_dbfe :: "fe_t option"
  ret_updated_new_dbfe :: "fe_t option"
  ret_rf_path :: "rf_path_t option"
  ret_lnb :: "lnb_t option"
  ret_tune_pars :: tune_pars_t

definition default_tune_pars :: tune_pars_t where
  "default_tune_pars = \<lparr>tp_dish = None, tp_move_dish = False, tp_send_lnb_commands = False, tp_unicable_ch = None, tp_owner = -1, tp_config_id = -1\<rparr>"

text \<open>The constructor: a caller without a subscription gets the next number.\<close>

definition new_subscribe_ret :: "int \<Rightarrow> devdb_t \<Rightarrow> subscribe_ret_t \<times> devdb_t" where
  "new_subscribe_ret sid db =
     (let (sid', db') = (if sid = -1 then (next_subscription_id db, db\<lparr>next_subscription_id := next_subscription_id db + 1\<rparr>) else (sid, db))
      in (\<lparr>ret_failed = False, ret_subscription_id = sid', ret_was_subscribed = (sid \<ge> 0), ret_sub_to_reuse = -1, ret_retune = False,
           ret_change_service = False, ret_updated_old_dbfe = None, ret_updated_new_dbfe = None, ret_rf_path = None, ret_lnb = None,
           ret_tune_pars = default_tune_pars\<rparr>, db'))"

definition failed :: "int \<Rightarrow> fe_t option \<Rightarrow> devdb_t \<Rightarrow> subscribe_ret_t \<times> devdb_t" where
  "failed sid old_fe db =
     (let (sret, db) = new_subscribe_ret sid db in (sret\<lparr>ret_updated_old_dbfe := old_fe, ret_failed := True\<rparr>, db))"

section \<open>Releasing a subscription\<close>

fun erase_subscription :: "int \<Rightarrow> nat \<Rightarrow> subscription_data_t list \<Rightarrow> (subscription_data_t list \<times> bool) option" where
  "erase_subscription sid n [] = Some ([], False)"
| "erase_subscription sid n (d # ds) =
     (if sd_subscription_id d = sid then
        (if \<not> sd_has_service d \<and> \<not> sd_has_mux d \<and> n \<noteq> 1 then None else Some (ds, True))
      else map_option (\<lambda>(ds, erased). (d # ds, erased)) (erase_subscription sid n ds))"

definition unsubscribe_helper :: "os_t \<Rightarrow> fe_t \<Rightarrow> int \<Rightarrow> (fe_t \<times> bool) option" where
  "unsubscribe_helper os fe sid =
     (let subs = sub_subs (fe_sub fe) in
      if subs = [] \<or> sub_owner (fe_sub fe) \<noteq> proc_id os then Some (fe, False)
      else map_option (\<lambda>(ds, erased).
        (fe\<lparr>fe_sub := (if ds = [] then default_subscription else (fe_sub fe)\<lparr>sub_subs := ds\<rparr>)\<rparr>, erased))
        (erase_subscription sid (length subs) subs))"

text \<open>Release from a given front end; the changed front end, if there is one.\<close>

definition unsubscribe_fe :: "os_t \<Rightarrow> int \<Rightarrow> fe_key_t \<Rightarrow> devdb_t \<Rightarrow> (fe_t option \<times> devdb_t) option" where
  "unsubscribe_fe os sid k db =
     (let fe = (case find_fe k db of Some fe \<Rightarrow> fe | None \<Rightarrow> default_fe) in
      if sub_subs (fe_sub fe) = [] then None
      else do {
        (fe, erased) \<leftarrow> unsubscribe_helper os fe sid;
        Some (if erased then (Some fe, put_fe fe db) else (None, db))})"

fun unsubscribe_first :: "os_t \<Rightarrow> int \<Rightarrow> fe_t list \<Rightarrow> fe_t option option" where
  "unsubscribe_first os sid [] = Some None"
| "unsubscribe_first os sid (fe # fs) = do {
     (fe, erased) \<leftarrow> unsubscribe_helper os fe sid;
     if erased then Some (Some fe) else unsubscribe_first os sid fs}"

definition unsubscribe :: "os_t \<Rightarrow> int \<Rightarrow> devdb_t \<Rightarrow> (fe_t option \<times> devdb_t) option" where
  "unsubscribe os sid db = do {
     r \<leftarrow> unsubscribe_first os sid (fes db);
     Some (r, case r of Some fe \<Rightarrow> put_fe fe db | None \<Rightarrow> db)}"

definition fe_for_subscription :: "os_t \<Rightarrow> int \<Rightarrow> devdb_t \<Rightarrow> fe_t option \<times> bool" where
  "fe_for_subscription os sid db =
     (if sid < 0 then (None, False)
      else case find (\<lambda>fe. sub_owner (fe_sub fe) = proc_id os \<and> list_ex (\<lambda>d. sd_subscription_id d = sid) (sub_subs (fe_sub fe))) (fes db) of
          Some fe \<Rightarrow> (Some fe, list_all (\<lambda>d. sd_subscription_id d = sid) (sub_subs (fe_sub fe)))
        | None \<Rightarrow> (None, False))"

definition release_key :: "fe_t option \<times> bool \<Rightarrow> fe_key_t option" where
  "release_key r = (case r of (Some fe, True) \<Rightarrow> Some (fe_k fe) | _ \<Rightarrow> None)"

definition unsubscribe_old :: "os_t \<Rightarrow> int \<Rightarrow> fe_t option \<Rightarrow> devdb_t \<Rightarrow> (fe_t option \<times> devdb_t) option" where
  "unsubscribe_old os sid oldfe db = (case oldfe of None \<Rightarrow> Some (None, db) | Some fe \<Rightarrow> unsubscribe_fe os sid (fe_k fe) db)"

section \<open>Reservations\<close>

definition mux_subscription :: "int \<Rightarrow> mux_key_t \<Rightarrow> db_service_t option \<Rightarrow> subscription_data_t" where
  "mux_subscription sid k service = (case service of
       Some sv \<Rightarrow> \<lparr>sd_subscription_id = sid, sd_has_mux = True, sd_has_service = True, sd_v = Service sv\<rparr>
     | None \<Rightarrow> \<lparr>sd_subscription_id = sid, sd_has_mux = True, sd_has_service = False,
         sd_v = Service \<lparr>sv_mux = k, sv_network_id = 0, sv_ts_id = 0, sv_service_id = 0\<rparr>\<rparr>)"

definition add_subscription :: "subscription_data_t \<Rightarrow> fe_t \<Rightarrow> fe_t" where
  "add_subscription d fe = fe\<lparr>fe_sub := (fe_sub fe)\<lparr>sub_subs := sub_subs (fe_sub fe) @ [d]\<rparr>\<rparr>"

definition coupler_of :: "lnb_t \<Rightarrow> rf_path_t \<Rightarrow> int" where
  "coupler_of l p = (case connection_for_rf_path l p of Some conn \<Rightarrow> conn_rf_coupler_id conn | None \<Rightarrow> -1)"

text \<open>The configuration and the owner of a new reservation; \<open>strict\<close> is the version for a band, whose assertions are stronger.\<close>

definition reserve_config :: "os_t \<Rightarrow> bool \<Rightarrow> counts_t \<Rightarrow> fe_subscription_t \<Rightarrow> devdb_t \<Rightarrow> (fe_subscription_t \<times> devdb_t) option" where
  "reserve_config os strict c sub db =
     (if can_control_lnb c then
        (if \<not> (sub_config_id sub < 0 \<and> sub_owner sub < 0) then None
         else Some (sub\<lparr>sub_config_id := next_config_id db, sub_owner := proc_id os\<rparr>, db\<lparr>next_config_id := next_config_id db + 1\<rparr>))
      else if (if strict then cnt_config_id c = sub_config_id sub \<and> cnt_owner c = sub_owner sub \<and> sub_owner sub \<ge> 0
               else (sub_config_id sub < 0 \<or> cnt_config_id c = sub_config_id sub) \<and>
                    (sub_owner sub < 0 \<or> cnt_owner c = sub_owner sub) \<and> cnt_owner c \<ge> 0)
        then Some (sub\<lparr>sub_owner := cnt_owner c, sub_config_id := cnt_config_id c\<rparr>, db)
        else None)"

definition reserve_fe_lnb_for_mux ::
    "os_t \<Rightarrow> int \<Rightarrow> fe_t \<Rightarrow> rf_path_t \<Rightarrow> lnb_t \<Rightarrow> counts_t \<Rightarrow> unicable_ch_t option \<Rightarrow> keyed_dvbs_mux_t \<Rightarrow> db_service_t option \<Rightarrow> devdb_t
     \<Rightarrow> (fe_t \<times> devdb_t) option" where
  "reserve_fe_lnb_for_mux os sid fe p l c ch mux service db = do {
     fe \<leftarrow> find_fe (fe_k fe) db;
     (sub, db) \<leftarrow> reserve_config os False c (fe_sub fe) db;
     band \<leftarrow> band_for_mux l mux;
     let sub = sub\<lparr>sub_unicable_ch := ch, sub_rf_path := p, sub_sat_pos := dvbs_sat_pos mux, sub_pol := dvbs_pol mux, sub_band := band,
           sub_usals_pos := lnb_cur_usals_pos l, sub_dish_usals_pos := lnb_cur_usals_pos l, sub_dish_id := dish_id (lnb_k l),
           sub_frequency := sint (dvbs_frequency mux), sub_rf_coupler_id := coupler_of l p,
           sub_mux_key := (mux_key_of mux)\<lparr>mk_t2mi_pid := -1\<rparr>\<rparr>;
     let fe = add_subscription (mux_subscription sid (mux_key_of mux) service) (fe\<lparr>fe_sub := sub\<rparr>);
     Some (fe, put_fe fe db)}"

text \<open>Without a satellite and a band the subscription may change both.\<close>

definition reserve_fe_lnb_for_sat_band ::
    "os_t \<Rightarrow> int \<Rightarrow> tune_options_t \<Rightarrow> fe_t \<Rightarrow> counts_t \<Rightarrow> rf_path_t \<Rightarrow> lnb_t \<Rightarrow> (int \<times> band_scan_t) option \<Rightarrow> devdb_t
     \<Rightarrow> (fe_t \<times> devdb_t) option" where
  "reserve_fe_lnb_for_sat_band os sid opts fe c p l sat_band_scan db = do {
     fe \<leftarrow> find_fe (fe_k fe) db;
     (sub, db) \<leftarrow> reserve_config os True c (fe_sub fe) db;
     let usals = (if opt_may_move_dish opts then sat_pos_none else lnb_cur_usals_pos l);
     let sub = sub\<lparr>sub_rf_path := p,
           sub_sat_pos := (case sat_band_scan of Some (pos, _) \<Rightarrow> pos | None \<Rightarrow> sat_pos_none),
           sub_pol := (case sat_band_scan of Some (_, bs) \<Rightarrow> bs_pol bs | None \<Rightarrow> POL_NONE),
           sub_band := (case sat_band_scan of Some (_, bs) \<Rightarrow> bs_sat_sub_band bs | None \<Rightarrow> SUB_NONE),
           sub_usals_pos := usals,
           sub_dish_usals_pos := (if lnb_on_positioner l then usals else lnb_cur_usals_pos l), sub_dish_id := dish_id (lnb_k l),
           sub_frequency := 0, sub_rf_coupler_id := coupler_of l p, sub_mux_key := default_mux_key\<rparr>;
     let fe = add_subscription \<lparr>sd_subscription_id = sid, sd_has_mux = False, sd_has_service = False,
           sd_v = (case sat_band_scan of Some (_, bs) \<Rightarrow> Band_Scan bs
             | None \<Rightarrow> Service \<lparr>sv_mux = default_mux_key, sv_network_id = 0, sv_ts_id = 0, sv_service_id = 0\<rparr>)\<rparr> (fe\<lparr>fe_sub := sub\<rparr>);
     Some (fe, put_fe fe db)}"

text \<open>The dish; \<open>None\<close> inside is an LNB without the network.\<close>

definition update_dish_helper ::
    "(int \<Rightarrow> int \<Rightarrow> int \<Rightarrow> int) \<Rightarrow> int \<Rightarrow> lnb_t \<Rightarrow> usals_location_t \<Rightarrow> int \<Rightarrow> bool \<Rightarrow> devdb_t
     \<Rightarrow> (bool \<times> dish_t option \<times> lnb_t \<times> devdb_t) option" where
  "update_dish_helper usals_par now l loc pos may_move db =
     (let stay = (\<lambda>l. case get_dish (dish_id (lnb_k l)) db of (d, db) \<Rightarrow> Some (False, Some d, l, db)) in
      if lnb_on_positioner l then
        (case get_network l pos of
           None \<Rightarrow> Some (False, None, l, db)
         | Some n \<Rightarrow>
             let old_usals_pos = lnb_cur_usals_pos l;
                 l = l\<lparr>lnb_cur_usals_pos := nw_usals_pos n\<rparr>
             in if may_move \<and> old_usals_pos \<noteq> nw_usals_pos n then
                  map_option (\<lambda>(d, l, db). (True, Some d, l, db)) (schedule_move usals_par now l (nw_usals_pos n) pos loc False db)
                else stay l)
      else stay l)"

section \<open>Sharing a front end\<close>

datatype tuned_mux_t = Sat_Mux keyed_dvbs_mux_t | Cable_Mux mux_key_t u32 | Terrestrial_Mux mux_key_t u32

primrec tuned_key :: "tuned_mux_t \<Rightarrow> mux_key_t" where
  "tuned_key (Sat_Mux m) = mux_key_of m"
| "tuned_key (Cable_Mux k f) = k"
| "tuned_key (Terrestrial_Mux k f) = k"

primrec pol_code :: "fe_polarisation_t \<Rightarrow> int" where
  "pol_code POL_NONE = -1"
| "pol_code POL_H = 0"
| "pol_code POL_V = 1"
| "pol_code POL_L = 2"
| "pol_code POL_R = 3"

text \<open>The tolerance is 1.35 times half of the symbol rate, in floating point; \<open>200000 * delta \<le> 135 * rate\<close> is the same comparison.\<close>

definition matches_physical_fuzzy :: "keyed_dvbs_mux_t \<Rightarrow> keyed_dvbs_mux_t \<Rightarrow> bool \<Rightarrow> bool \<Rightarrow> bool" where
  "matches_physical_fuzzy a b check_sat_pos ignore_t2mi_pid =
     (if pol_code (dvbs_pol a) AND NOT 2 \<noteq> pol_code (dvbs_pol b) AND NOT 2 then False
      else if check_sat_pos \<and> \<bar>dvbs_sat_pos a - dvbs_sat_pos b\<bar> > sat_pos_tolerance then False
      else if dvbs_stream_id a \<noteq> dvbs_stream_id b \<or> (\<not> ignore_t2mi_pid \<and> dvbs_t2mi_pid a \<noteq> dvbs_t2mi_pid b) then False
      else 200000 * \<bar>sint (dvbs_frequency a) - sint (dvbs_frequency b)\<bar> \<le> 135 * sint (min (dvbs_symbol_rate a) (dvbs_symbol_rate b)))"

definition matches_physical_fuzzy_ct :: "mux_key_t \<Rightarrow> u32 \<Rightarrow> mux_key_t \<Rightarrow> u32 \<Rightarrow> bool" where
  "matches_physical_fuzzy_ct k f k' f' \<longleftrightarrow> mk_stream_id k = mk_stream_id k' \<and> \<bar>sint f - sint f'\<bar> \<le> 1000"

text \<open>The mux a subscription stands for, as far as it is known: the key, the frequency and the polarisation.\<close>

definition subscribed_mux :: "fe_subscription_t \<Rightarrow> mux_key_t \<Rightarrow> keyed_dvbs_mux_t" where
  "subscribed_mux sub k = dvbs_mux_t.extend (default_dvbs_mux\<lparr>dvbs_sat_pos := mk_sat_pos k, dvbs_stream_id := mk_stream_id k,
       dvbs_symbol_rate := 27500000, dvbs_frequency := word_of_int (sub_frequency sub), dvbs_pol := sub_pol sub\<rparr>)
     \<lparr>dvbs_t2mi_pid = mk_t2mi_pid k, dvbs_mux_id = mk_mux_id k\<rparr>"

definition frequency_matches :: "tuned_mux_t \<Rightarrow> fe_subscription_t \<Rightarrow> mux_key_t \<Rightarrow> bool" where
  "frequency_matches mux sub k = (case mux of
       Sat_Mux m \<Rightarrow> matches_physical_fuzzy m (subscribed_mux sub k) True True
     | Cable_Mux k' f \<Rightarrow> matches_physical_fuzzy_ct k' f k (word_of_int (sub_frequency sub))
     | Terrestrial_Mux k' f \<Rightarrow> matches_physical_fuzzy_ct k' f k (word_of_int (sub_frequency sub)))"

definition subscription_matches :: "tune_options_t \<Rightarrow> tuned_mux_t \<Rightarrow> db_service_t option \<Rightarrow> bool \<Rightarrow> fe_subscription_t \<Rightarrow> subscription_data_t \<Rightarrow> bool" where
  "subscription_matches opts mux service match_mux_only sub d =
     (let path_ok = (case mux of Sat_Mux _ \<Rightarrow> rf_path_is_allowed opts (sub_rf_path sub) | _ \<Rightarrow> True);
          sub_service = (case sd_v d of Service sv \<Rightarrow> Some sv | _ \<Rightarrow> None);
          mux_ok = (tuned_key mux = sub_mux_key sub \<or> (case sub_service of Some sv \<Rightarrow> sd_has_mux d \<and> tuned_key mux = sv_mux sv | None \<Rightarrow> False));
          service_ok = ((case service of Some sv \<Rightarrow> sd_has_service d \<and> sub_service = Some sv | None \<Rightarrow> \<not> sd_has_service d) \<or> match_mux_only);
          mux_ok = (case sub_service of
              Some sv \<Rightarrow> (if path_ok \<and> \<not> mux_ok \<and> (service = None \<or> match_mux_only) then frequency_matches mux sub (sv_mux sv) else mux_ok)
            | None \<Rightarrow> mux_ok)
      in path_ok \<and> mux_ok \<and> service_ok)"

fun find_index :: "('a \<Rightarrow> bool) \<Rightarrow> 'a list \<Rightarrow> nat option" where
  "find_index P [] = None"
| "find_index P (x # xs) = (if P x then Some 0 else map_option Suc (find_index P xs))"

fun matching_existing_subscription ::
    "os_t \<Rightarrow> tune_options_t \<Rightarrow> tuned_mux_t \<Rightarrow> db_service_t option \<Rightarrow> bool \<Rightarrow> fe_t list \<Rightarrow> (fe_t \<times> nat) option" where
  "matching_existing_subscription os opts mux service match_mux_only [] = None"
| "matching_existing_subscription os opts mux service match_mux_only (fe # fs) =
     (if sub_owner (fe_sub fe) \<noteq> proc_id os \<or> mk_mux_id (tuned_key mux) = 0 \<or> mk_mux_id (sub_mux_key (fe_sub fe)) = 0
        then matching_existing_subscription os opts mux service match_mux_only fs
      else case find_index (subscription_matches opts mux service match_mux_only (fe_sub fe)) (sub_subs (fe_sub fe)) of
          Some i \<Rightarrow> Some (fe, i)
        | None \<Rightarrow> matching_existing_subscription os opts mux service match_mux_only fs)"

definition is_same_stream :: "mux_key_t \<Rightarrow> mux_key_t \<Rightarrow> bool" where
  "is_same_stream a b =
     (let a = a\<lparr>mk_t2mi_pid := mk_t2mi_pid b\<rparr>;
          a = (if mk_mux_id a = 0 \<or> mk_mux_id b = 0 then a\<lparr>mk_mux_id := mk_mux_id b\<rparr> else a)
      in a = b)"

definition subscribe_fe_in_use ::
    "os_t \<Rightarrow> int \<Rightarrow> fe_t \<Rightarrow> tuned_mux_t \<Rightarrow> db_service_t option \<Rightarrow> devdb_t \<Rightarrow> (fe_t \<times> devdb_t) option" where
  "subscribe_fe_in_use os sid fe mux service db =
     (if sub_owner (fe_sub fe) \<noteq> proc_id os \<or> sub_config_id (fe_sub fe) < 0 \<or> \<not> is_same_stream (tuned_key mux) (sub_mux_key (fe_sub fe)) \<or> sid < 0
        then None
      else let fe = add_subscription (mux_subscription sid (tuned_key mux) service) fe in Some (fe, put_fe fe db))"

definition no_change :: "os_t \<Rightarrow> int \<Rightarrow> fe_t \<Rightarrow> devdb_t \<Rightarrow> (subscribe_ret_t \<times> devdb_t) option" where
  "no_change os sid fe db =
     (let (sret, db) = new_subscribe_ret sid db in
      if sub_owner (fe_sub fe) \<noteq> proc_id os \<or> sub_config_id (fe_sub fe) < 0 then None
      else Some (sret\<lparr>ret_sub_to_reuse := sid, ret_updated_old_dbfe := Some fe, ret_updated_new_dbfe := Some fe,
        ret_tune_pars := (ret_tune_pars sret)\<lparr>tp_owner := sub_owner (fe_sub fe), tp_config_id := sub_config_id (fe_sub fe)\<rparr>\<rparr>, db))"

text \<open>\<open>reuse_other_subscription\<close>, and \<open>new_service\<close>, which also sets \<open>change_service\<close>.\<close>

definition reuse_other_subscription ::
    "os_t \<Rightarrow> bool \<Rightarrow> int \<Rightarrow> int \<Rightarrow> fe_t \<Rightarrow> fe_t option \<Rightarrow> devdb_t \<Rightarrow> (subscribe_ret_t \<times> devdb_t) option" where
  "reuse_other_subscription os new_service sid other new_fe old_fe db =
     (let (sret, db) = new_subscribe_ret sid db in
      if sub_owner (fe_sub new_fe) \<noteq> proc_id os \<or> sub_config_id (fe_sub new_fe) = -1 then None
      else Some (sret\<lparr>ret_updated_old_dbfe := old_fe, ret_updated_new_dbfe := Some new_fe, ret_sub_to_reuse := other,
        ret_change_service := new_service,
        ret_tune_pars := (ret_tune_pars sret)\<lparr>tp_owner := sub_owner (fe_sub new_fe), tp_config_id := sub_config_id (fe_sub new_fe)\<rparr>\<rparr>, db))"

text \<open>The two ways in which \<open>subscribe_mux\<close> shares a front end. The subscription that was found is kept as a reference into the list of
  subscriptions, so after the own subscription has been removed from the same list it refers to the element at the old
  index.\<close>

definition share_fe ::
    "os_t \<Rightarrow> int \<Rightarrow> tune_options_t \<Rightarrow> tuned_mux_t \<Rightarrow> db_service_t option \<Rightarrow> bool \<Rightarrow> fe_t option \<Rightarrow> fe_t \<Rightarrow> nat \<Rightarrow> devdb_t
     \<Rightarrow> (subscribe_ret_t \<times> devdb_t) option" where
  "share_fe os sid opts mux service mux_only oldfe fe idx db = do {
     (old, db) \<leftarrow> unsubscribe_old os sid oldfe db;
     let same = (case old of Some o' \<Rightarrow> fe_k o' = fe_k fe | None \<Rightarrow> False);
     let fe = (if same then fe\<lparr>fe_sub := (fe_sub fe)\<lparr>sub_subs := sub_subs (fe_sub (the old))\<rparr>\<rparr> else fe);
     let old = (if same \<and> \<not> mux_only then None else old);
     let subs = sub_subs (fe_sub fe);
     let fixed = (length subs = 1 \<or> (\<not> opt_may_move_dish opts \<and> \<not> may_move_dish (fe_sub fe) \<and> \<not> may_change_lnb (fe_sub fe)));
     if (case mux of Sat_Mux _ \<Rightarrow> \<not> fixed | _ \<Rightarrow> False) then None
     else if idx \<ge> length subs then None
     else do {
       (sret, db) \<leftarrow> reuse_other_subscription os mux_only sid (sd_subscription_id (subs ! idx)) fe old db;
       (fe, db) \<leftarrow> subscribe_fe_in_use os (ret_subscription_id sret) fe mux service db;
       Some (sret, db)}}"

section \<open>Subscribing\<close>

text \<open>The front end, the path, the LNB, the counts and the old front end; nothing is released when the caller asked for that and there is no
  front end.\<close>

type_synonym reservation = "(fe_t \<times> rf_path_t \<times> lnb_t \<times> counts_t) option \<times> fe_t option"

definition subscribe_mux_helper ::
    "os_t \<Rightarrow> int \<Rightarrow> keyed_dvbs_mux_t \<Rightarrow> db_service_t option \<Rightarrow> tune_options_t \<Rightarrow> fe_t option \<Rightarrow> fe_key_t option \<Rightarrow> bool \<Rightarrow> devdb_t
     \<Rightarrow> (reservation \<times> devdb_t) option" where
  "subscribe_mux_helper os sid mux service opts oldfe release keep_on_failure db = do {
     best \<leftarrow> find_fe_and_lnb_for_tuning_to_mux os db mux opts release False;
     if keep_on_failure \<and> b_fe best = None then Some ((None, None), db)
     else do {
       (old, db) \<leftarrow> unsubscribe_old os sid oldfe db;
       case (b_fe best, b_rf_path best, b_lnb best) of
         (Some fe, Some p, Some l) \<Rightarrow> do {
           (fe, db) \<leftarrow> reserve_fe_lnb_for_mux os sid fe p l (b_use_counts best) (b_unicable_ch best) mux service db;
           Some ((Some (fe, p, l, b_use_counts best), old), db)}
       | _ \<Rightarrow> Some ((None, old), db)}}"

definition subscribe_sat_band_helper ::
    "os_t \<Rightarrow> int \<Rightarrow> int \<Rightarrow> band_scan_t \<Rightarrow> tune_options_t \<Rightarrow> fe_t option \<Rightarrow> fe_key_t option \<Rightarrow> bool \<Rightarrow> devdb_t
     \<Rightarrow> (reservation \<times> devdb_t) option" where
  "subscribe_sat_band_helper os sid pos bs opts oldfe release keep_on_failure db = do {
     best \<leftarrow> find_fe_and_lnb_for_tuning_to_band os db pos bs opts release False;
     if keep_on_failure \<and> b_fe best = None then Some ((None, None), db)
     else do {
       (old, db) \<leftarrow> unsubscribe_old os sid oldfe db;
       case (b_fe best, b_rf_path best, b_lnb best) of
         (Some fe, Some p, Some l) \<Rightarrow> do {
           (fe, db) \<leftarrow> reserve_fe_lnb_for_sat_band os sid opts fe (b_use_counts best) p l (Some (pos, bs)) db;
           Some ((Some (fe, p, l, b_use_counts best), old), db)}
       | _ \<Rightarrow> Some ((None, old), db)}}"

text \<open>The end of the reservation of an LNB: the commands to the LNB and the movement of the dish.\<close>

definition is_new_aa :: "subscribe_ret_t \<Rightarrow> bool" where
  "is_new_aa sret = (case (ret_updated_old_dbfe sret, ret_updated_new_dbfe sret) of (Some o', Some n) \<Rightarrow> fe_k o' \<noteq> fe_k n | _ \<Rightarrow> True)"

definition move_for_subscription ::
    "(int \<Rightarrow> int \<Rightarrow> int \<Rightarrow> int) \<Rightarrow> int \<Rightarrow> tune_options_t \<Rightarrow> int \<Rightarrow> lnb_t \<Rightarrow> subscribe_ret_t \<Rightarrow> devdb_t \<Rightarrow> (subscribe_ret_t \<times> devdb_t) option" where
  "move_for_subscription usals_par now opts pos l sret db =
     (if tp_send_lnb_commands (ret_tune_pars sret) then do {
        (move, dish, l, db) \<leftarrow> update_dish_helper usals_par now l (opt_usals_location opts) pos (opt_may_move_dish opts) db;
        case dish of
          None \<Rightarrow> Some (failed (ret_subscription_id sret) (ret_updated_old_dbfe sret) db)
        | Some d \<Rightarrow> Some (sret\<lparr>ret_lnb := Some l, ret_tune_pars := (ret_tune_pars sret)\<lparr>tp_move_dish := move, tp_dish := Some d\<rparr>\<rparr>, db)}
      else case get_dish (dish_id (lnb_k l)) db of (d, db) \<Rightarrow>
        Some (sret\<lparr>ret_tune_pars := (ret_tune_pars sret)\<lparr>tp_move_dish := False, tp_dish := Some d\<rparr>\<rparr>, db))"

definition finish_reservation ::
    "os_t \<Rightarrow> bool \<Rightarrow> (int \<Rightarrow> int \<Rightarrow> int \<Rightarrow> int) \<Rightarrow> int \<Rightarrow> tune_options_t \<Rightarrow> int \<Rightarrow> fe_t option \<Rightarrow> subscribe_ret_t
     \<Rightarrow> fe_t \<Rightarrow> rf_path_t \<Rightarrow> lnb_t \<Rightarrow> counts_t \<Rightarrow> fe_t option \<Rightarrow> devdb_t \<Rightarrow> (subscribe_ret_t \<times> devdb_t) option" where
  "finish_reservation os own_only usals_par now opts pos oldfe sret fe p l c old db =
     (let is_same_fe = (case oldfe of Some o' \<Rightarrow> fe_k fe = fe_k o' | None \<Rightarrow> False);
          sub = fe_sub fe;
          sret = sret\<lparr>ret_retune := is_same_fe, ret_change_service := True, ret_updated_old_dbfe := old, ret_updated_new_dbfe := Some fe,
            ret_rf_path := Some p, ret_lnb := Some l,
            ret_tune_pars := (ret_tune_pars sret)\<lparr>tp_owner := sub_owner sub, tp_config_id := sub_config_id sub,
              tp_unicable_ch := (if own_only then sub_unicable_ch sub else None), tp_send_lnb_commands := can_control_lnb c\<rparr>\<rparr>
      in if sub_owner sub = -1 \<or> sub_config_id sub < 0 \<or> (own_only \<and> sub_owner sub \<noteq> proc_id os) \<or> is_new_aa sret = is_same_fe then None
         else move_for_subscription usals_par now opts pos l sret db)"

definition subscribe_dvbs_mux ::
    "os_t \<Rightarrow> (int \<Rightarrow> int \<Rightarrow> int \<Rightarrow> int) \<Rightarrow> int \<Rightarrow> int \<Rightarrow> tune_options_t \<Rightarrow> keyed_dvbs_mux_t \<Rightarrow> db_service_t option \<Rightarrow> bool \<Rightarrow> devdb_t
     \<Rightarrow> (subscribe_ret_t \<times> devdb_t) option" where
  "subscribe_dvbs_mux os usals_par now sid opts mux service keep_on_failure db =
     (let r = fe_for_subscription os sid db;
          oldfe = fst r
      in case (case service of Some _ \<Rightarrow> matching_existing_subscription os opts (Sat_Mux mux) service False (fes db) | None \<Rightarrow> None) of
           Some (fe, i) \<Rightarrow>
             if sd_subscription_id (sub_subs (fe_sub fe) ! i) = sid then no_change os sid fe db
             else share_fe os sid opts (Sat_Mux mux) service False oldfe fe i db
         | None \<Rightarrow>
             case matching_existing_subscription os opts (Sat_Mux mux) service True (fes db) of
               Some (fe, i) \<Rightarrow> share_fe os sid opts (Sat_Mux mux) service True oldfe fe i db
             | None \<Rightarrow>
                 (case new_subscribe_ret sid db of (sret, db) \<Rightarrow> do {
                    ((res, old), db) \<leftarrow> subscribe_mux_helper os (ret_subscription_id sret) mux service opts oldfe (release_key r) keep_on_failure db;
                    case res of
                      None \<Rightarrow> Some (failed (ret_subscription_id sret) old db)
                    | Some (fe, p, l, c) \<Rightarrow> finish_reservation os True usals_par now opts (dvbs_sat_pos mux) oldfe sret fe p l c old db}))"

definition subscribe_sat_band ::
    "os_t \<Rightarrow> (int \<Rightarrow> int \<Rightarrow> int \<Rightarrow> int) \<Rightarrow> int \<Rightarrow> int \<Rightarrow> tune_options_t \<Rightarrow> int \<Rightarrow> band_scan_t \<Rightarrow> bool \<Rightarrow> devdb_t
     \<Rightarrow> (subscribe_ret_t \<times> devdb_t) option" where
  "subscribe_sat_band os usals_par now sid opts pos bs keep_on_failure db =
     (let r = fe_for_subscription os sid db;
          oldfe = fst r
      in case new_subscribe_ret sid db of (sret, db) \<Rightarrow> do {
           ((res, old), db) \<leftarrow> subscribe_sat_band_helper os (ret_subscription_id sret) pos bs opts oldfe (release_key r) keep_on_failure db;
           case res of
             None \<Rightarrow> Some (failed (ret_subscription_id sret) old db)
           | Some (fe, p, l, c) \<Rightarrow> finish_reservation os False usals_par now opts pos oldfe sret fe p l c old db})"

text \<open>A given path to an LNB, which may then be pointed anywhere.\<close>

definition subscribe_lnb ::
    "os_t \<Rightarrow> int \<Rightarrow> rf_path_t \<Rightarrow> lnb_t \<Rightarrow> tune_options_t \<Rightarrow> fe_t option \<Rightarrow> fe_key_t option \<Rightarrow> devdb_t
     \<Rightarrow> (fe_t option \<times> fe_t option \<times> bool \<times> devdb_t) option" where
  "subscribe_lnb os sid p l opts oldfe release db = do {
     r \<leftarrow> find_best_fe_for_lnb os db p l release (use_blind_tune opts) (opt_need_spectrum opts) False sat_pos_none POL_NONE SUB_NONE sat_pos_none False;
     (old, db) \<leftarrow> unsubscribe_old os sid oldfe db;
     case r of
       None \<Rightarrow> Some (None, old, False, db)
     | Some (fe, c, ch) \<Rightarrow>
         if \<not> opt_may_move_dish opts then None
         else do {
           (fe, db) \<leftarrow> reserve_fe_lnb_for_sat_band os sid opts fe c p l None db;
           Some (Some fe, old, can_control_lnb c, db)}}"

definition subscribe_rf_path_inner ::
    "os_t \<Rightarrow> (int \<Rightarrow> int \<Rightarrow> int \<Rightarrow> int) \<Rightarrow> int \<Rightarrow> int \<Rightarrow> tune_options_t \<Rightarrow> rf_path_t \<Rightarrow> int option \<Rightarrow> devdb_t
     \<Rightarrow> (subscribe_ret_t \<times> devdb_t) option" where
  "subscribe_rf_path_inner os usals_par now sid opts p sat_pos_to_move_to db =
     (let r = fe_for_subscription os sid db;
          oldfe = fst r
      in case new_subscribe_ret sid db of (sret, db) \<Rightarrow>
         if \<not> rf_path_is_allowed opts p then None
         else case find_lnb (rf_lnb p) db of
           None \<Rightarrow> do {
             (old, db) \<leftarrow> unsubscribe_old os sid oldfe db;
             Some (failed sid old db)}
         | Some l \<Rightarrow> do {
             (fe, old, send_lnb_commands, db) \<leftarrow> subscribe_lnb os (ret_subscription_id sret) p l opts oldfe (release_key r) db;
             case fe of
               None \<Rightarrow> do {
                 (old, db) \<leftarrow> unsubscribe_old os sid oldfe db;
                 Some (failed sid old db)}
             | Some fe \<Rightarrow>
                 let is_same_fe = (case oldfe of Some o' \<Rightarrow> fe_k fe = fe_k o' | None \<Rightarrow> False);
                     sret = sret\<lparr>ret_retune := is_same_fe, ret_updated_old_dbfe := old, ret_updated_new_dbfe := Some fe,
                       ret_rf_path := Some p, ret_lnb := Some l,
                       ret_tune_pars := (ret_tune_pars sret)\<lparr>tp_owner := sub_owner (fe_sub fe), tp_config_id := sub_config_id (fe_sub fe),
                         tp_send_lnb_commands := send_lnb_commands\<rparr>\<rparr>
                 in if sub_owner (fe_sub fe) \<noteq> proc_id os \<or> sub_config_id (fe_sub fe) < 0 \<or> is_new_aa sret = is_same_fe then None
                    else case sat_pos_to_move_to of
                        Some pos \<Rightarrow> move_for_subscription usals_par now opts pos l sret db
                      | None \<Rightarrow> Some (sret, db)})"

definition subscribe_rf_path ::
    "os_t \<Rightarrow> (int \<Rightarrow> int \<Rightarrow> int \<Rightarrow> int) \<Rightarrow> int \<Rightarrow> int \<Rightarrow> tune_options_t \<Rightarrow> rf_path_t \<Rightarrow> int option \<Rightarrow> devdb_t
     \<Rightarrow> (subscribe_ret_t \<times> devdb_t) option" where
  "subscribe_rf_path os usals_par now sid opts p sat_pos_to_move_to db = do {
     (sret, db) \<leftarrow> subscribe_rf_path_inner os usals_par now sid opts p sat_pos_to_move_to db;
     Some (if \<not> ret_failed sret then
       (case ret_lnb sret of
          Some l \<Rightarrow> (case get_dish (dish_id (lnb_k l)) db of (d, db) \<Rightarrow>
            (sret\<lparr>ret_tune_pars := (ret_tune_pars sret)\<lparr>tp_send_lnb_commands := True, tp_move_dish := True, tp_dish := Some d\<rparr>\<rparr>, db))
        | None \<Rightarrow> (sret, db))
       else (sret, db))}"

section \<open>Cable and terrestrial muxes\<close>

text \<open>The assertion on the configuration is an assignment, which succeeds.\<close>

definition reserve_fe_for_dvbc_or_dvbt_mux ::
    "os_t \<Rightarrow> int \<Rightarrow> fe_t \<Rightarrow> mux_key_t \<Rightarrow> u32 \<Rightarrow> db_service_t option \<Rightarrow> devdb_t \<Rightarrow> (fe_t \<times> devdb_t) option" where
  "reserve_fe_for_dvbc_or_dvbt_mux os sid fe k frequency service db = do {
     fe \<leftarrow> find_fe (fe_k fe) db;
     if sub_owner (fe_sub fe) \<noteq> -1 then None
     else
       let sub = (fe_sub fe)\<lparr>sub_owner := proc_id os, sub_config_id := next_config_id db,
             sub_rf_path := default_rf_path\<lparr>rf_card_mac_address := fe_card_mac_address fe, rf_input := 0\<rparr>,
             sub_pol := POL_NONE, sub_sat_pos := mk_sat_pos k, sub_band := SUB_NONE, sub_usals_pos := mk_sat_pos k,
             sub_frequency := sint frequency, sub_rf_coupler_id := -1, sub_mux_key := k\<lparr>mk_t2mi_pid := -1\<rparr>\<rparr>;
           fe = add_subscription (mux_subscription sid k service) (fe\<lparr>fe_sub := sub\<rparr>)
       in Some (fe, put_fe fe (db\<lparr>next_config_id := next_config_id db + 1\<rparr>))}"

definition subscribe_dvbc_or_dvbt_mux ::
    "os_t \<Rightarrow> int \<Rightarrow> delsys_type_t \<Rightarrow> mux_key_t \<Rightarrow> u32 \<Rightarrow> db_service_t option \<Rightarrow> fe_t option \<Rightarrow> fe_key_t option \<Rightarrow> tune_options_t \<Rightarrow> bool \<Rightarrow> devdb_t
     \<Rightarrow> (fe_t option \<times> fe_t option \<times> devdb_t) option" where
  "subscribe_dvbc_or_dvbt_mux os sid t k frequency service oldfe release opts keep_on_failure db =
     (if opt_need_spectrum opts then None
      else do {
        best \<leftarrow> find_best_fe_for_dvtdbc os db release (use_blind_tune opts) (opt_need_spectrum opts) (mk_stream_id k \<ge> 0) t False;
        if keep_on_failure \<and> best = None then Some (None, None, db)
        else do {
          (old, db) \<leftarrow> unsubscribe_old os sid oldfe db;
          case best of
            None \<Rightarrow> Some (None, old, db)
          | Some fe \<Rightarrow> do {
              (fe, db) \<leftarrow> reserve_fe_for_dvbc_or_dvbt_mux os sid fe k frequency service db;
              Some (Some fe, old, db)}}})"

text \<open>The instances of \<open>subscribe_mux\<close> for cable and terrestrial muxes.\<close>

definition subscribe_ct_mux ::
    "os_t \<Rightarrow> int \<Rightarrow> tune_options_t \<Rightarrow> delsys_type_t \<Rightarrow> mux_key_t \<Rightarrow> u32 \<Rightarrow> db_service_t option \<Rightarrow> bool \<Rightarrow> devdb_t
     \<Rightarrow> (subscribe_ret_t \<times> devdb_t) option" where
  "subscribe_ct_mux os sid opts t k frequency service keep_on_failure db =
     (let r = fe_for_subscription os sid db;
          oldfe = fst r;
          mux = (if t = DVB_C then Cable_Mux k frequency else Terrestrial_Mux k frequency)
      in case (case service of Some _ \<Rightarrow> matching_existing_subscription os opts mux service False (fes db) | None \<Rightarrow> None) of
           Some (fe, i) \<Rightarrow>
             if sd_subscription_id (sub_subs (fe_sub fe) ! i) = sid then no_change os sid fe db
             else share_fe os sid opts mux service False oldfe fe i db
         | None \<Rightarrow>
             case matching_existing_subscription os opts mux service True (fes db) of
               Some (fe, i) \<Rightarrow> share_fe os sid opts mux service True oldfe fe i db
             | None \<Rightarrow>
                 (case new_subscribe_ret sid db of (sret, db) \<Rightarrow> do {
                    (res, old, db) \<leftarrow> subscribe_dvbc_or_dvbt_mux os (ret_subscription_id sret) t k frequency service oldfe (release_key r) opts keep_on_failure db;
                    case res of
                      None \<Rightarrow> Some (failed (ret_subscription_id sret) old db)
                    | Some fe \<Rightarrow>
                        let is_same_fe = (case oldfe of Some o' \<Rightarrow> fe_k fe = fe_k o' | None \<Rightarrow> False);
                            sret = sret\<lparr>ret_retune := is_same_fe, ret_change_service := True, ret_updated_old_dbfe := old,
                              ret_updated_new_dbfe := Some fe,
                              ret_tune_pars := (ret_tune_pars sret)\<lparr>tp_owner := sub_owner (fe_sub fe), tp_config_id := sub_config_id (fe_sub fe),
                                tp_unicable_ch := sub_unicable_ch (fe_sub fe)\<rparr>\<rparr>
                        in if sub_owner (fe_sub fe) = -1 \<or> sub_config_id (fe_sub fe) < 0 \<or> is_new_aa sret = is_same_fe then None
                           else Some (sret, db)}))"

end
