(* ===== verification/Fe_Invariant.thy ===== *)
theory Fe_Invariant
  imports Fe_Subscribe
begin

text \<open>
  What the reservations of front ends guarantee: whatever sequence of subscriptions and releases the processes that share the device
  database make, no two subscriptions that are in use at the same time conflict.
\<close>

section \<open>Conflicts between subscriptions\<close>

text \<open>What a conflict depends on.\<close>

definition resources :: "fe_subscription_t \<Rightarrow> rf_path_t \<times> bool \<times> fe_polarisation_t \<times> sat_sub_band_t \<times> int \<times> int \<times> int \<times> int" where
  "resources s = (sub_rf_path s, sub_sat_pos s = sat_pos_none, sub_pol s, sub_band s, sub_usals_pos s, sub_dish_usals_pos s, sub_dish_id s,
     sub_rf_coupler_id s)"

lemmas conflict_defs = resource_conflict_def is_exclusive_def may_change_lnb_def may_move_dish_def same_rf_path_def same_dish_def
  same_tuner_def same_rf_coupler_def same_sat_band_pol_def

lemma resource_conflict_cong:
  assumes "resources a = resources a'" "resources b = resources b'"
  shows "resource_conflict u a b = resource_conflict u a' b'"
proof -
  have "is_exclusive a = is_exclusive a'" "may_move_dish a = may_move_dish a'" "is_exclusive b = is_exclusive b'" "may_move_dish b = may_move_dish b'"
    using assms by (auto simp: resources_def is_exclusive_def may_change_lnb_def may_move_dish_def)
  moreover have "same_rf_path a b = same_rf_path a' b'" "same_dish a b = same_dish a' b'" "same_tuner a b = same_tuner a' b'"
    "same_rf_coupler a b = same_rf_coupler a' b'" "same_sat_band_pol a b = same_sat_band_pol a' b'"
    using assms by (simp_all add: resources_def same_rf_path_def same_dish_def same_tuner_def same_rf_coupler_def same_sat_band_pol_def)
  ultimately show ?thesis unfolding resource_conflict_def by simp
qed

lemma resource_conflict_sym: "resource_conflict u a b = resource_conflict u b a"
proof -
  have "same_rf_path a b = same_rf_path b a" "same_dish a b = same_dish b a" "same_tuner a b = same_tuner b a"
    "same_rf_coupler a b = same_rf_coupler b a" "same_sat_band_pol a b = same_sat_band_pol b a"
    by (auto simp: same_rf_path_def same_dish_def same_tuner_def same_rf_coupler_def same_sat_band_pol_def)
  then show ?thesis unfolding resource_conflict_def by blast
qed

lemma resource_conflict_unicable: "\<not> same_rf_path a b \<Longrightarrow> resource_conflict u a b = resource_conflict v a b"
  by (simp add: resource_conflict_def)

text \<open>A path through a unicable LNB carries several bands at a time.\<close>

definition unicable_path :: "devdb_t \<Rightarrow> rf_path_t \<Rightarrow> bool" where
  "unicable_path db p = (case find_lnb (rf_lnb p) db of
       Some l \<Rightarrow> (case connection_for_rf_path l p of Some conn \<Rightarrow> unicable_connection l conn | None \<Rightarrow> False)
     | None \<Rightarrow> False)"

definition conflict :: "devdb_t \<Rightarrow> fe_subscription_t \<Rightarrow> fe_subscription_t \<Rightarrow> bool" where
  "conflict db a b \<longleftrightarrow> resource_conflict (unicable_path db (sub_rf_path b)) a b"

lemma conflict_sym: "conflict db a b = conflict db b a"
proof (cases "same_rf_path a b")
  case True
  then show ?thesis unfolding conflict_def by (simp add: same_rf_path_def resource_conflict_sym [of _ a b])
next
  case False
  then show ?thesis unfolding conflict_def
    by (metis resource_conflict_sym resource_conflict_unicable)
qed

lemma conflict_cong: "resources a = resources a' \<Longrightarrow> resources b = resources b' \<Longrightarrow> conflict db a b = conflict db a' b'"
proof -
  assume *: "resources a = resources a'" "resources b = resources b'"
  then have "sub_rf_path b = sub_rf_path b'" by (simp add: resources_def)
  then show ?thesis unfolding conflict_def using resource_conflict_cong [OF *] by simp
qed

definition no_conflicts :: "os_t \<Rightarrow> devdb_t \<Rightarrow> bool" where
  "no_conflicts os db \<longleftrightarrow> (\<forall>f \<in> set (fes db). \<forall>g \<in> set (fes db). fe_k f \<noteq> fe_k g \<longrightarrow> is_subscribed os f \<longrightarrow> is_subscribed os g \<longrightarrow>
     \<not> conflict db (fe_sub f) (fe_sub g))"

text \<open>Every LNB has a rotor position, as it gets with its first network.\<close>

definition positions_known :: "devdb_t \<Rightarrow> bool" where
  "positions_known db \<longleftrightarrow> (\<forall>l \<in> set (lnbs db). lnb_cur_usals_pos l \<noteq> sat_pos_none)"

definition devdb_inv :: "os_t \<Rightarrow> devdb_t \<Rightarrow> bool" where
  "devdb_inv os db \<longleftrightarrow> devdb_ok db \<and> positions_known db \<and> no_conflicts os db"

section \<open>Changes that cannot cause a conflict\<close>

text \<open>Every front end uses at most what it used before.\<close>

definition weaker :: "os_t \<Rightarrow> devdb_t \<Rightarrow> devdb_t \<Rightarrow> bool" where
  "weaker os db db' \<longleftrightarrow> (\<forall>g' \<in> set (fes db'). \<exists>g \<in> set (fes db). fe_k g = fe_k g' \<and>
     (is_subscribed os g' \<longrightarrow> is_subscribed os g \<and> resources (fe_sub g') = resources (fe_sub g)))"

lemma weaker_refl: "fes db' = fes db \<Longrightarrow> weaker os db db'"
  by (auto simp: weaker_def)

lemma weaker_no_conflicts:
  assumes "weaker os db db'" "no_conflicts os db" "unicable_path db' = unicable_path db"
  shows "no_conflicts os db'"
  unfolding no_conflicts_def
proof (intro ballI impI)
  fix f' g'
  assume *: "f' \<in> set (fes db')" "g' \<in> set (fes db')" "fe_k f' \<noteq> fe_k g'" "is_subscribed os f'" "is_subscribed os g'"
  obtain f where f: "f \<in> set (fes db)" "fe_k f = fe_k f'" "is_subscribed os f" "resources (fe_sub f') = resources (fe_sub f)"
    using assms(1) * by (auto simp: weaker_def)
  obtain g where g: "g \<in> set (fes db)" "fe_k g = fe_k g'" "is_subscribed os g" "resources (fe_sub g') = resources (fe_sub g)"
    using assms(1) * by (auto simp: weaker_def)
  have "\<not> conflict db (fe_sub f) (fe_sub g)" using assms(2) f g *(3) by (simp add: no_conflicts_def)
  then show "\<not> conflict db' (fe_sub f') (fe_sub g')"
    using conflict_cong [OF f(4) g(4)] assms(3) by (simp add: conflict_def)
qed

lemma unicable_path_lnbs: "lnbs db' = lnbs db \<Longrightarrow> unicable_path db' = unicable_path db"
  by (simp add: unicable_path_def find_lnb_def fun_eq_iff)

lemma unicable_path_moved:
  assumes "devdb_ok db" "schedule_move usals_par now l t s loc finished db = Some (dish, l', db')"
  shows "unicable_path db' = unicable_path db"
  unfolding unicable_path_def schedule_move_find [OF assms] connection_for_rf_path_def unicable_connection_def
  by (auto simp: fun_eq_iff split: option.splits)

text \<open>A release.\<close>

lemma unsubscribe_helper_weaker:
  assumes "unsubscribe_helper os fe sid = Some (fe', erased)"
  shows "fe_k fe' = fe_k fe" "is_subscribed os fe' \<Longrightarrow> is_subscribed os fe \<and> resources (fe_sub fe') = resources (fe_sub fe)"
  using assms by (auto simp: unsubscribe_helper_def Let_def default_subscription_def is_subscribed_def resources_def split: if_splits)

lemma put_weaker:
  assumes "devdb_ok db" "f \<in> set (fes db)" "fe_k f' = fe_k f"
    and "is_subscribed os f' \<Longrightarrow> is_subscribed os f \<and> resources (fe_sub f') = resources (fe_sub f)"
  shows "weaker os db (put_fe f' db)"
  using assms fe_table.records_put [OF assms(1)] by (auto simp: weaker_def)

lemma unsubscribe_fe_weaker:
  assumes "devdb_ok db" "unsubscribe_fe os sid k db = Some (old, db')"
  shows "weaker os db db' \<and> devdb_ok db' \<and> lnbs db' = lnbs db \<and> dishes db' = dishes db \<and> next_config_id db' = next_config_id db"
proof (cases "find_fe k db")
  case None
  then show ?thesis using assms(2) by (simp add: unsubscribe_fe_def default_fe_def default_subscription_def)
next
  case (Some f)
  then obtain f' erased where u: "unsubscribe_helper os f sid = Some (f', erased)" "db' = (if erased then put_fe f' db else db)"
    using assms(2) by (auto simp: unsubscribe_fe_def Let_def split: if_splits bind_splits)
  have "f \<in> set (fes db)" using Some fe_table.find_iff [OF assms(1)] by simp
  then have "weaker os db (put_fe f' db)" using put_weaker [OF assms(1)] unsubscribe_helper_weaker [OF u(1)] by blast
  then show ?thesis using u(2) assms(1) fe_table.ok_put weaker_refl [of db' db] by (auto simp: put_fe_def)
qed

lemma unsubscribe_old_weaker:
  assumes "devdb_ok db" "unsubscribe_old os sid oldfe db = Some (old, db')"
  shows "weaker os db db' \<and> devdb_ok db' \<and> lnbs db' = lnbs db \<and> dishes db' = dishes db \<and> next_config_id db' = next_config_id db"
  using assms unsubscribe_fe_weaker [OF assms(1)] by (auto simp: unsubscribe_old_def weaker_refl split: option.splits)

section \<open>A new reservation\<close>

lemma fe_for_subscription_Some:
  assumes "fe_for_subscription os sid db = (Some f, sole)"
  shows "f \<in> set (fes db)" "sub_owner (fe_sub f) = proc_id os" "sole = list_all (\<lambda>d. sd_subscription_id d = sid) (sub_subs (fe_sub f))"
    "list_ex (\<lambda>d. sd_subscription_id d = sid) (sub_subs (fe_sub f))"
proof -
  have f: "find (\<lambda>fe. sub_owner (fe_sub fe) = proc_id os \<and> list_ex (\<lambda>d. sd_subscription_id d = sid) (sub_subs (fe_sub fe))) (fes db) = Some f"
    and sole: "sole = list_all (\<lambda>d. sd_subscription_id d = sid) (sub_subs (fe_sub f))"
    using assms by (auto simp: fe_for_subscription_def split: if_splits option.splits)
  then show "f \<in> set (fes db)" "sub_owner (fe_sub f) = proc_id os" "list_ex (\<lambda>d. sd_subscription_id d = sid) (sub_subs (fe_sub f))"
    "sole = list_all (\<lambda>d. sd_subscription_id d = sid) (sub_subs (fe_sub f))"
    by (auto simp: find_Some_iff)
qed

text \<open>The front end that only this subscription used is free after the release.\<close>

lemma released_is_free:
  assumes ok: "devdb_ok db" and r: "fe_for_subscription os sid db = r" "release_key r = Some k"
    and u: "unsubscribe_old os sid (fst r) db = Some (old, db')"
    and one: "\<And>f. f \<in> set (fes db) \<Longrightarrow> is_subscribed os f \<Longrightarrow> fe_k f = k \<Longrightarrow> length (sub_subs (fe_sub f)) = 1"
    and pid: "proc_id os \<ge> 0" "alive os (proc_id os)"
    and g: "g \<in> set (fes db')" "fe_k g = k"
  shows "\<not> is_subscribed os g"
proof -
  obtain f where f: "r = (Some f, True)" "fe_k f = k" using r(2) by (auto simp: release_key_def split: prod.splits option.splits bool.splits)
  note s = fe_for_subscription_Some [OF r(1) [unfolded f(1)]]
  have "is_subscribed os f" using s(2) pid by (simp add: is_subscribed_def)
  then have "length (sub_subs (fe_sub f)) = 1" using one s(1) f(2) by blast
  then obtain d where d: "sub_subs (fe_sub f) = [d]" by (cases "sub_subs (fe_sub f)") auto
  have sid: "sd_subscription_id d = sid" using s(4) d by simp
  have find: "find_fe (fe_k f) db = Some f" using s(1) fe_table.find_iff [OF ok] by simp
  have "unsubscribe_fe os sid (fe_k f) db = Some (Some (f\<lparr>fe_sub := default_subscription\<rparr>), put_fe (f\<lparr>fe_sub := default_subscription\<rparr>) db)"
    using find d sid s(2) by (simp add: unsubscribe_fe_def unsubscribe_helper_def)
  then have "db' = put_fe (f\<lparr>fe_sub := default_subscription\<rparr>) db" using u f(1) by (simp add: unsubscribe_old_def)
  then have "g = f\<lparr>fe_sub := default_subscription\<rparr>" using g f(2) fe_table.records_put [OF ok] by auto
  then show ?thesis by (simp add: is_subscribed_def default_subscription_def)
qed

lemma reserve_safe:
  assumes ok: "devdb_ok db" and nc: "no_conflicts os db"
    and w: "weaker os db db1" "devdb_ok db1" "lnbs db1 = lnbs db"
    and check: "check_for_resource_conflicts os db s release on_pos (unicable_path db (sub_rf_path s)) = Some (Some c)"
    and free: "\<And>g. g \<in> set (fes db1) \<Longrightarrow> release = Some (fe_k g) \<Longrightarrow> \<not> is_subscribed os g"
    and path: "sub_rf_path (fe_sub f) = sub_rf_path s"
    and rel: "\<And>a u. \<not> resource_conflict u a s \<Longrightarrow> \<not> resource_conflict u a (fe_sub f)"
  shows "no_conflicts os (put_fe f db1)"
proof -
  have u1: "unicable_path (put_fe f db1) = unicable_path db1" "unicable_path db1 = unicable_path db"
    using w(3) by (auto intro: unicable_path_lnbs)
  have "no_conflicts os db1" using weaker_no_conflicts [OF w(1) nc u1(2)] .
  then have old: "\<not> conflict (put_fe f db1) (fe_sub g) (fe_sub h)"
    if "g \<in> set (fes db1)" "h \<in> set (fes db1)" "fe_k g \<noteq> fe_k h" "is_subscribed os g" "is_subscribed os h" for g h
    using that u1(1) by (simp add: no_conflicts_def conflict_def)
  have new: "\<not> conflict (put_fe f db1) (fe_sub g1) (fe_sub f)" if g1: "g1 \<in> set (fes db1)" "is_subscribed os g1" for g1
  proof -
    obtain g where g: "g \<in> set (fes db)" "fe_k g = fe_k g1" "is_subscribed os g" "resources (fe_sub g1) = resources (fe_sub g)"
      using w(1) g1 by (auto simp: weaker_def)
    have "live_other os release g" using free [OF g1(1)] g1(2) g(2,3) by (auto simp: live_other_def)
    then have "\<not> resource_conflict (unicable_path db (sub_rf_path s)) (fe_sub g) s"
      using check_for_resource_conflicts_sound(1) [OF check g(1)] by blast
    then have "\<not> resource_conflict (unicable_path db (sub_rf_path s)) (fe_sub g) (fe_sub f)" by (rule rel)
    then show ?thesis using resource_conflict_cong [OF g(4) refl] u1 path by (simp add: conflict_def)
  qed
  show ?thesis
    unfolding no_conflicts_def fe_table.ball_put [OF w(2)]
  proof (intro conjI ballI impI)
    fix g assume "g \<in> set (fes db1)" "fe_k g \<noteq> fe_k f" "is_subscribed os f" "is_subscribed os g"
    then show "\<not> conflict (put_fe f db1) (fe_sub f) (fe_sub g)" using new conflict_sym by blast
  next
    fix g assume "g \<in> set (fes db1)" "is_subscribed os g"
    then show "\<not> conflict (put_fe f db1) (fe_sub g) (fe_sub f)" by (rule new)
  qed (use old in blast)+
qed

text \<open>How the subscription that was checked relates to the one that is stored.\<close>

lemma stored_exclusive:
  assumes "is_exclusive s" "sub_rf_path f = sub_rf_path s" "sub_dish_id f = sub_dish_id s" "sub_rf_coupler_id f = sub_rf_coupler_id s"
    and "\<not> resource_conflict u a s"
  shows "\<not> resource_conflict u a f"
proof -
  have "\<not> same_rf_path a s \<and> \<not> same_dish a s \<and> \<not> same_tuner a s \<and> \<not> same_rf_coupler a s"
    using assms(1,5) by (auto simp: resource_conflict_def)
  then have "\<not> same_rf_path a f \<and> \<not> same_dish a f \<and> \<not> same_tuner a f \<and> \<not> same_rf_coupler a f"
    using assms(2-4) by (simp add: same_rf_path_def same_dish_def same_tuner_def same_rf_coupler_def)
  then show ?thesis by (simp add: resource_conflict_def)
qed

lemma reserve_config_resources:
  assumes "reserve_config os strict c sub db = Some (sub', db')"
  shows "fes db' = fes db" "lnbs db' = lnbs db" "dishes db' = dishes db"
  using assms by (auto simp: reserve_config_def split: if_splits)

lemma has_network_known:
  assumes "fst (has_network l pos)" "lnb_cur_usals_pos l \<noteq> sat_pos_none"
  shows "snd (snd (snd (has_network l pos))) = lnb_cur_usals_pos l"
  using assms by (auto simp: has_network_def Let_def split: option.splits)

lemma with_counts_k [simp]: "fe_k (with_counts fe c) = fe_k fe"
  by (simp add: with_counts_def)

lemma reservation_inv:
  assumes inv: "devdb_inv os db" and pid: "proc_id os \<ge> 0" "alive os (proc_id os)"
    and l: "l \<in> set (lnbs db)" "rf_lnb p = lnb_k l"
    and found: "find_best_fe_for_lnb os db p l (release_key r) nb ns nm sp pol band usals ign = Some (Some (fe, c, ch))"
    and r: "r = fe_for_subscription os sid db \<or> r = (None, False)"
    and u: "unsubscribe_old os sid (fst r) db = Some (old, db1)"
    and db2: "fes db2 = fes db1" "lnbs db2 = lnbs db1" "dishes db2 = dishes db1"
    and path: "sub_rf_path (fe_sub f) = p"
    and rel: "\<And>conn a u. connection_for_rf_path l p = Some conn \<Longrightarrow>
      \<not> resource_conflict u a (candidate_subscription os l conn p sp pol band usals) \<Longrightarrow> \<not> resource_conflict u a (fe_sub f)"
  shows "devdb_inv os (put_fe f db2)" "lnbs (put_fe f db2) = lnbs db"
proof -
  have ok: "devdb_ok db" and nc: "no_conflicts os db" and pk: "positions_known db" using inv by (auto simp: devdb_inv_def)
  obtain fe0 conn where conn: "connection_for_rf_path l p = Some conn"
    and check: "check_for_resource_conflicts os db (candidate_subscription os l conn p sp pol band usals) (release_key r) (lnb_on_positioner l)
       (unicable_connection l conn) = Some (Some c)"
    using find_best_fe_for_lnb_sound [OF found] by metis
  define s where "s = candidate_subscription os l conn p sp pol band usals"
  have p: "sub_rf_path s = p" by (simp add: s_def candidate_subscription_def)
  have "find_lnb (lnb_k l) db = Some l" using l(1) lnb_table.find_iff [OF ok] by simp
  then have uni: "unicable_path db (sub_rf_path s) = unicable_connection l conn"
    using conn l(2) p by (simp add: unicable_path_def)
  have w1: "weaker os db db1 \<and> devdb_ok db1 \<and> lnbs db1 = lnbs db \<and> dishes db1 = dishes db \<and> next_config_id db1 = next_config_id db"
    using unsubscribe_old_weaker [OF ok u] .
  then have w: "weaker os db db2" "devdb_ok db2" "lnbs db2 = lnbs db" using db2 by (auto simp: weaker_def devdb_ok_def)
  have free: "\<not> is_subscribed os g" if g: "g \<in> set (fes db2)" "release_key r = Some (fe_k g)" for g
  proof -
    have rf: "fe_for_subscription os sid db = r" using r g(2) by (auto simp: release_key_def)
    have one: "length (sub_subs (fe_sub h)) = 1" if "h \<in> set (fes db)" "is_subscribed os h" "fe_k h = fe_k g" for h
      using check_for_resource_conflicts_sound(2) [OF check that(1,2)] that(3) g(2) by simp
    show ?thesis
    proof (rule released_is_free [OF ok rf g(2) u _ pid _ refl])
      show "g \<in> set (fes db1)" using g(1) db2(1) by simp
    qed (rule one)
  qed
  have "no_conflicts os (put_fe f db2)"
  proof (rule reserve_safe [OF ok nc w _ free])
    show "check_for_resource_conflicts os db s (release_key r) (lnb_on_positioner l) (unicable_path db (sub_rf_path s)) = Some (Some c)"
      using check uni by (simp add: s_def)
  qed (use path p rel [OF conn] in \<open>auto simp: s_def\<close>)
  then show "devdb_inv os (put_fe f db2)" "lnbs (put_fe f db2) = lnbs db"
    using w pk fe_table.ok_put [OF w(2)] by (auto simp: devdb_inv_def positions_known_def)
qed

lemma release_inv:
  assumes "devdb_inv os db" "unsubscribe_old os sid oldfe db = Some (old, db')"
  shows "devdb_inv os db'" "lnbs db' = lnbs db"
proof -
  have "weaker os db db' \<and> devdb_ok db' \<and> lnbs db' = lnbs db \<and> dishes db' = dishes db \<and> next_config_id db' = next_config_id db"
    using unsubscribe_old_weaker assms by (auto simp: devdb_inv_def)
  then have w: "weaker os db db'" "devdb_ok db'" "lnbs db' = lnbs db" by simp_all
  have "no_conflicts os db'"
    using weaker_no_conflicts [OF w(1) _ unicable_path_lnbs [OF w(3)]] assms(1) by (simp add: devdb_inv_def)
  then show "devdb_inv os db'" "lnbs db' = lnbs db" using w assms(1) by (simp_all add: devdb_inv_def positions_known_def)
qed

lemma devdb_inv_counters:
  "fes db' = fes db \<Longrightarrow> lnbs db' = lnbs db \<Longrightarrow> dishes db' = dishes db \<Longrightarrow> devdb_inv os db' = devdb_inv os db"
  by (simp add: devdb_inv_def devdb_ok_def positions_known_def no_conflicts_def conflict_def unicable_path_def find_lnb_def)

lemma subscribe_mux_helper_inv:
  assumes inv: "devdb_inv os db" and pid: "proc_id os \<ge> 0" "alive os (proc_id os)" and pos: "dvbs_sat_pos mux \<noteq> sat_pos_none"
    and r: "r = fe_for_subscription os sid db \<or> r = (None, False)"
    and h: "subscribe_mux_helper os sid mux service opts (fst r) (release_key r) keep db = Some ((res, old), db')"
  shows "devdb_inv os db'" "lnbs db' = lnbs db"
proof -
  obtain best where best: "find_fe_and_lnb_for_tuning_to_mux os db mux opts (release_key r) False = Some best"
    using h by (auto simp: subscribe_mux_helper_def split: bind_splits)
  consider (none) "db' = db" | (freed) old1 where "unsubscribe_old os sid (fst r) db = Some (old1, db')"
    | (reserved) old1 db1 fe p l f where "unsubscribe_old os sid (fst r) db = Some (old1, db1)"
        "b_fe best = Some fe" "b_rf_path best = Some p" "b_lnb best = Some l"
        "reserve_fe_lnb_for_mux os sid fe p l (b_use_counts best) (b_unicable_ch best) mux service db1 = Some (f, db')"
    using h best by (auto simp: subscribe_mux_helper_def split: if_splits bind_splits option.splits prod.splits)
  then have "devdb_inv os db' \<and> lnbs db' = lnbs db"
  proof cases
    case none
    then show ?thesis using inv by simp
  next
    case freed
    then show ?thesis using release_inv [OF inv] by blast
  next
    case reserved
    obtain conn where l: "l \<in> set (lnbs db)" and ch: "chosen_from opts (search_for_mux os db mux opts (release_key r) False)
        (has_network l (dvbs_sat_pos mux)) l conn best"
      using find_mux_sound [OF best] reserved(2,4) by (auto simp: chosen_from_def)
    have known: "lnb_cur_usals_pos l \<noteq> sat_pos_none" using inv l by (auto simp: devdb_inv_def positions_known_def)
    have p: "rf_lnb p = lnb_k l" using ch reserved(3) by (auto simp: chosen_from_def rf_path_for_connection_def)
    obtain fe1 band where band: "band_for_mux l mux = Some band"
      and fb: "find_best_fe_for_lnb os db p l (release_key r) (use_blind_tune opts) (opt_need_spectrum opts) (dvbs_sat_pos mux \<noteq> 0)
        (if dvbs_stream_id mux \<ge> 0 then 1 else 0) (dvbs_pol mux) band (lnb_cur_usals_pos l) False = Some (Some (fe1, b_use_counts best, b_unicable_ch best))"
      using ch reserved(3) has_network_known [OF _ known, of "dvbs_sat_pos mux"]
      by (auto simp: chosen_from_def search_for_mux_def split: if_splits bind_splits)
    obtain f0 sub db2 where f0: "find_fe (fe_k fe) db1 = Some f0" and cfg: "reserve_config os False (b_use_counts best) (fe_sub f0) db1 = Some (sub, db2)"
      and db': "db' = put_fe f db2"
      using reserved(5) by (auto simp: reserve_fe_lnb_for_mux_def Let_def split: bind_splits)
    have res: "sub_rf_path (fe_sub f) = p" "sub_sat_pos (fe_sub f) = dvbs_sat_pos mux" "sub_pol (fe_sub f) = dvbs_pol mux" "sub_band (fe_sub f) = band"
      "sub_usals_pos (fe_sub f) = lnb_cur_usals_pos l" "sub_dish_usals_pos (fe_sub f) = lnb_cur_usals_pos l" "sub_dish_id (fe_sub f) = dish_id (lnb_k l)"
      "sub_rf_coupler_id (fe_sub f) = coupler_of l p"
      using reserved(5) f0 cfg band by (auto simp: reserve_fe_lnb_for_mux_def add_subscription_def Let_def)
    have "\<not> resource_conflict u a (fe_sub f)" if "connection_for_rf_path l p = Some conn'"
      "\<not> resource_conflict u a (candidate_subscription os l conn' p (if dvbs_stream_id mux \<ge> 0 then 1 else 0) (dvbs_pol mux) band (lnb_cur_usals_pos l))"
      for conn' a u
    proof -
      have "resources (fe_sub f) = resources (candidate_subscription os l conn' p (if dvbs_stream_id mux \<ge> 0 then 1 else 0) (dvbs_pol mux) band (lnb_cur_usals_pos l))"
        using that(1) pos by (simp add: resources_def res candidate_subscription_def coupler_of_def)
      from resource_conflict_cong [OF refl this] that(2) show ?thesis by blast
    qed
    from reservation_inv [OF inv pid l p fb r reserved(1) reserve_config_resources [OF cfg] res(1) this] show ?thesis using db' by simp
  qed
  then show "devdb_inv os db'" "lnbs db' = lnbs db" by simp_all
qed

text \<open>A reservation of a band or of a path was checked as an exclusive one.\<close>

lemma reserve_sat_band_stored:
  assumes "reserve_fe_lnb_for_sat_band os sid opts fe c p l sb db1 = Some (f, db')"
  obtains db2 where "db' = put_fe f db2" "fes db2 = fes db1" "lnbs db2 = lnbs db1" "dishes db2 = dishes db1"
    "sub_rf_path (fe_sub f) = p" "sub_dish_id (fe_sub f) = dish_id (lnb_k l)" "sub_rf_coupler_id (fe_sub f) = coupler_of l p"
proof -
  obtain f0 sub db2 where "find_fe (fe_k fe) db1 = Some f0" "reserve_config os True c (fe_sub f0) db1 = Some (sub, db2)" "db' = put_fe f db2"
    using assms by (auto simp: reserve_fe_lnb_for_sat_band_def Let_def split: bind_splits)
  moreover have "sub_rf_path (fe_sub f) = p \<and> sub_dish_id (fe_sub f) = dish_id (lnb_k l) \<and> sub_rf_coupler_id (fe_sub f) = coupler_of l p"
    using assms by (auto simp: reserve_fe_lnb_for_sat_band_def add_subscription_def Let_def split: bind_splits)
  ultimately show ?thesis using that reserve_config_resources by metis
qed

lemma exclusive_reservation_inv:
  assumes "devdb_inv os db" "proc_id os \<ge> 0" "alive os (proc_id os)" "l \<in> set (lnbs db)" "rf_lnb p = lnb_k l"
    and "find_best_fe_for_lnb os db p l (release_key r) nb ns nm sp pol SUB_NONE usals ign = Some (Some (fe, c, ch))"
    and "r = fe_for_subscription os sid db \<or> r = (None, False)"
    and "unsubscribe_old os sid (fst r) db = Some (old, db1)"
    and "reserve_fe_lnb_for_sat_band os sid opts fe' c' p l sb db1 = Some (f, db')"
  shows "devdb_inv os db'" "lnbs db' = lnbs db"
proof -
  obtain db2 where db2: "db' = put_fe f db2" "fes db2 = fes db1" "lnbs db2 = lnbs db1" "dishes db2 = dishes db1"
    and f: "sub_rf_path (fe_sub f) = p" "sub_dish_id (fe_sub f) = dish_id (lnb_k l)" "sub_rf_coupler_id (fe_sub f) = coupler_of l p"
    using reserve_sat_band_stored [OF assms(9)] .
  have "\<not> resource_conflict u a (fe_sub f)"
    if "connection_for_rf_path l p = Some conn" "\<not> resource_conflict u a (candidate_subscription os l conn p sp pol SUB_NONE usals)" for conn a u
  proof (rule stored_exclusive [OF _ _ _ _ that(2)])
    show "is_exclusive (candidate_subscription os l conn p sp pol SUB_NONE usals)"
      by (simp add: candidate_subscription_def is_exclusive_def may_change_lnb_def)
  qed (use f that(1) in \<open>simp_all add: candidate_subscription_def coupler_of_def\<close>)
  note * = reservation_inv [OF assms(1-8) db2(2-4) f(1) this]
  show "devdb_inv os db'" "lnbs db' = lnbs db" unfolding db2(1) by (rule *; assumption)+
qed

lemma subscribe_sat_band_helper_inv:
  assumes inv: "devdb_inv os db" and pid: "proc_id os \<ge> 0" "alive os (proc_id os)"
    and r: "r = fe_for_subscription os sid db \<or> r = (None, False)"
    and h: "subscribe_sat_band_helper os sid pos bs opts (fst r) (release_key r) keep db = Some ((res, old), db')"
  shows "devdb_inv os db'" "lnbs db' = lnbs db"
proof -
  obtain best where best: "find_fe_and_lnb_for_tuning_to_band os db pos bs opts (release_key r) False = Some best"
    using h by (auto simp: subscribe_sat_band_helper_def split: bind_splits)
  consider (none) "db' = db" | (freed) old1 where "unsubscribe_old os sid (fst r) db = Some (old1, db')"
    | (reserved) old1 db1 fe p l f where "unsubscribe_old os sid (fst r) db = Some (old1, db1)"
        "b_fe best = Some fe" "b_rf_path best = Some p" "b_lnb best = Some l"
        "reserve_fe_lnb_for_sat_band os sid opts fe (b_use_counts best) p l (Some (pos, bs)) db1 = Some (f, db')"
    using h best by (auto simp: subscribe_sat_band_helper_def split: if_splits bind_splits option.splits prod.splits)
  then have "devdb_inv os db' \<and> lnbs db' = lnbs db"
  proof cases
    case none
    then show ?thesis using inv by simp
  next
    case freed
    then show ?thesis using release_inv [OF inv] by blast
  next
    case reserved
    obtain conn where l: "l \<in> set (lnbs db)" and ch: "chosen_from opts (search_for_band os db pos bs opts (release_key r) False) (has_network l pos) l conn best"
      using find_band_sound [OF best] reserved(2,4) by (auto simp: chosen_from_def)
    have p: "rf_lnb p = lnb_k l" using ch reserved(3) by (auto simp: chosen_from_def rf_path_for_connection_def)
    obtain fe1 usals where fb: "find_best_fe_for_lnb os db p l (release_key r) (use_blind_tune opts) (opt_need_spectrum opts) False
        pos (bs_pol bs) SUB_NONE usals False = Some (Some (fe1, b_use_counts best, b_unicable_ch best))"
      using ch reserved(3) by (auto simp: chosen_from_def search_for_band_def)
    show ?thesis using exclusive_reservation_inv [OF inv pid l p fb r reserved(1) reserved(5)] by simp
  qed
  then show "devdb_inv os db'" "lnbs db' = lnbs db" by simp_all
qed

lemma subscribe_lnb_inv:
  assumes inv: "devdb_inv os db" and pid: "proc_id os \<ge> 0" "alive os (proc_id os)" and l: "l \<in> set (lnbs db)" "rf_lnb p = lnb_k l"
    and r: "r = fe_for_subscription os sid db \<or> r = (None, False)"
    and h: "subscribe_lnb os sid p l opts (fst r) (release_key r) db = Some (fe, old, send, db')"
  shows "devdb_inv os db'" "lnbs db' = lnbs db"
proof -
  obtain b where b: "find_best_fe_for_lnb os db p l (release_key r) (use_blind_tune opts) (opt_need_spectrum opts) False sat_pos_none POL_NONE SUB_NONE
      sat_pos_none False = Some b"
    using h by (auto simp: subscribe_lnb_def split: bind_splits)
  consider (freed) old1 where "unsubscribe_old os sid (fst r) db = Some (old1, db')"
    | (reserved) old1 db1 fe1 c ch f where "unsubscribe_old os sid (fst r) db = Some (old1, db1)" "b = Some (fe1, c, ch)"
        "reserve_fe_lnb_for_sat_band os sid opts fe1 c p l None db1 = Some (f, db')"
    using h b by (auto simp: subscribe_lnb_def split: if_splits bind_splits option.splits prod.splits)
  then have "devdb_inv os db' \<and> lnbs db' = lnbs db"
  proof cases
    case freed
    then show ?thesis using release_inv [OF inv] by blast
  next
    case reserved
    show ?thesis using exclusive_reservation_inv [OF inv pid l b [unfolded reserved(2)] r reserved(1) reserved(3)] by simp
  qed
  then show "devdb_inv os db'" "lnbs db' = lnbs db" by simp_all
qed

section \<open>Moving the dish and sharing a front end\<close>

lemma new_subscribe_ret_db:
  assumes "new_subscribe_ret sid db = (sret, db')"
  shows "fes db' = fes db" "lnbs db' = lnbs db" "dishes db' = dishes db" "sid \<noteq> -1 \<Longrightarrow> ret_subscription_id sret = sid"
  using assms by (auto simp: new_subscribe_ret_def Let_def split: if_splits)

lemma new_subscribe_ret_inv: "devdb_inv os (snd (new_subscribe_ret sid db)) = devdb_inv os db"
  by (rule devdb_inv_counters) (simp_all add: new_subscribe_ret_def Let_def)

lemma failed_inv: "failed sid old db = (sret, db') \<Longrightarrow> devdb_inv os db \<Longrightarrow> devdb_inv os db'"
proof -
  assume "failed sid old db = (sret, db')" "devdb_inv os db"
  moreover from this(1) have "db' = snd (new_subscribe_ret sid db)" by (auto simp: failed_def split: prod.splits)
  ultimately show ?thesis by (simp add: new_subscribe_ret_inv)
qed

lemma get_dish_inv: "devdb_inv os db \<Longrightarrow> get_dish d db = (r, db') \<Longrightarrow> devdb_inv os db'"
  using get_dish_ok [of db d r db']
  by (simp add: devdb_inv_def positions_known_def no_conflicts_def conflict_def unicable_path_def find_lnb_def)

lemma schedule_move_inv:
  assumes inv: "devdb_inv os db" and m: "schedule_move usals_par now l t s loc finished db = Some (dish, l', db')"
  shows "devdb_inv os db'"
proof -
  have ok: "devdb_ok db" and pk: "positions_known db" and nc: "no_conflicts os db" using inv by (auto simp: devdb_inv_def)
  note ms = schedule_move_lnbs [OF ok m]
  have "positions_known db'" using pk ms by (auto simp: positions_known_def split: if_splits)
  moreover have "no_conflicts os db'"
    using weaker_no_conflicts [OF weaker_refl nc unicable_path_moved [OF ok m]] ms by simp
  ultimately show ?thesis using ms by (simp add: devdb_inv_def)
qed

lemma update_dish_helper_inv:
  assumes "devdb_inv os db" "update_dish_helper usals_par now l loc pos may_move db = Some (move, dish, l', db')"
  shows "devdb_inv os db'"
  using assms schedule_move_inv [OF assms(1)] get_dish_inv [OF assms(1)]
  by (auto simp: update_dish_helper_def Let_def split: if_splits option.splits prod.splits)

lemma move_for_subscription_inv:
  assumes "devdb_inv os db" "move_for_subscription usals_par now opts pos l sret db = Some (sret', db')"
  shows "devdb_inv os db'"
proof (cases "tp_send_lnb_commands (ret_tune_pars sret)")
  case True
  obtain move dish l' db1 where u: "update_dish_helper usals_par now l (opt_usals_location opts) pos (opt_may_move_dish opts) db = Some (move, dish, l', db1)"
    using assms(2) True by (auto simp: move_for_subscription_def split: bind_splits)
  have "devdb_inv os db1" using update_dish_helper_inv [OF assms(1) u] .
  moreover have "db' = db1 \<or> failed (ret_subscription_id sret) (ret_updated_old_dbfe sret) db1 = (sret', db')"
    using assms(2) True u by (auto simp: move_for_subscription_def split: option.splits)
  ultimately show ?thesis using failed_inv by blast
next
  case False
  then show ?thesis using assms(2) get_dish_inv [OF assms(1)] by (auto simp: move_for_subscription_def split: prod.splits)
qed

lemma finish_reservation_inv:
  assumes "devdb_inv os db" "finish_reservation os own usals_par now opts pos oldfe sret fe p l c old db = Some (sret', db')"
  shows "devdb_inv os db'"
  using assms move_for_subscription_inv [OF assms(1)] by (auto simp: finish_reservation_def Let_def split: if_splits)

lemma matching_existing_in_table:
  assumes "matching_existing_subscription os opts mux service only fs = Some (fe, i)"
  shows "fe \<in> set fs" "sub_owner (fe_sub fe) = proc_id os"
  using assms by (induction fs) (auto split: if_splits option.splits)

lemma share_fe_stored:
  assumes h: "share_fe os sid opts mux service only oldfe fe i db = Some (sret, db')"
  obtains old db1 db2 f where "unsubscribe_old os sid oldfe db = Some (old, db1)" "fes db2 = fes db1" "lnbs db2 = lnbs db1" "dishes db2 = dishes db1"
    "fe_k f = fe_k fe" "resources (fe_sub f) = resources (fe_sub fe)" "sub_owner (fe_sub f) = sub_owner (fe_sub fe)" "db' = put_fe f db2"
proof -
  obtain old db1 where u: "unsubscribe_old os sid oldfe db = Some (old, db1)" using h by (auto simp: share_fe_def split: bind_splits)
  define fe1 where "fe1 = (if (case old of Some o' \<Rightarrow> fe_k o' = fe_k fe | None \<Rightarrow> False)
    then fe\<lparr>fe_sub := (fe_sub fe)\<lparr>sub_subs := sub_subs (fe_sub (the old))\<rparr>\<rparr> else fe)"
  have fe1: "fe_k fe1 = fe_k fe" "resources (fe_sub fe1) = resources (fe_sub fe)" "sub_owner (fe_sub fe1) = sub_owner (fe_sub fe)"
    by (simp_all add: fe1_def resources_def)
  have "\<exists>other old' sret1 db2 f. reuse_other_subscription os only sid other fe1 old' db1 = Some (sret1, db2) \<and>
      subscribe_fe_in_use os (ret_subscription_id sret1) fe1 mux service db2 = Some (f, db')"
    using h u by (cases "case old of Some o' \<Rightarrow> fe_k o' = fe_k fe | None \<Rightarrow> False")
      (fastforce simp: share_fe_def fe1_def Let_def split: if_splits bind_splits)+
  then obtain other old' sret1 db2 f where ru: "reuse_other_subscription os only sid other fe1 old' db1 = Some (sret1, db2)"
    and f: "subscribe_fe_in_use os (ret_subscription_id sret1) fe1 mux service db2 = Some (f, db')"
    by blast
  have "db2 = snd (new_subscribe_ret sid db1)" using ru by (auto simp: reuse_other_subscription_def Let_def split: if_splits prod.splits)
  then have "fes db2 = fes db1" "lnbs db2 = lnbs db1" "dishes db2 = dishes db1" by (simp_all add: new_subscribe_ret_def Let_def)
  moreover have "fe_k f = fe_k fe1" "resources (fe_sub f) = resources (fe_sub fe1)" "sub_owner (fe_sub f) = sub_owner (fe_sub fe1)" "db' = put_fe f db2"
    using f by (auto simp: subscribe_fe_in_use_def add_subscription_def resources_def Let_def split: if_splits)
  ultimately show ?thesis using that u fe1 by simp
qed

lemma share_fe_inv:
  assumes inv: "devdb_inv os db" and pid: "proc_id os \<ge> 0" "alive os (proc_id os)"
    and fe: "fe \<in> set (fes db)" "sub_owner (fe_sub fe) = proc_id os"
    and h: "share_fe os sid opts mux service only oldfe fe i db = Some (sret, db')"
  shows "devdb_inv os db'"
proof -
  have ok: "devdb_ok db" using inv by (simp add: devdb_inv_def)
  obtain old db1 db2 f where u: "unsubscribe_old os sid oldfe db = Some (old, db1)"
    and n: "fes db2 = fes db1" "lnbs db2 = lnbs db1" "dishes db2 = dishes db1"
    and f: "fe_k f = fe_k fe" "resources (fe_sub f) = resources (fe_sub fe)" "sub_owner (fe_sub f) = sub_owner (fe_sub fe)" "db' = put_fe f db2"
    using share_fe_stored [OF h] .
  have w1: "weaker os db db1 \<and> devdb_ok db1 \<and> lnbs db1 = lnbs db \<and> dishes db1 = dishes db \<and> next_config_id db1 = next_config_id db"
    using unsubscribe_old_weaker [OF ok u] .
  then have w: "weaker os db db2" "devdb_ok db2" "lnbs db2 = lnbs db" using n by (auto simp: weaker_def devdb_ok_def)
  have live: "is_subscribed os fe" using fe(2) pid by (simp add: is_subscribed_def)
  have "weaker os db (put_fe f db2)"
    unfolding weaker_def fe_table.ball_put [OF w(2)] using w(1) fe(1) f live by (auto simp: weaker_def)
  then have "no_conflicts os (put_fe f db2)"
    using weaker_no_conflicts [OF _ _ unicable_path_lnbs, of os db "put_fe f db2"] inv w(3) by (simp add: devdb_inv_def)
  then show ?thesis using inv w fe_table.ok_put [OF w(2)] f(4) by (auto simp: devdb_inv_def positions_known_def)
qed

section \<open>Every operation keeps the invariant\<close>

lemma no_change_inv: "no_change os sid fe db = Some (sret, db') \<Longrightarrow> devdb_inv os db \<Longrightarrow> devdb_inv os db'"
proof -
  assume "no_change os sid fe db = Some (sret, db')" "devdb_inv os db"
  moreover from this(1) have "db' = snd (new_subscribe_ret sid db)" by (auto simp: no_change_def Let_def split: if_splits prod.splits)
  ultimately show ?thesis by (simp add: new_subscribe_ret_inv)
qed

text \<open>The front end of a subscription is the same after the number of a new one has been taken.\<close>

lemma old_fe_after_ret:
  assumes "new_subscribe_ret sid db = (sret, db')"
  shows "fe_for_subscription os sid db = fe_for_subscription os (ret_subscription_id sret) db' \<or> fe_for_subscription os sid db = (None, False)"
  using new_subscribe_ret_db [OF assms] by (cases "sid = -1") (simp_all add: fe_for_subscription_def)

lemma subscribe_dvbs_mux_inv:
  assumes inv: "devdb_inv os db" and pid: "proc_id os \<ge> 0" "alive os (proc_id os)" and pos: "dvbs_sat_pos mux \<noteq> sat_pos_none"
    and h: "subscribe_dvbs_mux os usals_par now sid opts mux service keep db = Some (sret, db')"
  shows "devdb_inv os db'"
proof -
  define r where "r = fe_for_subscription os sid db"
  obtain s0 db0 where s0: "new_subscribe_ret sid db = (s0, db0)" by fastforce
  have inv0: "devdb_inv os db0" using inv devdb_inv_counters new_subscribe_ret_db [OF s0] by blast
  have r0: "r = fe_for_subscription os (ret_subscription_id s0) db0 \<or> r = (None, False)" unfolding r_def by (rule old_fe_after_ret [OF s0])
  consider (shared) service' only fe i where "matching_existing_subscription os opts (Sat_Mux mux) service' only (fes db) = Some (fe, i)"
        "no_change os sid fe db = Some (sret, db') \<or> share_fe os sid opts (Sat_Mux mux) service only (fst r) fe i db = Some (sret, db')"
    | (refused) old db1 where "subscribe_mux_helper os (ret_subscription_id s0) mux service opts (fst r) (release_key r) keep db0 = Some ((None, old), db1)"
        "failed (ret_subscription_id s0) old db1 = (sret, db')"
    | (reserved) fe p l c old db1 where "subscribe_mux_helper os (ret_subscription_id s0) mux service opts (fst r) (release_key r) keep db0 = Some ((Some (fe, p, l, c), old), db1)"
        "finish_reservation os True usals_par now opts (dvbs_sat_pos mux) (fst r) s0 fe p l c old db1 = Some (sret, db')"
    using h s0 by (auto simp: subscribe_dvbs_mux_def r_def Let_def split: option.splits prod.splits if_splits bind_splits)
  then show ?thesis
  proof cases
    case shared
    then show ?thesis
      using no_change_inv inv share_fe_inv [OF inv pid matching_existing_in_table [OF shared(1)]] by blast
  next
    case refused
    show ?thesis using failed_inv [OF refused(2)] subscribe_mux_helper_inv [OF inv0 pid pos r0 refused(1)] by blast
  next
    case reserved
    show ?thesis using finish_reservation_inv [OF _ reserved(2)] subscribe_mux_helper_inv [OF inv0 pid pos r0 reserved(1)] by blast
  qed
qed

lemma subscribe_sat_band_inv:
  assumes inv: "devdb_inv os db" and pid: "proc_id os \<ge> 0" "alive os (proc_id os)"
    and h: "subscribe_sat_band os usals_par now sid opts pos bs keep db = Some (sret, db')"
  shows "devdb_inv os db'"
proof -
  define r where "r = fe_for_subscription os sid db"
  obtain s0 db0 where s0: "new_subscribe_ret sid db = (s0, db0)" by fastforce
  have inv0: "devdb_inv os db0" using inv new_subscribe_ret_inv [of os sid db] s0 by simp
  have r0: "r = fe_for_subscription os (ret_subscription_id s0) db0 \<or> r = (None, False)" unfolding r_def by (rule old_fe_after_ret [OF s0])
  obtain res old db1 where b: "subscribe_sat_band_helper os (ret_subscription_id s0) pos bs opts (fst r) (release_key r) keep db0 = Some ((res, old), db1)"
    using h s0 by (auto simp: subscribe_sat_band_def r_def Let_def split: bind_splits)
  have inv1: "devdb_inv os db1" using subscribe_sat_band_helper_inv [OF inv0 pid r0 b] by simp
  have "(\<exists>fe p l c. finish_reservation os False usals_par now opts pos (fst r) s0 fe p l c old db1 = Some (sret, db')) \<or>
      failed (ret_subscription_id s0) old db1 = (sret, db')"
    using h s0 b by (auto simp: subscribe_sat_band_def r_def Let_def split: option.splits)
  then show ?thesis using finish_reservation_inv [OF inv1] failed_inv inv1 by blast
qed

lemma subscribe_rf_path_inv:
  assumes inv: "devdb_inv os db" and pid: "proc_id os \<ge> 0" "alive os (proc_id os)"
    and h: "subscribe_rf_path os usals_par now sid opts p move_to db = Some (sret, db')"
  shows "devdb_inv os db'"
proof -
  define r where "r = fe_for_subscription os sid db"
  obtain s0 db0 where s0: "new_subscribe_ret sid db = (s0, db0)" by fastforce
  have inv0: "devdb_inv os db0" using inv new_subscribe_ret_inv [of os sid db] s0 by simp
  have r0: "r = fe_for_subscription os (ret_subscription_id s0) db0 \<or> r = (None, False)" unfolding r_def by (rule old_fe_after_ret [OF s0])
  obtain s2 db2 where i: "subscribe_rf_path_inner os usals_par now sid opts p move_to db = Some (s2, db2)"
    using h by (auto simp: subscribe_rf_path_def split: bind_splits)
  have inv2: "devdb_inv os db2"
  proof (cases "find_lnb (rf_lnb p) db0")
    case None
    then obtain old db1 where "unsubscribe_old os sid (fst r) db0 = Some (old, db1)" "failed sid old db1 = (s2, db2)"
      using i s0 by (auto simp: subscribe_rf_path_inner_def r_def Let_def split: bind_splits if_splits)
    then show ?thesis using failed_inv release_inv [OF inv0] by blast
  next
    case (Some l)
    have l: "l \<in> set (lnbs db0)" "rf_lnb p = lnb_k l"
      using Some lnb_table.find_iff [of db0 "rf_lnb p" l] inv0 by (auto simp: devdb_inv_def)
    obtain fe old send db1 where sl: "subscribe_lnb os (ret_subscription_id s0) p l opts (fst r) (release_key r) db0 = Some (fe, old, send, db1)"
      using i s0 Some by (auto simp: subscribe_rf_path_inner_def r_def Let_def split: bind_splits if_splits)
    have inv1: "devdb_inv os db1" using subscribe_lnb_inv [OF inv0 pid l r0 sl] by simp
    have "db2 = db1 \<or> (\<exists>pos sret. move_for_subscription usals_par now opts pos l sret db1 = Some (s2, db2)) \<or>
        (\<exists>old db3. unsubscribe_old os sid (fst r) db1 = Some (old, db3) \<and> failed sid old db3 = (s2, db2))"
      using i s0 Some sl by (auto simp: subscribe_rf_path_inner_def r_def Let_def split: bind_splits if_splits option.splits)
    then show ?thesis using inv1 move_for_subscription_inv [OF inv1] release_inv(1) [OF inv1] failed_inv by blast
  qed
  have "db' = db2 \<or> (\<exists>d r. get_dish d db2 = (r, db'))"
    using h i by (auto simp: subscribe_rf_path_def split: option.splits if_splits prod.splits)
  then show ?thesis using inv2 get_dish_inv [OF inv2] by blast
qed

lemma unsubscribe_inv:
  assumes inv: "devdb_inv os db" and h: "unsubscribe os sid db = Some (fe, db')"
  shows "devdb_inv os db'"
proof -
  have ok: "devdb_ok db" using inv by (simp add: devdb_inv_def)
  have first: "\<exists>f \<in> set fs. unsubscribe_helper os f sid = Some (f', True)" if "unsubscribe_first os sid fs = Some (Some f')" for fs f'
    using that by (induction fs) (auto split: bind_splits if_splits)
  have "weaker os db db' \<and> devdb_ok db' \<and> lnbs db' = lnbs db"
  proof (cases fe)
    case None
    then show ?thesis using h ok by (auto simp: unsubscribe_def weaker_refl split: bind_splits)
  next
    case (Some f')
    then have u: "unsubscribe_first os sid (fes db) = Some (Some f')" "db' = put_fe f' db"
      using h by (auto simp: unsubscribe_def split: bind_splits)
    obtain f where f: "f \<in> set (fes db)" "unsubscribe_helper os f sid = Some (f', True)" using first [OF u(1)] by blast
    show ?thesis using put_weaker [OF ok f(1)] unsubscribe_helper_weaker [OF f(2)] fe_table.ok_put [OF ok] u(2) by auto
  qed
  then show ?thesis
    using inv weaker_no_conflicts [OF _ _ unicable_path_lnbs, of os db db'] by (auto simp: devdb_inv_def positions_known_def)
qed

section \<open>Sequences of reservations\<close>

text \<open>The processes that run, and the database they share. A process subscribes to a satellite mux, to a band or to a path, releases a
  subscription, ends, or starts; the counters of a process are its own, so they may have any value when it takes its turn. A new process does
  not have the number of an owner that is recorded in the database.\<close>

inductive reservation_step :: "(int \<Rightarrow> bool) \<times> devdb_t \<Rightarrow> (int \<Rightarrow> bool) \<times> devdb_t \<Rightarrow> bool" where
  mux: "up pid \<Longrightarrow> pid \<ge> 0 \<Longrightarrow> dvbs_sat_pos m \<noteq> sat_pos_none \<Longrightarrow>
    subscribe_dvbs_mux \<lparr>proc_id = pid, alive = up\<rparr> usals_par now sid opts m service keep
      (db\<lparr>next_config_id := n, next_subscription_id := i\<rparr>) = Some (sret, db') \<Longrightarrow> reservation_step (up, db) (up, db')"
| band: "up pid \<Longrightarrow> pid \<ge> 0 \<Longrightarrow>
    subscribe_sat_band \<lparr>proc_id = pid, alive = up\<rparr> usals_par now sid opts pos bs keep
      (db\<lparr>next_config_id := n, next_subscription_id := i\<rparr>) = Some (sret, db') \<Longrightarrow> reservation_step (up, db) (up, db')"
| path: "up pid \<Longrightarrow> pid \<ge> 0 \<Longrightarrow>
    subscribe_rf_path \<lparr>proc_id = pid, alive = up\<rparr> usals_par now sid opts p move_to
      (db\<lparr>next_config_id := n, next_subscription_id := i\<rparr>) = Some (sret, db') \<Longrightarrow> reservation_step (up, db) (up, db')"
| release: "unsubscribe \<lparr>proc_id = pid, alive = up\<rparr> sid db = Some (fe, db') \<Longrightarrow> reservation_step (up, db) (up, db')"
| exit: "(\<And>p. up' p \<Longrightarrow> up p) \<Longrightarrow> reservation_step (up, db) (up', db)"
| start: "pid \<notin> sub_owner ` fe_sub ` set (fes db) \<Longrightarrow> reservation_step (up, db) (up(pid := True), db)"

definition reservations_ok :: "(int \<Rightarrow> bool) \<times> devdb_t \<Rightarrow> bool" where
  "reservations_ok st = devdb_inv \<lparr>proc_id = -1, alive = fst st\<rparr> (snd st)"

lemma devdb_inv_pid: "devdb_inv \<lparr>proc_id = a, alive = up\<rparr> db = devdb_inv \<lparr>proc_id = b, alive = up\<rparr> db"
  by (simp add: devdb_inv_def no_conflicts_def is_subscribed_def)

lemma devdb_inv_alive:
  assumes "devdb_inv \<lparr>proc_id = a, alive = up\<rparr> db" "\<And>f. f \<in> set (fes db) \<Longrightarrow> up' (sub_owner (fe_sub f)) \<Longrightarrow> up (sub_owner (fe_sub f))"
  shows "devdb_inv \<lparr>proc_id = a, alive = up'\<rparr> db"
  using assms by (auto simp: devdb_inv_def no_conflicts_def is_subscribed_def)

lemma reservations_ok_turn:
  "reservations_ok (up, db) \<Longrightarrow> devdb_inv \<lparr>proc_id = pid, alive = up\<rparr> (db\<lparr>next_config_id := n, next_subscription_id := i\<rparr>)"
  using devdb_inv_counters [of "db\<lparr>next_config_id := n, next_subscription_id := i\<rparr>" db] devdb_inv_pid [of "-1" up db pid]
  by (simp add: reservations_ok_def)

lemma reservations_ok_after: "devdb_inv \<lparr>proc_id = pid, alive = up\<rparr> db \<Longrightarrow> reservations_ok (up, db)"
  using devdb_inv_pid [of "-1" up db pid] by (simp add: reservations_ok_def)

lemma reservation_step_ok: "reservation_step st st' \<Longrightarrow> reservations_ok st \<Longrightarrow> reservations_ok st'"
proof (induction rule: reservation_step.induct)
  case (mux up pid m usals_par now sid opts service keep db n i sret db')
  show ?case by (rule reservations_ok_after [OF subscribe_dvbs_mux_inv [OF reservations_ok_turn [OF mux.prems] _ _ mux.hyps(3,4)]]) (simp_all add: mux.hyps(1,2))
next
  case (band up pid usals_par now sid opts pos bs keep db n i sret db')
  show ?case by (rule reservations_ok_after [OF subscribe_sat_band_inv [OF reservations_ok_turn [OF band.prems] _ _ band.hyps(3)]]) (simp_all add: band.hyps(1,2))
next
  case (path up pid usals_par now sid opts p move_to db n i sret db')
  show ?case by (rule reservations_ok_after [OF subscribe_rf_path_inv [OF reservations_ok_turn [OF path.prems] _ _ path.hyps(3)]]) (simp_all add: path.hyps(1,2))
next
  case (release pid up sid db fe db')
  have "devdb_inv \<lparr>proc_id = pid, alive = up\<rparr> db"
    using release.prems devdb_inv_pid [of "-1" up db pid] by (simp add: reservations_ok_def)
  from reservations_ok_after [OF unsubscribe_inv [OF this release.hyps]] show ?case .
next
  case (exit up' up db)
  then show ?case using devdb_inv_alive [of "-1" up db up'] by (simp add: reservations_ok_def)
next
  case (start pid db up)
  have "devdb_inv \<lparr>proc_id = -1, alive = up(pid := True)\<rparr> db"
  proof (rule devdb_inv_alive)
    show "devdb_inv \<lparr>proc_id = -1, alive = up\<rparr> db" using start.prems by (simp add: reservations_ok_def)
    show "up (sub_owner (fe_sub f))" if "f \<in> set (fes db)" "(up(pid := True)) (sub_owner (fe_sub f))" for f
      using that start.hyps by (auto split: if_splits)
  qed
  then show ?case by (simp add: reservations_ok_def)
qed

end
