(* ===== verification/Fe_Checks.thy ===== *)
theory Fe_Checks
  imports Fe_Invariant
begin

text \<open>
  The properties of the choice and the reservation of front ends, and examples: two LNBs on the rotor of one dish, each with a connection to a
  card of its own, and two processes. The examples also show where a reservation does not do what it is meant to.
\<close>

section \<open>An example\<close>

definition example_connection :: "int \<Rightarrow> lnb_connection_t" where
  "example_connection mac = default_connection\<lparr>conn_card_mac_address := mac, conn_rf_input := 0, conn_rotor_control := ROTOR_MASTER_USALS\<rparr>"

definition example_network :: "int \<Rightarrow> lnb_network_t" where
  "example_network pos = default_network\<lparr>nw_sat_pos := pos, nw_usals_pos := pos\<rparr>"

definition example_lnb :: "int \<Rightarrow> lnb_t" where
  "example_lnb i = (example_rotor i)\<lparr>lnb_networks := [example_network 1300, example_network 1920], lnb_connections := [example_connection i]\<rparr>"

definition example_fe :: "int \<Rightarrow> int \<Rightarrow> bool \<Rightarrow> fe_t" where
  "example_fe i mac multi = default_fe\<lparr>fe_card_no := mac, fe_k := \<lparr>adapter_mac_address = i, frontend_no = 0\<rparr>, fe_adapter_no := i, fe_present := True,
     fe_card_mac_address := mac, fe_supports := \<lparr>multistream = multi, blindscan = True, spectrum_sweep = False, spectrum_fft = False, iq = False\<rparr>,
     fe_delsys := [DELSYS_DVBS, DELSYS_DVBS2], fe_rf_inputs := [0]\<rparr>"

definition example_sat_mux :: "int \<Rightarrow> u32 \<Rightarrow> u16 \<Rightarrow> keyed_dvbs_mux_t" where
  "example_sat_mux pos f i = dvbs_mux_t.extend (example_mux\<lparr>dvbs_sat_pos := pos, dvbs_stream_id := -1, dvbs_frequency := f\<rparr>)
     \<lparr>dvbs_t2mi_pid = -1, dvbs_mux_id = i\<rparr>"

definition example_options :: tune_options_t where
  "example_options = \<lparr>allowed_dish_ids = None, allowed_card_mac_addresses = None, allowed_rf_paths = None, use_blind_tune = False,
     opt_may_move_dish = True, opt_need_spectrum = False, resource_reuse_bonus = 0, dish_move_penalty = 0, opt_usals_location = example_location\<rparr>"

definition example_db :: "fe_t list \<Rightarrow> devdb_t" where
  "example_db fs = \<lparr>lnbs = [example_lnb 1, example_lnb 2], fes = fs, dishes = [], next_config_id = 0, next_subscription_id = 0\<rparr>"

definition example_up :: "int \<Rightarrow> bool" where
  "example_up p \<longleftrightarrow> p = 11 \<or> p = 12"

definition example_subscribe :: "int \<Rightarrow> keyed_dvbs_mux_t \<Rightarrow> devdb_t \<Rightarrow> (subscribe_ret_t \<times> devdb_t) option" where
  "example_subscribe pid mux db =
     subscribe_dvbs_mux \<lparr>proc_id = pid, alive = example_up\<rparr> straight_usals_par 0 (-1) example_options mux None False db"

section \<open>Front ends that are chosen\<close>


definition example_fes :: "bool \<Rightarrow> fe_t list" where
  "example_fes multi = [example_fe 1 1 multi, example_fe 2 2 multi]"

definition example_best :: "int \<Rightarrow> fe_t list \<Rightarrow> best_t option" where
  "example_best pos fs = find_fe_and_lnb_for_tuning_to_mux \<lparr>proc_id = 11, alive = example_up\<rparr> (example_db fs) (example_sat_mux pos 12188000 7)
     example_options None False"

lemma example_db_ok: "devdb_ok (example_db (example_fes True))"
  by code_simp

lemma example_best_found: "map_option (\<lambda>b. map_option fe_k (b_fe b)) (example_best 1920 (example_fes True)) = Some (Some \<lparr>adapter_mac_address = 1, frontend_no = 0\<rparr>)"
  by code_simp


text \<open>C37: A mux of a satellite at any position other than 0 degrees is only ever tuned with a front end that supports multistream, whether the mux
  is a multistream or not: the search passes the satellite position where the front end search expects to be told whether multistream is
  needed.\<close>

theorem satellite_mux_needs_multistream:
  assumes "find_fe_and_lnb_for_tuning_to_mux os db mux opts release ignore_subscriptions = Some best" "b_fe best = Some fe" "dvbs_sat_pos mux \<noteq> 0"
  shows "multistream (fe_supports fe)"
proof -
  obtain l conn where ch: "chosen_from opts (search_for_mux os db mux opts release ignore_subscriptions) (has_network l (dvbs_sat_pos mux)) l conn best"
    using find_mux_sound [OF assms(1)] assms(2) by auto
  define p where "p = rf_path_for_connection (lnb_k l) conn"
  obtain fe1 band usals where fe: "fe = with_counts fe1 (b_use_counts best)"
    and fb: "find_best_fe_for_lnb os db p l release (use_blind_tune opts) (opt_need_spectrum opts) True
        (if dvbs_stream_id mux \<ge> 0 then 1 else 0) (dvbs_pol mux) band usals ignore_subscriptions = Some (Some (fe1, b_use_counts best, b_unicable_ch best))"
    using ch assms(2,3) by (auto simp: chosen_from_def search_for_mux_def p_def split: if_splits bind_splits)
  obtain fe0 where "fe1 = with_counts fe0 (b_use_counts best)" "usable_fe os db p release (use_blind_tune opts) True ignore_subscriptions fe0"
    using find_best_fe_for_lnb_sound [OF fb] by metis
  then show ?thesis using fe by (simp add: with_counts_def usable_fe_def)
qed

lemma no_multistream_nothing_found: "map_option b_fe (example_best 1920 (example_fes False)) = Some None"
  by code_simp

text \<open>For front ends with and without multistream and a mux that is not a multistream.\<close>

theorem satellite_mux_needs_multistream_witness:
  "\<exists>best fe. example_best 1920 (example_fes True) = Some best \<and> b_fe best = Some fe \<and> multistream (fe_supports fe) \<and>
     dvbs_stream_id (example_sat_mux 1920 12188000 7) = -1 \<and> map_option b_fe (example_best 1920 (example_fes False)) = Some None"
proof -
  obtain best fe where *: "example_best 1920 (example_fes True) = Some best" "b_fe best = Some fe" using example_best_found by auto
  have "dvbs_sat_pos (example_sat_mux 1920 12188000 7) \<noteq> 0" "dvbs_stream_id (example_sat_mux 1920 12188000 7) = -1"
    by (simp_all add: example_sat_mux_def dvbs_mux_t.defs)
  then show ?thesis using satellite_mux_needs_multistream [OF *(1) [unfolded example_best_def] *(2)] * no_multistream_nothing_found by blast
qed

section \<open>Reservations\<close>


definition second_db :: "(subscribe_ret_t \<times> devdb_t) option" where
  "second_db = do { (_, db) \<leftarrow> example_subscribe 11 (example_sat_mux 1920 12188000 7) (example_db (example_fes True));
     example_subscribe 12 (example_sat_mux 1920 11720000 8) db }"

lemma second_db_live:
  "map_option (\<lambda>(s, db). list_all (is_subscribed \<lparr>proc_id = 11, alive = example_up\<rparr>) (fes db) \<and> length (fes db) = 2 \<and>
     find_fe \<lparr>adapter_mac_address = 1, frontend_no = 0\<rparr> db \<noteq> None \<and> find_fe \<lparr>adapter_mac_address = 2, frontend_no = 0\<rparr> db \<noteq> None) second_db = Some True"
  by code_simp

lemma example_reservations_ok: "reservations_ok (example_up, example_db (example_fes True))"
  by code_simp

lemma example_step:
  assumes "example_subscribe pid m db = Some (sret, db')" "example_up pid" "dvbs_sat_pos m \<noteq> sat_pos_none"
  shows "reservation_step (example_up, db) (example_up, db')"
proof (rule reservation_step.mux)
  show "subscribe_dvbs_mux \<lparr>proc_id = pid, alive = example_up\<rparr> straight_usals_par 0 (-1) example_options m None False
      (db\<lparr>next_config_id := next_config_id db, next_subscription_id := next_subscription_id db\<rparr>) = Some (sret, db')"
    using assms(1) by (simp add: example_subscribe_def)
qed (use assms in \<open>auto simp: example_up_def\<close>)


section \<open>What a reservation does not prevent\<close>

text \<open>The position of the rotor is not among the resources that are compared: one process tunes through the first LNB to 19.2 degrees east,
  a second one through the other LNB of the same dish to 13 degrees east. Both get what they ask for, the dish is sent to 13 degrees east, and
  the first subscription stays.\<close>

definition moved_under :: "(subscribe_ret_t \<times> devdb_t) option" where
  "moved_under = do { (_, db) \<leftarrow> example_subscribe 11 (example_sat_mux 1920 12188000 7) (example_db (example_fes True));
     example_subscribe 12 (example_sat_mux 1300 11720000 8) db }"

lemma dish_moved_while_in_use:
  "map_option (\<lambda>(s, db). (ret_failed s, tp_move_dish (ret_tune_pars s), map (\<lambda>f. (sub_owner (fe_sub f), sub_sat_pos (fe_sub f))) (fes db),
     map lnb_cur_usals_pos (lnbs db))) moved_under = Some (False, True, [(11, 1920), (12, 1300)], [1300, 1300])"
  by code_simp

text \<open>The counts keep the configuration and the owner of the last subscription in the table, not of the one that is shared. A process that shares
  the input of a card with itself, on a second front end of that card, gets the owner of an unrelated process that uses another card,
  and the assertion on the owner fails.\<close>

definition foreign_owner :: "devdb_t option" where
  "foreign_owner = do { (_, db) \<leftarrow> example_subscribe 11 (example_sat_mux 1920 12188000 7) (example_db [example_fe 1 1 True, example_fe 3 1 True, example_fe 5 2 True]);
     (_, db) \<leftarrow> example_subscribe 12 (example_sat_mux 1920 11720000 8) (db\<lparr>lnbs := [example_lnb 2]\<rparr>);
     Some (db\<lparr>lnbs := [example_lnb 1, example_lnb 2]\<rparr>) }"

lemma shared_tuner_foreign_owner:
  "do { db \<leftarrow> foreign_owner;
        best \<leftarrow> find_fe_and_lnb_for_tuning_to_mux \<lparr>proc_id = 11, alive = example_up\<rparr> db (example_sat_mux 1920 12220000 9)
          (example_options\<lparr>allowed_card_mac_addresses := Some [1]\<rparr>) None False;
        Some (map (\<lambda>f. sub_owner (fe_sub f)) (fes db), map_option (\<lambda>f. adapter_mac_address (fe_k f)) (b_fe best), cnt_tuner (b_use_counts best), cnt_owner (b_use_counts best),
          subscribe_dvbs_mux \<lparr>proc_id = 11, alive = example_up\<rparr> straight_usals_par 0 (-1) (example_options\<lparr>allowed_card_mac_addresses := Some [1]\<rparr>)
            (example_sat_mux 1920 12220000 9) None False db = None) } = Some ([11, -1, 12], Some 3, 1, 12, True)"
  by code_simp

text \<open>A front end whose owner has ended counts as free, but its record still names the owner, and the assertions of the reservation
  fail.\<close>

lemma stale_owner_aborts:
  "example_subscribe 11 (example_sat_mux 1920 12188000 7)
     (example_db [(example_fe 1 1 True)\<lparr>fe_sub := default_subscription\<lparr>sub_owner := 13, sub_config_id := 0\<rparr>\<rparr>]) = None"
  by code_simp

text \<open>A path that is reserved in order to point it at a satellite that the LNB has no network for: the result is a failure, and the front end stays
  reserved.\<close>

lemma failed_path_stays_reserved:
  "map_option (\<lambda>(s, db). (ret_failed s, map (\<lambda>f. sub_owner (fe_sub f)) (fes db)))
     (subscribe_rf_path \<lparr>proc_id = 11, alive = example_up\<rparr> straight_usals_par 0 (-1) example_options
        (rf_path_for_connection (lnb_k (example_lnb 1)) (example_connection 1)) (Some 2820) (example_db (example_fes True))) = Some (True, [11, -1])"
  by code_simp

text \<open>When a process that is the only user of its front end asks for a path to an LNB and there is no front end for it, the request ends in a failed
  assertion: the subscription is released when the search has failed and then a second time, when it is no longer recorded.\<close>

theorem refused_path_aborts:
  assumes ok: "devdb_ok db" and f: "fe_for_subscription os sid db = (Some f, True)" "length (sub_subs (fe_sub f)) = 1"
    and l: "find_lnb (rf_lnb p) db = Some l" "rf_path_is_allowed opts p"
    and none: "find_best_fe_for_lnb os db p l (Some (fe_k f)) (use_blind_tune opts) (opt_need_spectrum opts) False sat_pos_none POL_NONE SUB_NONE
      sat_pos_none False = Some None"
  shows "subscribe_rf_path os usals_par now sid opts p move_to db = None"
proof -
  note s = fe_for_subscription_Some [OF f(1)]
  have sid: "sid \<ge> 0" using f(1) by (simp add: fe_for_subscription_def split: if_splits)
  then obtain sret where ret: "new_subscribe_ret sid db = (sret, db)" "ret_subscription_id sret = sid" by (simp add: new_subscribe_ret_def)
  obtain d where d: "sub_subs (fe_sub f) = [d]" "sd_subscription_id d = sid" using f(2) s(4) by (cases "sub_subs (fe_sub f)") auto
  define f' where "f' = f\<lparr>fe_sub := default_subscription\<rparr>"
  have find: "find_fe (fe_k f) db = Some f" using s(1) fe_table.find_iff [OF ok] by simp
  have first: "unsubscribe_old os sid (Some f) db = Some (Some f', put_fe f' db)"
    using find d s(2) by (simp add: unsubscribe_old_def unsubscribe_fe_def unsubscribe_helper_def f'_def)
  have "find_fe (fe_k f) (put_fe f' db) = Some f'" using fe_table.find_put [OF ok] by (simp add: f'_def)
  then have second: "unsubscribe_old os sid (Some f) (put_fe f' db) = None"
    by (simp add: unsubscribe_old_def unsubscribe_fe_def f'_def default_subscription_def)
  show ?thesis
    using f(1) ret l none first second by (simp add: subscribe_rf_path_def subscribe_rf_path_inner_def subscribe_lnb_def release_key_def)
qed

definition busy_db :: devdb_t where
  "busy_db = (example_db [(example_fe 1 1 True)\<lparr>fe_sub := default_subscription\<lparr>sub_owner := 11, sub_config_id := 0,
     sub_subs := [mux_subscription 4 default_mux_key None]\<rparr>\<rparr>])"

lemma busy_db_search:
  "devdb_ok busy_db" "fe_for_subscription \<lparr>proc_id = 11, alive = example_up\<rparr> 4 busy_db = (Some (hd (fes busy_db)), True)"
  "length (sub_subs (fe_sub (hd (fes busy_db)))) = 1"
  "find_lnb (lnb_k (example_lnb 2)) busy_db = Some (example_lnb 2)"
  "rf_path_is_allowed example_options (rf_path_for_connection (lnb_k (example_lnb 2)) (example_connection 2))"
  "find_best_fe_for_lnb \<lparr>proc_id = 11, alive = example_up\<rparr> busy_db (rf_path_for_connection (lnb_k (example_lnb 2)) (example_connection 2)) (example_lnb 2)
     (Some (fe_k (hd (fes busy_db)))) (use_blind_tune example_options) (opt_need_spectrum example_options) False sat_pos_none POL_NONE SUB_NONE sat_pos_none False = Some None"
  by code_simp+

text \<open>For a process that receives a mux on the only front end and asks for an LNB that no front end reaches.\<close>

theorem refused_path_aborts_witness:
  "subscribe_rf_path \<lparr>proc_id = 11, alive = example_up\<rparr> straight_usals_par 0 4 example_options
     (rf_path_for_connection (lnb_k (example_lnb 2)) (example_connection 2)) None busy_db = None"
  by (rule refused_path_aborts [OF busy_db_search(1-3) _ busy_db_search(5) busy_db_search(6)])
    (use busy_db_search(4) in \<open>simp add: rf_path_for_connection_def\<close>)

end
