(* ===== verification/Spec2Isabelle.thy ===== *)
theory Spec2Isabelle
  imports Serialize Si_State Section_Robustness Pmt_Roundtrip Psi_Checks Pes Demux Fe_Checks
begin

text \<open>
  \<^bold>\<open>Verification of neumoDVB\<close>

  neumoDVB receives digital television. Tuners deliver transport streams; a demultiplexer hands their packets to the parsers of single
  streams; sections of service information are put together from the packets, checked and parsed into tables; elementary streams are indexed
  for recording; records are kept in an LMDB database under keys whose bytes sort as the values; and several processes share the
  tuners, LNBs and dishes through a database of devices. This development models these parts of the C++ sources under src/src
  as executable HOL functions and proves what makes them correct.

  \<^bold>\<open>Theories and sources\<close> (paths under src/src)

  \<^item> \<open>Prelude\<close>: machine types, byte strings with the order of memcmp, big-endian values, generic lemmas.
  \<^item> \<open>Codec\<close> (neumodb/encode.h, decode.h): the keys of the database. \<open>Serialize\<close> (neumodb/serialize.h, deserialize.h): its records.
    Order of the keys, round trips, missing terminators.
  \<^item> \<open>Stackstring\<close> (stackstring/): growable buffers as a refinement of lists, with the failures of their helpers.
  \<^item> \<open>Data_Range\<close>, \<open>Ts_Packet\<close> (receiver/streamparser/streamparser.h, packetstream.cc): cursors over bytes, the header of a packet.
    \<open>Demux\<close> (streamparser.h, streamparser_impl.h): the coroutines of the demultiplexer; every parser gets the packets of its
    stream in order. \<open>Substream\<close> (substream.h, substream_impl.h, packetstream.cc): reading bytes and bits across packets,
    lost packets, the loop over the units of a stream. \<open>Pes\<close> (pes.h, pes.cc, mpeg.h): units of video and audio and their index.
  \<^item> \<open>Streamtime\<close> (streamtime.h) and \<open>Events\<close> (events.h, events.cc): time stamps, clock references and the play clock, with
    wrap-around, signed overflow and jumps.
  \<^item> \<open>Section_Header\<close>, \<open>Section_Reader\<close>, \<open>Section_Descriptors\<close>, \<open>Section_Tables\<close> (section.h, section.cc), \<open>Dvbtext\<close>
    (dvbtext.cc), \<open>Crc32\<close> (section.cc), \<open>Chdb_Types\<close> (neumodb/chdb/dbdefs.py, psi_impl.h): the parsers of stored sections.
    \<open>Section_Robustness\<close>: which of them end on arbitrary sections. \<open>Pmt_Roundtrip\<close>: program maps as they are sent.
  \<^item> \<open>Si_State\<close> (si_state.h, si_state.cc): which sections of a subtable have arrived; \<open>Psi\<close>, \<open>Psi_Sections\<close>, \<open>Psi_Checks\<close>
    (psi.h, psi.cc): sections from packets, and the handlers of all tables, which hand over what the parsers made of a checked section.
  \<^item> \<open>Pmt_Languages\<close> (section.cc) and \<open>Streamwriter\<close> (streamwriter.h, streamwriter.cc): the choice of streams by language, and
    the stream that is made for a player; their composition with the parsers is below.
  \<^item> \<open>Devdb\<close> (neumodb/devdb/dbdefs.py), \<open>Lnb\<close> and \<open>Dish\<close> (devdb_extra.cc, devdb_extra.h): the records of devices, frequencies,
    polarisations and networks of an LNB, rotor angles, and the movement of dishes. \<open>Fe_Find\<close> (fe_find.cc): conflicts and the best front end,
    LNB and connection. \<open>Fe_Subscribe\<close> (fe_subscribe.cc): reserving, sharing and releasing front ends. \<open>Fe_Invariant\<close>,
    \<open>Fe_Checks\<close>: sequences of reservations by several processes.

  \<^bold>\<open>Conventions.\<close> Unsigned and wrapping integers are words; other integers are \<open>int\<close> with the conversions written
  out. A structure is a record, and a class derived from another extends its record, so that the operations of the packet reader apply to
  the section parser and to the parsers of elementary streams. \<open>None\<close> as the result of an operation is a failed assertion, undefined
  behaviour (signed overflow, an access outside of a buffer, an undefined shift) or, for loops, no end; no theorem reads \<open>None\<close> as
  success. Loops that end are recursive functions with a termination proof; a loop that may run forever is a partial
  function, and that it ends, or when it does not, is proved. The loop of a stream parser, which waits for packets for as long as the
  program runs, takes the number of its steps as an argument; theorems hold for every number, or state one that is enough. Registered
  functions, text conversions, the usals formula in floating point, clocks and the processes of the system are parameters.

  \<^bold>\<open>Interfaces.\<close> \<open>ascending_codec\<close> (key encoders; interpreted for eight integer types) gives, as a sublocale,
  \<open>element_serializer\<close> (elements of a stored container; also interpreted for strings). \<open>sequence_buffer\<close> and its extension \<open>block_buffer\<close>
  state what a buffer promises, for any element and for bytes. \<open>stream_clock\<close> is the arithmetic modulo the period of a clock, for
  time stamps and for clock references. \<open>unit_client\<close> is what the packet reader relies on in the function that is called when a unit is complete, for
  sections and for elementary streams. \<open>keyed_table\<close> is a table of the database, for LNBs, front ends and dishes.

  \<^bold>\<open>Not modelled.\<close> Device access and the threads that wait for it, the engine of the database and its cursors, scanning, recording
  files, the spectrum algorithms, the client of decryption servers, the generated Huffman tables and the user interface: they are input and
  output, floating point, generated or third-party code. Of the device database, the checks of LNBs against the connected cards and the
  scheduling of scan commands are left out. Formatting of values and log messages are left out everywhere.
\<close>

section \<open>The stream for a player\<close>

text \<open>A packet of one stream that starts with the whole of a section.\<close>

definition carries :: "bytes \<Rightarrow> u16 \<Rightarrow> bytes \<Rightarrow> bool" where
  "carries pkt p sec \<longleftrightarrow> length pkt = 188 \<and> (\<exists>pk pre stuffing. new_ts_packet (over default_data_range [] pkt) = Some (pk, range pk) \<and>
     pkt_valid pk \<and> get_pid pk = p \<and> get_payload_unit_start pk \<and>
     range pk = over (default_data_range\<lparr>dr_tst := 184\<rparr>) pre (0 # sec @ stuffing))"

lemma single_packet_carries:
  assumes "length sec < 183" "p AND 0x1fff \<noteq> 0x1fff"
  shows "carries (packetize p 0 sec) (p AND 0x1fff) sec"
proof -
  define stuffing where "stuffing = replicate (183 - length sec) (0xff :: u8)"
  define h :: u16 where h: "h = 0x4000 OR (p AND 0x1fff)"
  have hs: "h AND 0x8000 = 0" "h AND 0x1fff = p AND 0x1fff" "h AND 0x4000 \<noteq> 0"
    by (simp_all add: h bit.conj_disj_distrib2 and.assoc)
  have pkt: "packetize p 0 sec = 0x47 # be_bytes 2 h @ 0x10 # 0 # sec @ stuffing"
    using assms(1) by (simp add: h packetize.simps [of p 0] room_def packet_head_def stuffing_def del: be_bytes_numeral)
  moreover have "length (packetize p 0 sec) = 188" using assms(1) by (simp add: pkt stuffing_def)
  moreover have "h AND 0x1fff \<noteq> 0x1fff" using hs(2) assms(2) by simp
  ultimately show ?thesis
    using new_ts_packet_header [of h "0 # sec @ stuffing" default_data_range "0x10"] hs
    unfolding carries_def
    by (intro conjI) (simp, fastforce simp: parse_adaptation_def has_adaptation_def default_ts_packet_def get_pid_def get_payload_unit_start_def
        Let_def simp del: be_bytes_numeral)
qed

lemma ts_output_single:
  assumes "db_ok out" "length (db_data out) \<le> 1000" "sec \<noteq> []" "length sec \<le> 32"
  shows "\<exists>w' out'. ts_output (new_ts_writer (finished sec tail) p) out = Some (w', out') \<and> db_ok out' \<and>
    db_data out' = db_data out @ packetize p 0 sec"
proof -
  have "at_packet p 0 (reading [] sec tail) = new_ts_writer (finished sec tail) p"
    by (simp add: at_packet_def new_ts_writer_def finished_reading)
  moreover have "length (db_data out) + 2 * length sec + 376 \<le> 2 ^ 29" using assms by simp
  ultimately show ?thesis using ts_output_packets [OF assms(1) _ assms(3), of p 0 "[]" tail] by auto
qed

text \<open>C2: For a service without subtitles whose preferred audio stream is not AC-3, the stream that is made for a player consists of two
  packets. The first belongs to stream 0 and carries a program association section that leads to the program map of the service; the
  second belongs to the stream of the program map and carries a section with the first video stream and the preferred audio stream.
  Both sections have checksum 0 and are accepted by the section parsers. With subtitles the claim would fail: the length byte of the
  subtitling descriptor is too small.\<close>
theorem player_stream:
  fixes pmt :: pmt_info_t
  assumes "16 \<le> length buf" "32 \<le> length buf'" "best_audio_language pmt prefs = (ad, al)"
    and "ad = None \<or> \<not> ac3 (audio_lang (the ad))" "best_subtitle_language pmt subtitle_prefs = (None, sl)"
    and "unat (pmt_version_number pmt) < 2 ^ 5" "pmt_pid pmt \<notin> {3003, 3004, 3842, 3843}" "pmt_pid pmt AND 0x1fff \<noteq> 0x1fff"
  shows "\<exists>langs out packet1 packet2 pat_section pmt_section pmt' s1 s2.
    make_preferred_pmt_ts buf buf' pmt prefs subtitle_prefs (new_databuffer 16) = Some (langs, out) \<and>
    db_data out = packet1 @ packet2 \<and>
    carries packet1 0 pat_section \<and> crc32 pat_section = 0 \<and>
    parse_pat_section default_pat_services (open_section j pat_section 0) =
      Some (True, \<lparr>pat_ts_id = 1, pat_version_number = 1,
        pat_entries = [\<lparr>pat_service_id = pmt_service_id pmt, pat_pmt_pid = pmt_pid pmt AND 0x1fff\<rparr>]\<rparr>, s1) \<and>
    carries packet2 (pmt_pid pmt AND 0x1fff) pmt_section \<and> crc32 pmt_section = 0 \<and>
    parse_pmt_section default_pmt_info (open_section j pmt_section (pmt_pid pmt)) = Some (True, pmt', s2) \<and>
    pmt_service_id pmt' = pmt_service_id pmt \<and>
    pid_descriptors pmt' = map stream_info (video_streams pmt @ audio_streams ad)"
proof -
  define sec1 where "sec1 = written_pat (pmt_service_id pmt) (pmt_pid pmt)"
  obtain w w1 w2 where pat: "new_section_writer buf = Some w" "pat_start_section (pmt_service_id pmt) (pmt_pid pmt) w = Some w1"
    "end_section w1 = Some w2" "sw_section w2 = finished sec1 (drop 16 buf)"
    using write_pat [OF assms(1)] unfolding sec1_def by blast
  obtain v v' langs sec2 rest pmt' s2 where pmt: "new_section_writer buf' = Some v" "pmt_make pmt prefs subtitle_prefs v = Some (langs, v')"
    "sw_section v' = finished sec2 rest" "crc32 sec2 = 0" "length sec2 \<le> 32" "sec2 \<noteq> []"
    "parse_pmt_section default_pmt_info (open_section j sec2 (pmt_pid pmt)) = Some (True, pmt', s2)"
    "pmt_service_id pmt' = pmt_service_id pmt" "pid_descriptors pmt' = map stream_info (video_streams pmt @ audio_streams ad)"
    using write_and_read_pmt [OF assms(2-7), of j] by blast
  have sec1: "length sec1 = 16" "sec1 \<noteq> []" by (simp_all add: sec1_def written_pat_def Let_def)
  have ok: "db_ok (new_databuffer 16 :: u8 databuffer)" by (rule db_ok_new) simp_all
  obtain t1 out1 where out1: "ts_output (new_ts_writer (finished sec1 (drop 16 buf)) 0) (new_databuffer 16) = Some (t1, out1)" "db_ok out1"
    "db_data out1 = packetize 0 0 sec1"
    using ts_output_single [OF ok, of sec1 "drop 16 buf" 0] sec1 by (auto simp: new_databuffer_def)
  have c1: "carries (packetize 0 0 sec1) 0 sec1" using single_packet_carries [of sec1 0] sec1 by simp
  then have "length (packetize 0 0 sec1) = 188" by (simp add: carries_def)
  then obtain t2 out2 where out2: "ts_output (new_ts_writer (finished sec2 rest) (pmt_pid pmt)) out1 = Some (t2, out2)"
    "db_data out2 = packetize 0 0 sec1 @ packetize (pmt_pid pmt) 0 sec2"
    using ts_output_single [OF out1(2) _ pmt(6) pmt(5), of rest "pmt_pid pmt"] out1(3) by auto
  have c2: "carries (packetize (pmt_pid pmt) 0 sec2) (pmt_pid pmt AND 0x1fff) sec2"
    by (rule single_packet_carries) (use pmt(5) assms(8) in simp_all)
  have "make_preferred_pmt_ts buf buf' pmt prefs subtitle_prefs (new_databuffer 16) = Some (langs, out2)"
    using pat pmt(1-3) out1(1) out2(1) by (simp add: make_preferred_pmt_ts_def)
  with out2(2) c1 c2 pmt written_pat_read [of "pmt_service_id pmt" "pmt_pid pmt" j] show ?thesis
    unfolding sec1_def by blast
qed

theorem player_stream_witness:
  "\<exists>langs out packet1 packet2 pat_section pmt_section pmt' s1 s2.
    make_preferred_pmt_ts (replicate 1024 0) (replicate 1024 0) example_pmt [] [] (new_databuffer 16) = Some (langs, out) \<and>
    db_data out = packet1 @ packet2 \<and>
    carries packet1 0 pat_section \<and> crc32 pat_section = 0 \<and>
    parse_pat_section default_pat_services (open_section (\<lambda>_. 0) pat_section 0) =
      Some (True, \<lparr>pat_ts_id = 1, pat_version_number = 1,
        pat_entries = [\<lparr>pat_service_id = pmt_service_id example_pmt, pat_pmt_pid = pmt_pid example_pmt AND 0x1fff\<rparr>]\<rparr>, s1) \<and>
    carries packet2 (pmt_pid example_pmt AND 0x1fff) pmt_section \<and> crc32 pmt_section = 0 \<and>
    parse_pmt_section default_pmt_info (open_section (\<lambda>_. 0) pmt_section (pmt_pid example_pmt)) = Some (True, pmt', s2) \<and>
    pmt_service_id pmt' = pmt_service_id example_pmt \<and>
    pid_descriptors pmt' = map stream_info (video_streams example_pmt @ audio_streams (fst (best_audio_language example_pmt [])))"
proof (rule player_stream)
  show "best_audio_language example_pmt [] = (fst (best_audio_language example_pmt []), snd (best_audio_language example_pmt []))" by simp
  show "fst (best_audio_language example_pmt []) = None \<or> \<not> ac3 (audio_lang (the (fst (best_audio_language example_pmt []))))"
    by code_simp
  show "best_subtitle_language example_pmt [] = (None, default_language_code)" by code_simp
qed (simp_all add: example_pmt_def default_pmt_info_def)

end
